(* ===== verification/Prelude.thy ===== *)
theory Prelude
  imports Main "HOL-Library.Word"
begin

text \<open>
  Shared vocabulary of the development: machine integers, results of fallible Rust code,
  big-endian byte strings, in-place slice writes, hash maps and the lemma collections that
  the component theories extend.

  Rust values are modelled as follows. Fixed-width integers are words; \<open>usize\<close> lengths and
  indices are \<open>nat\<close>, every subtraction and every slice bound of the code being written out.
  A function that returns \<open>Result\<close> returns \<open>'a result\<close>; a panic (slice bound, arithmetic
  underflow) is the error \<open>Panic\<close>, so that no abort of the program is hidden.
\<close>

unbundle bit_operations_syntax

type_synonym u8 = "8 word"
type_synonym u16 = "16 word"
type_synonym u32 = "32 word"
type_synonym u64 = "64 word"
type_synonym i64 = "64 word"
type_synonym bytes = "u8 list"

text \<open>\<open>std::net::Ipv4Addr\<close> is its 32-bit value (\<open>u32::from\<close>, \<open>Ipv4Addr::from\<close>).\<close>

type_synonym ipv4 = "32 word"

abbreviation UNSPECIFIED :: ipv4 where "UNSPECIFIED \<equiv> 0"
abbreviation BROADCAST :: ipv4 where "BROADCAST \<equiv> 0xFFFFFFFF"

datatype rust_error =
    InvalidInput
  | InvalidData
  | IoOther
  | Bail string
  | Panic

type_synonym 'a result = "rust_error + 'a"

text \<open>The \<open>?\<close> operator: stop at the first error.\<close>

definition and_then :: "'a result \<Rightarrow> ('a \<Rightarrow> 'b result) \<Rightarrow> 'b result" where
  "and_then r f = (case r of Inl e \<Rightarrow> Inl e | Inr a \<Rightarrow> f a)"

lemma and_then_simps [simp]:
  "and_then (Inl e) f = Inl e"
  "and_then (Inr a) f = f a"
  by (simp_all add: and_then_def)

lemma and_then_eq_Inr [simp]:
  "and_then r f = Inr b \<longleftrightarrow> (\<exists>a. r = Inr a \<and> f a = Inr b)"
  by (cases r) simp_all

lemma and_then_eq_Inl:
  "and_then r f = Inl e \<longleftrightarrow> r = Inl e \<or> (\<exists>a. r = Inr a \<and> f a = Inl e)"
  by (cases r) simp_all

definition ok_or :: "rust_error \<Rightarrow> 'a option \<Rightarrow> 'a result" where
  "ok_or e x = (case x of None \<Rightarrow> Inl e | Some a \<Rightarrow> Inr a)"

lemma ok_or_simps [simp]:
  "ok_or e None = Inl e"
  "ok_or e (Some a) = Inr a"
  "ok_or e x = Inr a \<longleftrightarrow> x = Some a"
  by (simp_all add: ok_or_def split: option.splits)

section \<open>Lemma collections\<close>

named_theorems netpacket_simps \<open>reading a header field back after a header write\<close>
named_theorems transmission_simps \<open>view and bounds of a transmission buffer after an operation\<close>

section \<open>Big-endian byte strings\<close>

text \<open>
  \<open>to_be_bytes\<close>/\<open>from_be_bytes\<close> for every width: \<open>be_enc k n\<close> is the \<open>k\<close>-byte big-endian
  string of \<open>n mod 256 ^ k\<close> and \<open>be_dec\<close> reads a byte string as a number.
\<close>

fun be_enc :: "nat \<Rightarrow> nat \<Rightarrow> bytes" where
  "be_enc 0 n = []"
| "be_enc (Suc k) n = be_enc k (n div 256) @ [word_of_nat n]"

definition be_dec :: "bytes \<Rightarrow> nat" where
  "be_dec bs = foldl (\<lambda>acc b. acc * 256 + unat b) 0 bs"

lemma be_dec_Nil [simp]: "be_dec [] = 0"
  by (simp add: be_dec_def)

lemma be_dec_snoc [simp]: "be_dec (bs @ [b]) = be_dec bs * 256 + unat b"
  by (simp add: be_dec_def)

lemma length_be_enc [simp]: "length (be_enc k n) = k"
  by (induction k arbitrary: n) simp_all

lemma be_dec_less: "be_dec bs < 256 ^ length bs"
proof (induction bs rule: rev_induct)
  case Nil
  then show ?case by simp
next
  case (snoc b bs)
  have "unat b < 256" using unsigned_less [of b] by simp
  with snoc show ?case by simp
qed

lemma be_dec_enc: "be_dec (be_enc k n) = n mod 256 ^ k"
proof (induction k arbitrary: n)
  case 0
  then show ?case by simp
next
  case (Suc k)
  have "unat (word_of_nat n :: u8) = n mod 256"
    by (simp add: unat_of_nat)
  with Suc show ?case
    by (simp add: mod_mult2_eq)
qed

lemma be_enc_dec: "k = length bs \<Longrightarrow> be_enc k (be_dec bs) = bs"
proof (induction bs arbitrary: k rule: rev_induct)
  case Nil
  then show ?case by simp
next
  case (snoc b bs)
  have b: "unat b < 256" using unsigned_less [of b] by simp
  have "unat (word_of_nat (be_dec bs * 256 + unat b) :: u8) = unat b"
    using b by (simp only: unat_of_nat) simp
  then have "(word_of_nat (be_dec bs * 256 + unat b) :: u8) = b"
    by (simp only: word_unat_eq_iff)
  with snoc b show ?case by simp
qed

lemma be_enc_Cons: "be_enc (Suc k) n = word_of_nat (n div 256 ^ k) # be_enc k n"
proof (induction k arbitrary: n)
  case 0
  then show ?case by simp
next
  case (Suc k)
  have "be_enc (Suc (Suc k)) n = be_enc (Suc k) (n div 256) @ [word_of_nat n]" by (simp only: be_enc.simps)
  also have "\<dots> = word_of_nat (n div 256 div 256 ^ k) # be_enc k (n div 256) @ [word_of_nat n]"
    by (simp only: Suc append_Cons)
  finally show ?case by (simp add: div_mult2_eq)
qed

lemma be_enc_eq_iff: "be_enc k n = be_enc k m \<longleftrightarrow> n mod 256 ^ k = m mod 256 ^ k"
proof
  assume "be_enc k n = be_enc k m"
  then have "be_dec (be_enc k n) = be_dec (be_enc k m)" by simp
  then show "n mod 256 ^ k = m mod 256 ^ k" by (simp add: be_dec_enc)
next
  assume m: "n mod 256 ^ k = m mod 256 ^ k"
  have "be_enc k (be_dec (be_enc k n)) = be_enc k (be_dec (be_enc k m))"
    using m by (simp add: be_dec_enc)
  then show "be_enc k n = be_enc k m" by (simp only: be_enc_dec length_be_enc)
qed

lemma be_enc_dec_take: "k \<le> length bs \<Longrightarrow> be_enc k (be_dec (take k bs)) = take k bs"
  by (rule be_enc_dec) simp

lemma of_nat_be_dec_enc:
  fixes w :: "'a::len word"
  assumes "2 ^ LENGTH('a) = (256 :: nat) ^ k"
  shows "word_of_nat (be_dec (be_enc k (unat w))) = w"
proof -
  have "unat w < 256 ^ k"
    using unsigned_less [of w, where 'a = nat] assms by simp
  then show ?thesis by (simp add: be_dec_enc)
qed

lemma be_roundtrip_u16 [simp]: "word_of_nat (be_dec (be_enc 2 (unat (w :: u16)))) = w"
  by (rule of_nat_be_dec_enc) simp

lemma be_roundtrip_u32 [simp]: "word_of_nat (be_dec (be_enc 4 (unat (w :: u32)))) = w"
  by (rule of_nat_be_dec_enc) simp

lemma be_roundtrip_u64 [simp]: "word_of_nat (be_dec (be_enc 8 (unat (w :: u64)))) = w"
  by (rule of_nat_be_dec_enc) simp

lemma be_u32_enc: "length bs = 4 \<Longrightarrow> be_enc 4 (unat (word_of_nat (be_dec bs) :: u32)) = bs"
  using be_dec_less [of bs] by (simp add: unat_of_nat be_enc_dec)

section \<open>Slices\<close>

text \<open>
  \<open>buf[a..a + n].copy_from_slice(data)\<close>: the bytes of \<open>data\<close> written at offset \<open>a\<close>. Callers
  check the bound the code checks.
\<close>

definition write_slice :: "nat \<Rightarrow> 'a list \<Rightarrow> 'a list \<Rightarrow> 'a list" where
  "write_slice a xs buf = take a buf @ xs @ drop (a + length xs) buf"

lemma length_write_slice [simp]: "a + length xs \<le> length buf \<Longrightarrow> length (write_slice a xs buf) = length buf"
  by (simp add: write_slice_def)

lemma take_write_slice [simp]: "n \<le> a \<Longrightarrow> a \<le> length buf \<Longrightarrow> take n (write_slice a xs buf) = take n buf"
  by (simp add: write_slice_def min_def)

lemma write_slice_mid [simp]:
  "a + length xs \<le> length buf \<Longrightarrow> take (length xs) (drop a (write_slice a xs buf)) = xs"
  by (simp add: write_slice_def)

lemma drop_write_slice [simp]:
  "a + length xs \<le> n \<Longrightarrow> n \<le> length buf \<Longrightarrow> drop n (write_slice a xs buf) = drop n buf"
  by (simp add: write_slice_def)

lemma write_slice_all: "length xs = length buf \<Longrightarrow> write_slice 0 xs buf = xs"
  by (simp add: write_slice_def)

text \<open>\<open>Vec::resize\<close>/\<open>BytesMut::resize\<close> on the contents.\<close>

definition resize_list :: "nat \<Rightarrow> 'a \<Rightarrow> 'a list \<Rightarrow> 'a list" where
  "resize_list n x xs = take n xs @ replicate (n - length xs) x"

lemma length_resize_list [simp]: "length (resize_list n x xs) = n"
  by (simp add: resize_list_def)

lemma resize_list_nth:
  "i < n \<Longrightarrow> resize_list n x xs ! i = (if i < length xs then xs ! i else x)"
  by (auto simp: resize_list_def nth_append)

lemma resize_list_same [simp]: "resize_list (length xs) x xs = xs"
  by (simp add: resize_list_def)

section \<open>Hash maps\<close>

text \<open>
  \<open>HashMap\<close> and \<open>DashMap\<close> are partial functions; \<open>retain\<close> keeps the entries that satisfy a
  predicate.
\<close>

definition map_retain :: "('k \<Rightarrow> 'v \<Rightarrow> bool) \<Rightarrow> ('k \<rightharpoonup> 'v) \<Rightarrow> ('k \<rightharpoonup> 'v)" where
  "map_retain p m = (\<lambda>k. case m k of None \<Rightarrow> None | Some v \<Rightarrow> if p k v then Some v else None)"

lemma map_retain_Some [simp]: "map_retain p m k = Some v \<longleftrightarrow> m k = Some v \<and> p k v"
  by (auto simp: map_retain_def split: option.splits)

lemma map_retain_None: "map_retain p m k = None \<longleftrightarrow> (\<forall>v. m k = Some v \<longrightarrow> \<not> p k v)"
  by (auto simp: map_retain_def split: option.splits)

end
