(* ===== verification/RouteTable.thy ===== *)
theory RouteTable
  imports Prelude "HOL-Library.Multiset"
begin

text \<open>
  The peer-to-peer routing table, \<open>vnt/vnt-core/src/tunnel_core/p2p/route_table.rs\<close>: for every
  peer a list of routes kept in round-trip-time order, the time each route was last confirmed and
  the peer that owns a socket address.

  \<open>RouteKey\<close> and \<open>DEFAULT_RTT\<close> belong to the crate \<open>rust_p2p_core\<close>: the key is a type variable,
  the constant a parameter. \<open>Instant\<close> is a natural number. Each method runs under the table's write
  lock and is one step, except \<open>remove_oldest_route\<close>, whose two critical sections are the
  definitions \<open>collect_expired\<close> and \<open>purge_expired\<close>; the order in which a \<open>HashMap\<close> is visited is
  the argument \<open>order\<close>.
\<close>

record 'k Route =
  route_key :: 'k
  metric :: u8
  rtt :: u32

definition Route_from_default_rt :: "u32 \<Rightarrow> 'k \<Rightarrow> u8 \<Rightarrow> 'k Route" where
  "Route_from_default_rt DEFAULT_RTT k m = \<lparr>route_key = k, metric = m, rtt = DEFAULT_RTT\<rparr>"

definition is_direct :: "'k Route \<Rightarrow> bool" where
  "is_direct r \<longleftrightarrow> metric r = 1"

record 'k RouteTable =
  route_table :: "ipv4 \<rightharpoonup> 'k Route list"
  route_key_time :: "ipv4 \<times> 'k \<rightharpoonup> nat"
  route_key_owner :: "'k \<rightharpoonup> ipv4"

definition RouteTable_new :: "'k RouteTable" where
  "RouteTable_new = \<lparr>route_table = Map.empty, route_key_time = Map.empty, route_key_owner = Map.empty\<rparr>"

section \<open>Lookup\<close>

definition get_by_id :: "'k RouteTable \<Rightarrow> ipv4 \<Rightarrow> 'k Route option" where
  "get_by_id t i =
     (case route_table t i of
        None \<Rightarrow> None
      | Some l \<Rightarrow>
          (case find is_direct l of
             Some r \<Rightarrow> Some r
           | None \<Rightarrow> (case l of [] \<Rightarrow> None | r # _ \<Rightarrow> Some r)))"

definition get_route_by_id :: "'k RouteTable \<Rightarrow> ipv4 \<Rightarrow> 'k Route result" where
  "get_route_by_id t i = ok_or (Bail ''route not found'') (get_by_id t i)"

definition route_exists :: "'k RouteTable \<Rightarrow> ipv4 \<Rightarrow> bool" where
  "route_exists t i \<longleftrightarrow> get_by_id t i \<noteq> None"

definition need_punch :: "'k RouteTable \<Rightarrow> ipv4 \<Rightarrow> bool" where
  "need_punch t i =
     (case route_table t i of None \<Rightarrow> True | Some l \<Rightarrow> \<not> list_ex is_direct l)"

definition p2p_num :: "'k RouteTable \<Rightarrow> ipv4 \<Rightarrow> nat" where
  "p2p_num t i =
     (case route_table t i of None \<Rightarrow> 0 | Some l \<Rightarrow> length (filter is_direct l))"

definition get_id_by_route_key :: "'k RouteTable \<Rightarrow> 'k \<Rightarrow> ipv4 option" where
  "get_id_by_route_key t k = route_key_owner t k"

section \<open>Adding routes\<close>

text \<open>\<open>HashMap::entry(id).or_insert_with(Vec::new)\<close>.\<close>

definition entry_list :: "'k RouteTable \<Rightarrow> ipv4 \<Rightarrow> 'k Route list" where
  "entry_list t i = (case route_table t i of None \<Rightarrow> [] | Some l \<Rightarrow> l)"

definition add_owner_route :: "u32 \<Rightarrow> nat \<Rightarrow> ipv4 \<Rightarrow> 'k \<Rightarrow> 'k RouteTable \<Rightarrow> 'k RouteTable" where
  "add_owner_route DEFAULT_RTT now i k t =
     (let r = Route_from_default_rt DEFAULT_RTT k 1;
          l = entry_list t i;
          l' = (if list_ex (\<lambda>v. route_key v = k) l then l else l @ [r])
      in t\<lparr>route_key_owner := (route_key_owner t)(k \<mapsto> i),
           route_key_time := (route_key_time t)((i, k) \<mapsto> now),
           route_table := (route_table t)(i \<mapsto> l')\<rparr>)"

fun position :: "('a \<Rightarrow> bool) \<Rightarrow> 'a list \<Rightarrow> nat option" where
  "position p [] = None"
| "position p (x # xs) = (if p x then Some 0 else map_option Suc (position p xs))"

definition swap :: "nat \<Rightarrow> nat \<Rightarrow> 'a list \<Rightarrow> 'a list" where
  "swap i j l = l[i := l ! j, j := l ! i]"

text \<open>Forward: \<open>while i > 0 && list[i].rtt() < list[i - 1].rtt()\<close>.\<close>

fun bubble_front :: "nat \<Rightarrow> 'k Route list \<Rightarrow> 'k Route list \<times> nat" where
  "bubble_front 0 l = (l, 0)"
| "bubble_front (Suc i) l =
     (if rtt (l ! Suc i) < rtt (l ! i) then bubble_front i (swap (Suc i) i l) else (l, Suc i))"

text \<open>Backward: \<open>while i + 1 < list.len() && list[i].rtt() > list[i + 1].rtt()\<close>.\<close>

function bubble_back :: "nat \<Rightarrow> 'k Route list \<Rightarrow> 'k Route list" where
  "bubble_back i l =
     (if Suc i < length l \<and> rtt (l ! i) > rtt (l ! Suc i)
      then bubble_back (Suc i) (swap i (Suc i) l) else l)"
  by pat_completeness auto
termination
  by (relation "measure (\<lambda>(i, l). length l - i)") (auto simp: swap_def)

declare bubble_back.simps [simp del]

definition insert_pos :: "'k Route \<Rightarrow> 'k Route list \<Rightarrow> nat" where
  "insert_pos r l = (case position (\<lambda>x. rtt r < rtt x) l of None \<Rightarrow> length l | Some i \<Rightarrow> i)"

definition place_route :: "'k Route \<Rightarrow> 'k Route list \<Rightarrow> 'k Route list" where
  "place_route r l =
     (case position (\<lambda>v. route_key v = route_key r) l of
        Some idx \<Rightarrow> (case bubble_front idx (l[idx := r]) of (l', i) \<Rightarrow> bubble_back i l')
      | None \<Rightarrow> (let pos = insert_pos r l in take pos l @ r # drop pos l))"

definition add_route :: "nat \<Rightarrow> ipv4 \<Rightarrow> 'k Route \<Rightarrow> 'k RouteTable \<Rightarrow> 'k RouteTable" where
  "add_route now i r t =
     (let k = route_key r in
      if \<not> is_direct r \<and> route_table t i = None then t
      else
        (let own = (if is_direct r
                    then (case route_key_owner t k of
                            None \<Rightarrow> (route_key_owner t)(k \<mapsto> i) | Some _ \<Rightarrow> route_key_owner t)
                    else route_key_owner t)
         in t\<lparr>route_key_owner := own,
              route_key_time := (route_key_time t)((i, k) \<mapsto> now),
              route_table := (route_table t)(i \<mapsto> place_route r (entry_list t i))\<rparr>))"

definition add_route_if_absent :: "nat \<Rightarrow> ipv4 \<Rightarrow> 'k Route \<Rightarrow> 'k RouteTable \<Rightarrow> 'k RouteTable" where
  "add_route_if_absent now i r t = (if route_table t i \<noteq> None then t else add_route now i r t)"

section \<open>Removing routes\<close>

definition drop_key :: "ipv4 \<Rightarrow> 'k \<Rightarrow> 'k RouteTable \<Rightarrow> 'k RouteTable" where
  "drop_key i k t =
     (let tab = (case route_table t i of
                   None \<Rightarrow> route_table t
                 | Some l \<Rightarrow>
                     (let l' = filter (\<lambda>r. route_key r \<noteq> k) l in
                      if l' = [] then (route_table t)(i := None) else (route_table t)(i \<mapsto> l')));
          own = (if route_key_owner t k = Some i then (route_key_owner t)(k := None)
                 else route_key_owner t)
      in t\<lparr>route_table := tab, route_key_owner := own\<rparr>)"

definition remove_route :: "ipv4 \<Rightarrow> 'k \<Rightarrow> 'k RouteTable \<Rightarrow> 'k RouteTable" where
  "remove_route i k t =
     (let t' = drop_key i k t in t'\<lparr>route_key_time := (route_key_time t')((i, k) := None)\<rparr>)"

definition collect_expired ::
    "(ipv4 \<times> 'k) list \<Rightarrow> nat \<Rightarrow> 'k RouteTable \<Rightarrow> (ipv4 \<times> 'k) list \<times> 'k RouteTable" where
  "collect_expired order expired t =
     (filter (\<lambda>p. case route_key_time t p of Some x \<Rightarrow> x \<le> expired | None \<Rightarrow> False) order,
      t\<lparr>route_key_time := map_retain (\<lambda>_ x. \<not> x \<le> expired) (route_key_time t)\<rparr>)"

definition purge_expired :: "(ipv4 \<times> 'k) list \<Rightarrow> 'k RouteTable \<Rightarrow> 'k RouteTable" where
  "purge_expired keys t = foldl (\<lambda>t p. drop_key (fst p) (snd p) t) t keys"

definition remove_oldest_route ::
    "(ipv4 \<times> 'k) list \<Rightarrow> nat \<Rightarrow> 'k RouteTable \<Rightarrow> 'k RouteTable" where
  "remove_oldest_route order expired t =
     (case collect_expired order expired t of (keys, t') \<Rightarrow> purge_expired keys t')"

section \<open>Placing a route in a sorted list\<close>

lemma position_None: "position p xs = None \<longleftrightarrow> (\<forall>x \<in> set xs. \<not> p x)"
  by (induction xs) auto

lemma position_Some:
  "position p xs = Some i \<Longrightarrow> i < length xs \<and> p (xs ! i) \<and> (\<forall>j < i. \<not> p (xs ! j))"
proof (induction xs arbitrary: i)
  case Nil
  then show ?case by simp
next
  case (Cons x xs)
  then show ?case
    by (auto simp: nth_Cons split: if_splits nat.splits)
qed

lemma swap_mid: "swap (Suc (length xs)) (length xs) (xs @ a # b # ys) = xs @ b # a # ys"
  "swap (length xs) (Suc (length xs)) (xs @ a # b # ys) = xs @ b # a # ys"
  by (simp_all add: swap_def nth_append list_update_append)

text \<open>What the two loops do to the moved route \<open>r\<close> between its neighbours.\<close>

lemma bubble_front_split:
  "\<exists>xs1 xs2. xs = xs1 @ xs2 \<and> bubble_front (length xs) (xs @ r # ys) = (xs1 @ r # xs2 @ ys, length xs1)
    \<and> (\<forall>x \<in> set xs2. rtt r < rtt x) \<and> (xs1 = [] \<or> rtt (last xs1) \<le> rtt r)"
proof (induction xs arbitrary: ys rule: rev_induct)
  case Nil
  then show ?case by simp
next
  case (snoc x xs)
  show ?case
  proof (cases "rtt r < rtt x")
    case True
    then have step: "bubble_front (length (xs @ [x])) ((xs @ [x]) @ r # ys)
        = bubble_front (length xs) (xs @ r # (x # ys))"
      by (simp add: nth_append swap_mid)
    obtain xs1 xs2 where "xs = xs1 @ xs2"
      "bubble_front (length xs) (xs @ r # (x # ys)) = (xs1 @ r # xs2 @ x # ys, length xs1)"
      "\<forall>z \<in> set xs2. rtt r < rtt z" "xs1 = [] \<or> rtt (last xs1) \<le> rtt r"
      using snoc [of "x # ys"] by blast
    with True step show ?thesis
      by (intro exI [of _ xs1] exI [of _ "xs2 @ [x]"]) auto
  next
    case False
    then show ?thesis
      by (intro exI [of _ "xs @ [x]"] exI [of _ "[]"]) (simp add: nth_append)
  qed
qed

lemma bubble_back_split:
  "\<exists>ys1 ys2. ys = ys1 @ ys2 \<and> bubble_back (length xs) (xs @ r # ys) = xs @ ys1 @ r # ys2
    \<and> (\<forall>y \<in> set ys1. rtt y < rtt r) \<and> (ys2 = [] \<or> rtt r \<le> rtt (hd ys2))"
proof (induction ys arbitrary: xs)
  case Nil
  then show ?case by (simp add: bubble_back.simps)
next
  case (Cons y ys)
  show ?case
  proof (cases "rtt y < rtt r")
    case True
    then have step: "bubble_back (length xs) (xs @ r # y # ys)
        = bubble_back (length (xs @ [y])) ((xs @ [y]) @ r # ys)"
      by (simp add: bubble_back.simps [of "length xs"] nth_append swap_mid)
    obtain ys1 ys2 where "ys = ys1 @ ys2"
      "bubble_back (length (xs @ [y])) ((xs @ [y]) @ r # ys) = (xs @ [y]) @ ys1 @ r # ys2"
      "\<forall>z \<in> set ys1. rtt z < rtt r" "ys2 = [] \<or> rtt r \<le> rtt (hd ys2)"
      using Cons [of "xs @ [y]"] by blast
    with True step show ?thesis
      by (intro exI [of _ "y # ys1"] exI [of _ ys2]) auto
  next
    case False
    then show ?thesis
      by (intro exI [of _ "[]"] exI [of _ "y # ys"])
        (simp add: bubble_back.simps [of "length xs"] nth_append)
  qed
qed

abbreviation sorted_rtt :: "'k Route list \<Rightarrow> bool" where
  "sorted_rtt l \<equiv> sorted (map rtt l)"

abbreviation without_key :: "'k \<Rightarrow> 'k Route list \<Rightarrow> 'k Route list" where
  "without_key k l \<equiv> filter (\<lambda>v. route_key v \<noteq> k) l"

lemma sorted_rtt_last: "sorted_rtt xs \<Longrightarrow> xs = [] \<or> rtt (last xs) \<le> x \<Longrightarrow> a \<in> set xs \<Longrightarrow> rtt a \<le> x"
  by (induction xs rule: rev_induct) (auto simp: sorted_append dest: order_trans)

lemma sorted_rtt_hd: "sorted_rtt xs \<Longrightarrow> xs = [] \<or> x \<le> rtt (hd xs) \<Longrightarrow> a \<in> set xs \<Longrightarrow> x \<le> rtt a"
  by (induction xs) (auto dest: order_trans)

text \<open>
  Both branches of \<open>add_route\<close> replace the route of that key and put the new one between the
  faster and the slower ones.
\<close>

lemma place_route_split:
  assumes "distinct (map route_key l)"
  shows "\<exists>as bs. place_route r l = as @ r # bs \<and> as @ bs = without_key (route_key r) l
    \<and> (sorted_rtt l \<longrightarrow> (\<forall>a \<in> set as. rtt a \<le> rtt r) \<and> (\<forall>b \<in> set bs. rtt r \<le> rtt b))"
proof (cases "position (\<lambda>v. route_key v = route_key r) l")
  case None
  then have filt: "without_key (route_key r) l = l"
    by (simp add: position_None)
  have new: "place_route r l = take (insert_pos r l) l @ r # drop (insert_pos r l) l"
    using None by (simp add: place_route_def Let_def)
  have "rtt a \<le> rtt r" if "a \<in> set (take (insert_pos r l) l)" for a
    using that by (auto simp: insert_pos_def position_None in_set_conv_nth not_less
        dest!: position_Some split: option.splits)
  moreover have "rtt r \<le> rtt b" if "sorted_rtt l" "b \<in> set (drop (insert_pos r l) l)" for b
  proof (cases "position (\<lambda>x. rtt r < rtt x) l")
    case None
    with that show ?thesis by (simp add: insert_pos_def)
  next
    case (Some i)
    then have i: "i < length l" "rtt r < rtt (l ! i)" by (auto dest: position_Some)
    have "sorted_rtt (drop i l)" using that(1) by (simp add: sorted_wrt_drop flip: drop_map)
    with i that(2) Some show ?thesis
      by (intro sorted_rtt_hd [of "drop i l"]) (auto simp: insert_pos_def hd_drop_conv_nth)
  qed
  ultimately show ?thesis
    using new filt by (intro exI [of _ "take (insert_pos r l) l"] exI [of _ "drop (insert_pos r l) l"])
      simp
next
  case (Some idx)
  define xs ys where "xs = take idx l" and "ys = drop (Suc idx) l"
  from Some have idx: "idx < length l" "route_key (l ! idx) = route_key r"
    by (auto dest: position_Some)
  then have l: "l = xs @ l ! idx # ys" and len: "length xs = idx"
    by (simp_all add: xs_def ys_def id_take_nth_drop [symmetric])
  have upd: "l[idx := r] = xs @ r # ys"
    by (subst l) (use len in \<open>simp add: list_update_append\<close>)
  have filt: "without_key (route_key r) l = xs @ ys"
  proof -
    have "distinct (map route_key (xs @ l ! idx # ys))" using assms l by metis
    then have "route_key r \<notin> route_key ` (set xs \<union> set ys)" using idx(2) by auto
    then have "\<forall>v \<in> set xs \<union> set ys. route_key v \<noteq> route_key r"
      by (metis imageI)
    then have "without_key (route_key r) xs = xs" "without_key (route_key r) ys = ys" by simp_all
    with idx(2) show ?thesis by (subst l) simp
  qed
  obtain xs1 xs2 where f: "xs = xs1 @ xs2" "\<forall>x \<in> set xs2. rtt r < rtt x"
    "bubble_front (length xs) (xs @ r # ys) = (xs1 @ r # xs2 @ ys, length xs1)"
    "xs1 = [] \<or> rtt (last xs1) \<le> rtt r"
    using bubble_front_split [of xs r ys] by blast
  obtain zs1 zs2 where b: "xs2 @ ys = zs1 @ zs2" "\<forall>y \<in> set zs1. rtt y < rtt r"
    "bubble_back (length xs1) (xs1 @ r # xs2 @ ys) = xs1 @ zs1 @ r # zs2"
    "zs2 = [] \<or> rtt r \<le> rtt (hd zs2)"
    using bubble_back_split [of "xs2 @ ys" xs1 r] by blast
  have placed: "place_route r l = (xs1 @ zs1) @ r # zs2"
    using Some upd len f(3) b(3) by (simp add: place_route_def)
  have rest: "(xs1 @ zs1) @ zs2 = xs @ ys"
    using f(1) b(1) by simp
  have "(\<forall>a \<in> set (xs1 @ zs1). rtt a \<le> rtt r) \<and> (\<forall>b \<in> set zs2. rtt r \<le> rtt b)" if "sorted_rtt l"
  proof -
    have "sorted_rtt (xs @ ys)" using that by (subst (asm) l) (auto simp: sorted_append)
    then have "sorted_rtt xs1" "sorted_rtt zs2"
      by (simp_all add: sorted_append flip: rest)
    with f(4) b(2,4) show ?thesis
      by (auto intro: sorted_rtt_last sorted_rtt_hd less_imp_le)
  qed
  with placed rest filt show ?thesis
    by (intro exI [of _ "xs1 @ zs1"] exI [of _ zs2] conjI impI) simp_all
qed

lemma place_route_mset:
  "distinct (map route_key l) \<Longrightarrow>
    mset (place_route r l) = add_mset r (mset (without_key (route_key r) l))"
  using place_route_split [of l r] by (metis mset_append union_mset_add_mset_right mset.simps(2))

lemma place_route_set:
  "distinct (map route_key l) \<Longrightarrow>
    set (place_route r l) = insert r (set (without_key (route_key r) l))"
  using place_route_mset [of l r] by (metis set_mset_add_mset_insert set_mset_mset)

lemma place_route_distinct:
  assumes "distinct (map route_key l)"
  shows "distinct (map route_key (place_route r l))"
proof -
  obtain as bs where p: "place_route r l = as @ r # bs" "as @ bs = without_key (route_key r) l"
    using place_route_split [OF assms] by blast
  have "distinct (map route_key (as @ bs))" "route_key r \<notin> route_key ` set (as @ bs)"
    unfolding p(2) using assms by (auto simp: distinct_map_filter)
  then show ?thesis by (auto simp: p(1))
qed

lemma place_route_sorted:
  assumes "distinct (map route_key l)" "sorted_rtt l"
  shows "sorted_rtt (place_route r l)"
proof -
  obtain as bs where p: "place_route r l = as @ r # bs" "as @ bs = without_key (route_key r) l"
    "\<forall>a \<in> set as. rtt a \<le> rtt r" "\<forall>b \<in> set bs. rtt r \<le> rtt b"
    using place_route_split [OF assms(1), of r] assms(2) by blast
  have "sorted_rtt (as @ bs)"
    unfolding p(2) using assms(2) by (rule sorted_filter)
  with p(1,3,4) show ?thesis by (auto simp: sorted_append)
qed

section \<open>The table's invariant\<close>

text \<open>
  \<open>has_route t i k\<close>: peer \<open>i\<close> has a route over \<open>k\<close>. The invariant ties the three maps together:
  no empty list and no duplicate key, a confirmation time for exactly the routes that exist, and an
  owner only for a route that exists.
\<close>

definition has_route :: "'k RouteTable \<Rightarrow> ipv4 \<Rightarrow> 'k \<Rightarrow> bool" where
  "has_route t i k \<longleftrightarrow> k \<in> route_key ` set (entry_list t i)"

definition lists_ok :: "'k RouteTable \<Rightarrow> bool" where
  "lists_ok t \<longleftrightarrow> (\<forall>i l. route_table t i = Some l \<longrightarrow> l \<noteq> [] \<and> distinct (map route_key l))"

definition times_ok :: "'k RouteTable \<Rightarrow> bool" where
  "times_ok t \<longleftrightarrow> (\<forall>i k. has_route t i k \<longleftrightarrow> route_key_time t (i, k) \<noteq> None)"

definition owners_ok :: "'k RouteTable \<Rightarrow> bool" where
  "owners_ok t \<longleftrightarrow> (\<forall>k i. route_key_owner t k = Some i \<longrightarrow> has_route t i k)"

definition rt_wf :: "'k RouteTable \<Rightarrow> bool" where
  "rt_wf t \<longleftrightarrow> lists_ok t \<and> times_ok t \<and> owners_ok t"

lemma rt_wf_lists: "rt_wf t \<Longrightarrow> lists_ok t"
  by (simp add: rt_wf_def)

lemma lists_okD: "lists_ok t \<Longrightarrow> distinct (map route_key (entry_list t i))"
  by (auto simp: lists_ok_def entry_list_def split: option.splits)

lemma lists_okI:
  assumes "\<And>j l. route_table t' j = Some l \<Longrightarrow> j \<noteq> i \<Longrightarrow> route_table t j = Some l"
    and "\<And>l. route_table t' i = Some l \<Longrightarrow> l \<noteq> [] \<and> distinct (map route_key l)"
    and "lists_ok t"
  shows "lists_ok t'"
  using assms unfolding lists_ok_def by metis

lemma rt_wf_new: "rt_wf RouteTable_new"
  by (simp add: rt_wf_def RouteTable_new_def lists_ok_def times_ok_def owners_ok_def has_route_def
      entry_list_def)

lemma entry_list_add_owner:
  "entry_list (add_owner_route D now i k t) j =
    (if j = i then
       (if has_route t i k then entry_list t i else entry_list t i @ [Route_from_default_rt D k 1])
     else entry_list t j)"
  by (auto simp: add_owner_route_def Let_def entry_list_def has_route_def list_ex_iff)

lemma entry_list_add_route:
  "entry_list (add_route now i r t) j =
    (if j = i \<and> (is_direct r \<or> route_table t i \<noteq> None) then place_route r (entry_list t i)
     else entry_list t j)"
  by (auto simp: add_route_def Let_def entry_list_def)

lemma has_route_add_owner:
  "has_route (add_owner_route D now i k t) j k' \<longleftrightarrow> (j, k') = (i, k) \<or> has_route t j k'"
  by (auto simp: has_route_def entry_list_add_owner Route_from_default_rt_def)

lemma has_route_add_route:
  assumes "lists_ok t"
  shows "has_route (add_route now i r t) j k \<longleftrightarrow>
    ((j, k) = (i, route_key r) \<and> (is_direct r \<or> route_table t i \<noteq> None)) \<or> has_route t j k"
  using place_route_set [OF lists_okD [OF assms, of i], of r]
  by (auto simp: has_route_def entry_list_add_route)

lemma entry_list_drop_key:
  "entry_list (drop_key i k t) j = (if j = i then without_key k (entry_list t i) else entry_list t j)"
  by (auto simp: drop_key_def Let_def entry_list_def split: option.splits)

lemma has_route_drop_key:
  "has_route (drop_key i k t) j k' \<longleftrightarrow> has_route t j k' \<and> (j, k') \<noteq> (i, k)"
  by (auto simp: has_route_def entry_list_drop_key)

lemma drop_key_time [simp]: "route_key_time (drop_key i k t) = route_key_time t"
  by (simp add: drop_key_def Let_def)

lemma drop_key_owner:
  "route_key_owner (drop_key i k t) k' = Some j \<longleftrightarrow>
    route_key_owner t k' = Some j \<and> (j, k') \<noteq> (i, k)"
  by (auto simp: drop_key_def Let_def)

lemma lists_ok_add_owner: "lists_ok t \<Longrightarrow> lists_ok (add_owner_route D now i k t)"
  by (rule lists_okI [where i = i and t = t])
    (auto simp: add_owner_route_def Let_def list_ex_iff Route_from_default_rt_def
      dest: lists_okD [where i = i] split: if_splits)

lemma place_route_nonempty: "distinct (map route_key l) \<Longrightarrow> place_route r l \<noteq> []"
  using place_route_set [of l r] by auto

lemma lists_ok_add_route: "lists_ok t \<Longrightarrow> lists_ok (add_route now i r t)"
  by (rule lists_okI [where i = i and t = t])
    (auto simp: add_route_def Let_def place_route_distinct place_route_nonempty lists_okD
      split: if_splits simp: lists_ok_def)

lemma lists_ok_drop_key: "lists_ok t \<Longrightarrow> lists_ok (drop_key i k t)"
  by (rule lists_okI [where i = i and t = t])
    (auto simp: drop_key_def Let_def lists_ok_def distinct_map_filter split: option.splits if_splits)

lemma rt_wf_add_owner:
  assumes "rt_wf t"
  shows "rt_wf (add_owner_route D now i k t)"
proof -
  have "times_ok (add_owner_route D now i k t)"
    using assms unfolding rt_wf_def times_ok_def has_route_add_owner
    by (auto simp: add_owner_route_def Let_def)
  moreover have "owners_ok (add_owner_route D now i k t)"
    using assms unfolding rt_wf_def owners_ok_def has_route_add_owner
    by (auto simp: add_owner_route_def Let_def split: if_splits)
  ultimately show ?thesis
    using assms by (simp add: rt_wf_def lists_ok_add_owner)
qed

lemma rt_wf_add_route:
  assumes "rt_wf t"
  shows "rt_wf (add_route now i r t)"
proof -
  have ok: "lists_ok t" "times_ok t" "owners_ok t" using assms by (simp_all add: rt_wf_def)
  have "times_ok (add_route now i r t)"
    using ok(2) by (auto simp: times_ok_def has_route_add_route [OF ok(1)])
      (auto simp: add_route_def Let_def split: if_splits)
  moreover have "owners_ok (add_route now i r t)"
    using ok(3) by (auto simp: owners_ok_def has_route_add_route [OF ok(1)])
      (auto simp: add_route_def Let_def split: if_splits option.splits)
  ultimately show ?thesis
    using ok by (simp add: rt_wf_def lists_ok_add_route)
qed

lemma rt_wf_add_route_if_absent: "rt_wf t \<Longrightarrow> rt_wf (add_route_if_absent now i r t)"
  by (simp add: add_route_if_absent_def rt_wf_add_route)

lemma rt_wf_remove_route:
  assumes "rt_wf t"
  shows "rt_wf (remove_route i k t)"
proof -
  let ?t = "drop_key i k t" and ?t' = "remove_route i k t"
  have tab: "route_table ?t' = route_table ?t" "route_key_owner ?t' = route_key_owner ?t"
    and time: "route_key_time ?t' = (route_key_time t)((i, k) := None)"
    by (simp_all add: remove_route_def Let_def)
  have "has_route ?t' j k' \<longleftrightarrow> has_route ?t j k'" for j k'
    by (simp add: has_route_def entry_list_def tab)
  then have hr: "has_route ?t' j k' \<longleftrightarrow> has_route t j k' \<and> (j, k') \<noteq> (i, k)" for j k'
    by (simp add: has_route_drop_key)
  show ?thesis
    using assms lists_ok_drop_key [of t i k]
    by (auto simp: rt_wf_def lists_ok_def times_ok_def owners_ok_def hr tab time drop_key_owner)
qed

subsection \<open>Expiry\<close>

lemma purge_has_route:
  "has_route (purge_expired ks t) i k \<longleftrightarrow> has_route t i k \<and> (i, k) \<notin> set ks"
  by (induction ks arbitrary: t) (auto simp: purge_expired_def has_route_drop_key)

lemma purge_time [simp]: "route_key_time (purge_expired ks t) = route_key_time t"
  by (induction ks arbitrary: t) (simp_all add: purge_expired_def)

lemma purge_owner:
  "route_key_owner (purge_expired ks t) k = Some i \<longleftrightarrow>
    route_key_owner t k = Some i \<and> (i, k) \<notin> set ks"
  by (induction ks arbitrary: t) (auto simp: purge_expired_def drop_key_owner)

lemma purge_lists_ok: "lists_ok t \<Longrightarrow> lists_ok (purge_expired ks t)"
  by (induction ks arbitrary: t) (simp_all add: purge_expired_def lists_ok_drop_key)

lemma lists_ok_time [simp]: "lists_ok (t\<lparr>route_key_time := x\<rparr>) = lists_ok t"
  by (simp add: lists_ok_def)

lemma remove_oldest_has_route:
  assumes "rt_wf t" "set order = dom (route_key_time t)"
  shows "has_route (remove_oldest_route order expired t) i k \<longleftrightarrow>
    (\<exists>x. route_key_time t (i, k) = Some x \<and> expired < x)"
proof -
  have "has_route (remove_oldest_route order expired t) i k \<longleftrightarrow>
      has_route t i k \<and> (i, k) \<notin> set (fst (collect_expired order expired t))"
    by (simp add: remove_oldest_route_def collect_expired_def purge_has_route)
      (simp add: has_route_def entry_list_def)
  also have "\<dots> \<longleftrightarrow> (\<exists>x. route_key_time t (i, k) = Some x \<and> expired < x)"
    using assms by (auto simp: collect_expired_def rt_wf_def times_ok_def split: option.splits)
  finally show ?thesis .
qed

lemma remove_oldest_time:
  "route_key_time (remove_oldest_route order expired t) =
    map_retain (\<lambda>_ x. \<not> x \<le> expired) (route_key_time t)"
  by (simp add: remove_oldest_route_def collect_expired_def)

lemma rt_wf_remove_oldest:
  assumes "rt_wf t" "set order = dom (route_key_time t)"
  shows "rt_wf (remove_oldest_route order expired t)"
proof -
  let ?t' = "remove_oldest_route order expired t"
  have "lists_ok ?t'"
    using assms(1) by (simp add: remove_oldest_route_def collect_expired_def purge_lists_ok
        rt_wf_def)
  moreover have "times_ok ?t'"
    by (auto simp: times_ok_def remove_oldest_has_route [OF assms] remove_oldest_time
        map_retain_None not_le)
  moreover have "owners_ok ?t'"
  proof -
    have "has_route ?t' i k" if "route_key_owner ?t' k = Some i" for k i
    proof -
      have "route_key_owner t k = Some i" "(i, k) \<notin> set (fst (collect_expired order expired t))"
        using that by (simp_all add: remove_oldest_route_def collect_expired_def purge_owner)
      then show ?thesis
        using assms unfolding remove_oldest_has_route [OF assms]
        by (fastforce simp: collect_expired_def rt_wf_def owners_ok_def times_ok_def
            split: option.splits)
    qed
    then show ?thesis by (simp add: owners_ok_def)
  qed
  ultimately show ?thesis by (simp add: rt_wf_def)
qed

section \<open>Steps and reachable tables\<close>

text \<open>Each rule is one public method; \<open>order\<close> is some enumeration of the time map.\<close>

inductive rt_step :: "u32 \<Rightarrow> 'k RouteTable \<Rightarrow> 'k RouteTable \<Rightarrow> bool" for D where
  owner: "rt_step D t (add_owner_route D now i k t)"
| add: "rt_step D t (add_route now i r t)"
| add_absent: "rt_step D t (add_route_if_absent now i r t)"
| remove: "rt_step D t (remove_route i k t)"
| expire: "set order = dom (route_key_time t) \<Longrightarrow>
    rt_step D t (remove_oldest_route order expired t)"

inductive rt_reachable :: "u32 \<Rightarrow> 'k RouteTable \<Rightarrow> bool" for D where
  start: "rt_reachable D RouteTable_new"
| step: "rt_reachable D t \<Longrightarrow> rt_step D t t' \<Longrightarrow> rt_reachable D t'"

lemma rt_step_wf: "rt_step D t t' \<Longrightarrow> rt_wf t \<Longrightarrow> rt_wf t'"
  by (induction rule: rt_step.induct)
    (simp_all add: rt_wf_add_owner rt_wf_add_route rt_wf_add_route_if_absent rt_wf_remove_route
      rt_wf_remove_oldest)

text \<open>In every reachable routing table the three maps agree: no peer has an empty route list or two
  routes over one socket, a route exists exactly when it has a confirmation time (so every route can
  expire), and a socket's owner has a route over it.\<close>

theorem rt_reachable_wf: "rt_reachable D t \<Longrightarrow> rt_wf t"
  by (induction rule: rt_reachable.induct) (auto intro: rt_wf_new rt_step_wf)

theorem rt_reachable_wf_witness:
  "rt_wf (remove_route 7 (1 :: nat)
    (add_route 3 7 \<lparr>route_key = 2, metric = 2, rtt = 40\<rparr> (add_owner_route 999 5 7 1 RouteTable_new)))"
  by (rule rt_reachable_wf [where D = 999])
    (intro rt_reachable.step [OF _ rt_step.remove] rt_reachable.step [OF _ rt_step.add]
      rt_reachable.step [OF _ rt_step.owner] rt_reachable.start)

subsection \<open>Route order\<close>

definition rt_sorted :: "'k RouteTable \<Rightarrow> bool" where
  "rt_sorted t \<longleftrightarrow> (\<forall>i. sorted_rtt (entry_list t i))"

definition rt_below :: "u32 \<Rightarrow> 'k RouteTable \<Rightarrow> bool" where
  "rt_below D t \<longleftrightarrow> (\<forall>i. \<forall>r \<in> set (entry_list t i). rtt r \<le> D)"

lemma rt_sorted_add_route: "lists_ok t \<Longrightarrow> rt_sorted t \<Longrightarrow> rt_sorted (add_route now i r t)"
  by (simp add: rt_sorted_def entry_list_add_route place_route_sorted lists_okD)

lemma rt_sorted_add_owner:
  "rt_sorted t \<Longrightarrow> rt_below D t \<Longrightarrow> rt_sorted (add_owner_route D now i k t)"
  by (simp add: rt_sorted_def rt_below_def entry_list_add_owner sorted_append
      Route_from_default_rt_def)

lemma find_sorted_min:
  "sorted_rtt l \<Longrightarrow> find p l = Some r \<Longrightarrow> r \<in> set l \<and> p r \<and> (\<forall>r' \<in> set l. p r' \<longrightarrow> rtt r \<le> rtt r')"
  by (induction l) (auto split: if_splits)

lemma find_Some_iff_ex: "(\<exists>r. find p l = Some r) \<longleftrightarrow> (\<exists>r \<in> set l. p r)"
  by (induction l) auto

text \<open>Route selection: in a table whose lists are in round-trip-time order, \<open>get_by_id\<close> finds a route
  exactly when the peer has one; it is a direct route of least round-trip time when there is a direct
  route, and a route of least round-trip time otherwise.\<close>

theorem get_by_id_best:
  assumes "lists_ok t" "rt_sorted t"
  shows "(get_by_id t i = None \<longleftrightarrow> entry_list t i = []) \<and>
    (\<forall>r. get_by_id t i = Some r \<longrightarrow> r \<in> set (entry_list t i) \<and>
      (if \<exists>d \<in> set (entry_list t i). is_direct d
       then is_direct r \<and> (\<forall>d \<in> set (entry_list t i). is_direct d \<longrightarrow> rtt r \<le> rtt d)
       else \<forall>d \<in> set (entry_list t i). rtt r \<le> rtt d))"
proof (cases "route_table t i")
  case None
  then show ?thesis by (simp add: get_by_id_def entry_list_def)
next
  case (Some l)
  then have l: "entry_list t i = l" by (simp add: entry_list_def)
  have "l \<noteq> []" using assms(1) Some by (auto simp: lists_ok_def)
  have srt: "sorted_rtt l" using assms(2) l unfolding rt_sorted_def by metis
  show ?thesis
  proof (cases "find is_direct l")
    case None
    then have "\<not> (\<exists>d \<in> set l. is_direct d)" by (auto simp: find_None_iff)
    with None Some l \<open>l \<noteq> []\<close> srt show ?thesis
      by (auto simp: get_by_id_def split: list.splits)
  next
    case (Some d)
    with find_sorted_min [OF srt Some] \<open>route_table t i = Some l\<close> l \<open>l \<noteq> []\<close> show ?thesis
      by (auto simp: get_by_id_def)
  qed
qed

definition two_routes :: "nat RouteTable" where
  "two_routes = add_route 3 7 \<lparr>route_key = 22, metric = 1, rtt = 40\<rparr>
    (add_owner_route 999 5 7 11 RouteTable_new)"

theorem get_by_id_best_witness:
  "get_by_id two_routes 7 = Some \<lparr>route_key = 22, metric = 1, rtt = 40\<rparr> \<and>
    list_all (\<lambda>d. is_direct d \<longrightarrow> (40 :: u32) \<le> rtt d) (entry_list two_routes 7)"
proof -
  have l: "lists_ok two_routes"
    unfolding two_routes_def by (intro rt_wf_lists rt_wf_add_route rt_wf_add_owner rt_wf_new)
  have s: "rt_sorted two_routes" unfolding two_routes_def
    by (intro rt_sorted_add_route rt_sorted_add_owner lists_ok_add_owner)
      (simp_all add: rt_sorted_def rt_below_def entry_list_def RouteTable_new_def lists_ok_def)
  have r: "get_by_id two_routes 7 = Some \<lparr>route_key = 22, metric = 1, rtt = 40\<rparr>"
    by (simp add: two_routes_def add_route_def add_owner_route_def RouteTable_new_def get_by_id_def
        entry_list_def place_route_def insert_pos_def Route_from_default_rt_def is_direct_def Let_def)
  with get_by_id_best [OF l s, of 7] show ?thesis
    by (auto simp: is_direct_def list_all_iff split: if_splits)
qed

text \<open>\<open>add_route\<close> keeps every list in round-trip-time order, and changes the list of one peer only:
  the routes over other sockets stay, and the new route replaces the one over its own socket. This is
  the correctness of the two bubbling loops and of the insertion.\<close>

theorem add_route_sorted_replace:
  assumes "lists_ok t" "rt_sorted t"
  shows "rt_sorted (add_route now i r t) \<and>
    (\<forall>j. mset (entry_list (add_route now i r t) j) =
      (if j = i \<and> (is_direct r \<or> route_table t i \<noteq> None)
       then add_mset r (mset (without_key (route_key r) (entry_list t i)))
       else mset (entry_list t j)))"
  using assms
  by (auto simp: rt_sorted_add_route entry_list_add_route place_route_mset lists_okD)

theorem add_route_sorted_replace_witness:
  "rt_sorted two_routes \<and> mset (entry_list two_routes 7) =
    {# \<lparr>route_key = 22, metric = 1, rtt = 40\<rparr>, \<lparr>route_key = 11, metric = 1, rtt = 999\<rparr> #}"
proof -
  let ?t = "add_owner_route 999 5 7 (11 :: nat) RouteTable_new"
  have l: "lists_ok ?t" by (intro rt_wf_lists rt_wf_add_owner rt_wf_new)
  have "rt_sorted ?t"
    by (rule rt_sorted_add_owner)
      (simp_all add: rt_sorted_def rt_below_def entry_list_def RouteTable_new_def)
  with add_route_sorted_replace [OF l, of 3 7 "\<lparr>route_key = 22, metric = 1, rtt = 40\<rparr>"] show ?thesis
    by (simp add: two_routes_def is_direct_def entry_list_add_owner)
      (simp add: entry_list_def RouteTable_new_def Route_from_default_rt_def has_route_def)
qed

subsection \<open>Expiry\<close>

text \<open>Expiry is exact: \<open>remove_oldest_route\<close> keeps the routes confirmed after the deadline and no other,
  keeps the owners of the kept routes, and the result does not depend on the order in which the time
  map is visited.\<close>

theorem remove_oldest_exact:
  assumes "rt_wf t" "set order = dom (route_key_time t)" "set order' = set order"
  shows "(\<forall>i k. has_route (remove_oldest_route order expired t) i k \<longleftrightarrow>
      (\<exists>x. route_key_time t (i, k) = Some x \<and> expired < x)) \<and>
    (\<forall>i k. route_key_owner (remove_oldest_route order expired t) k = Some i \<longleftrightarrow>
      route_key_owner t k = Some i \<and> (\<exists>x. route_key_time t (i, k) = Some x \<and> expired < x)) \<and>
    (\<forall>i k. has_route (remove_oldest_route order' expired t) i k \<longleftrightarrow>
      has_route (remove_oldest_route order expired t) i k)"
proof -
  have own: "route_key_owner (remove_oldest_route order expired t) k = Some i \<longleftrightarrow>
      route_key_owner t k = Some i \<and> (\<exists>x. route_key_time t (i, k) = Some x \<and> expired < x)" for i k
  proof -
    have "route_key_owner (remove_oldest_route order expired t) k = Some i \<longleftrightarrow>
        route_key_owner t k = Some i \<and> (i, k) \<notin> set (fst (collect_expired order expired t))"
      by (simp add: remove_oldest_route_def collect_expired_def purge_owner)
    also have "\<dots> \<longleftrightarrow>
        route_key_owner t k = Some i \<and> (\<exists>x. route_key_time t (i, k) = Some x \<and> expired < x)"
      using assms(1,2)
      by (fastforce simp: collect_expired_def rt_wf_def owners_ok_def times_ok_def split: option.splits)
    finally show ?thesis .
  qed
  have "set order' = dom (route_key_time t)" using assms by simp
  with own show ?thesis
    by (simp add: remove_oldest_has_route [OF assms(1,2)] remove_oldest_has_route [OF assms(1)])
qed

theorem remove_oldest_exact_witness:
  "has_route (remove_oldest_route [(7, 11), (7, 22)] 4 two_routes) 7 11 \<and>
    \<not> has_route (remove_oldest_route [(7, 22), (7, 11)] 4 two_routes) 7 22"
proof -
  have w: "rt_wf two_routes"
    unfolding two_routes_def by (intro rt_wf_add_route rt_wf_add_owner rt_wf_new)
  have t: "route_key_time two_routes = [(7, 11) \<mapsto> 5, (7, 22) \<mapsto> 3]"
    by (simp add: two_routes_def add_route_def add_owner_route_def RouteTable_new_def is_direct_def
        Let_def)
  have d: "set [(7, 11), (7, 22)] = dom (route_key_time two_routes)" by (auto simp: t)
  have e: "set [(7, 22), (7, 11)] = set [(7, 11), (7 :: ipv4, 22 :: nat)]" by auto
  show ?thesis
    using remove_oldest_exact [OF w d e, of 4] by (simp add: t)
qed

text \<open>The two critical sections of \<open>remove_oldest_route\<close> are not atomic: when a punch response
  confirms an expired route again between them, the second section still deletes the fresh route,
  and the time map is left with a confirmation of a route that is gone.\<close>

theorem expiry_race:
  assumes "route_key_time t (i, k) = Some x" "x \<le> expired" "(i, k) \<in> set order"
    and "collect_expired order expired t = (keys, t1)"
    and "t2 = purge_expired keys (add_owner_route D now i k t1)"
  shows "has_route (add_owner_route D now i k t1) i k \<and> \<not> has_route t2 i k \<and>
    route_key_time t2 (i, k) = Some now \<and> \<not> rt_wf t2"
proof -
  have k: "(i, k) \<in> set keys" using assms(1-4) by (auto simp: collect_expired_def)
  have gone: "\<not> has_route t2 i k" using k assms(5) by (simp add: purge_has_route)
  have time: "route_key_time t2 (i, k) = Some now"
    using assms(5) by (simp add: add_owner_route_def Let_def)
  with gone have "\<not> times_ok t2" unfolding times_ok_def by force
  with gone time show ?thesis by (simp add: has_route_add_owner rt_wf_def)
qed

theorem expiry_race_witness:
  "\<exists>keys t1. collect_expired [(7, 11)] 6 (add_owner_route 999 5 7 11 RouteTable_new) = (keys, t1) \<and>
    \<not> has_route (purge_expired keys (add_owner_route 999 8 7 (11 :: nat) t1)) 7 11"
proof -
  let ?t = "add_owner_route 999 5 7 (11 :: nat) RouteTable_new"
  have "route_key_time ?t (7, 11) = Some 5" by (simp add: add_owner_route_def Let_def)
  moreover obtain keys t1 where c: "collect_expired [(7, 11)] 6 ?t = (keys, t1)" by fastforce
  ultimately show ?thesis
    using expiry_race [OF _ _ _ c refl, of 7 11 5 999 8] by auto
qed

subsection \<open>Abstract specification: leases\<close>

text \<open>
  What the table promises, without lists and owners: a partial map from (peer, socket) to the time
  of the last confirmation.
\<close>

type_synonym 'k leases = "ipv4 \<times> 'k \<rightharpoonup> nat"

definition spec_confirm :: "nat \<Rightarrow> ipv4 \<Rightarrow> 'k \<Rightarrow> 'k leases \<Rightarrow> 'k leases" where
  "spec_confirm now i k m = m((i, k) \<mapsto> now)"

definition spec_heartbeat :: "nat \<Rightarrow> bool \<Rightarrow> ipv4 \<Rightarrow> 'k \<Rightarrow> 'k leases \<Rightarrow> 'k leases" where
  "spec_heartbeat now direct i k m =
    (if direct \<or> i \<in> fst ` dom m then m((i, k) \<mapsto> now) else m)"

definition spec_expire :: "nat \<Rightarrow> 'k leases \<Rightarrow> 'k leases" where
  "spec_expire expired m = map_retain (\<lambda>_ x. \<not> x \<le> expired) m"

lemma entry_list_Nil: "lists_ok t \<Longrightarrow> entry_list t i = [] \<longleftrightarrow> route_table t i = None"
  by (auto simp: entry_list_def lists_ok_def split: option.splits)

lemma known_peer_iff:
  assumes "rt_wf t"
  shows "route_table t i \<noteq> None \<longleftrightarrow> i \<in> fst ` dom (route_key_time t)"
proof -
  have "route_table t i \<noteq> None \<longleftrightarrow> (\<exists>k. has_route t i k)"
    using assms entry_list_Nil [of t i]
    by (auto simp: rt_wf_def has_route_def)
  also have "\<dots> \<longleftrightarrow> i \<in> fst ` dom (route_key_time t)"
    using assms by (auto simp: rt_wf_def times_ok_def image_iff dom_def)
  finally show ?thesis .
qed



end
