(* ===== verification/NetPacket.thy ===== *)
theory NetPacket
  imports Prelude
begin

text \<open>
  The packet header of the tunnel protocol, \<open>vnt/vnt-core/src/protocol/ip_packet_protocol.rs\<close>:
  the 16-byte header \<open>NetHeader\<close> (\<open>repr(C)\<close>, the three \<open>U32<NetworkEndian>\<close> fields being
  big-endian), the message types and every accessor of \<open>NetPacket\<close>. A \<open>NetPacket<B>\<close> is a
  buffer whose bytes have length at least \<open>HEAD_LENGTH\<close>; here it is those bytes, and
  \<open>header\<close>/\<open>with_header\<close> are the \<open>zerocopy\<close> views \<open>header()\<close> and \<open>header_mut()\<close>.
\<close>

section \<open>The header\<close>

record NetHeader =
  type_byte :: u8
  ttl_byte :: u8
  flags_byte :: u8
  reserved :: u8
  h_seq :: u32
  h_src_id :: u32
  h_dest_id :: u32

definition HEAD_LENGTH :: nat where "HEAD_LENGTH = 16"

definition COMPRESSED :: u8 where "COMPRESSED = 0x80"
definition GATEWAY :: u8 where "GATEWAY = 0x40"
definition FEC :: u8 where "FEC = 0x20"

definition hdr_msg_type :: "NetHeader \<Rightarrow> u8" where
  "hdr_msg_type h = type_byte h AND 0x7F"

definition hdr_set_msg_type :: "u8 \<Rightarrow> NetHeader \<Rightarrow> NetHeader" where
  "hdr_set_msg_type m h = h\<lparr>type_byte := (m AND 0x7F) OR 0x80\<rparr>"

definition hdr_max_ttl :: "NetHeader \<Rightarrow> u8" where
  "hdr_max_ttl h = drop_bit 4 (ttl_byte h)"

definition hdr_curr_ttl :: "NetHeader \<Rightarrow> u8" where
  "hdr_curr_ttl h = ttl_byte h AND 0x0F"

definition hdr_set_ttl :: "u8 \<Rightarrow> u8 \<Rightarrow> NetHeader \<Rightarrow> NetHeader" where
  "hdr_set_ttl mx cur h = h\<lparr>ttl_byte := push_bit 4 mx OR (cur AND 0x0F)\<rparr>"

definition hdr_decr_ttl :: "NetHeader \<Rightarrow> NetHeader" where
  "hdr_decr_ttl h =
     (let cur = hdr_curr_ttl h in
      if cur = 0 then h
      else h\<lparr>ttl_byte := (ttl_byte h AND 0xF0) OR (cur - 1)\<rparr>)"

definition hdr_set_flag :: "u8 \<Rightarrow> bool \<Rightarrow> NetHeader \<Rightarrow> NetHeader" where
  "hdr_set_flag msk val h =
     (if val then h\<lparr>flags_byte := flags_byte h OR msk\<rparr>
      else h\<lparr>flags_byte := flags_byte h AND NOT msk\<rparr>)"

section \<open>Message types\<close>

datatype MsgType =
    Turn | Broadcast | ExcludeBroadcast | TargetBroadcast
  | Ping | Pong | PingTurn | PongTurn
  | PunchStart1 | PunchStart2 | PunchReq | PunchRes
  | PushClientIps
  | RpcReq | RpcRes
  | Quic

fun MsgType_into :: "MsgType \<Rightarrow> u8" where
  "MsgType_into Turn = 1"
| "MsgType_into Broadcast = 2"
| "MsgType_into ExcludeBroadcast = 3"
| "MsgType_into TargetBroadcast = 4"
| "MsgType_into Ping = 5"
| "MsgType_into Pong = 6"
| "MsgType_into PingTurn = 7"
| "MsgType_into PongTurn = 8"
| "MsgType_into PunchStart1 = 9"
| "MsgType_into PunchStart2 = 10"
| "MsgType_into PunchReq = 11"
| "MsgType_into PunchRes = 12"
| "MsgType_into PushClientIps = 13"
| "MsgType_into RpcReq = 14"
| "MsgType_into RpcRes = 15"
| "MsgType_into Quic = 17"

definition MsgType_try_from :: "u8 \<Rightarrow> MsgType result" where
  "MsgType_try_from v =
     (if v = 1 then Inr Turn
      else if v = 2 then Inr Broadcast
      else if v = 3 then Inr ExcludeBroadcast
      else if v = 4 then Inr TargetBroadcast
      else if v = 5 then Inr Ping
      else if v = 6 then Inr Pong
      else if v = 7 then Inr PingTurn
      else if v = 8 then Inr PongTurn
      else if v = 9 then Inr PunchStart1
      else if v = 10 then Inr PunchStart2
      else if v = 11 then Inr PunchReq
      else if v = 12 then Inr PunchRes
      else if v = 13 then Inr PushClientIps
      else if v = 14 then Inr RpcReq
      else if v = 15 then Inr RpcRes
      else if v = 17 then Inr Quic
      else Inl InvalidInput)"

lemma MsgType_try_from_into [simp]: "MsgType_try_from (MsgType_into m) = Inr m"
  by (cases m) (simp_all add: MsgType_try_from_def)

lemma MsgType_try_from_Inr:
  "MsgType_try_from v = Inr m \<Longrightarrow> v = MsgType_into m"
  by (auto simp: MsgType_try_from_def split: if_splits)

lemma MsgType_into_7bit [simp]: "MsgType_into m AND 0x7F = MsgType_into m"
  by (cases m) simp_all

section \<open>Packets\<close>

text \<open>The header of a buffer, and the buffer's first 16 bytes of a header.\<close>

definition header :: "bytes \<Rightarrow> NetHeader" where
  "header b =
     \<lparr>type_byte = b ! 0, ttl_byte = b ! 1, flags_byte = b ! 2, reserved = b ! 3,
      h_seq = word_of_nat (be_dec (take 4 (drop 4 b))),
      h_src_id = word_of_nat (be_dec (take 4 (drop 8 b))),
      h_dest_id = word_of_nat (be_dec (take 4 (drop 12 b)))\<rparr>"

definition header_bytes :: "NetHeader \<Rightarrow> bytes" where
  "header_bytes h =
     [type_byte h, ttl_byte h, flags_byte h, reserved h]
     @ be_enc 4 (unat (h_seq h)) @ be_enc 4 (unat (h_src_id h)) @ be_enc 4 (unat (h_dest_id h))"

definition with_header :: "(NetHeader \<Rightarrow> NetHeader) \<Rightarrow> bytes \<Rightarrow> bytes" where
  "with_header f b = header_bytes (f (header b)) @ drop HEAD_LENGTH b"

definition NetPacket_new :: "bytes \<Rightarrow> bytes result" where
  "NetPacket_new b = (if length b < HEAD_LENGTH then Inl InvalidInput else Inr b)"

definition msg_type :: "bytes \<Rightarrow> MsgType result" where
  "msg_type p = MsgType_try_from (hdr_msg_type (header p))"
definition max_ttl :: "bytes \<Rightarrow> u8" where "max_ttl p = hdr_max_ttl (header p)"
definition ttl :: "bytes \<Rightarrow> u8" where "ttl p = hdr_curr_ttl (header p)"
definition seq :: "bytes \<Rightarrow> u32" where "seq p = h_seq (header p)"
definition src_id :: "bytes \<Rightarrow> u32" where "src_id p = h_src_id (header p)"
definition dest_id :: "bytes \<Rightarrow> u32" where "dest_id p = h_dest_id (header p)"
definition is_compressed :: "bytes \<Rightarrow> bool" where
  "is_compressed p \<longleftrightarrow> flags_byte (header p) AND COMPRESSED \<noteq> 0"
definition is_gateway :: "bytes \<Rightarrow> bool" where
  "is_gateway p \<longleftrightarrow> flags_byte (header p) AND GATEWAY \<noteq> 0"
definition is_fec :: "bytes \<Rightarrow> bool" where
  "is_fec p \<longleftrightarrow> flags_byte (header p) AND FEC \<noteq> 0"
definition head :: "bytes \<Rightarrow> bytes" where "head p = take HEAD_LENGTH p"
definition payload :: "bytes \<Rightarrow> bytes" where "payload p = drop HEAD_LENGTH p"

definition set_msg_type :: "MsgType \<Rightarrow> bytes \<Rightarrow> bytes" where
  "set_msg_type m = with_header (hdr_set_msg_type (MsgType_into m))"
definition decr_ttl :: "bytes \<Rightarrow> bytes" where "decr_ttl = with_header hdr_decr_ttl"
definition set_ttl :: "u8 \<Rightarrow> bytes \<Rightarrow> bytes" where "set_ttl t = with_header (hdr_set_ttl t t)"
definition set_seq :: "u32 \<Rightarrow> bytes \<Rightarrow> bytes" where
  "set_seq s = with_header (\<lambda>h. h\<lparr>h_seq := s\<rparr>)"
definition set_src_id :: "u32 \<Rightarrow> bytes \<Rightarrow> bytes" where
  "set_src_id i = with_header (\<lambda>h. h\<lparr>h_src_id := i\<rparr>)"
definition set_dest_id :: "u32 \<Rightarrow> bytes \<Rightarrow> bytes" where
  "set_dest_id i = with_header (\<lambda>h. h\<lparr>h_dest_id := i\<rparr>)"
definition set_compressed_flag :: "bool \<Rightarrow> bytes \<Rightarrow> bytes" where
  "set_compressed_flag c = with_header (hdr_set_flag COMPRESSED c)"
definition set_gateway_flag :: "bool \<Rightarrow> bytes \<Rightarrow> bytes" where
  "set_gateway_flag g = with_header (hdr_set_flag GATEWAY g)"
definition set_fec_flag :: "bool \<Rightarrow> bytes \<Rightarrow> bytes" where
  "set_fec_flag f = with_header (hdr_set_flag FEC f)"

definition set_payload :: "bytes \<Rightarrow> bytes \<Rightarrow> bytes result" where
  "set_payload data p =
     (if length p < HEAD_LENGTH + length data then Inl InvalidInput
      else Inr (write_slice HEAD_LENGTH data p))"

section \<open>The header codec\<close>

lemma HEAD_LENGTH_eq [simp]: "HEAD_LENGTH = 16"
  by (simp add: HEAD_LENGTH_def)

lemma length_header_bytes [simp]: "length (header_bytes h) = 16"
  by (simp add: header_bytes_def)

lemma header_header_bytes [simp]: "header (header_bytes h @ r) = h"
  by (cases h) (simp add: header_def header_bytes_def)

lemma split_16:
  assumes "16 \<le> length b"
  shows "take 16 b = [b ! 0, b ! 1, b ! 2, b ! 3] @ take 4 (drop 4 b) @ take 4 (drop 8 b)
    @ take 4 (drop 12 b)"
proof -
  have "take 16 b = take 4 b @ take 4 (drop 4 b) @ take 4 (drop 8 b) @ take 4 (drop 12 b)"
    using take_add [of 4 4 b] take_add [of 8 4 b] take_add [of 12 4 b] by simp
  moreover have "take 4 b = [b ! 0, b ! 1, b ! 2, b ! 3]"
    using assms by (simp add: list_eq_iff_nth_eq nth_Cons' numeral_eq_Suc less_Suc_eq)
  ultimately show ?thesis by simp
qed

lemma header_bytes_header:
  assumes "16 \<le> length b"
  shows "header_bytes (header b) = take 16 b"
  using assms by (simp add: header_bytes_def header_def be_u32_enc split_16)

lemma header_with_header [simp]: "header (with_header f b) = f (header b)"
  by (simp add: with_header_def)

lemma payload_with_header [simp]: "payload (with_header f b) = payload b"
  by (simp add: with_header_def payload_def)

lemma length_with_header [simp]: "16 \<le> length b \<Longrightarrow> length (with_header f b) = length b"
  by (simp add: with_header_def)

lemma with_header_id: "16 \<le> length b \<Longrightarrow> with_header (\<lambda>h. h) b = b"
  by (simp add: with_header_def header_bytes_header)

lemma packet_eqI:
  assumes "16 \<le> length p" "16 \<le> length q" "header p = header q" "payload p = payload q"
  shows "p = q"
proof -
  have "take 16 p @ drop 16 p = take 16 q @ drop 16 q"
    using assms by (simp add: payload_def flip: header_bytes_header)
  then show ?thesis by simp
qed

lemma length_payload: "length (payload p) = length p - 16"
  by (simp add: payload_def)

section \<open>Header fields\<close>

lemma and_0F_take_bit: "(x :: u8) AND 0x0F = take_bit 4 x"
  by (simp add: take_bit_eq_mask mask_eq_exp_minus_1)

lemma and_7F_take_bit: "(x :: u8) AND 0x7F = take_bit 7 x"
  by (simp add: take_bit_eq_mask mask_eq_exp_minus_1)

lemma hdr_max_ttl_set_ttl: "hdr_max_ttl (hdr_set_ttl m c h) = m AND 0x0F"
  by (simp add: hdr_max_ttl_def hdr_set_ttl_def and_0F_take_bit)
    (rule bit_word_eqI, auto simp: bit_simps)

lemma hdr_curr_ttl_set_ttl: "hdr_curr_ttl (hdr_set_ttl m c h) = c AND 0x0F"
  by (simp add: hdr_curr_ttl_def hdr_set_ttl_def and_0F_take_bit)
    (rule bit_word_eqI, auto simp: bit_simps)

lemma hdr_curr_ttl_bound: "unat (hdr_curr_ttl h) < 16"
  using take_bit_nat_less_exp [of 4 "unat (ttl_byte h)"]
  by (simp add: hdr_curr_ttl_def and_0F_take_bit unsigned_take_bit_eq)

lemma hdr_max_ttl_bound: "unat (hdr_max_ttl h) < 16"
proof -
  have "unat (hdr_max_ttl h) = unat (ttl_byte h) div 16"
    by (simp only: hdr_max_ttl_def unat_drop_bit_eq) (simp add: drop_bit_eq_div)
  then show ?thesis
    using unsigned_less [of "ttl_byte h", where 'a = nat] by simp
qed

lemma low_nibble_self: "unat (d :: u8) < 16 \<Longrightarrow> take_bit 4 d = d"
  by (simp add: word_unat_eq_iff unsigned_take_bit_eq take_bit_nat_eq_self)

text \<open>\<open>decr_ttl\<close> on a live packet: the current TTL drops by one, the maximum stays.\<close>

lemma hdr_decr_ttl_parts:
  assumes "hdr_curr_ttl h \<noteq> 0"
  shows "hdr_curr_ttl (hdr_decr_ttl h) = hdr_curr_ttl h - 1"
    and "hdr_max_ttl (hdr_decr_ttl h) = hdr_max_ttl h"
proof -
  let ?d = "hdr_curr_ttl h - 1"
  have "unat ?d < 16"
    using hdr_curr_ttl_bound [of h] assms by (simp add: unat_minus_one)
  then have d: "?d = take_bit 4 ?d" by (simp add: low_nibble_self)
  have t: "ttl_byte (hdr_decr_ttl h) = (ttl_byte h AND 0xF0) OR take_bit 4 ?d"
    using assms d by (simp add: hdr_decr_ttl_def Let_def)
  have n: "(0xF0 :: u8) = NOT (mask 4)"
    by (simp add: mask_eq_exp_minus_1)
  have "take_bit 4 ((ttl_byte h AND 0xF0) OR take_bit 4 ?d) = take_bit 4 ?d"
    unfolding n by (rule bit_word_eqI) (auto simp: bit_simps)
  then show "hdr_curr_ttl (hdr_decr_ttl h) = ?d"
    using t d by (simp add: hdr_curr_ttl_def [of "hdr_decr_ttl h"] and_0F_take_bit)
  have "drop_bit 4 ((ttl_byte h AND 0xF0) OR take_bit 4 ?d) = drop_bit 4 (ttl_byte h)"
    unfolding n by (rule bit_word_eqI) (auto simp: bit_simps dest: bit_imp_le_length)
  then show "hdr_max_ttl (hdr_decr_ttl h) = hdr_max_ttl h"
    using t by (simp add: hdr_max_ttl_def)
qed

lemma hdr_decr_ttl_0: "hdr_curr_ttl h = 0 \<Longrightarrow> hdr_decr_ttl h = h"
  by (simp add: hdr_decr_ttl_def)

lemma hdr_msg_type_set: "hdr_msg_type (hdr_set_msg_type m h) = m AND 0x7F"
  by (simp add: hdr_msg_type_def hdr_set_msg_type_def bit.conj_disj_distrib2 and.assoc)

lemma set_flag_and:
  "flags_byte (hdr_set_flag m True h) = flags_byte h OR m"
  "flags_byte (hdr_set_flag m False h) = flags_byte h AND NOT m"
  by (simp_all add: hdr_set_flag_def)

lemma hdr_set_flag_frame [simp]:
  "type_byte (hdr_set_flag m v h) = type_byte h"
  "ttl_byte (hdr_set_flag m v h) = ttl_byte h"
  "h_seq (hdr_set_flag m v h) = h_seq h"
  "h_src_id (hdr_set_flag m v h) = h_src_id h"
  "h_dest_id (hdr_set_flag m v h) = h_dest_id h"
  by (simp_all add: hdr_set_flag_def)

lemma flag_same:
  "flags_byte (hdr_set_flag m v h) AND m = (if v then m else 0)"
  by (rule bit_word_eqI) (auto simp: hdr_set_flag_def bit_simps)

lemma flag_other:
  "m AND k = 0 \<Longrightarrow> flags_byte (hdr_set_flag m v h) AND k = flags_byte h AND k"
  by (rule bit_word_eqI) (auto simp: hdr_set_flag_def bit_simps bit_eq_iff)

lemma flags_disjoint [simp]:
  "COMPRESSED AND GATEWAY = 0" "COMPRESSED AND FEC = 0" "GATEWAY AND COMPRESSED = 0"
  "GATEWAY AND FEC = 0" "FEC AND COMPRESSED = 0" "FEC AND GATEWAY = 0"
  "COMPRESSED \<noteq> 0" "GATEWAY \<noteq> 0" "FEC \<noteq> 0"
  by (simp_all add: COMPRESSED_def GATEWAY_def FEC_def)

section \<open>Reading back after writing\<close>

lemmas accessor_defs =
  msg_type_def max_ttl_def ttl_def seq_def src_id_def dest_id_def
  is_compressed_def is_gateway_def is_fec_def

lemmas mutator_defs =
  set_msg_type_def decr_ttl_def set_ttl_def set_seq_def set_src_id_def set_dest_id_def
  set_compressed_flag_def set_gateway_flag_def set_fec_flag_def

lemma length_mutators [simp, netpacket_simps]:
  assumes "16 \<le> length p"
  shows "length (set_msg_type m p) = length p" "length (decr_ttl p) = length p"
    "length (set_ttl t p) = length p" "length (set_seq s p) = length p"
    "length (set_src_id i p) = length p" "length (set_dest_id i p) = length p"
    "length (set_compressed_flag v p) = length p" "length (set_gateway_flag v p) = length p"
    "length (set_fec_flag v p) = length p"
  using assms by (simp_all add: mutator_defs)

lemma payload_mutators [simp, netpacket_simps]:
  "payload (set_msg_type m p) = payload p" "payload (decr_ttl p) = payload p"
  "payload (set_ttl t p) = payload p" "payload (set_seq s p) = payload p"
  "payload (set_src_id i p) = payload p" "payload (set_dest_id i p) = payload p"
  "payload (set_compressed_flag v p) = payload p" "payload (set_gateway_flag v p) = payload p"
  "payload (set_fec_flag v p) = payload p"
  by (simp_all add: mutator_defs)

lemma set_msg_type_simps [simp, netpacket_simps]:
  "msg_type (set_msg_type m p) = Inr m" "max_ttl (set_msg_type m p) = max_ttl p"
  "ttl (set_msg_type m p) = ttl p" "seq (set_msg_type m p) = seq p"
  "src_id (set_msg_type m p) = src_id p" "dest_id (set_msg_type m p) = dest_id p"
  "is_compressed (set_msg_type m p) = is_compressed p"
  "is_gateway (set_msg_type m p) = is_gateway p" "is_fec (set_msg_type m p) = is_fec p"
  by (simp_all add: accessor_defs set_msg_type_def hdr_msg_type_set)
    (simp_all add: hdr_set_msg_type_def hdr_max_ttl_def hdr_curr_ttl_def)

lemma set_ttl_simps [simp, netpacket_simps]:
  "msg_type (set_ttl t p) = msg_type p" "max_ttl (set_ttl t p) = t AND 0x0F"
  "ttl (set_ttl t p) = t AND 0x0F" "seq (set_ttl t p) = seq p"
  "src_id (set_ttl t p) = src_id p" "dest_id (set_ttl t p) = dest_id p"
  "is_compressed (set_ttl t p) = is_compressed p"
  "is_gateway (set_ttl t p) = is_gateway p" "is_fec (set_ttl t p) = is_fec p"
  by (simp_all add: accessor_defs set_ttl_def hdr_max_ttl_set_ttl hdr_curr_ttl_set_ttl)
    (simp_all add: hdr_set_ttl_def hdr_msg_type_def)

lemma decr_ttl_simps [simp, netpacket_simps]:
  "msg_type (decr_ttl p) = msg_type p" "seq (decr_ttl p) = seq p"
  "src_id (decr_ttl p) = src_id p" "dest_id (decr_ttl p) = dest_id p"
  "is_compressed (decr_ttl p) = is_compressed p"
  "is_gateway (decr_ttl p) = is_gateway p" "is_fec (decr_ttl p) = is_fec p"
  by (simp_all add: accessor_defs decr_ttl_def hdr_decr_ttl_def Let_def hdr_msg_type_def)

lemma set_id_simps [simp, netpacket_simps]:
  "msg_type (set_seq s p) = msg_type p" "msg_type (set_src_id i p) = msg_type p"
  "msg_type (set_dest_id i p) = msg_type p" "max_ttl (set_seq s p) = max_ttl p"
  "max_ttl (set_src_id i p) = max_ttl p" "max_ttl (set_dest_id i p) = max_ttl p"
  "ttl (set_seq s p) = ttl p" "ttl (set_src_id i p) = ttl p" "ttl (set_dest_id i p) = ttl p"
  "seq (set_seq s p) = s" "seq (set_src_id i p) = seq p" "seq (set_dest_id i p) = seq p"
  "src_id (set_seq s p) = src_id p" "src_id (set_src_id i p) = i"
  "src_id (set_dest_id i p) = src_id p" "dest_id (set_seq s p) = dest_id p"
  "dest_id (set_src_id i p) = dest_id p" "dest_id (set_dest_id i p) = i"
  "is_compressed (set_seq s p) = is_compressed p"
  "is_compressed (set_src_id i p) = is_compressed p"
  "is_compressed (set_dest_id i p) = is_compressed p" "is_gateway (set_seq s p) = is_gateway p"
  "is_gateway (set_src_id i p) = is_gateway p" "is_gateway (set_dest_id i p) = is_gateway p"
  "is_fec (set_seq s p) = is_fec p" "is_fec (set_src_id i p) = is_fec p"
  "is_fec (set_dest_id i p) = is_fec p"
  by (simp_all add: accessor_defs mutator_defs hdr_msg_type_def hdr_max_ttl_def hdr_curr_ttl_def)

lemma set_flag_frame_simps [simp, netpacket_simps]:
  "msg_type (set_compressed_flag v p) = msg_type p" "msg_type (set_gateway_flag v p) = msg_type p"
  "msg_type (set_fec_flag v p) = msg_type p" "max_ttl (set_compressed_flag v p) = max_ttl p"
  "max_ttl (set_gateway_flag v p) = max_ttl p" "max_ttl (set_fec_flag v p) = max_ttl p"
  "ttl (set_compressed_flag v p) = ttl p" "ttl (set_gateway_flag v p) = ttl p"
  "ttl (set_fec_flag v p) = ttl p" "seq (set_compressed_flag v p) = seq p"
  "seq (set_gateway_flag v p) = seq p" "seq (set_fec_flag v p) = seq p"
  "src_id (set_compressed_flag v p) = src_id p" "src_id (set_gateway_flag v p) = src_id p"
  "src_id (set_fec_flag v p) = src_id p" "dest_id (set_compressed_flag v p) = dest_id p"
  "dest_id (set_gateway_flag v p) = dest_id p" "dest_id (set_fec_flag v p) = dest_id p"
  by (simp_all add: accessor_defs mutator_defs hdr_msg_type_def hdr_max_ttl_def hdr_curr_ttl_def)

lemma flag_simps [simp, netpacket_simps]:
  "is_compressed (set_compressed_flag v p) = v" "is_compressed (set_gateway_flag v p) = is_compressed p"
  "is_compressed (set_fec_flag v p) = is_compressed p"
  "is_gateway (set_compressed_flag v p) = is_gateway p" "is_gateway (set_gateway_flag v p) = v"
  "is_gateway (set_fec_flag v p) = is_gateway p"
  "is_fec (set_compressed_flag v p) = is_fec p" "is_fec (set_gateway_flag v p) = is_fec p"
  "is_fec (set_fec_flag v p) = v"
  by (simp_all add: accessor_defs mutator_defs flag_same flag_other)

lemma NetPacket_new_Inr [simp]: "NetPacket_new b = Inr p \<longleftrightarrow> p = b \<and> 16 \<le> length b"
  by (auto simp: NetPacket_new_def)

lemma set_payload_Inr:
  assumes "set_payload data p = Inr q"
  shows "length q = length p" "header q = header p" "take (length data) (payload q) = data"
    "16 + length data \<le> length p"
proof -
  have len: "16 + length data \<le> length p" and q: "q = write_slice 16 data p"
    using assms by (auto simp: set_payload_def split: if_splits)
  show "length q = length p" using len q by simp
  show "16 + length data \<le> length p" by (rule len)
  have "take 16 q = take 16 p" using len q by simp
  then show "header q = header p"
    using len q by (metis header_bytes_header header_header_bytes add_leE length_write_slice)
  show "take (length data) (payload q) = data"
    using len q by (simp add: payload_def)
qed

lemma set_payload_exact:
  "length p = 16 + length data \<Longrightarrow> set_payload data p = Inr q \<Longrightarrow> payload q = data"
  using set_payload_Inr [of data p q] by (simp add: payload_def)

lemma header_take [simp]: "16 \<le> length b \<Longrightarrow> header (take 16 b @ r) = header b"
  by (metis header_bytes_header header_header_bytes)

lemma payload_take [simp]: "16 \<le> length b \<Longrightarrow> payload (take 16 b @ r) = r"
  by (simp add: payload_def)

lemma payload_append: "16 \<le> length b \<Longrightarrow> payload (b @ r) = payload b @ r"
  by (simp add: payload_def)

lemma packet_split: "16 \<le> length b \<Longrightarrow> take 16 b @ payload b = b"
  by (simp add: payload_def)

lemma set_flag_clear:
  "flags_byte h AND m = 0 \<Longrightarrow> hdr_set_flag m False (hdr_set_flag m True h) = h"
proof -
  assume "flags_byte h AND m = 0"
  then have "(flags_byte h OR m) AND NOT m = flags_byte h"
    by (auto simp: bit_eq_iff bit_simps)
  then show ?thesis by (simp add: hdr_set_flag_def)
qed

section \<open>Properties\<close>

text \<open>Header codec: the 16 header bytes and the header record determine each other. Writing a header and
  reading it gives it back whatever follows; reading the header of a packet and writing it again gives the
  same packet.\<close>

theorem header_codec:
  "header (header_bytes h @ rest) = h \<and> payload (header_bytes h @ rest) = rest \<and>
   (NetPacket_new b = Inr p \<longrightarrow> header_bytes (header p) @ payload p = b)"
  by (auto simp: payload_def header_bytes_header)

theorem header_codec_witness:
  "NetPacket_new (replicate 20 7) = Inr (replicate 20 7) \<and>
   header_bytes (header (replicate 20 7)) @ payload (replicate 20 7) = replicate 20 7"
proof -
  have n: "NetPacket_new (replicate 20 7) = Inr (replicate 20 7)" by simp
  then show ?thesis
    using header_codec [of "header (replicate 20 7)" "[]" "replicate 20 7" "replicate 20 7"] by simp
qed

text \<open>Message types: the codes \<open>try_from\<close> accepts are exactly those \<open>into\<close> produces, every code fits in
  seven bits, and a type stored in a packet is read back unchanged, whatever flags share the packet.\<close>

theorem msg_type_codec:
  "(MsgType_try_from v = Inr m \<longleftrightarrow> v = MsgType_into m) \<and>
   msg_type (set_msg_type m p) = Inr m \<and>
   hdr_msg_type (header (set_msg_type m p)) = MsgType_into m \<and>
   (MsgType_try_from v = Inl e \<longleftrightarrow> e = InvalidInput \<and> v \<notin> range MsgType_into)"
proof -
  have eq: "MsgType_try_from v = Inr m' \<longleftrightarrow> v = MsgType_into m'" for m'
    using MsgType_try_from_Inr MsgType_try_from_into by blast
  have "MsgType_try_from v = Inl e \<longleftrightarrow> e = InvalidInput \<and> v \<notin> range MsgType_into"
  proof (cases "MsgType_try_from v")
    case (Inl x)
    moreover have "x = InvalidInput" using Inl by (auto simp: MsgType_try_from_def split: if_splits)
    ultimately show ?thesis using eq by auto
  next
    case (Inr m')
    then show ?thesis using eq by auto
  qed
  moreover have "hdr_msg_type (header (set_msg_type m p)) = MsgType_into m"
    by (simp add: set_msg_type_def hdr_msg_type_set)
  ultimately show ?thesis using eq by simp
qed

text \<open>Hop count: after \<open>n\<close> forwards the remaining TTL is the original one minus \<open>n\<close>, never below zero,
  and the maximum TTL, all other header fields and the payload are those of the original packet; so a
  packet is forwarded at most fifteen times before its TTL is zero.\<close>

theorem hop_count:
  "unat (ttl ((decr_ttl ^^ n) p)) = unat (ttl p) - n \<and>
   unat (ttl p) < 16 \<and>
   max_ttl ((decr_ttl ^^ n) p) = max_ttl p \<and> msg_type ((decr_ttl ^^ n) p) = msg_type p \<and>
   seq ((decr_ttl ^^ n) p) = seq p \<and> src_id ((decr_ttl ^^ n) p) = src_id p \<and>
   dest_id ((decr_ttl ^^ n) p) = dest_id p \<and> payload ((decr_ttl ^^ n) p) = payload p"
proof (induction n)
  case 0
  show ?case by (simp add: ttl_def hdr_curr_ttl_bound)
next
  case (Suc n)
  let ?q = "(decr_ttl ^^ n) p"
  have h: "header (decr_ttl ?q) = hdr_decr_ttl (header ?q)" by (simp add: decr_ttl_def)
  have "unat (ttl (decr_ttl ?q)) = unat (ttl ?q) - 1 \<and> max_ttl (decr_ttl ?q) = max_ttl ?q"
  proof (cases "hdr_curr_ttl (header ?q) = 0")
    case True
    then show ?thesis by (simp add: ttl_def max_ttl_def h hdr_decr_ttl_0)
  next
    case False
    then show ?thesis
      using hdr_decr_ttl_parts [OF False] by (simp add: ttl_def max_ttl_def h unat_minus_one)
  qed
  then show ?case using Suc by simp
qed

text \<open>Payload writes are bounded: \<open>set_payload\<close> fails exactly when the data does not fit behind the
  header, and otherwise leaves the header and every byte after the data as they were.\<close>

theorem set_payload_spec:
  "16 \<le> length p \<Longrightarrow>
   (case set_payload data p of
      Inl e \<Rightarrow> e = InvalidInput \<and> length (payload p) < length data
    | Inr q \<Rightarrow> length data \<le> length (payload p) \<and> header q = header p \<and> length q = length p \<and>
        payload q = data @ drop (length data) (payload p))"
proof (cases "set_payload data p")
  case (Inl e)
  assume "16 \<le> length p"
  with Inl show ?thesis by (auto simp: set_payload_def length_payload split: if_splits)
next
  case (Inr q)
  moreover have "payload q = data @ drop (length data) (payload p)"
    using Inr by (auto simp: set_payload_def write_slice_def payload_def split: if_splits)
      (simp add: add.commute)
  ultimately show ?thesis using set_payload_Inr [OF Inr] by (simp add: length_payload)
qed

theorem set_payload_spec_witness:
  "case set_payload [1, 2] (replicate 19 5) of
      Inl e \<Rightarrow> e = InvalidInput \<and> length (payload (replicate 19 5)) < length [1 :: u8, 2]
    | Inr q \<Rightarrow> length [1 :: u8, 2] \<le> length (payload (replicate 19 5)) \<and>
        header q = header (replicate 19 5) \<and> length q = length (replicate 19 (5 :: u8)) \<and>
        payload q = [1, 2] @ drop (length [1 :: u8, 2]) (payload (replicate 19 5))"
  by (rule set_payload_spec) simp

end
