(* ===== verification/Transmission.thy ===== *)
theory Transmission
  imports NetPacket
begin

text \<open>
  \<open>TransmissionBytes\<close>, \<open>vnt/vnt-core/src/protocol/transmission.rs\<close>: a window \<open>start..end\<close> on a
  \<open>BytesMut\<close>, with room before it for the packet header and after it for the cipher's tag.
  \<open>BytesMut\<close> (crate \<open>bytes\<close>) is a growable byte vector: its contents \<open>tb_buf\<close> and a capacity
  \<open>tb_cap\<close>, at least its length. The capacity of a fresh allocation is the allocator's choice,
  so it is the parameter \<open>al\<close>; the hypothesis on it, \<open>n \<le> al n\<close>, is the documented one.

  The section at the end states the interface the packet code relies on (the trait bounds
  \<open>AsRef<[u8]> + AsMut<[u8]> + ExtendEnd + ShrinkEnd\<close>) as a locale and interprets it.
\<close>

record TransmissionBytes =
  tb_buf :: bytes
  tb_cap :: nat
  tb_start :: nat
  tb_end :: nat

definition DEFAULT_BUF_SIZE :: nat where "DEFAULT_BUF_SIZE = 2048"

section \<open>Constructors\<close>

definition tb_from_bytesmut :: "bytes \<Rightarrow> nat \<Rightarrow> TransmissionBytes" where
  "tb_from_bytesmut buf c =
     \<lparr>tb_buf = buf, tb_cap = c, tb_start = 0, tb_end = length buf\<rparr>"

definition tb_from_bytes :: "(nat \<Rightarrow> nat) \<Rightarrow> bytes \<Rightarrow> TransmissionBytes" where
  "tb_from_bytes al buf =
     \<lparr>tb_buf = buf, tb_cap = al (length buf), tb_start = 0, tb_end = length buf\<rparr>"

definition tb_from_slice :: "(nat \<Rightarrow> nat) \<Rightarrow> bytes \<Rightarrow> TransmissionBytes" where
  "tb_from_slice al buf =
     \<lparr>tb_buf = buf, tb_cap = al (length buf), tb_start = 0, tb_end = length buf\<rparr>"

definition tb_new_offset :: "(nat \<Rightarrow> nat) \<Rightarrow> nat \<Rightarrow> TransmissionBytes" where
  "tb_new_offset al start =
     \<lparr>tb_buf = replicate DEFAULT_BUF_SIZE 0, tb_cap = al DEFAULT_BUF_SIZE,
      tb_start = start, tb_end = start\<rparr>"

definition tb_new_offset_zeroed :: "(nat \<Rightarrow> nat) \<Rightarrow> nat \<Rightarrow> TransmissionBytes" where
  "tb_new_offset_zeroed al start =
     \<lparr>tb_buf = replicate DEFAULT_BUF_SIZE 0, tb_cap = al DEFAULT_BUF_SIZE,
      tb_start = start, tb_end = DEFAULT_BUF_SIZE\<rparr>"

definition tb_zeroed :: "(nat \<Rightarrow> nat) \<Rightarrow> nat \<Rightarrow> TransmissionBytes" where
  "tb_zeroed al c =
     \<lparr>tb_buf = replicate c 0, tb_cap = al c, tb_start = 0, tb_end = c\<rparr>"

definition tb_zeroed_size :: "(nat \<Rightarrow> nat) \<Rightarrow> nat \<Rightarrow> nat \<Rightarrow> TransmissionBytes" where
  "tb_zeroed_size al sz reserve =
     \<lparr>tb_buf = replicate (sz + reserve) 0, tb_cap = al (sz + reserve),
      tb_start = 0, tb_end = sz\<rparr>"

definition tb_with_capacity :: "(nat \<Rightarrow> nat) \<Rightarrow> nat \<Rightarrow> nat \<Rightarrow> TransmissionBytes" where
  "tb_with_capacity al hd_room c =
     \<lparr>tb_buf = replicate c 0, tb_cap = al c, tb_start = hd_room, tb_end = hd_room\<rparr>"

section \<open>Accessors\<close>

definition tb_len :: "TransmissionBytes \<Rightarrow> nat result" where
  "tb_len t = (if tb_start t \<le> tb_end t then Inr (tb_end t - tb_start t) else Inl Panic)"

definition tb_is_empty :: "TransmissionBytes \<Rightarrow> bool result" where
  "tb_is_empty t = and_then (tb_len t) (\<lambda>n. Inr (n = 0))"

definition tb_head_room :: "TransmissionBytes \<Rightarrow> nat" where
  "tb_head_room t = tb_start t"

definition tb_tail_room :: "TransmissionBytes \<Rightarrow> nat result" where
  "tb_tail_room t = (if tb_end t \<le> tb_cap t then Inr (tb_cap t - tb_end t) else Inl Panic)"

text \<open>\<open>&self.buf[self.start..self.end]\<close> panics outside the vector's length.\<close>

definition tb_as_slice :: "TransmissionBytes \<Rightarrow> bytes result" where
  "tb_as_slice t =
     (if tb_start t \<le> tb_end t \<and> tb_end t \<le> length (tb_buf t)
      then Inr (take (tb_end t - tb_start t) (drop (tb_start t) (tb_buf t)))
      else Inl Panic)"

text \<open>A write of \<open>v\<close> through \<open>as_slice_mut\<close> (\<open>v\<close> as long as the window).\<close>

definition tb_write :: "bytes \<Rightarrow> TransmissionBytes \<Rightarrow> TransmissionBytes" where
  "tb_write v t = t\<lparr>tb_buf := write_slice (tb_start t) v (tb_buf t)\<rparr>"

section \<open>Mutators\<close>

definition tb_put :: "bytes \<Rightarrow> TransmissionBytes \<Rightarrow> TransmissionBytes result" where
  "tb_put data t =
     and_then (tb_tail_room t) (\<lambda>free.
       if length data > free then Inl InvalidInput
       else if tb_end t + length data > length (tb_buf t) then Inl Panic
       else Inr (t\<lparr>tb_buf := write_slice (tb_end t) data (tb_buf t),
                   tb_end := tb_end t + length data\<rparr>))"

definition tb_retreat_head :: "nat \<Rightarrow> TransmissionBytes \<Rightarrow> TransmissionBytes result" where
  "tb_retreat_head n t =
     (if n > tb_head_room t then Inl InvalidInput
      else Inr (t\<lparr>tb_start := tb_start t - n\<rparr>))"

definition tb_advance_head :: "nat \<Rightarrow> TransmissionBytes \<Rightarrow> TransmissionBytes result" where
  "tb_advance_head n t =
     and_then (tb_len t) (\<lambda>l.
       if n > l then Inl InvalidInput else Inr (t\<lparr>tb_start := tb_start t + n\<rparr>))"

definition tb_set_len :: "nat \<Rightarrow> TransmissionBytes \<Rightarrow> TransmissionBytes result" where
  "tb_set_len n t =
     (if tb_start t + n > tb_cap t then Inl InvalidInput
      else Inr (t\<lparr>tb_end := tb_start t + n\<rparr>))"

definition tb_buf_resize :: "(nat \<Rightarrow> nat) \<Rightarrow> nat \<Rightarrow> u8 \<Rightarrow> TransmissionBytes \<Rightarrow> TransmissionBytes" where
  "tb_buf_resize al n v t =
     t\<lparr>tb_buf := resize_list n v (tb_buf t), tb_cap := (if n \<le> tb_cap t then tb_cap t else al n)\<rparr>"

definition tb_resize :: "(nat \<Rightarrow> nat) \<Rightarrow> nat \<Rightarrow> u8 \<Rightarrow> TransmissionBytes \<Rightarrow> TransmissionBytes" where
  "tb_resize al n v t =
     (let new_end = tb_start t + n in (tb_buf_resize al new_end v t)\<lparr>tb_end := new_end\<rparr>)"

definition tb_extend_end :: "(nat \<Rightarrow> nat) \<Rightarrow> nat \<Rightarrow> TransmissionBytes \<Rightarrow> TransmissionBytes" where
  "tb_extend_end al n t =
     (let t' = (if tb_end t + n > length (tb_buf t) then tb_buf_resize al (tb_end t + n) 0 t else t)
      in t'\<lparr>tb_end := tb_end t + n\<rparr>)"

definition tb_shrink_end :: "nat \<Rightarrow> TransmissionBytes \<Rightarrow> TransmissionBytes" where
  "tb_shrink_end n t =
     (if n \<ge> tb_end t - tb_start t then t\<lparr>tb_end := tb_start t\<rparr> else t\<lparr>tb_end := tb_end t - n\<rparr>)"

definition tb_clear :: "TransmissionBytes \<Rightarrow> TransmissionBytes" where
  "tb_clear t = t\<lparr>tb_start := 0, tb_end := 0\<rparr>"

text \<open>\<open>truncate(end)\<close>, then \<open>advance(start)\<close>, which panics past the remaining length.\<close>

definition tb_into_bytes :: "TransmissionBytes \<Rightarrow> bytes result" where
  "tb_into_bytes t =
     (let b = take (tb_end t) (tb_buf t) in
      if tb_start t > 0
      then (if tb_start t \<le> length b then Inr (drop (tb_start t) b) else Inl Panic)
      else Inr b)"

section \<open>Well-formed buffers\<close>

definition tb_ok :: "TransmissionBytes \<Rightarrow> bool" where
  "tb_ok t \<longleftrightarrow> tb_start t \<le> tb_end t \<and> tb_end t \<le> length (tb_buf t)"

text \<open>What \<open>BytesMut\<close> guarantees of its capacity.\<close>

definition tb_cap_ok :: "TransmissionBytes \<Rightarrow> bool" where
  "tb_cap_ok t \<longleftrightarrow> length (tb_buf t) \<le> tb_cap t"

definition tb_view :: "TransmissionBytes \<Rightarrow> bytes" where
  "tb_view t = take (tb_end t - tb_start t) (drop (tb_start t) (tb_buf t))"

lemma length_tb_view: "tb_ok t \<Longrightarrow> length (tb_view t) = tb_end t - tb_start t"
  by (auto simp: tb_ok_def tb_view_def)

lemma tb_as_slice_ok [simp]: "tb_ok t \<Longrightarrow> tb_as_slice t = Inr (tb_view t)"
  by (simp add: tb_ok_def tb_as_slice_def tb_view_def)

lemma tb_len_ok [simp]: "tb_ok t \<Longrightarrow> tb_len t = Inr (length (tb_view t))"
  by (simp add: tb_ok_def tb_len_def length_tb_view)

lemma tb_constructors_ok [transmission_simps]:
  "tb_ok (tb_from_bytesmut buf c)" "tb_ok (tb_from_bytes al buf)" "tb_ok (tb_from_slice al buf)"
  "start \<le> DEFAULT_BUF_SIZE \<Longrightarrow> tb_ok (tb_new_offset al start)"
  "start \<le> DEFAULT_BUF_SIZE \<Longrightarrow> tb_ok (tb_new_offset_zeroed al start)"
  "tb_ok (tb_zeroed al n)" "tb_ok (tb_zeroed_size al n r)"
  "start \<le> n \<Longrightarrow> tb_ok (tb_with_capacity al start n)"
  by (simp_all add: tb_ok_def tb_from_bytesmut_def tb_from_bytes_def tb_from_slice_def
    tb_new_offset_def tb_new_offset_zeroed_def tb_zeroed_def tb_zeroed_size_def tb_with_capacity_def)

lemma tb_constructors_view [transmission_simps]:
  "tb_view (tb_from_bytesmut buf c) = buf" "tb_view (tb_from_bytes al buf) = buf"
  "tb_view (tb_from_slice al buf) = buf" "tb_view (tb_new_offset al start) = []"
  "tb_view (tb_zeroed al n) = replicate n 0" "tb_view (tb_zeroed_size al n r) = replicate n 0"
  "tb_view (tb_with_capacity al start n) = []"
  by (simp_all add: tb_view_def tb_from_bytesmut_def tb_from_bytes_def tb_from_slice_def
    tb_new_offset_def tb_zeroed_def tb_zeroed_size_def tb_with_capacity_def)

lemma tb_write_ok [transmission_simps]:
  assumes "tb_ok t" "length v = length (tb_view t)"
  shows "tb_ok (tb_write v t)" "tb_view (tb_write v t) = v"
proof -
  have v: "length v = tb_end t - tb_start t" using assms by (simp add: length_tb_view)
  have b: "tb_start t + length v \<le> length (tb_buf t)" using assms v by (auto simp: tb_ok_def)
  show "tb_ok (tb_write v t)" using assms b by (simp add: tb_ok_def tb_write_def)
  show "tb_view (tb_write v t) = v"
    using b v write_slice_mid [OF b] by (simp add: tb_view_def tb_write_def)
qed

section \<open>The operations on the view\<close>

lemma tb_put_cases:
  assumes "tb_ok t" "tb_cap_ok t"
  shows "tb_put d t =
    (if length d > tb_cap t - tb_end t then Inl InvalidInput
     else if tb_end t + length d > length (tb_buf t) then Inl Panic
     else Inr (t\<lparr>tb_buf := write_slice (tb_end t) d (tb_buf t), tb_end := tb_end t + length d\<rparr>))"
  using assms by (auto simp: tb_put_def tb_tail_room_def tb_ok_def tb_cap_ok_def)

lemma tb_put_view:
  assumes "tb_ok t" "tb_put d t = Inr t'"
  shows "tb_ok t'" "tb_view t' = tb_view t @ d"
proof -
  have le: "tb_end t + length d \<le> length (tb_buf t)"
    and t': "t' = t\<lparr>tb_buf := write_slice (tb_end t) d (tb_buf t), tb_end := tb_end t + length d\<rparr>"
    using assms(2) by (auto simp: tb_put_def split: if_splits)
  show "tb_ok t'" using assms(1) le t' by (auto simp: tb_ok_def)
  show "tb_view t' = tb_view t @ d"
    using assms(1) le t' by (auto simp: tb_view_def tb_ok_def write_slice_def drop_take)
qed

lemma tb_retreat_view:
  assumes "tb_ok t" "tb_retreat_head n t = Inr t'"
  shows "tb_ok t'" "tb_view t' = take n (drop (tb_start t - n) (tb_buf t)) @ tb_view t"
    "tb_start t = tb_start t' + n"
proof -
  have le: "n \<le> tb_start t" and t': "t' = t\<lparr>tb_start := tb_start t - n\<rparr>"
    using assms(2) by (auto simp: tb_retreat_head_def tb_head_room_def split: if_splits)
  show "tb_ok t'" "tb_start t = tb_start t' + n"
    using assms(1) le t' by (auto simp: tb_ok_def)
  have "tb_end t - (tb_start t - n) = n + (tb_end t - tb_start t)"
    using le assms(1) by (auto simp: tb_ok_def)
  then show "tb_view t' = take n (drop (tb_start t - n) (tb_buf t)) @ tb_view t"
    using le t' by (simp add: tb_view_def take_add)
qed

lemma tb_advance_view:
  assumes "tb_ok t" "tb_advance_head n t = Inr t'"
  shows "tb_ok t'" "tb_view t' = drop n (tb_view t)" "n \<le> length (tb_view t)"
proof -
  have le: "n \<le> length (tb_view t)" and t': "t' = t\<lparr>tb_start := tb_start t + n\<rparr>"
    using assms by (auto simp: tb_advance_head_def split: if_splits)
  show "n \<le> length (tb_view t)" by (rule le)
  show "tb_ok t'" using assms(1) le t' by (auto simp: tb_ok_def length_tb_view)
  show "tb_view t' = drop n (tb_view t)"
    using t' by (simp add: tb_view_def drop_take add.commute)
qed

lemma tb_resize_view [transmission_simps]:
  assumes "tb_ok t"
  shows "tb_ok (tb_resize al n v t)"
    "tb_view (tb_resize al n v t) = resize_list n v (drop (tb_start t) (tb_buf t))"
  using assms
  by (auto simp: tb_ok_def tb_view_def tb_resize_def tb_buf_resize_def Let_def resize_list_def
    drop_take)

lemma tb_extend_view:
  assumes "tb_ok t"
  shows "tb_ok (tb_extend_end al n t)"
    "\<exists>pad. length pad = n \<and> tb_view (tb_extend_end al n t) = tb_view t @ pad"
proof -
  let ?t = "tb_extend_end al n t"
  show ok: "tb_ok ?t"
    using assms by (auto simp: tb_ok_def tb_extend_end_def tb_buf_resize_def Let_def)
  have "take (length (tb_view t)) (tb_view ?t) = tb_view t"
    using assms by (auto simp: tb_ok_def tb_extend_end_def tb_buf_resize_def Let_def tb_view_def
      resize_list_def drop_take min_def)
  moreover have "length (tb_view ?t) = length (tb_view t) + n"
    using assms ok by (auto simp: length_tb_view tb_ok_def tb_extend_end_def tb_buf_resize_def Let_def)
  ultimately show "\<exists>pad. length pad = n \<and> tb_view ?t = tb_view t @ pad"
    by (intro exI [of _ "drop (length (tb_view t)) (tb_view ?t)"]) (metis append_take_drop_id
      add_diff_cancel_left' length_drop)
qed

lemma tb_extend_full:
  assumes "tb_ok t" "tb_end t = length (tb_buf t)"
  shows "tb_view (tb_extend_end al n t) = tb_view t @ replicate n 0"
    "tb_end (tb_extend_end al n t) = length (tb_buf (tb_extend_end al n t))"
  using assms
  by (auto simp: tb_ok_def tb_extend_end_def tb_buf_resize_def Let_def tb_view_def resize_list_def)

lemma tb_shrink_view [transmission_simps]:
  assumes "tb_ok t"
  shows "tb_ok (tb_shrink_end n t)"
    "tb_view (tb_shrink_end n t) = take (length (tb_view t) - n) (tb_view t)"
proof -
  show "tb_ok (tb_shrink_end n t)"
    using assms by (auto simp: tb_ok_def tb_shrink_end_def)
  have "tb_view (tb_shrink_end n t)
      = take (tb_end t - tb_start t - n) (drop (tb_start t) (tb_buf t))"
    by (simp add: tb_shrink_end_def tb_view_def add.commute)
  then show "tb_view (tb_shrink_end n t) = take (length (tb_view t) - n) (tb_view t)"
    using assms by (simp add: length_tb_view) (simp add: tb_view_def)
qed

lemma tb_into_bytes_view [transmission_simps]: "tb_ok t \<Longrightarrow> tb_into_bytes t = Inr (tb_view t)"
  by (auto simp: tb_ok_def tb_into_bytes_def tb_view_def Let_def drop_take)

lemma tb_set_len_view:
  assumes "tb_start t + n \<le> length (tb_buf t)" "tb_cap_ok t"
  shows "\<exists>t'. tb_set_len n t = Inr t' \<and> tb_ok t' \<and> tb_view t' = take n (drop (tb_start t) (tb_buf t))"
  using assms by (auto simp: tb_set_len_def tb_cap_ok_def tb_ok_def tb_view_def)

section \<open>Call sequences\<close>

text \<open>
  The public mutators that return \<open>Err\<close> leave the buffer as it was, so a caller that carries on
  works on the old one; a panic ends the run. \<open>set_len\<close> is left out: it checks the capacity and
  not the length (section Properties).
\<close>

datatype tb_op =
  OpPut bytes | OpRetreat nat | OpAdvance nat | OpResize nat u8 | OpExtend nat | OpShrink nat
  | OpClear

fun tb_apply :: "(nat \<Rightarrow> nat) \<Rightarrow> tb_op \<Rightarrow> TransmissionBytes \<Rightarrow> TransmissionBytes result" where
  "tb_apply al (OpPut d) t = tb_put d t"
| "tb_apply al (OpRetreat n) t = tb_retreat_head n t"
| "tb_apply al (OpAdvance n) t = tb_advance_head n t"
| "tb_apply al (OpResize n v) t = Inr (tb_resize al n v t)"
| "tb_apply al (OpExtend n) t = Inr (tb_extend_end al n t)"
| "tb_apply al (OpShrink n) t = Inr (tb_shrink_end n t)"
| "tb_apply al OpClear t = Inr (tb_clear t)"

fun tb_run :: "(nat \<Rightarrow> nat) \<Rightarrow> tb_op list \<Rightarrow> TransmissionBytes \<Rightarrow> TransmissionBytes result" where
  "tb_run al [] t = Inr t"
| "tb_run al (x # xs) t =
     (case tb_apply al x t of
        Inr t' \<Rightarrow> tb_run al xs t'
      | Inl Panic \<Rightarrow> Inl Panic
      | Inl e \<Rightarrow> tb_run al xs t)"

lemma tb_clear_ok: "tb_ok (tb_clear t)"
  by (simp add: tb_clear_def tb_ok_def)

lemma tb_end_le_cap: "tb_ok t \<Longrightarrow> tb_cap_ok t \<Longrightarrow> tb_end t \<le> tb_cap t"
  by (simp add: tb_ok_def tb_cap_ok_def)

lemma tb_apply_ok: "tb_ok t \<Longrightarrow> tb_apply al x t = Inr t' \<Longrightarrow> tb_ok t'"
  by (cases x) (auto dest: tb_put_view tb_retreat_view tb_advance_view
      simp: tb_resize_view tb_extend_view tb_shrink_view tb_clear_ok)

lemma tb_run_ok: "tb_ok t \<Longrightarrow> tb_run al xs t = Inr t' \<Longrightarrow> tb_ok t'"
proof (induction xs arbitrary: t)
  case Nil
  then show ?case by simp
next
  case (Cons x xs)
  then show ?case
    by (auto split: sum.splits rust_error.splits dest: tb_apply_ok)
qed

lemma tb_apply_panic:
  "tb_ok t \<Longrightarrow> tb_cap_ok t \<Longrightarrow> tb_apply al x t = Inl Panic \<Longrightarrow>
    \<exists>d. x = OpPut d \<and> length (tb_buf t) < tb_end t + length d \<and> tb_end t + length d \<le> tb_cap t"
  using tb_end_le_cap [of t]
  by (cases x) (auto simp: tb_put_cases tb_retreat_head_def tb_advance_head_def split: if_splits)

section \<open>The buffer interface of the packet code\<close>

text \<open>
  \<open>PacketCrypto\<close> and \<open>NetPacket\<close> are generic in the buffer; they use it through
  \<open>AsRef\<close>/\<open>AsMut\<close> (\<open>view\<close>, \<open>write\<close>) and \<open>ExtendEnd\<close>/\<open>ShrinkEnd\<close>.
\<close>

locale byte_buffer =
  fixes ok :: "'b \<Rightarrow> bool"
    and view :: "'b \<Rightarrow> bytes"
    and "write" :: "bytes \<Rightarrow> 'b \<Rightarrow> 'b"
    and extend :: "nat \<Rightarrow> 'b \<Rightarrow> 'b"
    and shrink :: "nat \<Rightarrow> 'b \<Rightarrow> 'b"
  assumes ok_write: "ok b \<Longrightarrow> length v = length (view b) \<Longrightarrow> ok (write v b)"
    and view_write: "ok b \<Longrightarrow> length v = length (view b) \<Longrightarrow> view (write v b) = v"
    and ok_extend: "ok b \<Longrightarrow> ok (extend n b)"
    and view_extend: "ok b \<Longrightarrow> \<exists>pad. length pad = n \<and> view (extend n b) = view b @ pad"
    and ok_shrink: "ok b \<Longrightarrow> ok (shrink n b)"
    and view_shrink: "ok b \<Longrightarrow> view (shrink n b) = take (length (view b) - n) (view b)"
begin

lemma length_view_extend: "ok b \<Longrightarrow> length (view (extend n b)) = length (view b) + n"
  using view_extend [of b n] by auto

lemma take_view_extend: "ok b \<Longrightarrow> take (length (view b)) (view (extend n b)) = view b"
  using view_extend [of b n] by auto

text \<open>Appending a trailer in the extended room and shrinking it away again is the identity.\<close>

lemma seal_then_open:
  assumes "ok b" "length w = length (view b)" "length tag = n"
  shows "view (shrink n (write (w @ tag) (extend n b))) = w"
proof -
  have "length (w @ tag) = length (view (extend n b))"
    using assms by (simp add: length_view_extend)
  then show ?thesis
    using assms by (simp add: view_shrink ok_write ok_extend view_write)
qed

lemma extend_write_view:
  assumes "ok b" "length w = length (view b)" "length tag = n"
  shows "view (write (w @ tag) (extend n b)) = w @ tag" "ok (write (w @ tag) (extend n b))"
  using assms by (simp_all add: view_write ok_write ok_extend length_view_extend)

end

interpretation tbuf: byte_buffer tb_ok tb_view tb_write "tb_extend_end al" tb_shrink_end
  for al
  by unfold_locales
    (simp_all add: tb_write_ok tb_extend_view tb_shrink_view)

section \<open>Properties\<close>

text \<open>Windows stay inside the buffer: from a well-formed buffer, any sequence of the public mutators,
  rejected calls being ignored by the caller, either panics in a \<open>put\<close> or ends in a well-formed buffer
  whose \<open>as_slice\<close>, \<open>len\<close> and \<open>into_bytes\<close> do not panic and agree on the same bytes.\<close>

theorem tb_run_window:
  assumes "tb_ok t" "tb_run al xs t = Inr t'"
  shows "tb_ok t' \<and> tb_as_slice t' = Inr (tb_view t') \<and> tb_len t' = Inr (length (tb_view t')) \<and>
    tb_into_bytes t' = Inr (tb_view t')"
  using tb_run_ok [OF assms] by (simp add: tb_into_bytes_view)

theorem tb_run_window_witness:
  "let t' = \<lparr>tb_buf = [0, 1, 2, 3, 4, 9], tb_cap = 6, tb_start = 2, tb_end = 6\<rparr> in
   tb_run (\<lambda>n. n) [OpShrink 1, OpPut [9], OpAdvance 1, OpRetreat 7, OpAdvance 1]
     (tb_from_slice (\<lambda>n. n) [0, 1, 2, 3, 4, 5]) = Inr t' \<and> tb_as_slice t' = Inr (tb_view t')"
proof -
  let ?t' = "\<lparr>tb_buf = [0, 1, 2, 3, 4, 9], tb_cap = 6, tb_start = 2, tb_end = 6\<rparr>"
  have r: "tb_run (\<lambda>n. n) [OpShrink 1, OpPut [9], OpAdvance 1, OpRetreat 7, OpAdvance 1]
     (tb_from_slice (\<lambda>n. n) [0, 1, 2, 3, 4, 5]) = Inr ?t'"
    by (simp add: tb_from_slice_def tb_shrink_end_def tb_put_def tb_tail_room_def write_slice_def
      tb_advance_head_def tb_len_def tb_retreat_head_def tb_head_room_def)
  show ?thesis using r tb_run_window [OF _ r] by (simp add: transmission_simps)
qed

text \<open>Framing: a payload of up to 2032 bytes put into a buffer made with 16 bytes of head room and then
  extended at the front is accepted by \<open>NetPacket::new\<close>, and its payload is that payload; a longer one
  is rejected or panics, never truncated.\<close>

theorem header_framing:
  assumes "\<And>n. n \<le> al n"
  shows "if length d \<le> 2032
    then \<exists>t. and_then (tb_put d (tb_new_offset al HEAD_LENGTH)) (tb_retreat_head HEAD_LENGTH) = Inr t \<and>
           tb_ok t \<and> NetPacket_new (tb_view t) = Inr (tb_view t) \<and> payload (tb_view t) = d \<and>
           take 16 (tb_view t) = replicate 16 0
    else tb_put d (tb_new_offset al HEAD_LENGTH) \<in> {Inl InvalidInput, Inl Panic}"
proof -
  let ?t = "tb_new_offset al 16"
  have ok: "tb_ok ?t" "tb_cap_ok ?t"
    using assms [of 2048] by (simp_all add: tb_ok_def tb_cap_ok_def tb_new_offset_def DEFAULT_BUF_SIZE_def)
  have f: "tb_end ?t = 16" "length (tb_buf ?t) = 2048" "tb_start ?t = 16" "2048 \<le> tb_cap ?t"
    "tb_buf ?t = replicate 2048 0"
    using assms [of 2048] by (simp_all add: tb_new_offset_def DEFAULT_BUF_SIZE_def)
  show ?thesis
  proof (cases "length d \<le> 2032")
    case True
    let ?p = "?t\<lparr>tb_buf := write_slice 16 d (tb_buf ?t), tb_end := 16 + length d\<rparr>"
    have put: "tb_put d ?t = Inr ?p" using True f by (simp add: tb_put_cases [OF ok])
    note p = tb_put_view [OF ok(1) put]
    have view: "tb_view ?p = d" using p(2) by (simp add: transmission_simps)
    obtain t where t: "tb_retreat_head 16 ?p = Inr t"
      using f by (simp add: tb_retreat_head_def tb_head_room_def)
    note r = tb_retreat_view [OF p(1) t]
    have "take 16 (write_slice 16 d (tb_buf ?t)) = replicate 16 0"
      using f True by (simp add: min_def)
    then have v: "tb_view t = replicate 16 0 @ d" using r(2) view f by simp
    then show ?thesis using True put t r(1) by (simp add: payload_def)
  next
    case False
    then show ?thesis using f by (simp add: tb_put_cases [OF ok])
  qed
qed

theorem header_framing_witness:
  "\<exists>t. and_then (tb_put [1, 2] (tb_new_offset (\<lambda>n. 2 * n) HEAD_LENGTH)) (tb_retreat_head HEAD_LENGTH) = Inr t \<and>
     tb_ok t \<and> NetPacket_new (tb_view t) = Inr (tb_view t) \<and> payload (tb_view t) = [1, 2] \<and>
     take 16 (tb_view t) = replicate 16 0"
  using header_framing [of "\<lambda>n. 2 * n" "[1, 2]"] by simp

text \<open>Two checks look at the capacity where the length counts: on a well-formed buffer whose capacity
  exceeds its length, \<open>set_len\<close> accepts every window end up to the capacity, after which \<open>as_slice\<close>
  panics, and \<open>put\<close> accepts data that fits the capacity only and panics.\<close>

theorem tb_capacity_checks_panic:
  assumes "tb_ok t" "length (tb_buf t) < tb_end t + length d" "tb_end t + length d \<le> tb_cap t"
  shows "tb_put d t = Inl Panic \<and>
    (\<exists>t'. tb_set_len (tb_end t - tb_start t + length d) t = Inr t' \<and> tb_as_slice t' = Inl Panic)"
  using assms by (auto simp: tb_put_def tb_tail_room_def tb_set_len_def tb_as_slice_def tb_ok_def)

theorem tb_capacity_checks_panic_witness:
  "tb_put [7, 8] (tb_from_slice (\<lambda>n. n + 64) [1, 2, 3]) = Inl Panic"
  using tb_capacity_checks_panic [of "tb_from_slice (\<lambda>n. n + 64) [1, 2, 3]" "[7, 8]"]
  by (simp add: tb_from_slice_def tb_ok_def)

end
