(* ===== verification/Codec.thy ===== *)
theory Codec
  imports Transmission
begin

text \<open>
  Payload compression and encryption, \<open>vnt/vnt-core/src/compression/\<close> and
  \<open>vnt/vnt-core/src/crypto/\<close>.

  The third-party primitives are parameters: \<open>lz_c\<close>, \<open>lz_d\<close> for \<open>lz4_flex\<close>
  (\<open>compress_prepend_size\<close>, \<open>decompress_size_prepended\<close>) and \<open>seal\<close>, \<open>unseal\<close> for \<open>ring\<close>'s
  ChaCha20-Poly1305 (\<open>seal_in_place_separate_tag\<close>, \<open>open_in_place\<close>, with empty associated data).
  What the code relies on are the hypotheses \<open>lz_ok\<close> and \<open>aead_ok\<close>.
\<close>

section \<open>Compression\<close>

definition lz_ok :: "(bytes \<Rightarrow> bytes) \<Rightarrow> (bytes \<Rightarrow> bytes option) \<Rightarrow> bool" where
  "lz_ok lz_c lz_d \<longleftrightarrow> (\<forall>x. lz_d (lz_c x) = Some x)"

record LZ4Compression =
  min_size :: nat

definition LZ4Compression_new :: LZ4Compression where
  "LZ4Compression_new = \<lparr>min_size = 256\<rparr>"

definition lz4_compress ::
    "(nat \<Rightarrow> nat) \<Rightarrow> (bytes \<Rightarrow> bytes) \<Rightarrow> LZ4Compression \<Rightarrow> TransmissionBytes \<Rightarrow> nat
      \<Rightarrow> TransmissionBytes result" where
  "lz4_compress al lz_c self pkt reserve =
     (let v = tb_view pkt; pl = payload v in
      if length pl < min_size self then Inr pkt
      else
        (let compressed = lz_c pl in
         if length compressed \<ge> length pl then Inr pkt
         else
           (let total_len = HEAD_LENGTH + length compressed;
                buf = tb_write (take HEAD_LENGTH v @ compressed) (tb_zeroed_size al total_len reserve)
            in and_then (NetPacket_new (tb_view buf))
                 (\<lambda>p. Inr (tb_write (set_compressed_flag True p) buf)))))"

definition lz4_decompress ::
    "(nat \<Rightarrow> nat) \<Rightarrow> (bytes \<Rightarrow> bytes option) \<Rightarrow> TransmissionBytes \<Rightarrow> TransmissionBytes result" where
  "lz4_decompress al lz_d pkt =
     (let v = tb_view pkt in
      if \<not> is_compressed v then Inr pkt
      else
        (case lz_d (payload v) of
           None \<Rightarrow> Inl InvalidData
         | Some decompressed \<Rightarrow>
             (let total_len = HEAD_LENGTH + length decompressed;
                  buf = tb_write (take HEAD_LENGTH v @ decompressed) (tb_zeroed al total_len)
              in and_then (NetPacket_new (tb_view buf))
                   (\<lambda>p. Inr (tb_write (set_compressed_flag False p) buf)))))"

text \<open>\<open>PacketCompression { compression: Option<LZ4Compression> }\<close>.\<close>

type_synonym PacketCompression = "LZ4Compression option"

definition PacketCompression_new :: "bool \<Rightarrow> PacketCompression" where
  "PacketCompression_new enabled = (if enabled then Some LZ4Compression_new else None)"

definition pc_compress ::
    "(nat \<Rightarrow> nat) \<Rightarrow> (bytes \<Rightarrow> bytes) \<Rightarrow> PacketCompression \<Rightarrow> TransmissionBytes \<Rightarrow> nat
      \<Rightarrow> TransmissionBytes result" where
  "pc_compress al lz_c self pkt reserve =
     (case self of Some c \<Rightarrow> lz4_compress al lz_c c pkt reserve | None \<Rightarrow> Inr pkt)"

definition pc_decompress ::
    "(nat \<Rightarrow> nat) \<Rightarrow> (bytes \<Rightarrow> bytes option) \<Rightarrow> PacketCompression \<Rightarrow> TransmissionBytes
      \<Rightarrow> TransmissionBytes result" where
  "pc_decompress al lz_d self pkt =
     (case self of Some _ \<Rightarrow> lz4_decompress al lz_d pkt | None \<Rightarrow> Inr pkt)"

section \<open>Encryption\<close>

definition TAG_LEN :: nat where "TAG_LEN = 16"

lemma TAG_LEN_eq [simp]: "TAG_LEN = 16"
  by (simp add: TAG_LEN_def)

text \<open>
  \<open>seal key nonce plaintext\<close> is the ciphertext and the tag; \<open>unseal key nonce (ciphertext @ tag)\<close>
  is the plaintext, if the tag is right.
\<close>

type_synonym 'key seal = "'key \<Rightarrow> bytes \<Rightarrow> bytes \<Rightarrow> (bytes \<times> bytes) option"
type_synonym 'key unseal = "'key \<Rightarrow> bytes \<Rightarrow> bytes \<Rightarrow> bytes option"

definition aead_ok :: "'key seal \<Rightarrow> 'key unseal \<Rightarrow> bool" where
  "aead_ok seal unseal \<longleftrightarrow>
     (\<forall>k n pt ct tag. seal k n pt = Some (ct, tag) \<longrightarrow>
        length ct = length pt \<and> length tag = TAG_LEN \<and> unseal k n (ct @ tag) = Some pt)"

definition make_nonce :: "bytes \<Rightarrow> bytes result" where
  "make_nonce buf =
     (if length buf < HEAD_LENGTH then Inl InvalidInput
      else
        (let mt = buf ! 0;
             sq = take 4 (drop 4 buf);
             src = take 4 (drop 8 buf);
             dst = take 4 (drop 12 buf)
         in Inr ((sq @ dst @ src)[0 := mt])))"

text \<open>The inner \<open>PacketCrypto\<close> of \<open>chacha20_poly1305.rs\<close>, on the bytes of the packet.\<close>

definition raw_encrypt_in_place :: "'key seal \<Rightarrow> 'key \<Rightarrow> bytes \<Rightarrow> bytes result" where
  "raw_encrypt_in_place seal k pkt =
     and_then (make_nonce pkt) (\<lambda>nonce.
       let pl = payload pkt in
       if length pl < TAG_LEN then Inl Panic
       else
         (let payload_len = length pl - TAG_LEN in
          case seal k nonce (take payload_len pl) of
            None \<Rightarrow> Inl IoOther
          | Some (ct, tag) \<Rightarrow> Inr (take HEAD_LENGTH pkt @ ct @ tag)))"

definition raw_decrypt_in_place :: "'key unseal \<Rightarrow> 'key \<Rightarrow> bytes \<Rightarrow> (bytes \<times> nat) result" where
  "raw_decrypt_in_place unseal k pkt =
     and_then (make_nonce pkt) (\<lambda>nonce.
       let pl = payload pkt in
       case unseal k nonce pl of
         None \<Rightarrow> Inl IoOther
       | Some pt \<Rightarrow> Inr (take HEAD_LENGTH pkt @ write_slice 0 pt pl, length pt))"

text \<open>The outer \<open>PacketCrypto { crypto: Option<..> }\<close> of \<open>crypto/mod.rs\<close>.\<close>

definition encrypt_reserve :: "'key option \<Rightarrow> nat" where
  "encrypt_reserve crypto = (if crypto \<noteq> None then TAG_LEN else 0)"

definition encrypt_in_place ::
    "(nat \<Rightarrow> nat) \<Rightarrow> 'key seal \<Rightarrow> 'key option \<Rightarrow> TransmissionBytes \<Rightarrow> TransmissionBytes result" where
  "encrypt_in_place al seal crypto pkt =
     (case crypto of
        None \<Rightarrow> Inr pkt
      | Some k \<Rightarrow>
          (let pkt = tb_extend_end al TAG_LEN pkt in
           and_then (raw_encrypt_in_place seal k (tb_view pkt)) (\<lambda>v. Inr (tb_write v pkt))))"

definition decrypt_in_place ::
    "'key unseal \<Rightarrow> 'key option \<Rightarrow> TransmissionBytes \<Rightarrow> TransmissionBytes result" where
  "decrypt_in_place unseal crypto pkt =
     (case crypto of
        None \<Rightarrow> Inr pkt
      | Some k \<Rightarrow>
          and_then (raw_decrypt_in_place unseal k (tb_view pkt))
            (\<lambda>(v, _). Inr (tb_shrink_end TAG_LEN (tb_write v pkt))))"

section \<open>Nonces\<close>

lemma make_nonce_ok:
  "16 \<le> length b \<Longrightarrow> make_nonce b =
    Inr (b ! 0 # take 3 (drop 5 b) @ take 4 (drop 12 b) @ take 4 (drop 8 b))"
proof -
  assume "16 \<le> length b"
  then have "take 4 (drop 4 b) = b ! 4 # take 3 (drop 5 b)"
    by (simp add: take_Cons' numeral_eq_Suc flip: Cons_nth_drop_Suc)
  with \<open>16 \<le> length b\<close> show ?thesis by (simp add: make_nonce_def Let_def)
qed

text \<open>The nonce does not read the TTL and flags bytes, so a relay may change them.\<close>

lemma make_nonce_cong:
  assumes "16 \<le> length p" "16 \<le> length q" "type_byte (header p) = type_byte (header q)"
    "seq p = seq q" "src_id p = src_id q" "dest_id p = dest_id q"
  shows "make_nonce p = make_nonce q"
proof -
  have eq: "take 4 (drop i p) = take 4 (drop i q)"
    if "(word_of_nat (be_dec (take 4 (drop i p))) :: u32) = word_of_nat (be_dec (take 4 (drop i q)))"
      "i \<in> {4, 8, 12}" for i
  proof -
    have "be_enc 4 (unat (word_of_nat (be_dec (take 4 (drop i p))) :: u32))
        = be_enc 4 (unat (word_of_nat (be_dec (take 4 (drop i q))) :: u32))"
      using that(1) by simp
    then show ?thesis using that(2) assms(1,2) by (auto simp: be_u32_enc)
  qed
  have "p ! 0 = q ! 0" using assms(3) by (simp add: header_def)
  moreover have "take 4 (drop 4 p) = take 4 (drop 4 q)" "take 4 (drop 8 p) = take 4 (drop 8 q)"
    "take 4 (drop 12 p) = take 4 (drop 12 q)"
    using eq assms(4-6) by (simp_all add: seq_def src_id_def dest_id_def header_def)
  ultimately show ?thesis using assms(1,2) by (simp add: make_nonce_def Let_def)
qed

lemma type_byte_relay [simp]:
  "type_byte (header (decr_ttl p)) = type_byte (header p)"
  "type_byte (header (set_ttl t p)) = type_byte (header p)"
  "type_byte (header (set_gateway_flag g p)) = type_byte (header p)"
  by (simp_all add: decr_ttl_def set_ttl_def set_gateway_flag_def hdr_decr_ttl_def hdr_set_ttl_def
      Let_def)

section \<open>Compression round trip\<close>

lemma lz4_compress_cases:
  assumes "tb_ok pkt" "16 \<le> length (tb_view pkt)"
  shows "lz4_compress al lz_c c pkt reserve = Inr pkt \<or>
    (\<exists>q. lz4_compress al lz_c c pkt reserve = Inr q \<and> tb_ok q \<and>
      length (lz_c (payload (tb_view pkt))) < length (payload (tb_view pkt)) \<and>
      tb_view q = set_compressed_flag True (take 16 (tb_view pkt) @ lz_c (payload (tb_view pkt))))"
proof -
  let ?v = "tb_view pkt" and ?z = "lz_c (payload (tb_view pkt))"
  let ?b = "tb_write (take 16 ?v @ ?z) (tb_zeroed_size al (16 + length ?z) reserve)"
  have b: "tb_ok ?b" "tb_view ?b = take 16 ?v @ ?z"
    using assms(2) by (simp_all add: tb_write_ok tb_constructors_ok tb_constructors_view)
  have "tb_ok (tb_write (set_compressed_flag True (take 16 ?v @ ?z)) ?b)"
    "tb_view (tb_write (set_compressed_flag True (take 16 ?v @ ?z)) ?b)
      = set_compressed_flag True (take 16 ?v @ ?z)"
    using b assms(2) by (simp_all add: tb_write_ok length_mutators)
  then show ?thesis
    using b(2) assms(2) by (auto simp: lz4_compress_def Let_def)
qed

lemma lz4_decompress_plain:
  "\<not> is_compressed (tb_view pkt) \<Longrightarrow> lz4_decompress al lz_d pkt = Inr pkt"
  by (simp add: lz4_decompress_def Let_def)

lemma lz4_decompress_packed:
  assumes "is_compressed (tb_view pkt)" "lz_d (payload (tb_view pkt)) = Some d"
    "16 \<le> length (tb_view pkt)"
  shows "\<exists>q. lz4_decompress al lz_d pkt = Inr q \<and> tb_ok q \<and>
    tb_view q = set_compressed_flag False (take 16 (tb_view pkt) @ d)"
proof -
  let ?v = "tb_view pkt"
  let ?b = "tb_write (take 16 ?v @ d) (tb_zeroed al (16 + length d))"
  have b: "tb_ok ?b" "tb_view ?b = take 16 ?v @ d"
    using assms(3) by (simp_all add: tb_write_ok tb_constructors_ok tb_constructors_view)
  have "tb_ok (tb_write (set_compressed_flag False (take 16 ?v @ d)) ?b)"
    "tb_view (tb_write (set_compressed_flag False (take 16 ?v @ d)) ?b)
      = set_compressed_flag False (take 16 ?v @ d)"
    using b assms(3) by (simp_all add: tb_write_ok length_mutators)
  then show ?thesis
    using b(2) assms by (auto simp: lz4_decompress_def Let_def)
qed

lemma clear_compressed_flag:
  assumes "16 \<le> length v" "\<not> is_compressed v"
  shows "header (set_compressed_flag False (set_compressed_flag True v)) = header v"
  using assms by (simp add: set_compressed_flag_def is_compressed_def set_flag_clear)

text \<open>Compression round trip: with compression enabled on both sides a packet that is not yet flagged
  survives \<open>compress\<close> and \<open>decompress\<close> byte for byte, neither call fails, the compressed packet is
  never longer than the original, and the flag tells the receiver whether it was compressed.\<close>

theorem compression_roundtrip:
  assumes "lz_ok lz_c lz_d" "tb_ok pkt" "16 \<le> length (tb_view pkt)" "\<not> is_compressed (tb_view pkt)"
  shows "\<exists>q r. pc_compress al lz_c (Some c) pkt reserve = Inr q \<and>
    pc_decompress al lz_d (Some c') q = Inr r \<and> tb_view r = tb_view pkt \<and>
    length (tb_view q) \<le> length (tb_view pkt) \<and> (is_compressed (tb_view q) \<longleftrightarrow> q \<noteq> pkt)"
proof (cases "lz4_compress al lz_c c pkt reserve = Inr pkt")
  case True
  then show ?thesis
    using assms(4) by (auto simp: pc_compress_def pc_decompress_def lz4_decompress_plain)
next
  case False
  let ?v = "tb_view pkt" and ?z = "lz_c (payload (tb_view pkt))"
  obtain q where q: "lz4_compress al lz_c c pkt reserve = Inr q" "tb_ok q"
    "length ?z < length (payload ?v)" "tb_view q = set_compressed_flag True (take 16 ?v @ ?z)"
    using lz4_compress_cases [OF assms(2,3), of al lz_c c reserve] False by blast
  have len: "length (tb_view q) = 16 + length ?z" using q(4) assms(3) by simp
  have pl: "payload (tb_view q) = ?z" using q(4) assms(3) by simp
  have "lz_d ?z = Some (payload ?v)" using assms(1) by (simp add: lz_ok_def)
  then obtain r where r: "lz4_decompress al lz_d q = Inr r"
    "tb_view r = set_compressed_flag False (take 16 (tb_view q) @ payload ?v)"
    using lz4_decompress_packed [of q lz_d "payload ?v" al] q(4) pl len by auto
  have "tb_view r = ?v"
  proof (rule packet_eqI)
    show "header (tb_view r) = header ?v"
      using r(2) q(4) len assms(3,4) clear_compressed_flag [of ?v]
      by (simp add: set_compressed_flag_def)
  qed (use r(2) assms(3) len in \<open>simp_all add: length_payload\<close>)
  moreover have "length (tb_view q) \<le> length ?v"
    using len q(3) assms(3) by (simp add: length_payload)
  moreover have c: "is_compressed (tb_view q)" by (simp add: q(4))
  moreover have "q \<noteq> pkt" using c assms(4) by blast
  ultimately show ?thesis
    using q(1) r(1) by (auto simp: pc_compress_def pc_decompress_def)
qed

text \<open>The receiver's switch matters too: a node with compression disabled passes a compressed packet
  on unchanged, still compressed, instead of rejecting or inflating it.\<close>

theorem decompress_disabled_passes_through:
  "pc_decompress al lz_d (PacketCompression_new False) q = Inr q"
  by (simp add: pc_decompress_def PacketCompression_new_def)

text \<open>A concrete compressor for the witnesses: it shortens one particular payload.\<close>

definition demo_c :: "bytes \<Rightarrow> bytes" where
  "demo_c x = (if x = replicate 4 7 then [] else 0 # x)"

definition demo_d :: "bytes \<Rightarrow> bytes option" where
  "demo_d y = (case y of [] \<Rightarrow> Some (replicate 4 7) | _ # x \<Rightarrow> Some x)"

lemma demo_lz_ok: "lz_ok demo_c demo_d"
  by (simp add: lz_ok_def demo_c_def demo_d_def)

theorem compression_roundtrip_witness:
  "\<exists>q r. pc_compress id demo_c (Some \<lparr>min_size = 3\<rparr>)
      (tb_from_slice id (replicate 16 0 @ replicate 4 7)) 0 = Inr q \<and> length (tb_view q) \<le> 20 \<and>
    pc_decompress id demo_d (Some \<lparr>min_size = 3\<rparr>) q = Inr r \<and>
    tb_view r = replicate 16 0 @ replicate 4 7"
proof -
  let ?t = "tb_from_slice id (replicate 16 0 @ replicate 4 7)"
  have "\<not> is_compressed (tb_view ?t)"
    by (simp add: tb_constructors_view is_compressed_def header_def nth_append)
  then show ?thesis
    using compression_roundtrip [OF demo_lz_ok, of ?t id "\<lparr>min_size = 3\<rparr>" 0 "\<lparr>min_size = 3\<rparr>"]
    by (auto simp: tb_constructors_ok tb_constructors_view)
qed

section \<open>Encryption round trip\<close>

lemma raw_encrypt_Inr:
  assumes "raw_encrypt_in_place seal k (p @ pad) = Inr v" "length pad = 16" "16 \<le> length p"
  shows "\<exists>n ct tag. make_nonce p = Inr n \<and> seal k n (payload p) = Some (ct, tag) \<and>
    v = take 16 p @ ct @ tag"
proof -
  have "make_nonce (p @ pad) = make_nonce p"
    using assms(3) by (intro make_nonce_cong)
      (auto simp: header_def seq_def src_id_def dest_id_def nth_append)
  then show ?thesis
    using assms by (auto simp: raw_encrypt_in_place_def Let_def payload_append split: option.splits)
qed

lemma encrypt_Inr:
  assumes "aead_ok seal unseal" "tb_ok pkt" "16 \<le> length (tb_view pkt)"
    and "encrypt_in_place al seal (Some k) pkt = Inr q"
  shows "\<exists>n ct tag. make_nonce (tb_view pkt) = Inr n \<and>
    seal k n (payload (tb_view pkt)) = Some (ct, tag) \<and> length ct = length (payload (tb_view pkt)) \<and>
    length tag = 16 \<and> tb_view q = take 16 (tb_view pkt) @ ct @ tag \<and> tb_ok q"
proof -
  let ?v = "tb_view pkt" and ?e = "tb_extend_end al 16 pkt"
  obtain pad where pad: "length pad = 16" "tb_view ?e = ?v @ pad"
    using tbuf.view_extend [OF assms(2), where al = al and n = 16] by blast
  obtain v where v: "raw_encrypt_in_place seal k (?v @ pad) = Inr v" "q = tb_write v ?e"
    using assms(4) pad(2) by (auto simp: encrypt_in_place_def Let_def)
  obtain n ct tag where n: "make_nonce ?v = Inr n" "seal k n (payload ?v) = Some (ct, tag)"
    "v = take 16 ?v @ ct @ tag"
    using raw_encrypt_Inr [OF v(1) pad(1) assms(3)] by blast
  have len: "length ct = length (payload ?v)" "length tag = 16"
    using assms(1) n(2) by (auto simp: aead_ok_def)
  have "length (take 16 ?v @ ct) = length ?v"
    using len(1) assms(3) by (simp add: length_payload)
  then show ?thesis
    using n len v(2) tbuf.extend_write_view [OF assms(2), of "take 16 ?v @ ct" tag 16 al] by auto
qed

lemma decrypt_sealed:
  assumes "aead_ok seal unseal" "tb_ok q" "16 \<le> length p" "make_nonce (tb_view q) = Inr n"
    and "seal k n (payload p) = Some (ct, tag)" "tb_view q = take 16 h @ ct @ tag" "16 \<le> length h"
  shows "\<exists>r. decrypt_in_place unseal (Some k) q = Inr r \<and> tb_ok r \<and>
    tb_view r = take 16 h @ payload p"
proof -
  have s: "length ct = length (payload p)" "length tag = 16" "unseal k n (ct @ tag) = Some (payload p)"
    using assms(1,5) by (auto simp: aead_ok_def)
  have pl: "payload (tb_view q) = ct @ tag" "take 16 (tb_view q) = take 16 h"
    using assms(6,7) by simp_all
  have w: "write_slice 0 (payload p) (ct @ tag) = payload p @ tag"
    using s(1) by (simp add: write_slice_def)
  let ?w = "take 16 h @ payload p @ tag"
  have "length ?w = length (tb_view q)"
    using assms(6,7) s(1) by simp
  then have "tb_ok (tb_write ?w q)" "tb_view (tb_write ?w q) = ?w"
    using assms(2) by (simp_all add: tb_write_ok)
  then have "tb_ok (tb_shrink_end 16 (tb_write ?w q))"
    "tb_view (tb_shrink_end 16 (tb_write ?w q)) = take 16 h @ payload p"
    using s(2) assms(7) by (simp_all add: tb_shrink_view)
  then show ?thesis
    using assms(4) pl s(3) w
    by (simp add: decrypt_in_place_def raw_decrypt_in_place_def Let_def)
qed

text \<open>End-to-end encryption survives relaying: whatever a relay does to the TTL, the flags or the
  reserved byte of an encrypted packet, the receiver, in a buffer of its own, decrypts the original
  payload and keeps the relay's header. With no relay change this is the plain round trip.\<close>

theorem encrypt_relay_decrypt:
  assumes "aead_ok seal unseal" "tb_ok pkt" "16 \<le> length (tb_view pkt)"
    and "encrypt_in_place al seal (Some k) pkt = Inr q"
    and "\<And>h. type_byte (f h) = type_byte h \<and> h_seq (f h) = h_seq h \<and> h_src_id (f h) = h_src_id h
      \<and> h_dest_id (f h) = h_dest_id h"
    and "tb_ok q'" "tb_view q' = with_header f (tb_view q)"
  shows "\<exists>r. decrypt_in_place unseal (Some k) q' = Inr r \<and> tb_ok r \<and>
    tb_view r = with_header f (tb_view pkt)"
proof -
  let ?v = "tb_view pkt"
  obtain n ct tag where n: "make_nonce ?v = Inr n" "seal k n (payload ?v) = Some (ct, tag)"
    and q: "tb_view q = take 16 ?v @ ct @ tag"
    using encrypt_Inr [OF assms(1-4)] by blast
  have hd: "header (tb_view q) = header ?v" using q assms(3) by simp
  have h: "take 16 (with_header f ?v) = header_bytes (f (header ?v))" by (simp add: with_header_def)
  have q': "tb_view q' = take 16 (with_header f ?v) @ ct @ tag"
    using assms(3,7) hd q by (simp add: with_header_def)
  have "make_nonce (tb_view q') = make_nonce ?v"
    using assms(3,5) q' by (intro make_nonce_cong) (simp_all add: seq_def src_id_def dest_id_def)
  then obtain r where "decrypt_in_place unseal (Some k) q' = Inr r" "tb_ok r"
    "tb_view r = take 16 (with_header f ?v) @ payload ?v"
    using decrypt_sealed [OF assms(1,6,3) _ n(2) q'] n(1) assms(3) by auto
  then show ?thesis by (simp add: with_header_def payload_def)
qed

text \<open>A concrete cipher for the witness (a one-byte XOR with a constant tag).\<close>

definition demo_seal :: "u8 seal" where
  "demo_seal k n pt = Some (map (\<lambda>b. b XOR k) pt, replicate 16 k)"

definition demo_unseal :: "u8 unseal" where
  "demo_unseal k n x =
     (if drop (length x - 16) x = replicate 16 k
      then Some (map (\<lambda>b. b XOR k) (take (length x - 16) x)) else None)"

lemma demo_aead_ok: "aead_ok demo_seal demo_unseal"
  by (auto simp: aead_ok_def demo_seal_def demo_unseal_def comp_def xor.assoc)

definition demo_packet :: bytes where
  "demo_packet = set_ttl 5 (set_msg_type Turn (replicate 16 0)) @ [1, 2, 3]"

theorem encrypt_relay_decrypt_witness:
  "\<exists>q r. encrypt_in_place id demo_seal (Some 9) (tb_from_slice id demo_packet) = Inr q \<and>
    decrypt_in_place demo_unseal (Some 9) (tb_from_slice id (decr_ttl (tb_view q))) = Inr r \<and>
    tb_view r = decr_ttl demo_packet"
proof -
  let ?p = "tb_from_slice id demo_packet"
  have p: "tb_ok ?p" "16 \<le> length (tb_view ?p)"
    by (simp_all add: tb_constructors_ok tb_constructors_view demo_packet_def)
  let ?e = "tb_extend_end id 16 ?p"
  have "make_nonce (tb_view ?e) \<noteq> Inl e" "\<not> length (payload (tb_view ?e)) < 16" for e
    using tbuf.length_view_extend [OF p(1), of id 16] p(2) by (simp_all add: make_nonce_ok length_payload)
  then obtain q where q: "encrypt_in_place id demo_seal (Some 9) ?p = Inr q"
    using p(2) tbuf.length_view_extend [OF p(1), of id 16]
    by (simp add: encrypt_in_place_def raw_encrypt_in_place_def Let_def demo_seal_def make_nonce_ok)
  have f: "type_byte (hdr_decr_ttl h) = type_byte h \<and> h_seq (hdr_decr_ttl h) = h_seq h \<and>
      h_src_id (hdr_decr_ttl h) = h_src_id h \<and> h_dest_id (hdr_decr_ttl h) = h_dest_id h" for h
    by (simp add: hdr_decr_ttl_def Let_def)
  let ?q' = "tb_from_slice id (decr_ttl (tb_view q))"
  have q': "tb_ok ?q'" "tb_view ?q' = with_header hdr_decr_ttl (tb_view q)"
    by (simp_all add: tb_constructors_ok tb_constructors_view decr_ttl_def)
  show ?thesis
    using encrypt_relay_decrypt [where f = hdr_decr_ttl, OF demo_aead_ok p q f q'] q
    by (auto simp: tb_constructors_view decr_ttl_def)
qed

text \<open>The nonce of a packet is a function of its type byte, the low 24 bits of its sequence number, its
  source and its destination and of nothing else, although the header carries a 32-bit sequence
  number: the type byte overwrites the sequence number's top byte, so sequence numbers that differ
  by a multiple of \<open>2 ^ 24\<close> use the same nonce.\<close>

theorem make_nonce_drops_seq_top_byte:
  assumes "16 \<le> length p"
  shows "make_nonce (set_seq s p) = make_nonce (set_seq s' p) \<longleftrightarrow> take_bit 24 s = take_bit 24 s'"
proof -
  have four: "be_enc 4 n = word_of_nat (n div 256 ^ 3) # be_enc 3 n" for n
    by (subst be_enc_Cons [of 3 n, symmetric]) (simp only: Suc_numeral semiring_norm)
  have h: "set_seq s p = [type_byte (header p), ttl_byte (header p), flags_byte (header p),
        reserved (header p), word_of_nat (unat s div 256 ^ 3)] @ be_enc 3 (unat s)
      @ be_enc 4 (unat (h_src_id (header p))) @ be_enc 4 (unat (h_dest_id (header p))) @ drop 16 p" for s
    by (simp add: set_seq_def with_header_def header_bytes_def four)
  have "make_nonce (set_seq s p) = make_nonce (set_seq s' p) \<longleftrightarrow> be_enc 3 (unat s) = be_enc 3 (unat s')"
    using assms by (simp add: make_nonce_ok) (simp add: h)
  also have "\<dots> \<longleftrightarrow> unat s mod 2 ^ 24 = unat s' mod 2 ^ 24" by (simp add: be_enc_eq_iff)
  also have "\<dots> \<longleftrightarrow> take_bit 24 s = take_bit 24 s'"
    by (simp add: word_unat_eq_iff unsigned_take_bit_eq) (simp add: take_bit_eq_mod)
  finally show ?thesis .
qed

theorem make_nonce_drops_seq_top_byte_witness:
  "make_nonce (set_seq 0x05000001 demo_packet) = make_nonce (set_seq 0x01 demo_packet)"
proof -
  have "16 \<le> length demo_packet" by (simp add: demo_packet_def)
  then show ?thesis
    using make_nonce_drops_seq_top_byte [of demo_packet "0x05000001" "0x01"] by simp
qed

end
