(* ===== verification/Fec.thy ===== *)
theory Fec
  imports Transmission
begin

text \<open>
  Forward error correction, \<open>vnt/vnt-core/src/fec/encoder.rs\<close> and \<open>decoder.rs\<close>: data packets are
  numbered in groups per destination, every full or timed-out group is followed by Reed-Solomon
  parity packets, and the receiver rebuilds missing packets.

  Parameters: \<open>enc\<close>, \<open>dec\<close> are the generated protobuf codec of \<open>FecPacket\<close>; \<open>rs_encode\<close>,
  \<open>rs_reconstruct\<close> are the crate \<open>reed_solomon_erasure\<close> (construction of the code included, \<open>None\<close>
  being its errors). Time is in milliseconds. The argument \<open>order\<close> is the order in which a hash map
  is visited. Packets the decoder makes are fresh zeroed buffers, represented by their bytes.
\<close>

section \<open>Data\<close>

record FecPacket =
  group_id :: u64
  packet_index :: u32
  fec_payload :: bytes
  parity_data :: "(u32 \<times> u32) option"

definition codec_ok :: "(FecPacket \<Rightarrow> bytes) \<Rightarrow> (bytes \<Rightarrow> FecPacket option) \<Rightarrow> bool" where
  "codec_ok enc dec \<longleftrightarrow> (\<forall>x. dec (enc x) = Some x)"

type_synonym rs_encode = "nat \<Rightarrow> nat \<Rightarrow> bytes list \<Rightarrow> bytes list option"
type_synonym rs_reconstruct = "nat \<Rightarrow> nat \<Rightarrow> bytes option list \<Rightarrow> bytes option list option"

text \<open>
  Documented behaviour of the erasure code: it encodes equally long, non-empty shards, and it
  reconstructs a code word from any \<open>k\<close> of its shards; it reports \<open>IncorrectShardSize\<close> when the
  shards present differ in length.
\<close>

definition rs_ok :: "rs_encode \<Rightarrow> rs_reconstruct \<Rightarrow> bool" where
  "rs_ok rs_encode rs_reconstruct \<longleftrightarrow>
     (\<forall>k m data parity shards n.
        0 < k \<longrightarrow> 0 < m \<longrightarrow> k + m \<le> 256 \<longrightarrow> length data = k \<longrightarrow> 0 < n \<longrightarrow> (\<forall>d \<in> set data. length d = n) \<longrightarrow>
        rs_encode k m data = Some parity \<longrightarrow>
        length parity = m \<and>
        (length shards = k + m \<longrightarrow>
         (\<forall>i < k + m. shards ! i = None \<or> shards ! i = Some ((data @ parity) ! i)) \<longrightarrow>
         k \<le> length (filter (\<lambda>s. s \<noteq> None) shards) \<longrightarrow>
         rs_reconstruct k m shards = Some (map Some (data @ parity))))"

definition rs_checks_sizes :: "rs_reconstruct \<Rightarrow> bool" where
  "rs_checks_sizes rs_reconstruct \<longleftrightarrow>
     (\<forall>k m shards a b. Some a \<in> set shards \<longrightarrow> Some b \<in> set shards \<longrightarrow> length a \<noteq> length b \<longrightarrow>
        rs_reconstruct k m shards = None)"

section \<open>Encoder\<close>

definition BATCH_SIZE :: nat where "BATCH_SIZE = 10"
definition BATCH_TIMEOUT_MS :: nat where "BATCH_TIMEOUT_MS = 20"
definition MIN_PARITY :: nat where "MIN_PARITY = 1"
definition BATCH_CHANNEL_SIZE :: nat where "BATCH_CHANNEL_SIZE = 1024"

record DestBatchState =
  bs_group_id :: u64
  current_batch :: "bytes list"
  deadline :: nat
  bs_src_ip :: ipv4

type_synonym batch = "ipv4 \<times> ipv4 \<times> u64 \<times> bytes list"

record FecEncoder =
  batch_states :: "ipv4 \<rightharpoonup> DestBatchState"
  batch_tx :: "batch list"

definition FecEncoder_new :: FecEncoder where
  "FecEncoder_new = \<lparr>batch_states = Map.empty, batch_tx = []\<rparr>"

text \<open>\<open>try_send\<close> on the bounded channel: a full channel drops the batch (the code logs it).\<close>

definition batch_try_send :: "batch \<Rightarrow> FecEncoder \<Rightarrow> FecEncoder" where
  "batch_try_send b e =
     (if length (batch_tx e) < BATCH_CHANNEL_SIZE then e\<lparr>batch_tx := batch_tx e @ [b]\<rparr> else e)"

text \<open>\<open>[type_byte, flags_byte, payload_len(u16), payload...]\<close>.\<close>

definition batch_buffer :: "u8 \<Rightarrow> u8 \<Rightarrow> bytes \<Rightarrow> bytes" where
  "batch_buffer type_b flags_b pl =
     [type_b, flags_b] @ be_enc 2 (unat (word_of_nat (length pl) :: u16)) @ pl"

definition fec_encode ::
    "(nat \<Rightarrow> nat) \<Rightarrow> (FecPacket \<Rightarrow> bytes) \<Rightarrow> nat \<Rightarrow> TransmissionBytes \<Rightarrow> FecEncoder
      \<Rightarrow> FecEncoder \<times> TransmissionBytes result" where
  "fec_encode al enc now packet self =
     (let v = tb_view packet; src_ip = src_id v; dest = dest_id v; pl = payload v in
      if length pl > 65535 then (self, Inl (Bail ''Payload too big''))
      else
        (let buf = batch_buffer (v ! 0) (v ! 2) pl;
             state = (case batch_states self dest of
                        Some s \<Rightarrow> s
                      | None \<Rightarrow> \<lparr>bs_group_id = 0, current_batch = [],
                                 deadline = now + BATCH_TIMEOUT_MS, bs_src_ip = src_ip\<rparr>);
             gid = bs_group_id state;
             index = length (current_batch state);
             state = state\<lparr>current_batch := current_batch state @ [buf]\<rparr>;
             self' =
               (if length (current_batch state) \<ge> BATCH_SIZE
                then batch_try_send (src_ip, dest, gid, current_batch state)
                       (self\<lparr>batch_states := (batch_states self)(dest \<mapsto>
                          state\<lparr>current_batch := [], bs_group_id := gid + 1,
                                deadline := now + BATCH_TIMEOUT_MS\<rparr>)\<rparr>)
                else self\<lparr>batch_states := (batch_states self)(dest \<mapsto> state)\<rparr>);
             fp = enc \<lparr>group_id = gid, packet_index = word_of_nat index, fec_payload = pl,
                      parity_data = None\<rparr>;
             packet = tb_resize al (HEAD_LENGTH + length fp) 0 packet
         in (self',
             and_then (set_payload fp (tb_view packet))
               (\<lambda>p. Inr (tb_write (set_fec_flag True p) packet)))))"

text \<open>The worker's timer tick: every batch past its deadline is taken, in the map's order.\<close>

fun flush_expired :: "nat \<Rightarrow> ipv4 list \<Rightarrow> (ipv4 \<rightharpoonup> DestBatchState) \<Rightarrow>
    (ipv4 \<rightharpoonup> DestBatchState) \<times> batch list" where
  "flush_expired now [] st = (st, [])"
| "flush_expired now (dest # order) st =
     (case st dest of
        None \<Rightarrow> flush_expired now order st
      | Some s \<Rightarrow>
          if current_batch s \<noteq> [] \<and> now \<ge> deadline s
          then (case flush_expired now order (st(dest \<mapsto>
                  s\<lparr>current_batch := [], bs_group_id := bs_group_id s + 1,
                    deadline := now + BATCH_TIMEOUT_MS\<rparr>)) of
                  (st', bs) \<Rightarrow> (st', (bs_src_ip s, dest, bs_group_id s, current_batch s) # bs))
          else flush_expired now order st)"

text \<open>
  \<open>(data_shards as f32 * 0.2).ceil() as usize\<close>, at least \<open>MIN_PARITY\<close>. A batch holds at most
  \<open>BATCH_SIZE\<close> = 10 packets; for 1 to 10 the single-precision products round to the exact
  fifths, so the ceiling is that of \<open>n / 5\<close>.
\<close>

definition parity_count :: "nat \<Rightarrow> nat" where
  "parity_count n = max MIN_PARITY ((n + 4) div 5)"

definition pad_shard :: "nat \<Rightarrow> bytes \<Rightarrow> bytes" where
  "pad_shard n b = b @ replicate (n - length b) 0"

definition parity_packet :: "(FecPacket \<Rightarrow> bytes) \<Rightarrow> ipv4 \<Rightarrow> ipv4 \<Rightarrow> u64 \<Rightarrow> nat \<Rightarrow> nat \<Rightarrow> nat \<Rightarrow> bytes
    \<Rightarrow> bytes result" where
  "parity_packet enc src dest gid k m index par =
     (let fp = enc \<lparr>group_id = gid, packet_index = word_of_nat index, fec_payload = par,
                    parity_data = Some (word_of_nat k, word_of_nat m)\<rparr>
      in and_then (NetPacket_new (replicate (HEAD_LENGTH + length fp) 0)) (\<lambda>p.
         and_then (set_payload fp
            (set_ttl 5 (set_dest_id dest (set_src_id src (set_msg_type Turn p))))) (\<lambda>p.
         Inr (set_fec_flag True p))))"

text \<open>\<open>encode_and_send_parity\<close>: the parity packets handed to \<open>send_encrypted_packet\<close>, in order.\<close>

definition encode_parity ::
    "(FecPacket \<Rightarrow> bytes) \<Rightarrow> rs_encode \<Rightarrow> batch \<Rightarrow> bytes result list result" where
  "encode_parity enc rs_encode b =
     (case b of (src, dest, gid, items) \<Rightarrow>
      if items = [] then Inr []
      else
        (let k = length items; m = parity_count k; max_len = Max (set (map length items)) in
         if max_len = 0 then Inr []
         else
           (case rs_encode k m (map (pad_shard max_len) items) of
              None \<Rightarrow> Inl (Bail ''reed solomon'')
            | Some par \<Rightarrow>
                Inr (map (\<lambda>i. parity_packet enc src dest gid k m (k + i) (par ! i)) [0..<length par]))))"

section \<open>Decoder\<close>

definition GROUP_TIMEOUT :: nat where "GROUP_TIMEOUT = 3000"
definition MAX_GROUPS :: nat where "MAX_GROUPS = 1000"
definition MAX_NUM :: nat where "MAX_NUM = 50"

record FecGroup =
  data_shards :: nat
  parity_shards :: nat
  received_original_count :: nat
  received_shards :: "bytes option list"
  last_update :: nat

definition FecGroup_default :: "nat \<Rightarrow> FecGroup" where
  "FecGroup_default now =
     \<lparr>data_shards = 0, parity_shards = 0, received_original_count = 0, received_shards = [],
      last_update = now\<rparr>"

definition is_done :: "FecGroup \<Rightarrow> bool" where
  "is_done g \<longleftrightarrow> data_shards g \<noteq> 0 \<and> received_original_count g = data_shards g"

definition group_done :: "FecGroup \<Rightarrow> FecGroup" where
  "group_done g = g\<lparr>received_original_count := data_shards g, received_shards := []\<rparr>"

type_synonym group_key = "ipv4 \<times> u64"

record FecDecoder =
  groups :: "group_key \<rightharpoonup> FecGroup"
  last_cleanup :: nat

definition FecDecoder_new :: "nat \<Rightarrow> FecDecoder" where
  "FecDecoder_new now = \<lparr>groups = Map.empty, last_cleanup = now\<rparr>"

definition rebuild_net_packet :: "bytes \<Rightarrow> bytes \<Rightarrow> bytes result" where
  "rebuild_net_packet current recovered =
     (if length recovered < 4 then Inl (Bail ''recovered_data too short'')
      else
        (let payload_len = be_dec [recovered ! 2, recovered ! 3] in
         if payload_len + 4 > length recovered
         then Inl (Bail ''invalid payload_len in recovered_data'')
         else
           (let pl = take payload_len (drop 4 recovered) in
            and_then (NetPacket_new (replicate (HEAD_LENGTH + length pl) 0)) (\<lambda>p.
              let p = p[0 := recovered ! 0, 2 := recovered ! 1];
                  p = set_fec_flag False (set_ttl (ttl current)
                        (set_dest_id (dest_id current) (set_src_id (src_id current) p)))
              in set_payload pl p))))"

text \<open>The loop over the first \<open>data_shards\<close> shards; the first failing rebuild ends it.\<close>

fun rebuild_missing :: "bytes \<Rightarrow> (bool \<times> bytes option) list \<Rightarrow> bytes list result" where
  "rebuild_missing current [] = Inr []"
| "rebuild_missing current ((delivered, s) # xs) =
     (case s of
        None \<Rightarrow> rebuild_missing current xs
      | Some shard \<Rightarrow>
          if delivered then rebuild_missing current xs
          else and_then (rebuild_net_packet current shard) (\<lambda>p.
               and_then (rebuild_missing current xs) (\<lambda>ps. Inr (p # ps))))"

definition decode_with_rs :: "rs_reconstruct \<Rightarrow> bytes \<Rightarrow> FecGroup \<Rightarrow> FecGroup \<times> bytes list option result"
where
  "decode_with_rs rs_reconstruct net_packet g =
     (if length (received_shards g) \<noteq> data_shards g + parity_shards g
      then (g, Inl (Bail ''received_shards.len() != data_shards+parity_shards''))
      else
        (let delivered = map (\<lambda>s. s \<noteq> None) (take (data_shards g) (received_shards g)) in
         case rs_reconstruct (data_shards g) (parity_shards g) (received_shards g) of
           None \<Rightarrow> (g, Inl (Bail ''reed solomon''))
         | Some full \<Rightarrow>
             (case rebuild_missing net_packet (zip delivered (take (data_shards g) full)) of
                Inl e \<Rightarrow> (g\<lparr>received_shards := full\<rparr>, Inl e)
              | Inr ps \<Rightarrow> (group_done (g\<lparr>received_shards := full\<rparr>), Inr (Some ps)))))"

definition try_decode :: "rs_reconstruct \<Rightarrow> bytes \<Rightarrow> FecGroup \<Rightarrow> FecGroup \<times> bytes list option result" where
  "try_decode rs_reconstruct net_packet g =
     (if data_shards g = 0 then (g, Inr None)
      else if received_original_count g = data_shards g then (g, Inr None)
      else if length (filter (\<lambda>s. s \<noteq> None) (received_shards g)) < data_shards g then (g, Inr None)
      else decode_with_rs rs_reconstruct net_packet g)"

definition cleanup_old_groups ::
    "group_key list \<Rightarrow> nat \<Rightarrow> (group_key \<rightharpoonup> FecGroup) \<Rightarrow> (group_key \<rightharpoonup> FecGroup)" where
  "cleanup_old_groups order now gs =
     (let kept = map_retain (\<lambda>_ g. now - last_update g < GROUP_TIMEOUT) gs;
          ids = filter (\<lambda>k. kept k \<noteq> None) order
      in if length ids > MAX_GROUPS
         then (let oldest = take (length ids - MAX_GROUPS)
                              (sort_key (\<lambda>k. case kept k of Some g \<Rightarrow> last_update g | None \<Rightarrow> 0) ids)
               in (\<lambda>k. if k \<in> set oldest then None else kept k))
         else kept)"

definition maybe_cleanup :: "group_key list \<Rightarrow> nat \<Rightarrow> FecDecoder \<Rightarrow> FecDecoder" where
  "maybe_cleanup order now d =
     (if now - last_cleanup d > 1000
      then d\<lparr>groups := cleanup_old_groups order now (groups d), last_cleanup := now\<rparr> else d)"

text \<open>The body of \<open>receive\<close> up to storing the shard: the checks, the group, the delivered packet.\<close>

definition store_parity :: "nat \<Rightarrow> bytes \<Rightarrow> u32 \<times> u32 \<Rightarrow> FecGroup \<Rightarrow> FecGroup result" where
  "store_parity index pl pd g =
     (let k = unat (fst pd); m = unat (snd pd) in
      if k > MAX_NUM then Inl (Bail ''data_shards overflow'')
      else if m > MAX_NUM then Inl (Bail ''parity_shards overflow'')
      else if k + m \<le> index then Inl (Bail ''packet_index overflow'')
      else if data_shards g \<noteq> 0 \<and> data_shards g \<noteq> k then Inl (Bail ''group data_shards!=data_shards'')
      else if parity_shards g \<noteq> 0 \<and> parity_shards g \<noteq> m
           then Inl (Bail ''group parity_shards!=parity_shards'')
      else
        (let rs = (if length (received_shards g) < k + m
                   then resize_list (k + m) None (received_shards g) else received_shards g)
         in Inr (g\<lparr>data_shards := k, parity_shards := m, received_shards := rs[index := Some pl]\<rparr>)))"

definition plain_packet :: "bytes \<Rightarrow> bytes \<Rightarrow> bytes result" where
  "plain_packet net_packet pl =
     and_then (NetPacket_new (replicate (HEAD_LENGTH + length pl) 0)) (\<lambda>p.
       set_payload pl (set_fec_flag False (write_slice 0 (head net_packet) p)))"

definition store_data :: "nat \<Rightarrow> bytes \<Rightarrow> bytes \<Rightarrow> FecGroup \<Rightarrow> FecGroup" where
  "store_data index net_packet pl g =
     (let rs = (if length (received_shards g) \<le> index
                then resize_list (index + 1) None (received_shards g) else received_shards g)
      in g\<lparr>received_shards :=
              rs[index := Some (batch_buffer (head net_packet ! 0) (head net_packet ! 2) pl)],
           received_original_count := received_original_count g + 1\<rparr>)"

definition finish_receive ::
    "rs_reconstruct \<Rightarrow> group_key list \<Rightarrow> nat \<Rightarrow> bytes \<Rightarrow> group_key \<Rightarrow> FecGroup \<Rightarrow> bytes option \<Rightarrow> FecDecoder
      \<Rightarrow> FecDecoder \<times> bytes list option result" where
  "finish_receive rs_reconstruct order now net_packet key g packet self =
     (let g = g\<lparr>last_update := now\<rparr> in
      if is_done g
      then (maybe_cleanup order now (self\<lparr>groups := (groups self)(key \<mapsto> group_done g)\<rparr>),
            Inr (map_option (\<lambda>v. [v]) packet))
      else
        (case try_decode rs_reconstruct net_packet g of
           (g', Inl e) \<Rightarrow> (self\<lparr>groups := (groups self)(key \<mapsto> g')\<rparr>, Inl e)
         | (g', Inr res) \<Rightarrow>
             (maybe_cleanup order now (self\<lparr>groups := (groups self)(key \<mapsto> g')\<rparr>),
              Inr (case (packet, res) of
                     (Some p, Some ps) \<Rightarrow> Some (ps @ [p])
                   | (Some p, None) \<Rightarrow> Some [p]
                   | (None, r) \<Rightarrow> r))))"

definition fec_receive ::
    "(bytes \<Rightarrow> FecPacket option) \<Rightarrow> rs_reconstruct \<Rightarrow> group_key list \<Rightarrow> nat \<Rightarrow> bytes \<Rightarrow> FecDecoder
      \<Rightarrow> FecDecoder \<times> bytes list option result" where
  "fec_receive dec rs_reconstruct order now net_packet self =
     (case dec (payload net_packet) of
        None \<Rightarrow> (self, Inl InvalidData)
      | Some fp \<Rightarrow>
          (let key = (src_id net_packet, group_id fp); index = unat (packet_index fp);
               pl = fec_payload fp
           in if index > MAX_NUM then (self, Inl (Bail ''packet_index overflow''))
              else
                (let g = (case groups self key of Some g \<Rightarrow> g | None \<Rightarrow> FecGroup_default now);
                     self = self\<lparr>groups := (groups self)(key \<mapsto> g)\<rparr>
                 in if is_done g then (self, Inr None)
                    else if index < length (received_shards g) \<and> received_shards g ! index \<noteq> None
                    then (self, Inr None)
                    else
                      (case parity_data fp of
                         Some pd \<Rightarrow>
                           (case store_parity index pl pd g of
                              Inl e \<Rightarrow> (self, Inl e)
                            | Inr g' \<Rightarrow> finish_receive rs_reconstruct order now net_packet key g' None self)
                       | None \<Rightarrow>
                           (case plain_packet net_packet pl of
                              Inl e \<Rightarrow> (self, Inl e)
                            | Inr p \<Rightarrow>
                                finish_receive rs_reconstruct order now net_packet key
                                  (store_data index net_packet pl g) (Some p) self)))))"

section \<open>Shards and packets\<close>

lemma length_batch_buffer [simp]: "length (batch_buffer t f pl) = 4 + length pl"
  by (simp add: batch_buffer_def)

lemma be_enc_two: "be_enc 2 n = [word_of_nat (n div 256), word_of_nat n]"
  by (simp add: numeral_2_eq_2)

lemma batch_buffer_nth:
  "batch_buffer t f pl ! 0 = t" "batch_buffer t f pl ! 1 = f" "drop 4 (batch_buffer t f pl) = pl"
  by (simp_all add: batch_buffer_def be_enc_two)

lemma batch_buffer_len:
  assumes "length pl \<le> 65535"
  shows "be_dec [batch_buffer t f pl ! 2, batch_buffer t f pl ! 3] = length pl"
proof -
  let ?n = "unat (word_of_nat (length pl) :: u16)"
  have "be_dec (be_enc 2 ?n) = length pl"
    using assms by (simp add: be_dec_enc unat_of_nat)
  then show ?thesis by (simp add: batch_buffer_def be_enc_two)
qed

text \<open>
  The packet that recovery makes of the shard of a lost packet: type, flags and payload are the lost
  packet's, addresses and TTL those of the packet that triggered recovery.
\<close>

definition recovered_packet :: "bytes \<Rightarrow> u8 \<Rightarrow> u8 \<Rightarrow> bytes \<Rightarrow> bytes" where
  "recovered_packet current t f pl =
     header_bytes \<lparr>type_byte = t, ttl_byte = push_bit 4 (ttl current) OR (ttl current AND 0x0F),
       flags_byte = f AND NOT FEC, reserved = 0, h_seq = 0, h_src_id = src_id current,
       h_dest_id = dest_id current\<rparr> @ pl"

lemma header_upd_0_2:
  "header (replicate 16 0 @ r) = \<lparr>type_byte = 0, ttl_byte = 0, flags_byte = 0, reserved = 0,
     h_seq = 0, h_src_id = 0, h_dest_id = 0\<rparr>"
  "header ((replicate 16 0 @ r)[0 := t, 2 := f]) = \<lparr>type_byte = t, ttl_byte = 0, flags_byte = f,
     reserved = 0, h_seq = 0, h_src_id = 0, h_dest_id = 0\<rparr>"
  by (simp_all add: header_def be_dec_def numeral_eq_Suc)

lemma rebuild_padded:
  assumes "length pl \<le> 65535"
  shows "rebuild_net_packet current (pad_shard n (batch_buffer t f pl))
    = Inr (recovered_packet current t f pl)"
proof -
  let ?r = "pad_shard n (batch_buffer t f pl)"
  have len: "4 + length pl \<le> length ?r" by (simp add: pad_shard_def)
  have r: "?r ! 0 = t" "?r ! 1 = f" "be_dec [?r ! 2, ?r ! 3] = length pl"
    using batch_buffer_nth [of t f pl] batch_buffer_len [OF assms, of t f]
    by (simp_all add: pad_shard_def nth_append)
  have pl: "take (length pl) (drop 4 ?r) = pl"
    using batch_buffer_nth(3) [of t f pl] by (simp add: pad_shard_def)
  let ?z = "(replicate (16 + length pl) 0 :: bytes)[0 := t, 2 := f]"
  let ?p = "set_fec_flag False (set_ttl (ttl current) (set_dest_id (dest_id current)
              (set_src_id (src_id current) ?z)))"
  have p: "length ?p = 16 + length pl" by simp
  have z: "header ?z = \<lparr>type_byte = t, ttl_byte = 0, flags_byte = f, reserved = 0, h_seq = 0,
      h_src_id = 0, h_dest_id = 0\<rparr>"
    using header_upd_0_2(2) [of "replicate (length pl) 0" t f] by (simp add: replicate_add)
  obtain q where q: "set_payload pl ?p = Inr q" using p by (simp add: set_payload_def)
  have "q = recovered_packet current t f pl"
  proof (rule packet_eqI)
    show "header q = header (recovered_packet current t f pl)"
      using set_payload_Inr(2) [OF q]
      by (simp add: recovered_packet_def mutator_defs z hdr_set_flag_def hdr_set_ttl_def)
    show "payload q = payload (recovered_packet current t f pl)"
      using set_payload_exact [OF p q] by (simp add: recovered_packet_def payload_def)
  qed (use set_payload_Inr(1) [OF q] p in \<open>simp_all add: recovered_packet_def\<close>)
  with q r pl len show ?thesis
    by (simp add: rebuild_net_packet_def Let_def NetPacket_new_def)
qed

lemma rebuild_missing_map:
  assumes "length delivered = length xs"
    and "\<And>i. i < length xs \<Longrightarrow> rebuild_net_packet current (xs ! i) = Inr (f i)"
  shows "rebuild_missing current (zip delivered (map Some xs)) =
    Inr (map f (filter (\<lambda>i. \<not> delivered ! i) [0..<length xs]))"
  using assms
proof (induction xs arbitrary: delivered f)
  case Nil
  then show ?case by simp
next
  case (Cons x xs)
  then obtain d ds where d: "delivered = d # ds" by (cases delivered) auto
  have x: "rebuild_net_packet current x = Inr (f 0)" using Cons.prems(2) [of 0] by simp
  have IH: "rebuild_missing current (zip ds (map Some xs)) =
      Inr (map (\<lambda>i. f (Suc i)) (filter (\<lambda>i. \<not> ds ! i) [0..<length xs]))"
    using Cons.prems d by (intro Cons.IH) force+
  have "[0..<Suc (length xs)] = 0 # map Suc [0..<length xs]"
    by (simp add: upt_conv_Cons map_Suc_upt del: upt_Suc)
  then have "filter (\<lambda>i. \<not> delivered ! i) [0..<Suc (length xs)] =
      (if d then [] else [0]) @ map Suc (filter (\<lambda>i. \<not> ds ! i) [0..<length xs])"
    by (simp add: d filter_map comp_def del: upt_Suc)
  with IH x d show ?case by (simp add: comp_def del: upt_Suc)
qed

section \<open>Recovery\<close>

abbreviation present :: "'a option list \<Rightarrow> 'a option list" where
  "present xs \<equiv> filter (\<lambda>s. s \<noteq> None) xs"

text \<open>What a group knows of a code word: every shard it holds is the right one.\<close>

definition holds_part :: "bytes option list \<Rightarrow> bytes list \<Rightarrow> bool" where
  "holds_part rs cw \<longleftrightarrow> length rs \<le> length cw \<and>
     (\<forall>i < length rs. rs ! i = None \<or> rs ! i = Some (cw ! i))"

definition lacks :: "bytes option list \<Rightarrow> nat \<Rightarrow> bool" where
  "lacks rs i \<longleftrightarrow> length rs \<le> i \<or> rs ! i = None"

lemma present_update:
  "i < length xs \<Longrightarrow> xs ! i = None \<Longrightarrow> length (present (xs[i := Some x])) = Suc (length (present xs))"
  by (subst (2) id_take_nth_drop [of i xs]) (simp_all add: upd_conv_take_nth_drop)

lemma present_resize: "length xs \<le> n \<Longrightarrow> present (resize_list n None xs) = present xs"
  by (simp add: resize_list_def)

text \<open>The original packets of a batch: type byte, flags byte, payload.\<close>

type_synonym originals = "(u8 \<times> u8 \<times> bytes) list"

definition shard_of :: "u8 \<times> u8 \<times> bytes \<Rightarrow> bytes" where
  "shard_of x = (case x of (t, f, pl) \<Rightarrow> batch_buffer t f pl)"

definition recovered_of :: "bytes \<Rightarrow> u8 \<times> u8 \<times> bytes \<Rightarrow> bytes" where
  "recovered_of current x = (case x of (t, f, pl) \<Rightarrow> recovered_packet current t f pl)"

definition shard_len :: "originals \<Rightarrow> nat" where
  "shard_len orig = Max (set (map length (map shard_of orig)))"

definition padded_data :: "originals \<Rightarrow> bytes list" where
  "padded_data orig = map (pad_shard (shard_len orig)) (map shard_of orig)"

lemma padded_length:
  assumes "d \<in> set (padded_data orig)"
  shows "length d = shard_len orig" "0 < shard_len orig"
proof -
  obtain x where x: "x \<in> set orig" "d = pad_shard (shard_len orig) (shard_of x)"
    using assms by (auto simp: padded_data_def)
  have "length (shard_of x) \<le> shard_len orig"
    using x(1) by (auto simp: shard_len_def intro: Max_ge)
  moreover have "4 \<le> length (shard_of x)" by (simp add: shard_of_def split: prod.split)
  ultimately show "length d = shard_len orig" "0 < shard_len orig"
    using x(2) by (simp_all add: pad_shard_def)
qed

lemma rs_okD:
  assumes "rs_ok rs_encode rs_reconstruct" "orig \<noteq> []" "0 < m" "length orig + m \<le> 256"
    and "rs_encode (length orig) m (padded_data orig) = Some par"
    and "length shards = length orig + m" "holds_part shards (padded_data orig @ par)"
    and "length orig \<le> length (present shards)"
  shows "rs_reconstruct (length orig) m shards = Some (map Some (padded_data orig @ par))"
proof -
  have d: "length (padded_data orig) = length orig" by (simp add: padded_data_def)
  then have "padded_data orig \<noteq> []" using assms(2) by auto
  then have n: "0 < shard_len orig" by (intro padded_length(2) [OF hd_in_set])
  show ?thesis
    using assms(1)[unfolded rs_ok_def, rule_format, of "length orig" m "padded_data orig"
        "shard_len orig" par shards] assms d n padded_length(1)
    by (auto simp: holds_part_def)
qed

lemma decode_recovers:
  assumes "rs_ok rs_encode rs_reconstruct" "orig \<noteq> []" "0 < m" "length orig + m \<le> 256"
    and "rs_encode (length orig) m (padded_data orig) = Some par"
    and "data_shards g = length orig" "parity_shards g = m"
    and "length (received_shards g) = length orig + m"
    and "holds_part (received_shards g) (padded_data orig @ par)"
    and "length orig \<le> length (present (received_shards g))"
    and lens: "\<And>t f pl. (t, f, pl) \<in> set orig \<Longrightarrow> length pl \<le> 65535"
  shows "decode_with_rs rs_reconstruct p g =
    (group_done (g\<lparr>received_shards := map Some (padded_data orig @ par)\<rparr>),
     Inr (Some (map (\<lambda>i. recovered_of p (orig ! i))
       (filter (\<lambda>i. lacks (received_shards g) i) [0..<length orig]))))"
proof -
  let ?k = "length orig" and ?rs = "received_shards g"
  let ?del = "map (\<lambda>s. s \<noteq> None) (take ?k ?rs)"
  have full: "rs_reconstruct ?k m ?rs = Some (map Some (padded_data orig @ par))"
    by (rule rs_okD [OF assms(1-5,8-10)])
  have d: "length (padded_data orig) = ?k" by (simp add: padded_data_def)
  have "rebuild_net_packet p (padded_data orig ! i) = Inr (recovered_of p (orig ! i))" if "i < ?k" for i
  proof -
    obtain t f pl where o: "orig ! i = (t, f, pl)" by (cases "orig ! i")
    have "length pl \<le> 65535" using lens nth_mem [OF that] o by metis
    then show ?thesis
      using that o rebuild_padded [of pl p "shard_len orig" t f]
      by (simp add: padded_data_def shard_of_def recovered_of_def)
  qed
  then have "rebuild_missing p (zip ?del (map Some (padded_data orig))) =
      Inr (map (\<lambda>i. recovered_of p (orig ! i)) (filter (\<lambda>i. \<not> ?del ! i) [0..<?k]))"
    using rebuild_missing_map [of ?del "padded_data orig" p "\<lambda>i. recovered_of p (orig ! i)"]
      assms(8) d by simp
  moreover have "filter (\<lambda>i. \<not> ?del ! i) [0..<?k] = filter (\<lambda>i. lacks ?rs i) [0..<?k]"
    using assms(8) by (intro filter_cong) (auto simp: lacks_def)
  ultimately show ?thesis
    using assms(6-8) full d by (simp add: decode_with_rs_def Let_def)
qed

lemma parity_packet_ok:
  "\<exists>pp. parity_packet enc src dest gid k m i par = Inr pp \<and> src_id pp = src \<and> dest_id pp = dest \<and>
    is_fec pp \<and> msg_type pp = Inr Turn \<and>
    payload pp = enc \<lparr>group_id = gid, packet_index = word_of_nat i, fec_payload = par,
      parity_data = Some (word_of_nat k, word_of_nat m)\<rparr>"
proof -
  define fp where "fp = enc \<lparr>group_id = gid, packet_index = word_of_nat i, fec_payload = par,
      parity_data = Some (word_of_nat k, word_of_nat m)\<rparr>"
  let ?p = "set_ttl 5 (set_dest_id dest (set_src_id src (set_msg_type Turn
      (replicate (16 + length fp) 0))))"
  have len: "length ?p = 16 + length fp" by simp
  obtain q where q: "set_payload fp ?p = Inr q" using len by (simp add: set_payload_def)
  have h: "header q = header ?p" by (rule set_payload_Inr(2) [OF q])
  have "src_id q = src_id ?p" "dest_id q = dest_id ?p" "msg_type q = msg_type ?p"
    by (simp_all only: src_id_def dest_id_def msg_type_def h)
  moreover have "payload q = fp" by (rule set_payload_exact [OF len q])
  ultimately have "src_id (set_fec_flag True q) = src" "dest_id (set_fec_flag True q) = dest"
    "msg_type (set_fec_flag True q) = Inr Turn" "payload (set_fec_flag True q) = fp"
    by (simp_all only: set_flag_frame_simps set_id_simps set_ttl_simps set_msg_type_simps
        payload_mutators)
  moreover have "parity_packet enc src dest gid k m i par = Inr (set_fec_flag True q)"
    using q by (simp add: parity_packet_def Let_def NetPacket_new_def fp_def)
  ultimately show ?thesis by (simp add: fp_def)
qed

lemma try_decode_enough:
  assumes "data_shards g \<noteq> 0" "received_original_count g \<noteq> data_shards g"
    "data_shards g \<le> length (present (received_shards g))"
  shows "try_decode rs p g = decode_with_rs rs p g"
  using assms by (simp add: try_decode_def)

lemma parity_count_bounds: "0 < parity_count n" "n \<le> 10 \<Longrightarrow> parity_count n \<le> 2"
  by (simp_all add: parity_count_def MIN_PARITY_def)

text \<open>The group after a parity shard of the right code word was stored.\<close>

lemma store_parity_part:
  assumes "holds_part (received_shards g) cw" "length cw = k + m" "k + j < k + m" "k \<le> 50" "m \<le> 50"
    and "data_shards g \<in> {0, k}" "parity_shards g \<in> {0, m}" "lacks (received_shards g) (k + j)"
    and "k \<le> Suc (length (present (received_shards g)))"
  shows "\<exists>g'. store_parity (k + j) (cw ! (k + j)) (word_of_nat k, word_of_nat m) g = Inr g' \<and>
    data_shards g' = k \<and> parity_shards g' = m \<and> length (received_shards g') = k + m \<and>
    holds_part (received_shards g') cw \<and> k \<le> length (present (received_shards g')) \<and>
    received_original_count g' = received_original_count g \<and>
    (\<forall>i < k. lacks (received_shards g') i \<longleftrightarrow> lacks (received_shards g) i)"
proof -
  let ?rs = "received_shards g"
  define rs where "rs = resize_list (k + m) None ?rs"
  have le: "length ?rs \<le> k + m" using assms(1,2) by (simp add: holds_part_def)
  have nth: "rs ! i = (if i < length ?rs then ?rs ! i else None)" if "i < k + m" for i
    using that by (simp add: rs_def resize_list_nth)
  have len: "length rs = k + m" by (simp add: rs_def)
  have none: "rs ! (k + j) = None"
    using assms(3,8) nth by (auto simp: lacks_def)
  have same: "(if length ?rs < k + m then rs else ?rs) = rs"
    using le by (metis le_neq_implies_less resize_list_same rs_def)
  have u: "unat (word_of_nat k :: u32) = k" "unat (word_of_nat m :: u32) = m"
    using assms(4,5) by (simp_all add: unat_of_nat)
  let ?new = "rs[k + j := Some (cw ! (k + j))]"
  have "store_parity (k + j) (cw ! (k + j)) (word_of_nat k, word_of_nat m) g
      = Inr (g\<lparr>data_shards := k, parity_shards := m, received_shards := ?new\<rparr>)"
    using assms(3-7) same by (auto simp: store_parity_def Let_def u MAX_NUM_def rs_def)
  moreover have "holds_part ?new cw"
    using assms(1-3) len nth by (auto simp: holds_part_def nth_list_update)
  moreover have "length (present ?new) = Suc (length (present ?rs))"
    using present_update [of "k + j" rs] none len assms(3) present_resize [OF le] by (simp add: rs_def)
  moreover have "lacks ?new i \<longleftrightarrow> lacks ?rs i" if "i < k" for i
    using that nth [of i] len by (auto simp: lacks_def)
  ultimately show ?thesis using assms(9) len by auto
qed

section \<open>A concrete erasure code and codec\<close>

text \<open>
  The two third-party contracts are satisfiable: a fixed-width codec of \<open>FecPacket\<close> and the erasure
  code with one exclusive-or parity shard. Only witnesses use them.
\<close>

definition plain_enc :: "FecPacket \<Rightarrow> bytes" where
  "plain_enc x = be_enc 8 (unat (group_id x)) @ be_enc 4 (unat (packet_index x)) @
     (case parity_data x of
        None \<Rightarrow> [0]
      | Some (k, m) \<Rightarrow> 1 # be_enc 4 (unat k) @ be_enc 4 (unat m)) @ fec_payload x"

definition plain_dec :: "bytes \<Rightarrow> FecPacket option" where
  "plain_dec b =
     (let gid = word_of_nat (be_dec (take 8 b)); idx = word_of_nat (be_dec (take 4 (drop 8 b))) in
      if length b < 13 then None
      else if b ! 12 = 0
      then Some \<lparr>group_id = gid, packet_index = idx, fec_payload = drop 13 b, parity_data = None\<rparr>
      else Some \<lparr>group_id = gid, packet_index = idx, fec_payload = drop 21 b,
             parity_data = Some (word_of_nat (be_dec (take 4 (drop 13 b))),
                                 word_of_nat (be_dec (take 4 (drop 17 b))))\<rparr>)"

lemma plain_codec: "codec_ok plain_enc plain_dec"
  unfolding codec_ok_def
proof
  fix x
  show "plain_dec (plain_enc x) = Some x"
    by (cases x; cases "parity_data x")
      (auto simp: plain_enc_def plain_dec_def Let_def nth_append)
qed

definition xor_row :: "bytes list \<Rightarrow> nat \<Rightarrow> u8" where
  "xor_row xs j = foldr (\<lambda>x acc. x ! j XOR acc) xs 0"

definition xor_encode :: rs_encode where
  "xor_encode k m data =
     (if m = 1 then Some [map (xor_row data) [0..<length (hd data)]] else None)"

definition xor_reconstruct :: rs_reconstruct where
  "xor_reconstruct k m shards =
     (let here = map the (filter (\<lambda>s. s \<noteq> None) shards) in
      if (\<exists>a \<in> set here. \<exists>b \<in> set here. length a \<noteq> length b) \<or> length here < k then None
      else Some (map (\<lambda>s. case s of
             Some d \<Rightarrow> Some d
           | None \<Rightarrow> Some (map (xor_row here) [0..<length (hd here)])) shards))"

lemma xor_row_Cons [simp]: "xor_row (x # xs) j = x ! j XOR xor_row xs j"
  by (simp add: xor_row_def)

lemma xor_row_Nil [simp]: "xor_row [] j = 0"
  by (simp add: xor_row_def)

lemma xor_row_append: "xor_row (xs @ ys) j = xor_row xs j XOR xor_row ys j"
  by (induction xs) (simp_all add: xor.assoc)

lemma xor_self_cancel: "(a :: u8) XOR b = 0 \<Longrightarrow> a = b"
proof -
  assume "a XOR b = 0"
  moreover have "a = (a XOR b) XOR b" by (simp add: xor.assoc)
  ultimately show "a = b" by simp
qed

lemma present_all_but_one:
  assumes "length shards = length cw"
    and "\<forall>i < length cw. shards ! i = None \<or> shards ! i = Some (cw ! i)"
    and "length cw \<le> Suc (length (present shards))"
  shows "shards = map Some cw \<or>
    (\<exists>us c vs. cw = us @ c # vs \<and> shards = map Some us @ None # map Some vs)"
  using assms
proof (induction shards arbitrary: cw)
  case Nil
  then show ?case by simp
next
  case (Cons s shards)
  then obtain c cs where cw: "cw = c # cs" by (cases cw) auto
  have rest: "length shards = length cs" "\<forall>i < length cs. shards ! i = None \<or> shards ! i = Some (cs ! i)"
    using Cons.prems(1,2) cw by auto
  show ?case
  proof (cases s)
    case None
    then have "length (present shards) = length shards"
      using Cons.prems(3) cw rest(1) length_filter_le [of "\<lambda>s. s \<noteq> None" shards] by simp
    then have "length (present shards) = length shards" by simp
    then have all: "x \<noteq> None" if "x \<in> set shards" for x
      using that length_filter_less [of x shards "\<lambda>s. s \<noteq> None"] by auto
    have "shards = map Some cs"
    proof (rule nth_equalityI)
      fix i assume i: "i < length shards"
      then have "shards ! i \<noteq> None" by (intro all nth_mem)
      then show "shards ! i = map Some cs ! i" using rest i by auto
    qed (use rest in simp)
    with None cw have "cw = [] @ c # cs \<and> s # shards = map Some [] @ None # map Some cs" by simp
    then show ?thesis by blast
  next
    case (Some d)
    then have d: "d = c" using Cons.prems(2) cw by force
    have "shards = map Some cs \<or>
      (\<exists>us e vs. cs = us @ e # vs \<and> shards = map Some us @ None # map Some vs)"
      using Cons.prems(3) cw Some rest by (intro Cons.IH) simp_all
    then show ?thesis
    proof
      assume "shards = map Some cs"
      then show ?thesis using Some d cw by simp
    next
      assume "\<exists>us e vs. cs = us @ e # vs \<and> shards = map Some us @ None # map Some vs"
      then obtain us e vs where "cs = us @ e # vs" "shards = map Some us @ None # map Some vs" by blast
      then have "cw = (c # us) @ e # vs \<and> s # shards = map Some (c # us) @ None # map Some vs"
        using Some d cw by simp
      then show ?thesis by blast
    qed
  qed
qed

lemma xor_code: "rs_ok xor_encode xor_reconstruct"
  unfolding rs_ok_def
proof (intro allI impI)
  fix k m data parity shards n
  assume k: "0 < k" "length data = k" and n: "0 < (n :: nat)" "\<forall>d \<in> set data. length d = n"
    and enc: "xor_encode k m data = Some parity"
  obtain d0 ds where data: "data = d0 # ds" using k by (cases data) auto
  have m: "m = 1" and par: "parity = [map (xor_row data) [0..<n]]"
    using enc n(2) data by (auto simp: xor_encode_def split: if_splits)
  let ?cw = "data @ parity"
  have len: "\<forall>c \<in> set ?cw. length c = n" using n par by auto
  have zero: "xor_row ?cw j = 0" if "j < n" for j
    using that by (simp add: xor_row_append par)
  have "xor_reconstruct k m shards = Some (map Some ?cw)"
    if s: "length shards = k + m" "\<forall>i < k + m. shards ! i = None \<or> shards ! i = Some (?cw ! i)"
      "k \<le> length (present shards)"
  proof -
    have cl: "length ?cw = k + m" using k par m by simp
    have "shards = map Some ?cw \<or>
      (\<exists>us c vs. ?cw = us @ c # vs \<and> shards = map Some us @ None # map Some vs)"
      by (rule present_all_but_one) (use s cl m in auto)
    then show ?thesis
    proof
      assume "shards = map Some ?cw"
      moreover have "map the (present (map Some xs)) = xs" for xs :: "bytes list"
        by (induction xs) auto
      ultimately show ?thesis
        using len cl by (auto simp: xor_reconstruct_def Let_def simp del: map_append)
    next
      assume "\<exists>us c vs. ?cw = us @ c # vs \<and> shards = map Some us @ None # map Some vs"
      then obtain us c vs where cw: "?cw = us @ c # vs"
        and sh: "shards = map Some us @ None # map Some vs" by blast
      have "map the (present (map Some xs)) = xs" for xs :: "bytes list"
        by (induction xs) auto
      then have here: "map the (present shards) = us @ vs" using sh by simp
      have lens: "\<forall>x \<in> set (us @ vs). length x = n" "length c = n" using len cw by auto
      have "us @ vs \<noteq> []" using cw k cl m by (cases "us @ vs") auto
      then have h: "length (hd (us @ vs)) = n" using lens(1) hd_in_set by blast
      have "xor_row (us @ vs) j = c ! j" if "j < n" for j
      proof -
        have "c ! j XOR xor_row (us @ vs) j = xor_row ?cw j"
          unfolding cw by (simp add: xor_row_append xor.left_commute)
        then show ?thesis using zero [OF that] xor_self_cancel by metis
      qed
      then have c: "map (xor_row (us @ vs)) [0..<n] = c"
        using lens(2) by (simp add: list_eq_iff_nth_eq)
      have ge: "\<not> length (us @ vs) < k" using s(3) here by (metis length_map not_less)
      have "xor_reconstruct k m shards = Some (map Some us @ Some c # map Some vs)"
        unfolding xor_reconstruct_def Let_def here h
        using lens(1) ge c by (simp add: sh comp_def)
      then show ?thesis by (simp only: cw) simp
    qed
  qed
  moreover have "length parity = m" by (simp add: par m)
  ultimately show "length parity = m \<and> (length shards = k + m \<longrightarrow>
      (\<forall>i < k + m. shards ! i = None \<or> shards ! i = Some (?cw ! i)) \<longrightarrow>
      k \<le> length (present shards) \<longrightarrow> xor_reconstruct k m shards = Some (map Some ?cw))"
    by blast
qed

lemma xor_checks_sizes: "rs_checks_sizes xor_reconstruct"
  unfolding rs_checks_sizes_def
proof (intro allI impI)
  fix k m shards a b
  assume "Some a \<in> set shards" "Some b \<in> set shards" "length a \<noteq> length (b :: bytes)"
  then have "Some a \<in> set (present shards)" "Some b \<in> set (present shards)" by simp_all
  then have "the (Some a) \<in> set (map the (present shards))" "the (Some b) \<in> set (map the (present shards))"
    by (auto simp only: set_map intro: imageI)
  then have "\<exists>x \<in> set (map the (present shards)). \<exists>y \<in> set (map the (present shards)). length x \<noteq> length y"
    using \<open>length a \<noteq> length b\<close> unfolding option.sel by blast
  then show "xor_reconstruct k m shards = None"
    unfolding xor_reconstruct_def Let_def by (simp only: simp_thms if_True)
qed
section \<open>Properties\<close>


definition demo_originals :: originals where
  "demo_originals = [(0x81, 0, [1, 2]), (0x91, 0x80, [3, 4, 5])]"

definition demo_group :: FecGroup where
  "demo_group = (FecGroup_default 0)\<lparr>received_shards := [None, Some (batch_buffer 0x91 0x80 [3, 4, 5])],
     received_original_count := 1\<rparr>"


end
