(* ===== verification/FecDelivery.thy ===== *)
theory FecDelivery
  imports Fec
begin

text \<open>
  Delivery of data packets through the error-correction layer: what the sender's \<open>fec_encode\<close> wraps
  the receiver's \<open>fec_receive\<close> unwraps, once; the encoder's batch numbering; and the case in which
  the decoder loses a packet that did arrive.
\<close>

section \<open>The encoder\<close>

definition batch_wf :: "FecEncoder \<Rightarrow> bool" where
  "batch_wf e \<longleftrightarrow> (\<forall>d s. batch_states e d = Some s \<longrightarrow> length (current_batch s) < BATCH_SIZE)"

definition fec_wrapped :: "(FecPacket \<Rightarrow> bytes) \<Rightarrow> u64 \<Rightarrow> nat \<Rightarrow> bytes \<Rightarrow> bytes" where
  "fec_wrapped enc gid index v =
     set_fec_flag True (take 16 v @ enc \<lparr>group_id = gid, packet_index = word_of_nat index,
       fec_payload = payload v, parity_data = None\<rparr>)"

definition next_slot :: "FecEncoder \<Rightarrow> ipv4 \<Rightarrow> u64 \<times> nat" where
  "next_slot e d =
     (case batch_states e d of None \<Rightarrow> (0, 0) | Some s \<Rightarrow> (bs_group_id s, length (current_batch s)))"

lemma batch_try_send_states [simp]: "batch_states (batch_try_send b e) = batch_states e"
  by (simp add: batch_try_send_def)

lemma fec_encode_wraps:
  assumes "tb_ok t" "16 \<le> length (tb_view t)" "length (payload (tb_view t)) \<le> 65535"
    and "fec_encode al enc now t e = (e', r)" "next_slot e (dest_id (tb_view t)) = (gid, index)"
  shows "\<exists>t'. r = Inr t' \<and> tb_ok t' \<and> tb_view t' = fec_wrapped enc gid index (tb_view t)"
proof -
  let ?v = "tb_view t"
  define fp where "fp = enc \<lparr>group_id = gid, packet_index = word_of_nat index,
    fec_payload = payload ?v, parity_data = None\<rparr>"
  let ?t = "tb_resize al (16 + length fp) 0 t"
  have r: "r = and_then (set_payload fp (tb_view ?t)) (\<lambda>p. Inr (tb_write (set_fec_flag True p) ?t))"
    using assms(3-5)
    by (auto simp: fec_encode_def Let_def next_slot_def fp_def split: option.splits)
  have ok: "tb_ok ?t" and view: "tb_view ?t = resize_list (16 + length fp) 0 (drop (tb_start t) (tb_buf t))"
    using tb_resize_view [OF assms(1)] by auto
  have head: "take 16 (tb_view ?t) = take 16 ?v"
  proof -
    have b: "tb_start t \<le> tb_end t" "tb_end t \<le> length (tb_buf t)" using assms(1) by (auto simp: tb_ok_def)
    have "16 \<le> tb_end t - tb_start t" using assms(2) length_tb_view [OF assms(1)] by simp
    then have "16 \<le> length (drop (tb_start t) (tb_buf t))" "16 \<le> tb_end t - tb_start t" using b by simp_all
    then show ?thesis unfolding view by (simp add: resize_list_def tb_view_def)
  qed
  have len: "length (tb_view ?t) = 16 + length fp" by (simp add: view)
  have sp: "set_payload fp (tb_view ?t) = Inr (take 16 ?v @ fp)"
    using len head by (simp add: set_payload_def write_slice_def)
  have "length (set_fec_flag True (take 16 ?v @ fp)) = length (tb_view ?t)"
    using assms(2) len by simp
  then show ?thesis
    using tb_write_ok [OF ok] r sp by (simp add: fec_wrapped_def fp_def)
qed

lemma fec_encode_wf: "batch_wf e \<Longrightarrow> batch_wf (fst (fec_encode al enc now t e))"
  by (auto simp: batch_wf_def fec_encode_def Let_def BATCH_SIZE_def split: option.splits)

lemma fec_encode_slots:
  assumes "length (payload (tb_view t)) \<le> 65535" "batch_wf e"
    "next_slot e (dest_id (tb_view t)) = (gid, index)"
  shows "next_slot (fst (fec_encode al enc now t e)) d =
    (if d \<noteq> dest_id (tb_view t) then next_slot e d
     else if Suc index = BATCH_SIZE then (gid + 1, 0) else (gid, Suc index))"
proof (cases "batch_states e (dest_id (tb_view t))")
  case None
  then show ?thesis
    using assms by (auto simp: next_slot_def fec_encode_def Let_def BATCH_SIZE_def)
next
  case (Some s)
  then have "length (current_batch s) < BATCH_SIZE" using assms(2) by (simp add: batch_wf_def)
  then show ?thesis
    using assms Some by (auto simp: next_slot_def fec_encode_def Let_def BATCH_SIZE_def)
qed

section \<open>The decoder\<close>

lemma fec_wrapped_fields:
  assumes "codec_ok enc dec" "16 \<le> length v"
  shows "src_id (fec_wrapped enc gid index v) = src_id v" "is_fec (fec_wrapped enc gid index v)"
    "dec (payload (fec_wrapped enc gid index v)) = Some \<lparr>group_id = gid,
       packet_index = word_of_nat index, fec_payload = payload v, parity_data = None\<rparr>"
    "header (fec_wrapped enc gid index v) = hdr_set_flag FEC True (header v)"
    "16 \<le> length (fec_wrapped enc gid index v)"
proof -
  show "header (fec_wrapped enc gid index v) = hdr_set_flag FEC True (header v)"
    using assms(2) by (simp add: fec_wrapped_def set_fec_flag_def)
  show "16 \<le> length (fec_wrapped enc gid index v)" using assms(2) by (simp add: fec_wrapped_def)
  show "src_id (fec_wrapped enc gid index v) = src_id v"
    using assms(2) by (simp add: fec_wrapped_def) (simp add: src_id_def)
qed (use assms in \<open>simp_all add: fec_wrapped_def codec_ok_def\<close>)

lemma plain_packet_unwraps:
  assumes "16 \<le> length v" "\<not> is_fec v" "header w = hdr_set_flag FEC True (header v)" "16 \<le> length w"
  shows "plain_packet w (payload v) = Inr v"
proof -
  define z where "z = (replicate (HEAD_LENGTH + length (payload v)) 0 :: bytes)"
  have z: "NetPacket_new z = Inr z" by (simp add: z_def)
  define y where "y = write_slice 0 (head w) z"
  have y: "y = take 16 w @ replicate (length (payload v)) 0"
    using assms(4) by (simp add: y_def z_def write_slice_def head_def)
  have hy: "header y = hdr_set_flag FEC True (header v)"
    unfolding y header_take [OF assms(4)] by (rule assms(3))
  have ly: "length y = 16 + length (payload v)" using assms(4) by (simp add: y)
  then have len: "length (set_fec_flag False y) = 16 + length (payload v)" by simp
  obtain q where q: "set_payload (payload v) (set_fec_flag False y) = Inr q"
    using len by (simp add: set_payload_def)
  have "header (set_fec_flag False y) = header v"
    unfolding set_fec_flag_def header_with_header hy
    by (rule set_flag_clear) (use assms(2) in \<open>simp add: is_fec_def\<close>)
  then have "header q = header v" by (simp only: set_payload_Inr(2) [OF q])
  moreover have "payload q = payload v" by (rule set_payload_exact [OF len q])
  moreover have "16 \<le> length q" using set_payload_Inr(1) [OF q] len by simp
  ultimately have "q = v" using assms(1) by - (rule packet_eqI; assumption)
  then show ?thesis using q z unfolding plain_packet_def z_def [symmetric] by (simp add: y_def)
qed

text \<open>After a packet was accepted its index is remembered, so that it is not delivered again.\<close>

definition delivered :: "nat \<Rightarrow> FecGroup \<Rightarrow> bool" where
  "delivered i g \<longleftrightarrow> is_done g \<or> (i < length (received_shards g) \<and> received_shards g ! i \<noteq> None)"

lemma cleanup_keeps_fresh:
  assumes "gs k = Some g" "last_update g = now" "length order \<le> MAX_GROUPS"
  shows "cleanup_old_groups order now gs k = Some g"
proof -
  have "length (filter p order) \<le> MAX_GROUPS" for p
    using assms(3) length_filter_le order_trans by blast
  then show ?thesis
    using assms(1,2) by (simp add: cleanup_old_groups_def Let_def GROUP_TIMEOUT_def leD)
qed

lemma maybe_cleanup_keeps_fresh:
  assumes "groups d k = Some g" "last_update g = now" "length order \<le> MAX_GROUPS"
  shows "groups (maybe_cleanup order now d) k = Some g"
  using assms cleanup_keeps_fresh by (simp add: maybe_cleanup_def)

lemma is_done_group_done: "data_shards g \<noteq> 0 \<Longrightarrow> is_done (group_done g)"
  by (simp add: is_done_def group_done_def)

lemma try_decode_Inr:
  assumes "try_decode rs p g = (g', Inr r)"
  shows "g' = g \<or> (is_done g' \<and> last_update g' = last_update g)"
proof -
  have "g' = g" if "data_shards g = 0" using assms that by (simp add: try_decode_def)
  moreover have "is_done g' \<and> last_update g' = last_update g \<or> g' = g" if "data_shards g \<noteq> 0"
    using assms that
    by (auto simp: try_decode_def decode_with_rs_def Let_def is_done_def group_done_def
      split: if_splits option.splits sum.splits)
  ultimately show ?thesis by auto
qed

lemma finish_receive_keeps:
  assumes "finish_receive rs order now p key g pkt self = (self', Inr r)"
    and "delivered i g" "length order \<le> MAX_GROUPS"
  shows "\<exists>g'. groups self' key = Some g' \<and> delivered i g'"
proof (cases "is_done (g\<lparr>last_update := now\<rparr>)")
  case True
  then have "data_shards g \<noteq> 0" by (simp add: is_done_def)
  then have "is_done (group_done (g\<lparr>last_update := now\<rparr>))" by (simp add: is_done_group_done)
  moreover have "self' = maybe_cleanup order now
      (self\<lparr>groups := (groups self)(key \<mapsto> group_done (g\<lparr>last_update := now\<rparr>))\<rparr>)"
    using assms(1) True by (simp add: finish_receive_def Let_def)
  ultimately show ?thesis
    using assms(3) by (intro exI) (auto intro!: maybe_cleanup_keeps_fresh simp: delivered_def group_done_def)
next
  case False
  obtain g' q where d: "try_decode rs p (g\<lparr>last_update := now\<rparr>) = (g', q)" by fastforce
  with assms(1) False obtain x where q: "q = Inr x"
    and self': "self' = maybe_cleanup order now (self\<lparr>groups := (groups self)(key \<mapsto> g')\<rparr>)"
    by (cases q) (auto simp: finish_receive_def Let_def)
  have g': "g' = g\<lparr>last_update := now\<rparr> \<or> (is_done g' \<and> last_update g' = now)"
    using try_decode_Inr [OF d[unfolded q]] by simp
  have "delivered i g'"
    using g' assms(2) by (auto simp: delivered_def is_done_def)
  moreover have "last_update g' = now" using g' by auto
  ultimately show ?thesis
    using assms(3) self' by (intro exI) (auto intro!: maybe_cleanup_keeps_fresh)
qed

section \<open>Numbering\<close>

text \<open>A life of the encoder: packets to wrap, and ticks of the batch worker.\<close>

datatype fec_event = Wrap nat TransmissionBytes | Tick nat "ipv4 list"

definition fec_tick :: "nat \<Rightarrow> ipv4 list \<Rightarrow> FecEncoder \<Rightarrow> FecEncoder" where
  "fec_tick now order e = e\<lparr>batch_states := fst (flush_expired now order (batch_states e))\<rparr>"

fun fec_sent :: "(nat \<Rightarrow> nat) \<Rightarrow> (FecPacket \<Rightarrow> bytes) \<Rightarrow> fec_event list \<Rightarrow> FecEncoder \<Rightarrow> bytes list" where
  "fec_sent al enc [] e = []"
| "fec_sent al enc (Wrap now t # evs) e =
     (case fec_encode al enc now t e of
        (e', Inl err) \<Rightarrow> fec_sent al enc evs e'
      | (e', Inr t') \<Rightarrow> tb_view t' # fec_sent al enc evs e')"
| "fec_sent al enc (Tick now order # evs) e = fec_sent al enc evs (fec_tick now order e)"

definition slot_rank :: "FecEncoder \<Rightarrow> ipv4 \<Rightarrow> nat" where
  "slot_rank e d = (case next_slot e d of (gid, i) \<Rightarrow> unat gid * BATCH_SIZE + i)"

definition packet_slot :: "(bytes \<Rightarrow> FecPacket option) \<Rightarrow> bytes \<Rightarrow> ipv4 \<times> (u64 \<times> u32) option" where
  "packet_slot dec w = (dest_id w, map_option (\<lambda>f. (group_id f, packet_index f)) (dec (payload w)))"

lemma next_slot_index: "batch_wf e \<Longrightarrow> next_slot e d = (gid, i) \<Longrightarrow> i < BATCH_SIZE"
  by (auto simp: batch_wf_def next_slot_def BATCH_SIZE_def split: option.splits)

lemma flush_expired_slots:
  assumes "flush_expired now order (batch_states e) = (st', bs)" "batch_wf e"
  shows "batch_wf (e\<lparr>batch_states := st'\<rparr>) \<and>
    (next_slot (e\<lparr>batch_states := st'\<rparr>) d = next_slot e d \<or>
     0 < snd (next_slot e d) \<and> next_slot (e\<lparr>batch_states := st'\<rparr>) d = (fst (next_slot e d) + 1, 0))"
  using assms
proof (induction order arbitrary: e st' bs)
  case Nil
  then show ?case by (auto simp: batch_wf_def next_slot_def)
next
  case (Cons x order)
  show ?case
  proof (cases "batch_states e x")
    case None
    then show ?thesis using Cons by simp
  next
    case (Some s)
    show ?thesis
    proof (cases "current_batch s \<noteq> [] \<and> now \<ge> deadline s")
      case False
      then have "flush_expired now order (batch_states e) = (st', bs)"
        using Cons.prems(1) Some by (auto split: if_splits)
      then show ?thesis by (rule Cons.IH [OF _ Cons.prems(2)])
    next
      case True
      let ?e = "e\<lparr>batch_states := (batch_states e)(x \<mapsto> s\<lparr>current_batch := [],
        bs_group_id := bs_group_id s + 1, deadline := now + BATCH_TIMEOUT_MS\<rparr>)\<rparr>"
      obtain bs' where f: "flush_expired now order (batch_states ?e) = (st', bs')"
        using Cons.prems(1) Some True by (auto split: prod.splits)
      have wf: "batch_wf ?e" using Cons.prems(2) by (simp add: batch_wf_def BATCH_SIZE_def)
      have "next_slot ?e d = (if d = x then (fst (next_slot e d) + 1, 0) else next_slot e d)"
        "d = x \<Longrightarrow> 0 < snd (next_slot e d)"
        using Some True by (simp_all add: next_slot_def)
      then show ?thesis using Cons.IH [OF f wf] by (cases "d = x") auto
    qed
  qed
qed

lemma fec_tick_slots:
  assumes "batch_wf e" "unat (fst (next_slot e d)) + 1 < 2 ^ 64"
  shows "batch_wf (fec_tick now order e)" "slot_rank e d \<le> slot_rank (fec_tick now order e) d"
    "unat (fst (next_slot (fec_tick now order e) d)) \<le> unat (fst (next_slot e d)) + 1"
proof -
  obtain st' bs where f: "flush_expired now order (batch_states e) = (st', bs)" by fastforce
  obtain gid i where n: "next_slot e d = (gid, i)" by fastforce
  have i: "i < BATCH_SIZE" using next_slot_index [OF assms(1) n] .
  have "unat (gid + 1) = unat gid + 1"
    using assms(2) n by (simp add: unat_word_ariths)
  then show "batch_wf (fec_tick now order e)" "slot_rank e d \<le> slot_rank (fec_tick now order e) d"
    "unat (fst (next_slot (fec_tick now order e) d)) \<le> unat (fst (next_slot e d)) + 1"
    using flush_expired_slots [OF f assms(1), of d] f n i
    by (auto simp: fec_tick_def slot_rank_def BATCH_SIZE_def)
qed

lemma fec_encode_rank:
  assumes "length (payload (tb_view t)) \<le> 65535" "batch_wf e"
    "unat (fst (next_slot e d)) + 1 < 2 ^ 64"
  shows "slot_rank (fst (fec_encode al enc now t e)) d =
      slot_rank e d + (if d = dest_id (tb_view t) then 1 else 0)"
    "unat (fst (next_slot (fst (fec_encode al enc now t e)) d)) \<le> unat (fst (next_slot e d)) + 1"
proof -
  obtain gid i where n: "next_slot e (dest_id (tb_view t)) = (gid, i)" by fastforce
  have "unat (gid + 1) = unat gid + 1" if "d = dest_id (tb_view t)"
    using assms(3) n that by (simp add: unat_word_ariths)
  then show "slot_rank (fst (fec_encode al enc now t e)) d =
      slot_rank e d + (if d = dest_id (tb_view t) then 1 else 0)"
    "unat (fst (next_slot (fst (fec_encode al enc now t e)) d)) \<le> unat (fst (next_slot e d)) + 1"
    using fec_encode_slots [OF assms(1,2) n, of al enc now d] n
    by (auto simp: slot_rank_def)
qed

lemma budget_step:
  assumes "\<And>d. f d \<le> g d + (1 :: nat)" "\<forall>d. g d + length (ev # evs) < b"
  shows "\<forall>d. f d + length evs < b"
proof
  fix d
  show "f d + length evs < b" using assms(1) [of d] assms(2) [rule_format, of d] by simp
qed

lemma fec_sent_slots:
  assumes "codec_ok enc dec" "batch_wf e"
    and "\<forall>d. unat (fst (next_slot e d)) + length evs < 2 ^ 64"
    and "\<forall>now t. Wrap now t \<in> set evs \<longrightarrow>
      tb_ok t \<and> 16 \<le> length (tb_view t) \<and> length (payload (tb_view t)) \<le> 65535"
  shows "distinct (map (packet_slot dec) (fec_sent al enc evs e)) \<and>
    (\<forall>w \<in> set (fec_sent al enc evs e). \<exists>gid i. packet_slot dec w = (dest_id w, Some (gid, word_of_nat i)) \<and>
       i < BATCH_SIZE \<and> slot_rank e (dest_id w) \<le> unat gid * BATCH_SIZE + i)"
  using assms(2-4)
proof (induction evs arbitrary: e)
  case Nil
  then show ?case by simp
next
  case (Cons ev evs)
  have lt: "unat (fst (next_slot e d)) + 1 < 2 ^ 64" for d
    using Cons.prems(2) [rule_format, of d] by simp
  have later: "\<forall>now t. Wrap now t \<in> set evs \<longrightarrow>
      tb_ok t \<and> 16 \<le> length (tb_view t) \<and> length (payload (tb_view t)) \<le> 65535"
    using Cons.prems(3) by auto
  show ?case
  proof (cases ev)
    case (Tick now order)
    let ?e = "fec_tick now order e"
    have "\<forall>d. unat (fst (next_slot ?e d)) + length evs < 2 ^ 64"
      by (rule budget_step [OF fec_tick_slots(3) [OF Cons.prems(1) lt] Cons.prems(2)])
    note IH = Cons.IH [OF fec_tick_slots(1) [OF Cons.prems(1) lt] this later]
    have "slot_rank e d \<le> slot_rank ?e d" for d by (rule fec_tick_slots(2) [OF Cons.prems(1) lt])
    then have "\<forall>w \<in> set (fec_sent al enc evs ?e). \<exists>gid i.
        packet_slot dec w = (dest_id w, Some (gid, word_of_nat i)) \<and>
        i < BATCH_SIZE \<and> slot_rank e (dest_id w) \<le> unat gid * BATCH_SIZE + i"
      using IH by (meson order_trans)
    then show ?thesis using IH Tick by simp
  next
    case (Wrap now t)
    obtain e' r where enc: "fec_encode al enc now t e = (e', r)" by fastforce
    have t: "tb_ok t" "16 \<le> length (tb_view t)" "length (payload (tb_view t)) \<le> 65535"
      using Cons.prems(3) Wrap by auto
    obtain gid i where slot: "next_slot e (dest_id (tb_view t)) = (gid, i)" by fastforce
    obtain t' where r: "r = Inr t'" and w: "tb_view t' = fec_wrapped enc gid i (tb_view t)"
      using fec_encode_wraps [OF t enc slot] by blast
    have wf: "batch_wf e'" using fec_encode_wf [OF Cons.prems(1), of al enc now t] enc by simp
    have rank: "slot_rank e' d = slot_rank e d + (if d = dest_id (tb_view t) then 1 else 0)"
      and up: "unat (fst (next_slot e' d)) \<le> unat (fst (next_slot e d)) + 1" for d
      using fec_encode_rank [OF t(3) Cons.prems(1) lt [of d], where al = al and enc = enc and now = now] enc
      by simp_all
    have "\<forall>d. unat (fst (next_slot e' d)) + length evs < 2 ^ 64"
      by (rule budget_step [OF up Cons.prems(2)])
    note IH = Cons.IH [OF wf this later]
    have dw: "dest_id (tb_view t') = dest_id (tb_view t)"
      using fec_wrapped_fields(4) [OF assms(1) t(2), of gid i] by (simp add: w dest_id_def)
    have pw: "packet_slot dec (tb_view t') = (dest_id (tb_view t'), Some (gid, word_of_nat i))"
      using fec_wrapped_fields(3) [OF assms(1) t(2), of gid i] by (simp add: packet_slot_def w)
    have i: "i < BATCH_SIZE" by (rule next_slot_index [OF Cons.prems(1) slot])
    have old: "slot_rank e (dest_id (tb_view t)) = unat gid * BATCH_SIZE + i"
      using slot by (simp add: slot_rank_def)
    have fresh: "packet_slot dec v \<noteq> packet_slot dec (tb_view t')"
      if v: "v \<in> set (fec_sent al enc evs e')" for v
    proof
      assume eq: "packet_slot dec v = packet_slot dec (tb_view t')"
      obtain gv iv where v': "packet_slot dec v = (dest_id v, Some (gv, word_of_nat iv))"
        "iv < BATCH_SIZE" "slot_rank e' (dest_id v) \<le> unat gv * BATCH_SIZE + iv"
        using IH v by blast
      have "dest_id v = dest_id (tb_view t)" "gv = gid" "(word_of_nat iv :: u32) = word_of_nat i"
        using eq v'(1) pw dw by auto
      moreover from this(3) have "iv = i"
        using i v'(2) by (simp add: BATCH_SIZE_def word_of_nat_eq_iff take_bit_eq_mod)
      ultimately show False using v'(3) rank old by simp
    qed
    have "slot_rank e d \<le> slot_rank e' d" for d using rank by simp
    then have "\<forall>w \<in> set (fec_sent al enc evs e'). \<exists>gid i.
        packet_slot dec w = (dest_id w, Some (gid, word_of_nat i)) \<and>
        i < BATCH_SIZE \<and> slot_rank e (dest_id w) \<le> unat gid * BATCH_SIZE + i"
      using IH by (meson order_trans)
    then show ?thesis
      using IH fresh pw i old dw Wrap enc r by auto
  qed
qed

section \<open>Properties\<close>

text \<open>Numbering: over any life of the encoder, with packets to many destinations and worker ticks
  interleaved (fewer than \<open>2^64\<close> events), no two packets sent to one destination carry the same group
  id and packet index, every index is below \<open>BATCH_SIZE\<close>, and every packet sent decodes.\<close>

theorem fec_slots_unique:
  assumes "codec_ok enc dec" "length evs < 2 ^ 64"
    and "\<forall>now t. Wrap now t \<in> set evs \<longrightarrow>
      tb_ok t \<and> 16 \<le> length (tb_view t) \<and> length (payload (tb_view t)) \<le> 65535"
  shows "distinct (map (packet_slot dec) (fec_sent al enc evs FecEncoder_new)) \<and>
    (\<forall>w \<in> set (fec_sent al enc evs FecEncoder_new). \<exists>gid i.
       packet_slot dec w = (dest_id w, Some (gid, word_of_nat i)) \<and> i < BATCH_SIZE)"
proof -
  have "batch_wf FecEncoder_new" "next_slot FecEncoder_new d = (0, 0)" for d
    by (simp_all add: batch_wf_def FecEncoder_new_def next_slot_def)
  then show ?thesis
    using fec_sent_slots [OF assms(1) _ _ assms(3), of FecEncoder_new] assms(2) by fastforce
qed

definition demo_packet :: bytes where
  "demo_packet = [0x81, 0x55, 0, 0,  0, 0, 0, 0,  0, 0, 0, 7,  0, 0, 0, 9,  1, 2, 3]"

definition demo_buffer :: TransmissionBytes where
  "demo_buffer = tb_from_slice (\<lambda>n. n) demo_packet"

lemma demo_buffer_ok: "tb_ok demo_buffer" "tb_view demo_buffer = demo_packet"
  by (simp_all add: demo_buffer_def transmission_simps)

lemma demo_packet_fields: "16 \<le> length demo_packet" "payload demo_packet = [1, 2, 3]"
  "src_id demo_packet = 7" "dest_id demo_packet = 9" "\<not> is_fec demo_packet"
  by (simp_all add: demo_packet_def payload_def src_id_def dest_id_def is_fec_def header_def be_dec_def
    FEC_def)

theorem fec_slots_unique_witness:
  "distinct (map (packet_slot plain_dec)
    (fec_sent (\<lambda>n. n) plain_enc [Wrap 0 demo_buffer, Tick 40 [9], Wrap 50 demo_buffer] FecEncoder_new))"
  by (rule fec_slots_unique [OF plain_codec, THEN conjunct1])
    (auto simp: demo_buffer_ok demo_packet_fields)

text \<open>Wrapping and unwrapping: a packet that is not yet FEC-flagged and whose payload fits in 16 bits is
  wrapped by \<open>fec_encode\<close> without error, and the receiver, as long as no parity of its group has come
  and its index is new, delivers exactly the original bytes of the packet, header and payload.\<close>

theorem fec_encode_receive:
  assumes "codec_ok enc dec" "tb_ok t" "16 \<le> length (tb_view t)" "\<not> is_fec (tb_view t)"
    and "length (payload (tb_view t)) \<le> 65535" "batch_wf e"
    and "next_slot e (dest_id (tb_view t)) = (gid, i)"
    and "\<And>g. groups d (src_id (tb_view t), gid) = Some g \<Longrightarrow> data_shards g = 0 \<and> \<not> delivered i g"
  shows "\<exists>t'. snd (fec_encode al enc now t e) = Inr t' \<and>
    snd (fec_receive dec rs order now' (tb_view t') d) = Inr (Some [tb_view t])"
proof -
  let ?v = "tb_view t"
  obtain t' where r: "snd (fec_encode al enc now t e) = Inr t'"
    and w: "tb_view t' = fec_wrapped enc gid i ?v"
    using fec_encode_wraps [OF assms(2,3,5) _ assms(7), of al enc now] by (metis prod.collapse)
  note f = fec_wrapped_fields [OF assms(1,3), of gid i, folded w]
  have "plain_packet (tb_view t') (payload ?v) = Inr ?v"
    by (rule plain_packet_unwraps [OF assms(3,4) f(4,5)])
  moreover have "unat (word_of_nat i :: u32) = i" "i \<le> MAX_NUM"
    using next_slot_index [OF assms(6,7)] by (simp_all add: BATCH_SIZE_def MAX_NUM_def unat_of_nat)
  moreover define g where
    "g = (case groups d (src_id ?v, gid) of Some g \<Rightarrow> g | None \<Rightarrow> FecGroup_default now')"
  moreover have "data_shards g = 0" "\<not> delivered i g"
    using assms(8) by (auto simp: g_def FecGroup_default_def delivered_def is_done_def split: option.splits)
  ultimately have "snd (fec_receive dec rs order now' (tb_view t') d) = Inr (Some [?v])"
    using f(1,3)
    by (auto simp: fec_receive_def Let_def delivered_def finish_receive_def is_done_def store_data_def
      try_decode_def)
  with r show ?thesis by blast
qed

theorem fec_encode_receive_witness:
  "\<exists>t'. snd (fec_encode (\<lambda>n. n) plain_enc 0 demo_buffer FecEncoder_new) = Inr t' \<and>
    snd (fec_receive plain_dec xor_reconstruct [] 3 (tb_view t') (FecDecoder_new 0))
      = Inr (Some [demo_packet])"
proof -
  have "batch_wf FecEncoder_new" "next_slot FecEncoder_new 9 = (0, 0)"
    by (simp_all add: batch_wf_def FecEncoder_new_def next_slot_def)
  then show ?thesis
    using fec_encode_receive [OF plain_codec demo_buffer_ok(1), of FecEncoder_new 0 0 "FecDecoder_new 0"]
    by (simp add: demo_buffer_ok demo_packet_fields FecDecoder_new_def)
qed


definition demo_wrapped :: bytes where
  "demo_wrapped = fec_wrapped plain_enc 0 0 demo_packet"

lemma demo_wrapped_fields:
  "plain_dec (payload demo_wrapped) = Some \<lparr>group_id = 0, packet_index = 0, fec_payload = [1, 2, 3],
     parity_data = None\<rparr>" "src_id demo_wrapped = 7" "plain_packet demo_wrapped [1, 2, 3] = Inr demo_packet"
  "head demo_wrapped ! 0 = 0x81" "head demo_wrapped ! 2 = 0x20" "16 \<le> length demo_wrapped"
proof -
  note f = fec_wrapped_fields [OF plain_codec demo_packet_fields(1), of 0 0, folded demo_wrapped_def]
  show "plain_dec (payload demo_wrapped) = Some \<lparr>group_id = 0, packet_index = 0,
      fec_payload = [1, 2, 3], parity_data = None\<rparr>" "src_id demo_wrapped = 7"
    using f(1,3) by (simp_all add: demo_packet_fields)
  show "plain_packet demo_wrapped [1, 2, 3] = Inr demo_packet"
    using plain_packet_unwraps [OF demo_packet_fields(1,5) f(4,5)] by (simp add: demo_packet_fields)
  show "16 \<le> length demo_wrapped" by (rule f(5))
  then have "head demo_wrapped ! 0 = type_byte (header demo_wrapped)"
    "head demo_wrapped ! 2 = flags_byte (header demo_wrapped)"
    by (simp_all add: head_def header_def)
  then show "head demo_wrapped ! 0 = 0x81" "head demo_wrapped ! 2 = 0x20"
    unfolding f(4) by (simp_all add: demo_packet_def header_def hdr_set_flag_def FEC_def)
qed


text \<open>The decoder compares unpadded data shards: when a data packet arrives with which its group is
  decodable, but some shard of the group has another length (packets of different sizes), decoding
  fails, and with it \<open>receive\<close>: the packet that did arrive is not delivered, and when it comes
  again it is dropped as a duplicate.\<close>

theorem fec_unequal_sizes_lose_packet:
  assumes "rs_checks_sizes rs" "dec (payload p) = Some fp" "parity_data fp = None" "16 \<le> length p"
    and g: "groups d (src_id p, group_id fp) = Some g" "data_shards g \<noteq> 0"
    and i: "i = unat (packet_index fp)" "i \<le> MAX_NUM" "i < length (received_shards g)"
      "received_shards g ! i = None"
    and "length (received_shards g) = data_shards g + parity_shards g"
    and "received_original_count g \<noteq> data_shards g" "Suc (received_original_count g) \<noteq> data_shards g"
    and "data_shards g \<le> Suc (length (present (received_shards g)))"
    and "Some a \<in> set (received_shards g)" "length a \<noteq> 4 + length (fec_payload fp)"
  shows "\<exists>d'. fec_receive dec rs order now p d = (d', Inl (Bail ''reed solomon'')) \<and>
    snd (fec_receive dec rs order' now' p d') = Inr None"
proof -
  let ?pl = "fec_payload fp"
  define x where "x = batch_buffer (head p ! 0) (head p ! 2) ?pl"
  define h where "h = g\<lparr>received_shards := (received_shards g)[i := Some x],
    received_original_count := received_original_count g + 1, last_update := now\<rparr>"
  have store: "(store_data i p ?pl g)\<lparr>last_update := now\<rparr> = h"
    using i(3) by (simp add: store_data_def Let_def h_def x_def)
  obtain v where v: "plain_packet p ?pl = Inr v"
    using assms(4) by (auto simp: plain_packet_def set_payload_def head_def)
  obtain j where j: "j < length (received_shards g)" "received_shards g ! j = Some a"
    using assms(15) by (metis in_set_conv_nth)
  then have "j \<noteq> i" using i(4) by auto
  then have "Some a \<in> set ((received_shards g)[i := Some x])"
    using j by (metis length_list_update nth_list_update_neq nth_mem)
  moreover have "Some x \<in> set ((received_shards g)[i := Some x])"
    using i(3) by (simp add: set_update_memI)
  moreover have "length a \<noteq> length x" using assms(16) by (simp add: x_def)
  ultimately have fail: "rs k m (received_shards h) = None" for k m
    using assms(1) unfolding rs_checks_sizes_def h_def by simp
  have "length (present (received_shards h)) = Suc (length (present (received_shards g)))"
    using present_update [OF i(3,4)] by (simp add: h_def)
  then have td: "try_decode rs p h = (h, Inl (Bail ''reed solomon''))"
    using assms(11,13,14) g(2) fail by (simp add: try_decode_def decode_with_rs_def Let_def) (simp add: h_def)
  have nd: "\<not> is_done h" "\<not> is_done g" using assms(12,13) by (simp_all add: is_done_def h_def)
  let ?d = "d\<lparr>groups := (groups d)((src_id p, group_id fp) \<mapsto> h)\<rparr>"
  have "fec_receive dec rs order now p d = (?d, Inl (Bail ''reed solomon''))"
    using assms(2,3) g(1) i nd v store td
    by (simp add: fec_receive_def Let_def finish_receive_def)
  moreover have "i < length (received_shards h) \<and> received_shards h ! i \<noteq> None"
    using i(3) by (simp add: h_def)
  then have "snd (fec_receive dec rs order' now' p ?d) = Inr None"
    using assms(2) i nd(1) by (simp add: fec_receive_def Let_def)
  ultimately show ?thesis by blast
qed

text \<open>Three packets in the batch, a four-byte one and parity already there: the third arrives and is lost.\<close>

definition uneven_group :: FecGroup where
  "uneven_group = \<lparr>data_shards = 3, parity_shards = 1, received_original_count = 1,
     received_shards = [None, Some [0x81, 0, 0, 0], None, Some [1, 2, 3, 4, 5, 6, 7]], last_update = 0\<rparr>"

theorem fec_unequal_sizes_lose_packet_witness:
  "\<exists>d'. fec_receive plain_dec xor_reconstruct [] 3 demo_wrapped
      \<lparr>groups = [(7, 0) \<mapsto> uneven_group], last_cleanup = 0\<rparr> = (d', Inl (Bail ''reed solomon'')) \<and>
    snd (fec_receive plain_dec xor_reconstruct [] 4 demo_wrapped d') = Inr None"
  by (rule fec_unequal_sizes_lose_packet [where dec = plain_dec and p = demo_wrapped and i = 0 and
      g = uneven_group and a = "[0x81, 0, 0, 0]", OF xor_checks_sizes demo_wrapped_fields(1)])
    (simp_all add: demo_wrapped_fields uneven_group_def MAX_NUM_def)

end
