(* ===== verification/Ipv4Text.thy ===== *)
theory Ipv4Text
  imports Prelude
begin

text \<open>
  The parts of the Rust standard library that the server's records use: dotted-decimal text of
  \<open>Ipv4Addr\<close> (\<open>to_string\<close>, \<open>str::parse\<close>) and the characters of a UTF-8 \<open>str\<close>. A Rust string is
  modelled as the \<open>string\<close> of its UTF-8 bytes, so that \<open>length\<close> is \<open>str::len\<close>.
\<close>

section \<open>Dotted decimal\<close>

definition digit_char :: "nat \<Rightarrow> char" where
  "digit_char d = char_of (48 + d)"

definition show_octet :: "nat \<Rightarrow> string" where
  "show_octet n =
     (if n < 10 then [digit_char n]
      else if n < 100 then [digit_char (n div 10), digit_char (n mod 10)]
      else [digit_char (n div 100), digit_char (n div 10 mod 10), digit_char (n mod 10)])"

definition ip_octets :: "ipv4 \<Rightarrow> nat list" where
  "ip_octets ip = map unat (be_enc 4 (unat ip))"

definition ip_to_string :: "ipv4 \<Rightarrow> string" where
  "ip_to_string ip =
     (case map show_octet (ip_octets ip) of
        [a, b, c, d] \<Rightarrow> a @ ''.'' @ b @ ''.'' @ c @ ''.'' @ d
      | _ \<Rightarrow> [])"

fun split_dots :: "string \<Rightarrow> string list" where
  "split_dots [] = [[]]"
| "split_dots (c # s) =
     (if c = CHR ''.'' then [] # split_dots s
      else (case split_dots s of [] \<Rightarrow> [[c]] | w # ws \<Rightarrow> (c # w) # ws))"

definition is_digit :: "char \<Rightarrow> bool" where
  "is_digit c \<longleftrightarrow> 48 \<le> (of_char c :: nat) \<and> (of_char c :: nat) \<le> 57"

text \<open>One to three digits, no leading zero, at most 255.\<close>

definition parse_octet :: "string \<Rightarrow> nat option" where
  "parse_octet s =
     (let v = foldl (\<lambda>acc c. acc * 10 + (of_char c - 48)) 0 s in
      if s \<noteq> [] \<and> length s \<le> 3 \<and> list_all is_digit s \<and> (length s = 1 \<or> hd s \<noteq> CHR ''0'') \<and> v \<le> 255
      then Some v else None)"

definition parse_ipv4 :: "string \<Rightarrow> ipv4 option" where
  "parse_ipv4 s =
     (case map parse_octet (split_dots s) of
        [Some a, Some b, Some c, Some d] \<Rightarrow>
          Some (word_of_nat (be_dec [word_of_nat a, word_of_nat b, word_of_nat c, word_of_nat d]))
      | _ \<Rightarrow> None)"

lemma digit_char_code [simp]: "d < 10 \<Longrightarrow> of_char (digit_char d) = (48 + d :: nat)"
  by (simp add: digit_char_def)

lemma digit_char_digit [simp]: "d < 10 \<Longrightarrow> is_digit (digit_char d)"
  by (simp add: is_digit_def)

lemma digit_char_zero: "0 < d \<Longrightarrow> d < 10 \<Longrightarrow> digit_char d \<noteq> CHR ''0''"
proof
  assume "0 < d" "d < 10" "digit_char d = CHR ''0''"
  then have "of_char (digit_char d) = (48 :: nat)" by simp
  then show False using \<open>0 < d\<close> \<open>d < 10\<close> by simp
qed

lemma show_octet_digits: "n < 256 \<Longrightarrow> list_all is_digit (show_octet n)"
  by (simp add: show_octet_def)

lemma parse_show_octet: "n < 256 \<Longrightarrow> parse_octet (show_octet n) = Some n"
proof -
  assume n: "n < 256"
  consider "n < 10" | "10 \<le> n" "n < 100" | "100 \<le> n" by linarith
  then show ?thesis
  proof cases
    case 1
    then show ?thesis by (simp add: parse_octet_def show_octet_def)
  next
    case 2
    then have "0 < n div 10" "n div 10 < 10" "n mod 10 < 10" by simp_all
    with 2 show ?thesis
      by (simp add: parse_octet_def show_octet_def digit_char_zero)
  next
    case 3
    then have "0 < n div 100" "n div 100 < 10" "n div 10 mod 10 < 10" "n mod 10 < 10" using n by simp_all
    moreover have "n div 100 = n div 10 div 10" using div_mult2_eq [of n 10 10] by simp
    then have "(n div 100 * 10 + n div 10 mod 10) * 10 + n mod 10 = n"
      by (simp only: div_mult_mod_eq)
    ultimately show ?thesis using 3 n
      by (simp add: parse_octet_def show_octet_def digit_char_zero del: div_mult_mod_eq)
  qed
qed

lemma digits_no_dot: "list_all is_digit s \<Longrightarrow> CHR ''.'' \<notin> set s"
  by (auto simp: list_all_iff is_digit_def)

lemma split_dots_word: "CHR ''.'' \<notin> set w \<Longrightarrow> split_dots w = [w]"
  by (induction w) auto

lemma split_dots_cons: "CHR ''.'' \<notin> set w \<Longrightarrow> split_dots (w @ CHR ''.'' # s) = w # split_dots s"
  by (induction w) auto

lemma list_of_four: "length xs = 4 \<Longrightarrow> \<exists>a b c d. xs = [a, b, c, d]"
  by (auto simp: length_Suc_conv numeral_eq_Suc)

text \<open>\<open>to_string\<close> and \<open>parse\<close> are inverse.\<close>

lemma parse_ip_to_string [simp]: "parse_ipv4 (ip_to_string ip) = Some ip"
proof -
  obtain a b c d where e: "be_enc 4 (unat ip) = [a, b, c, d]"
    using list_of_four [OF length_be_enc] by blast
  have lt: "unat (x :: u8) < 256" for x using unsigned_less [of x, where 'a = nat] by simp
  have nd: "CHR ''.'' \<notin> set (show_octet (unat (x :: u8)))" for x
    by (intro digits_no_dot show_octet_digits lt)
  have "split_dots (ip_to_string ip) = map show_octet [unat a, unat b, unat c, unat d]"
    by (simp add: ip_to_string_def ip_octets_def e split_dots_cons [OF nd] split_dots_word [OF nd])
  then have "parse_ipv4 (ip_to_string ip) = Some (word_of_nat (be_dec [a, b, c, d]))"
    by (simp add: parse_ipv4_def parse_show_octet lt)
  then show ?thesis by (simp flip: e)
qed

section \<open>Characters of a string\<close>

text \<open>The code points of a valid UTF-8 byte string (\<open>str::chars\<close>).\<close>

fun utf8_chars :: "nat list \<Rightarrow> nat list" where
  "utf8_chars [] = []"
| "utf8_chars (a # s) =
     (if a < 0x80 then a # utf8_chars s
      else (case s of
        b # s1 \<Rightarrow>
          if a < 0xE0 then ((a - 0xC0) * 64 + (b - 0x80)) # utf8_chars s1
          else (case s1 of
            c # s2 \<Rightarrow>
              if a < 0xF0 then ((a - 0xE0) * 4096 + (b - 0x80) * 64 + (c - 0x80)) # utf8_chars s2
              else (case s2 of
                d # s3 \<Rightarrow> ((a - 0xF0) * 262144 + (b - 0x80) * 4096 + (c - 0x80) * 64 + (d - 0x80))
                           # utf8_chars s3
              | [] \<Rightarrow> [])
          | [] \<Rightarrow> [])
      | [] \<Rightarrow> []))"

definition chars_of :: "string \<Rightarrow> nat list" where
  "chars_of s = utf8_chars (map of_char s)"

text \<open>\<open>char::is_whitespace\<close>: the Unicode property \<open>White_Space\<close>.\<close>

definition is_whitespace :: "nat \<Rightarrow> bool" where
  "is_whitespace c \<longleftrightarrow> 9 \<le> c \<and> c \<le> 13 \<or> c = 32 \<or> c = 0x85 \<or> c = 0xA0 \<or> c = 0x1680 \<or>
     0x2000 \<le> c \<and> c \<le> 0x200A \<or> c = 0x2028 \<or> c = 0x2029 \<or> c = 0x202F \<or> c = 0x205F \<or> c = 0x3000"

definition is_ascii_lowercase :: "nat \<Rightarrow> bool" where "is_ascii_lowercase c \<longleftrightarrow> 97 \<le> c \<and> c \<le> 122"
definition is_ascii_uppercase :: "nat \<Rightarrow> bool" where "is_ascii_uppercase c \<longleftrightarrow> 65 \<le> c \<and> c \<le> 90"
definition is_ascii_digit :: "nat \<Rightarrow> bool" where "is_ascii_digit c \<longleftrightarrow> 48 \<le> c \<and> c \<le> 57"
definition is_ascii_alphanumeric :: "nat \<Rightarrow> bool" where
  "is_ascii_alphanumeric c \<longleftrightarrow> is_ascii_lowercase c \<or> is_ascii_uppercase c \<or> is_ascii_digit c"
definition is_ascii_hexdigit :: "nat \<Rightarrow> bool" where
  "is_ascii_hexdigit c \<longleftrightarrow> is_ascii_digit c \<or> 97 \<le> c \<and> c \<le> 102 \<or> 65 \<le> c \<and> c \<le> 70"

lemma utf8_chars_ascii: "list_all (\<lambda>c. c < 0x80) s \<Longrightarrow> utf8_chars s = s"
  by (induction s) simp_all

end
