(* ===== verification/ServerConfig.thy ===== *)
theory ServerConfig
  imports Ipv4Text
begin

text \<open>
  What the server accepts as configuration and as a registration request:
  \<open>vnts/src/utils/config.rs\<close> (\<open>ConfigFile\<close>, \<open>validate\<close> and the two value checks) and
  \<open>vnts/src/protocol/control_message.rs\<close> (\<open>RegRequestMsg\<close>, \<open>check\<close>). Error messages are short
  labels. Hash maps that are only iterated are association lists in iteration order.

  \<open>Ipv4Net\<close> is the crate \<open>ipnet\<close>: it is a record of what the server observes of a network, with the
  documented meaning of these observations as the predicate \<open>net_ok\<close>.
\<close>

section \<open>Networks\<close>

record Ipv4Net =
  net_network :: ipv4
  net_broadcast :: ipv4
  net_prefix_len :: u8
  net_contains :: "ipv4 \<Rightarrow> bool"

definition net_ok :: "Ipv4Net \<Rightarrow> bool" where
  "net_ok net \<longleftrightarrow> net_network net \<le> net_broadcast net \<and> net_prefix_len net \<le> 32 \<and>
     (\<forall>ip. net_contains net ip \<longleftrightarrow> net_network net \<le> ip \<and> ip \<le> net_broadcast net)"

section \<open>Registration requests\<close>

datatype RegistrationMode = Normal | PreRegister

record RegRequestMsg =
  rq_network_code :: string
  rq_device_id :: string
  rq_ip :: "ipv4 option"
  rq_name :: string
  rq_version :: string
  rq_key_sign :: "string option"
  rq_ip_variable :: bool
  rq_server_id :: u32
  rq_mode :: RegistrationMode

definition MAX_NETWORK_CODE_LEN :: nat where "MAX_NETWORK_CODE_LEN = 32"
definition MAX_DEVICE_ID_LEN :: nat where "MAX_DEVICE_ID_LEN = 64"
definition MAX_NAME_LEN :: nat where "MAX_NAME_LEN = 128"
definition MAX_VERSION_LEN :: nat where "MAX_VERSION_LEN = 32"

definition reg_check :: "RegRequestMsg \<Rightarrow> unit result" where
  "reg_check r =
     (if rq_network_code r = [] then Inl (Bail ''network_code cannot be empty'')
      else if length (rq_network_code r) > MAX_NETWORK_CODE_LEN
      then Inl (Bail ''network_code length exceeds'')
      else if rq_device_id r = [] then Inl (Bail ''device_id cannot be empty'')
      else if length (rq_device_id r) > MAX_DEVICE_ID_LEN then Inl (Bail ''device_id length exceeds'')
      else if length (rq_name r) > MAX_NAME_LEN then Inl (Bail ''name length exceeds'')
      else if length (rq_version r) > MAX_VERSION_LEN then Inl (Bail ''version length exceeds'')
      else Inr ())"

section \<open>Value checks\<close>

definition DEFAULT_NETWORK_CODE :: string where "DEFAULT_NETWORK_CODE = ''default''"

text \<open>\<open>code.trim().is_empty()\<close>: every character is white space.\<close>

definition validate_network_code_value :: "string \<Rightarrow> string \<Rightarrow> unit result" where
  "validate_network_code_value code field_name =
     (if list_all is_whitespace (chars_of code) then Inl (Bail ''empty network_code'')
      else if length code > 32 then Inl (Bail ''network_code longer than 32 characters'')
      else Inr ())"

definition validate_network_secret_value :: "string \<Rightarrow> string \<Rightarrow> unit result" where
  "validate_network_secret_value network_code secret =
     (let cs = chars_of secret in
      if length secret < 24 then Inl (Bail ''Secret too short'')
      else if list_ex is_whitespace cs then Inl (Bail ''Secret must not contain whitespace'')
      else
        (let category_count = length (filter (\<lambda>v. v)
               [list_ex is_ascii_lowercase cs, list_ex is_ascii_uppercase cs, list_ex is_ascii_digit cs,
                list_ex (\<lambda>c. \<not> is_ascii_alphanumeric c) cs]);
             is_hex = list_all is_ascii_hexdigit cs
         in if category_count < 3 \<and> \<not> (is_hex \<and> length secret \<ge> 32)
            then Inl (Bail ''Secret too weak'') else Inr ()))"

section \<open>The configuration file\<close>

text \<open>The fields \<open>validate\<close> reads; the others configure listeners and the web interface.\<close>

record ConfigFile =
  white_list :: "string list"
  custom_nets :: "(string \<times> Ipv4Net) list"
  network_secrets :: "(string \<times> string) list"

text \<open>A \<open>for\<close> loop whose body may return an error.\<close>

fun for_each :: "('a \<Rightarrow> unit result) \<Rightarrow> 'a list \<Rightarrow> unit result" where
  "for_each f [] = Inr ()"
| "for_each f (x # xs) = and_then (f x) (\<lambda>_. for_each f xs)"

lemma for_each_ok: "for_each f xs = Inr () \<longleftrightarrow> (\<forall>x \<in> set xs. f x = Inr ())"
  by (induction xs) auto

definition config_validate :: "ConfigFile \<Rightarrow> unit result" where
  "config_validate c =
     (if custom_nets c = [] then Inl (Bail ''custom_nets must contain at least one network'')
      else if DEFAULT_NETWORK_CODE \<notin> set (map fst (custom_nets c))
      then Inl (Bail ''custom_nets must contain default'')
      else
        and_then (for_each (\<lambda>(code, _). validate_network_code_value code ''custom_nets'') (custom_nets c)) (\<lambda>_.
        and_then (for_each (\<lambda>code. validate_network_code_value code ''white_list'') (white_list c)) (\<lambda>_.
        and_then (for_each (\<lambda>(code, secret).
            and_then (validate_network_code_value code ''network_secrets'') (\<lambda>_.
              validate_network_secret_value code secret)) (network_secrets c)) (\<lambda>_.
        for_each (\<lambda>(code, _).
            case map_of (network_secrets c) code of
              None \<Rightarrow> Inl (Bail ''Missing secret'')
            | Some secret \<Rightarrow> validate_network_secret_value code secret) (custom_nets c)))))"

section \<open>What acceptance means\<close>

definition good_code :: "string \<Rightarrow> bool" where
  "good_code code \<longleftrightarrow> (\<exists>c \<in> set (chars_of code). \<not> is_whitespace c) \<and> length code \<le> 32"

definition good_secret :: "string \<Rightarrow> bool" where
  "good_secret s \<longleftrightarrow> 24 \<le> length s \<and> (\<forall>c \<in> set (chars_of s). \<not> is_whitespace c) \<and>
     (3 \<le> (\<Sum>P \<leftarrow> [is_ascii_lowercase, is_ascii_uppercase, is_ascii_digit, \<lambda>c. \<not> is_ascii_alphanumeric c].
        of_bool (\<exists>c \<in> set (chars_of s). P c) :: nat) \<or>
      32 \<le> length s \<and> (\<forall>c \<in> set (chars_of s). is_ascii_hexdigit c))"

lemma validate_code_iff [simp]: "validate_network_code_value code f = Inr () \<longleftrightarrow> good_code code"
  by (auto simp: validate_network_code_value_def good_code_def list_all_iff)

lemma validate_secret_iff [simp]: "validate_network_secret_value code s = Inr () \<longleftrightarrow> good_secret s"
proof -
  have n: "length (filter (\<lambda>v. v) bs) = (\<Sum>b \<leftarrow> bs. of_bool b)" for bs
    by (induction bs) simp_all
  show ?thesis
    unfolding good_secret_def validate_network_secret_value_def Let_def n
    by (simp add: list_ex_iff list_all_iff not_less not_le Bex_def Ball_def) meson
qed

lemma config_accepted:
  "config_validate c = Inr () \<longleftrightarrow>
    (\<exists>net. (DEFAULT_NETWORK_CODE, net) \<in> set (custom_nets c)) \<and>
    (\<forall>code \<in> fst ` set (custom_nets c) \<union> set (white_list c) \<union> fst ` set (network_secrets c). good_code code) \<and>
    (\<forall>s \<in> snd ` set (network_secrets c). good_secret s) \<and>
    fst ` set (custom_nets c) \<subseteq> fst ` set (network_secrets c)"
proof -
  let ?nets = "set (custom_nets c)" and ?secs = "set (network_secrets c)"
  have look: "(case map_of (network_secrets c) code of None \<Rightarrow> Inl (Bail ''Missing secret'')
      | Some s \<Rightarrow> validate_network_secret_value code s) = Inr () \<longleftrightarrow>
    (\<exists>s. map_of (network_secrets c) code = Some s \<and> good_secret s)" for code
    by (simp split: option.splits)
  have nets: "for_each (\<lambda>(code, _). validate_network_code_value code f) (custom_nets c) = Inr () \<longleftrightarrow>
      (\<forall>code \<in> fst ` ?nets. good_code code)" for f
    by (simp add: for_each_ok split_beta)
  have white: "for_each (\<lambda>code. validate_network_code_value code f) (white_list c) = Inr () \<longleftrightarrow>
      (\<forall>code \<in> set (white_list c). good_code code)" for f
    by (simp add: for_each_ok)
  have secs: "for_each (\<lambda>(code, secret). and_then (validate_network_code_value code f) (\<lambda>_.
        validate_network_secret_value code secret)) (network_secrets c) = Inr () \<longleftrightarrow>
      (\<forall>code \<in> fst ` ?secs. good_code code) \<and> (\<forall>s \<in> snd ` ?secs. good_secret s)" for f
    by (simp add: for_each_ok split_beta) blast
  have found: "for_each (\<lambda>(code, _). case map_of (network_secrets c) code of
        None \<Rightarrow> Inl (Bail ''Missing secret'')
      | Some s \<Rightarrow> validate_network_secret_value code s) (custom_nets c) = Inr () \<longleftrightarrow>
      (\<forall>code \<in> fst ` ?nets. \<exists>s. map_of (network_secrets c) code = Some s \<and> good_secret s)"
    by (simp add: for_each_ok split_beta look)
  have found': "(\<forall>code \<in> fst ` ?nets. \<exists>s. map_of (network_secrets c) code = Some s \<and> good_secret s) \<longleftrightarrow>
      fst ` ?nets \<subseteq> fst ` ?secs" if g: "\<forall>s \<in> snd ` ?secs. good_secret s"
  proof -
    have "(\<exists>s. map_of (network_secrets c) code = Some s \<and> good_secret s) \<longleftrightarrow> code \<in> fst ` ?secs" for code
    proof
      assume "code \<in> fst ` ?secs"
      then obtain s where s: "map_of (network_secrets c) code = Some s"
        by (cases "map_of (network_secrets c) code") (auto simp: map_of_eq_None_iff)
      then have "s \<in> snd ` ?secs" by (force dest: map_of_SomeD)
      with s g show "\<exists>s. map_of (network_secrets c) code = Some s \<and> good_secret s" by blast
    qed (force dest: map_of_SomeD)
    then show ?thesis by blast
  qed
  have dflt: "DEFAULT_NETWORK_CODE \<in> set (map fst (custom_nets c)) \<longleftrightarrow>
      (\<exists>net. (DEFAULT_NETWORK_CODE, net) \<in> ?nets)"
    by force
  have "config_validate c = Inr () \<longleftrightarrow> DEFAULT_NETWORK_CODE \<in> set (map fst (custom_nets c)) \<and>
      (\<forall>code \<in> fst ` ?nets. good_code code) \<and> (\<forall>code \<in> set (white_list c). good_code code) \<and>
      ((\<forall>code \<in> fst ` ?secs. good_code code) \<and> (\<forall>s \<in> snd ` ?secs. good_secret s)) \<and>
      (\<forall>code \<in> fst ` ?nets. \<exists>s. map_of (network_secrets c) code = Some s \<and> good_secret s)"
    unfolding config_validate_def using nets white secs found by auto
  then show ?thesis using found' dflt by blast
qed

text \<open>Configuration files: \<open>validate\<close> accepts exactly the files that have the default network, whose
  codes (networks, allow-list, secrets) are all non-blank and at most 32 bytes long, whose secrets are all
  strong enough, and that have a secret for every network. Acceptance does not depend on the order in
  which the hash maps are visited.\<close>

theorem config_validate_iff:
  "config_validate c = Inr () \<longleftrightarrow>
    (\<exists>net. (DEFAULT_NETWORK_CODE, net) \<in> set (custom_nets c)) \<and>
    (\<forall>code \<in> fst ` set (custom_nets c) \<union> set (white_list c) \<union> fst ` set (network_secrets c). good_code code) \<and>
    (\<forall>s \<in> snd ` set (network_secrets c). good_secret s) \<and>
    fst ` set (custom_nets c) \<subseteq> fst ` set (network_secrets c)"
  by (rule config_accepted)

text \<open>The default configuration of the code, with a secret of the shape it generates.\<close>

definition demo_config :: ConfigFile where
  "demo_config = \<lparr>white_list = [], custom_nets = [(DEFAULT_NETWORK_CODE,
       \<lparr>net_network = 0x0A1A0000, net_broadcast = 0x0A1A00FF, net_prefix_len = 24,
        net_contains = (\<lambda>ip. 0x0A1A0000 \<le> ip \<and> ip \<le> 0x0A1A00FF)\<rparr>)],
     network_secrets = [(DEFAULT_NETWORK_CODE, ''Aa0!bcdefghijklmnopqrstuvwxyz012'')]\<rparr>"

theorem config_validate_iff_witness:
  "config_validate demo_config = Inr () \<and>
   config_validate (demo_config\<lparr>white_list := ['' '']\<rparr>) \<noteq> Inr ()"
proof -
  have c: "good_code DEFAULT_NETWORK_CODE" "\<not> good_code '' ''"
    by (simp_all add: good_code_def DEFAULT_NETWORK_CODE_def chars_of_def is_whitespace_def)
  have "validate_network_secret_value [] ''Aa0!bcdefghijklmnopqrstuvwxyz012'' = Inr ()"
    unfolding validate_network_secret_value_def
    by (simp add: chars_of_def is_whitespace_def Let_def is_ascii_lowercase_def is_ascii_uppercase_def
      is_ascii_digit_def is_ascii_alphanumeric_def)
  then have "good_secret ''Aa0!bcdefghijklmnopqrstuvwxyz012''" by (simp only: validate_secret_iff)
  note g = c this
  show ?thesis
    using config_validate_iff [of demo_config] config_validate_iff [of "demo_config\<lparr>white_list := ['' '']\<rparr>"]
    g by (simp add: demo_config_def)
qed

end
