(* ===== verification/NetworkState.thy ===== *)
theory NetworkState
  imports ServerConfig
begin

text \<open>
  The address registry of one virtual network on the server,
  \<open>vnts/src/server/network_state_provider.rs\<close>: which device holds which IP, which session is current
  for a device, who is online, the version number from which clients are told of changes, and the
  traffic counters.

  \<open>SystemTime\<close> is a number of milliseconds since the epoch, given to every operation that reads the
  clock. A \<open>Sender\<close> is the number of its channel. \<open>Arc<TrafficStats>\<close> is a reference into the store
  \<open>stats_heap\<close>: the device entry and the map by IP share the counters. An operation that fails
  leaves the state as it was. \<open>u64\<close> counters wrap, as in a release build.
\<close>

section \<open>Data\<close>

record TrafficStats =
  tx_total :: u64
  rx_total :: u64

definition TrafficStats_new :: TrafficStats where
  "TrafficStats_new = \<lparr>tx_total = 0, rx_total = 0\<rparr>"

record DeviceEntry =
  de_device_id :: string
  de_ip :: "ipv4 option"
  de_random_id :: u64
  de_device_name :: string
  de_device_version :: string
  de_is_connected :: bool
  de_last_connect_time :: nat
  de_disconnect_time :: "nat option"
  de_data_version :: u64
  de_key_sign :: "string option"
  de_latency_ms :: "u32 option"
  de_stats :: nat

record DeviceRecord =
  dr_device_id :: string
  dr_network_code :: string
  dr_ip :: "string option"
  dr_device_name :: string
  dr_device_version :: string
  dr_last_connect_time :: i64
  dr_tx_bytes :: i64
  dr_rx_bytes :: i64

definition system_time_to_i64 :: "nat \<Rightarrow> i64" where
  "system_time_to_i64 t = word_of_nat (t div 1000)"

definition i64_to_system_time :: "i64 \<Rightarrow> nat" where
  "i64_to_system_time ts = unat ts * 1000"

record NetworkStateInner =
  data_version :: u64
  device_map :: "string \<rightharpoonup> DeviceEntry"
  device_ip_map :: "ipv4 \<rightharpoonup> string"

record NetworkState =
  ns_time :: nat
  ns_network_code :: string
  ns_gateway :: ipv4
  ns_net :: Ipv4Net
  ns_lease_duration :: nat
  sender_map :: "ipv4 \<rightharpoonup> nat"
  lease_state :: NetworkStateInner
  traffic_stats_map :: "ipv4 \<rightharpoonup> nat"
  stats_heap :: "nat \<Rightarrow> TrafficStats"
  stats_next :: nat

definition from_record :: "nat \<Rightarrow> nat \<Rightarrow> DeviceRecord \<Rightarrow> DeviceEntry" where
  "from_record now stats r =
     \<lparr>de_device_id = dr_device_id r,
      de_ip = (case dr_ip r of None \<Rightarrow> None | Some s \<Rightarrow> parse_ipv4 s),
      de_random_id = 0, de_device_name = dr_device_name r, de_device_version = dr_device_version r,
      de_is_connected = False, de_last_connect_time = i64_to_system_time (dr_last_connect_time r),
      de_disconnect_time = Some now, de_data_version = 0, de_key_sign = None, de_latency_ms = None,
      de_stats = stats\<rparr>"

definition to_record :: "(nat \<Rightarrow> TrafficStats) \<Rightarrow> string \<Rightarrow> DeviceEntry \<Rightarrow> DeviceRecord" where
  "to_record heap network_code e =
     \<lparr>dr_device_id = de_device_id e, dr_network_code = network_code,
      dr_ip = map_option ip_to_string (de_ip e), dr_device_name = de_device_name e,
      dr_device_version = de_device_version e,
      dr_last_connect_time = system_time_to_i64 (de_last_connect_time e),
      dr_tx_bytes = tx_total (heap (de_stats e)), dr_rx_bytes = rx_total (heap (de_stats e))\<rparr>"

section \<open>The lease table\<close>

text \<open>\<open>for i in start..end\<close>, with early exit at the first free address.\<close>

function scan_ip :: "(ipv4 \<rightharpoonup> string) \<Rightarrow> ipv4 \<Rightarrow> nat \<Rightarrow> nat \<Rightarrow> ipv4 option" where
  "scan_ip m gateway i hi =
     (if hi \<le> i then None
      else if (word_of_nat i :: ipv4) = gateway \<or> m (word_of_nat i) \<noteq> None then scan_ip m gateway (i + 1) hi
      else Some (word_of_nat i))"
  by pat_completeness auto

termination scan_ip
  by (relation "measure (\<lambda>(m, gateway, i, hi). hi - i)") auto

declare scan_ip.simps [simp del]

definition find_available_ip :: "Ipv4Net \<Rightarrow> ipv4 \<Rightarrow> NetworkStateInner \<Rightarrow> ipv4 result" where
  "find_available_ip net gateway s =
     (let start = net_network net + 1; end' = net_broadcast net in
      ok_or (Bail ''IP exhaustion'') (scan_ip (device_ip_map s) gateway (unat start) (unat end')))"

definition add_device :: "DeviceEntry \<Rightarrow> NetworkStateInner \<Rightarrow> NetworkStateInner" where
  "add_device e s =
     s\<lparr>device_ip_map := (case de_ip e of
          Some ip \<Rightarrow> (device_ip_map s)(ip \<mapsto> de_device_id e) | None \<Rightarrow> device_ip_map s),
       device_map := (device_map s)(de_device_id e \<mapsto> e)\<rparr>"

definition remove_device :: "string \<Rightarrow> ipv4 option \<Rightarrow> NetworkStateInner \<Rightarrow> NetworkStateInner" where
  "remove_device device_id ip s =
     s\<lparr>device_map := (device_map s)(device_id := None),
       device_ip_map := (case ip of Some ip \<Rightarrow> (device_ip_map s)(ip := None) | None \<Rightarrow> device_ip_map s)\<rparr>"

definition new_entry :: "nat \<Rightarrow> u64 \<Rightarrow> nat \<Rightarrow> u64 \<Rightarrow> ipv4 \<Rightarrow> RegRequestMsg \<Rightarrow> DeviceEntry" where
  "new_entry now random_id stats version ip r =
     \<lparr>de_device_id = rq_device_id r, de_ip = Some ip, de_random_id = random_id,
      de_device_name = rq_name r, de_device_version = rq_version r, de_is_connected = True,
      de_last_connect_time = now, de_disconnect_time = None, de_data_version = version,
      de_key_sign = rq_key_sign r, de_latency_ms = None, de_stats = stats\<rparr>"

text \<open>The requested address: \<open>None\<close> is the \<open>break\<close> to the automatic choice.\<close>

definition check_requested :: "Ipv4Net \<Rightarrow> ipv4 \<Rightarrow> RegRequestMsg \<Rightarrow> ipv4 \<Rightarrow> NetworkStateInner
    \<Rightarrow> ipv4 option result" where
  "check_requested net gateway r ip s =
     (if ip = gateway
      then (if rq_ip_variable r then Inr None else Inl (Bail ''gateway IP''))
      else if \<not> net_contains net ip
      then (if rq_ip_variable r then Inr None else Inl (Bail ''IP outside the network''))
      else (case device_ip_map s ip of
              Some owner \<Rightarrow>
                if rq_ip_variable r then Inr None
                else if device_map s owner \<noteq> None then Inl (Bail ''IP in use'')
                else Inl (Bail ''IP in use, server data error'')
            | None \<Rightarrow> Inr (Some ip)))"

text \<open>A known device that asks for its own address or for any: the entry is taken over.\<close>

definition reconnect :: "Ipv4Net \<Rightarrow> ipv4 \<Rightarrow> nat \<Rightarrow> u64 \<Rightarrow> RegRequestMsg \<Rightarrow> DeviceEntry
    \<Rightarrow> NetworkStateInner \<Rightarrow> (NetworkStateInner \<times> ipv4 \<times> ipv4 option) result" where
  "reconnect net gateway now random_id r e s =
     and_then (case de_ip e of
                 None \<Rightarrow> and_then (find_available_ip net gateway s) (\<lambda>ip. Inr (Some ip))
               | Some _ \<Rightarrow> Inr None)
     (\<lambda>new_ip.
       let v = data_version s + 1;
           e = e\<lparr>de_is_connected := True, de_disconnect_time := None, de_random_id := random_id,
                 de_last_connect_time := now, de_data_version := v, de_key_sign := rq_key_sign r\<rparr>;
           s = s\<lparr>data_version := v\<rparr>
       in case new_ip of
            Some ip \<Rightarrow>
              Inr (s\<lparr>device_map := (device_map s)(rq_device_id r \<mapsto> e\<lparr>de_ip := Some ip\<rparr>),
                     device_ip_map := (device_ip_map s)(ip \<mapsto> de_device_id e)\<rparr>, ip, None)
          | None \<Rightarrow>
              Inr (s\<lparr>device_map := (device_map s)(rq_device_id r \<mapsto> e)\<rparr>, the (de_ip e), None))"

text \<open>
  A new device, or a known one that asks for another address. On the automatic choice the index keeps
  the old address of the device: only the branch that grants the requested address removes it.
\<close>

definition place :: "Ipv4Net \<Rightarrow> ipv4 \<Rightarrow> nat \<Rightarrow> nat \<Rightarrow> RegRequestMsg \<Rightarrow> u64 \<Rightarrow> ipv4 option
    \<Rightarrow> NetworkStateInner \<Rightarrow> (NetworkStateInner \<times> ipv4 \<times> ipv4 option) result" where
  "place net gateway now stats r random_id old s =
     and_then (case rq_ip r of
                 None \<Rightarrow> Inr None | Some ip \<Rightarrow> check_requested net gateway r ip s)
     (\<lambda>chosen. let v = data_version s + 1 in
       case chosen of
         Some ip \<Rightarrow>
           (let s = (case old of
                       Some old_ip \<Rightarrow> s\<lparr>device_ip_map := (device_ip_map s)(old_ip := None)\<rparr> | None \<Rightarrow> s)
            in Inr (add_device (new_entry now random_id stats v ip r) (s\<lparr>data_version := v\<rparr>), ip, old))
       | None \<Rightarrow>
           and_then (find_available_ip net gateway s) (\<lambda>ip.
             Inr (add_device (new_entry now random_id stats v ip r) (s\<lparr>data_version := v\<rparr>), ip, old)))"

definition allocate_ip :: "Ipv4Net \<Rightarrow> ipv4 \<Rightarrow> nat \<Rightarrow> nat \<Rightarrow> RegRequestMsg \<Rightarrow> u64 \<Rightarrow> NetworkStateInner
    \<Rightarrow> (NetworkStateInner \<times> ipv4 \<times> ipv4 option) result" where
  "allocate_ip net gateway now stats r random_id s =
     (let existing = device_map s (rq_device_id r);
          old = (case existing of None \<Rightarrow> None | Some e \<Rightarrow> de_ip e)
      in case existing of
           Some e \<Rightarrow>
             if rq_ip r = None \<or> de_ip e = rq_ip r
             then reconnect net gateway now random_id r e s
             else place net gateway now stats r random_id old s
         | None \<Rightarrow> place net gateway now stats r random_id old s)"

definition offline_inner :: "(nat \<Rightarrow> TrafficStats) \<Rightarrow> string \<Rightarrow> nat \<Rightarrow> string \<Rightarrow> ipv4 \<Rightarrow> u64
    \<Rightarrow> NetworkStateInner \<Rightarrow> NetworkStateInner \<times> bool \<times> DeviceRecord option" where
  "offline_inner heap network_code now device_id ip random_id s =
     (case device_map s device_id of
        None \<Rightarrow> (s, False, None)
      | Some e \<Rightarrow>
          if de_random_id e \<noteq> random_id then (s, False, None)
          else if de_ip e \<noteq> Some ip then (s, False, None)
          else
            (let v = data_version s + 1;
                 e = e\<lparr>de_data_version := v, de_is_connected := False, de_disconnect_time := Some now\<rparr>
             in (s\<lparr>data_version := v, device_map := (device_map s)(device_id \<mapsto> e)\<rparr>, True,
                 Some (to_record heap network_code e))))"

text \<open>The ids the code collects, in the map's order; \<open>order\<close> lists the keys of the map.\<close>

definition is_expired :: "nat \<Rightarrow> nat \<Rightarrow> DeviceEntry \<Rightarrow> bool" where
  "is_expired lease now e \<longleftrightarrow>
     (if de_is_connected e then False
      else (case de_disconnect_time e of
              Some t \<Rightarrow> \<not> t + lease > now
            | None \<Rightarrow> False))"

definition collect_expired_devices :: "string list \<Rightarrow> nat \<Rightarrow> nat \<Rightarrow> NetworkStateInner \<Rightarrow> string list" where
  "collect_expired_devices order lease now s =
     filter (\<lambda>k. case device_map s k of Some e \<Rightarrow> is_expired lease now e | None \<Rightarrow> False) order"

definition forget_device :: "string \<Rightarrow> NetworkStateInner \<Rightarrow> NetworkStateInner" where
  "forget_device k s =
     (case device_map s k of
        None \<Rightarrow> s
      | Some e \<Rightarrow>
          s\<lparr>device_map := (device_map s)(k := None),
            device_ip_map := (case de_ip e of
                Some ip \<Rightarrow> (device_ip_map s)(ip := None) | None \<Rightarrow> device_ip_map s)\<rparr>)"

fun remove_each :: "string list \<Rightarrow> NetworkStateInner \<Rightarrow> NetworkStateInner" where
  "remove_each [] s = s"
| "remove_each (k # ks) s = remove_each ks (forget_device k s)"

definition remove_devices :: "string list \<Rightarrow> NetworkStateInner \<Rightarrow> NetworkStateInner" where
  "remove_devices ks s =
     (if ks = [] then s else remove_each ks (s\<lparr>data_version := data_version s + 1\<rparr>))"

section \<open>The state of a network\<close>

text \<open>\<open>build_initial_inner_state\<close> and \<open>new_from_db\<close>: \<open>None\<close> is a database error.\<close>

fun load_records :: "Ipv4Net \<Rightarrow> ipv4 \<Rightarrow> nat \<Rightarrow> DeviceRecord list \<Rightarrow> NetworkState \<Rightarrow> NetworkState" where
  "load_records net gateway now [] st = st"
| "load_records net gateway now (r # rs) st =
     (let e = from_record now (stats_next st) r;
          s = lease_state st;
          ips = (case de_ip e of
                   Some ip \<Rightarrow> if net_contains net ip \<and> gateway \<noteq> ip
                              then (device_ip_map s)(ip \<mapsto> de_device_id e) else device_ip_map s
                 | None \<Rightarrow> device_ip_map s)
      in load_records net gateway now rs
           (st\<lparr>lease_state := s\<lparr>device_map := (device_map s)(de_device_id e \<mapsto> e),
                               device_ip_map := ips,
                               data_version := max (data_version s) (de_data_version e)\<rparr>,
               stats_heap := (stats_heap st)(stats_next st :=
                  \<lparr>tx_total = dr_tx_bytes r, rx_total = dr_rx_bytes r\<rparr>),
               stats_next := stats_next st + 1\<rparr>))"

definition new_from_db :: "string \<Rightarrow> Ipv4Net \<Rightarrow> nat \<Rightarrow> nat \<Rightarrow> DeviceRecord list option \<Rightarrow> NetworkState" where
  "new_from_db network_code net lease now records =
     (let gateway = net_network net + 1;
          empty = \<lparr>ns_time = now, ns_network_code = network_code, ns_gateway = gateway, ns_net = net,
            ns_lease_duration = lease, sender_map = Map.empty,
            lease_state = \<lparr>data_version = 0, device_map = Map.empty, device_ip_map = Map.empty\<rparr>,
            traffic_stats_map = Map.empty, stats_heap = (\<lambda>_. TrafficStats_new), stats_next = 0\<rparr>
      in (case records of
            None \<Rightarrow> empty
          | Some rs \<Rightarrow> load_records net gateway now rs empty))"

definition update_time :: "nat \<Rightarrow> NetworkState \<Rightarrow> NetworkState" where
  "update_time now st = st\<lparr>ns_time := now\<rparr>"

text \<open>The channel and the counters of an address are dropped together.\<close>

definition drop_ip :: "ipv4 \<Rightarrow> NetworkState \<Rightarrow> NetworkState" where
  "drop_ip ip st = st\<lparr>sender_map := (sender_map st)(ip := None),
                      traffic_stats_map := (traffic_stats_map st)(ip := None)\<rparr>"

definition allocate_ip_and_get_entry :: "nat \<Rightarrow> RegRequestMsg \<Rightarrow> u64 \<Rightarrow> nat \<Rightarrow> NetworkState
    \<Rightarrow> (NetworkState \<times> ipv4 \<times> ipv4 option \<times> DeviceEntry option) result" where
  "allocate_ip_and_get_entry now r random_id sender st =
     and_then (allocate_ip (ns_net st) (ns_gateway st) now (stats_next st) r random_id (lease_state st))
     (\<lambda>(s, ip, old_ip).
       let st = st\<lparr>lease_state := s, stats_heap := (stats_heap st)(stats_next st := TrafficStats_new),
                   stats_next := stats_next st + 1\<rparr>;
           st = (case old_ip of Some o_ip \<Rightarrow> drop_ip o_ip st | None \<Rightarrow> st);
           entry = device_map s (rq_device_id r);
           st = st\<lparr>sender_map := (sender_map st)(ip \<mapsto> sender)\<rparr>;
           st = (case entry of
                   Some e \<Rightarrow> st\<lparr>traffic_stats_map := (traffic_stats_map st)(ip \<mapsto> de_stats e)\<rparr>
                 | None \<Rightarrow> st)
       in Inr (st, ip, old_ip, entry))"

definition offline_ip :: "nat \<Rightarrow> string \<Rightarrow> ipv4 \<Rightarrow> u64 \<Rightarrow> NetworkState
    \<Rightarrow> NetworkState \<times> DeviceRecord option" where
  "offline_ip now device_id ip random_id st =
     (case offline_inner (stats_heap st) (ns_network_code st) now device_id ip random_id (lease_state st) of
        (s, success, record) \<Rightarrow>
          if success then (drop_ip ip (st\<lparr>lease_state := s\<rparr>), record) else (st, None))"

definition net_count :: "string list \<Rightarrow> ipv4 list \<Rightarrow> NetworkState \<Rightarrow> nat \<times> nat" where
  "net_count keys ips st =
     (let all_count = length (filter (\<lambda>k. device_map (lease_state st) k \<noteq> None) keys);
          online_count = length (filter (\<lambda>ip. sender_map st ip \<noteq> None) ips)
      in (max all_count online_count, online_count))"

definition is_device_online :: "string \<Rightarrow> NetworkState \<Rightarrow> bool" where
  "is_device_online device_id st =
     (case device_map (lease_state st) device_id of Some e \<Rightarrow> de_is_connected e | None \<Rightarrow> False)"

definition remove_device_from_memory :: "string \<Rightarrow> NetworkState \<Rightarrow> NetworkState \<times> ipv4 option" where
  "remove_device_from_memory device_id st =
     (let s = lease_state st in
      case device_map s device_id of
        Some e \<Rightarrow>
          (let s = s\<lparr>device_map := (device_map s)(device_id := None)\<rparr>;
               bump = (\<lambda>s. s\<lparr>data_version := data_version s + 1\<rparr>)
           in (case de_ip e of
                 Some ip \<Rightarrow>
                   drop_ip ip (st\<lparr>lease_state := bump (s\<lparr>device_ip_map := (device_ip_map s)(ip := None)\<rparr>)\<rparr>)
               | None \<Rightarrow> st\<lparr>lease_state := bump s\<rparr>, de_ip e))
      | None \<Rightarrow> (st, None))"

text \<open>
  \<open>release_pre_registered_ip\<close> gives up the lock between its two parts: \<open>release_locked\<close> removes the
  entry, and then the channel is dropped.
\<close>

definition release_locked :: "string \<Rightarrow> ipv4 \<Rightarrow> u64 \<Rightarrow> NetworkState \<Rightarrow> NetworkState \<times> bool" where
  "release_locked device_id ip random_id st =
     (let s = lease_state st in
      case device_map s device_id of
        Some e \<Rightarrow>
          if de_random_id e = random_id \<and> de_ip e = Some ip
          then (st\<lparr>lease_state :=
                 s\<lparr>device_map := (device_map s)(device_id := None),
                   device_ip_map := (device_ip_map s)(ip := None),
                   data_version := data_version s + 1\<rparr>\<rparr>, True)
          else (st, False)
      | None \<Rightarrow> (st, False))"

definition release_pre_registered_ip :: "string \<Rightarrow> ipv4 \<Rightarrow> u64 \<Rightarrow> NetworkState \<Rightarrow> NetworkState" where
  "release_pre_registered_ip device_id ip random_id st =
     (case release_locked device_id ip random_id st of
        (st', should_remove) \<Rightarrow> if should_remove then drop_ip ip st' else st')"

definition get_device_entry :: "string \<Rightarrow> NetworkState \<Rightarrow> DeviceEntry option" where
  "get_device_entry device_id st = device_map (lease_state st) device_id"

definition get_device_entry_by_ip :: "ipv4 \<Rightarrow> NetworkState \<Rightarrow> DeviceEntry option" where
  "get_device_entry_by_ip ip st =
     (case device_ip_map (lease_state st) ip of
        Some owner \<Rightarrow> device_map (lease_state st) owner | None \<Rightarrow> None)"

definition ns_remove_devices :: "string list \<Rightarrow> NetworkState \<Rightarrow> NetworkState" where
  "ns_remove_devices ks st = st\<lparr>lease_state := remove_devices ks (lease_state st)\<rparr>"

definition ns_collect_expired :: "string list \<Rightarrow> nat \<Rightarrow> NetworkState \<Rightarrow> string list" where
  "ns_collect_expired order now st =
     collect_expired_devices order (ns_lease_duration st) now (lease_state st)"

definition record_tx_traffic :: "ipv4 \<Rightarrow> nat \<Rightarrow> NetworkState \<Rightarrow> NetworkState" where
  "record_tx_traffic ip n st =
     (case traffic_stats_map st ip of
        Some c \<Rightarrow> st\<lparr>stats_heap := (stats_heap st)(c :=
            (stats_heap st c)\<lparr>tx_total := tx_total (stats_heap st c) + word_of_nat n\<rparr>)\<rparr>
      | None \<Rightarrow> st)"

definition record_rx_traffic :: "ipv4 \<Rightarrow> nat \<Rightarrow> NetworkState \<Rightarrow> NetworkState" where
  "record_rx_traffic ip n st =
     (case traffic_stats_map st ip of
        Some c \<Rightarrow> st\<lparr>stats_heap := (stats_heap st)(c :=
            (stats_heap st c)\<lparr>rx_total := rx_total (stats_heap st c) + word_of_nat n\<rparr>)\<rparr>
      | None \<Rightarrow> st)"

definition update_client_latency :: "ipv4 \<Rightarrow> u32 \<Rightarrow> NetworkState \<Rightarrow> NetworkState" where
  "update_client_latency ip latency_ms st =
     (let s = lease_state st in
      case device_ip_map s ip of
        None \<Rightarrow> st
      | Some owner \<Rightarrow>
          (case device_map s owner of
             None \<Rightarrow> st
           | Some e \<Rightarrow> st\<lparr>lease_state := s\<lparr>device_map :=
               (device_map s)(owner \<mapsto> e\<lparr>de_latency_ms := Some latency_ms\<rparr>)\<rparr>\<rparr>))"

section \<open>What clients are told\<close>

record ClientSimpleInfo =
  csi_ip :: ipv4
  csi_online :: bool

record ClientSimpleInfoList =
  csl_data_version :: u64
  csl_list :: "ClientSimpleInfo list"
  csl_is_all :: bool
  csl_time :: i64

definition simple_infos :: "string list \<Rightarrow> (DeviceEntry \<Rightarrow> bool) \<Rightarrow> NetworkStateInner \<Rightarrow> ClientSimpleInfo list"
where
  "simple_infos order p s =
     map (\<lambda>e. \<lparr>csi_ip = the (de_ip e), csi_online = de_is_connected e\<rparr>)
       (filter p (map (\<lambda>k. the (device_map s k)) (filter (\<lambda>k. device_map s k \<noteq> None) order)))"

definition changed_client_simple_list :: "string list \<Rightarrow> ipv4 \<Rightarrow> u64 \<Rightarrow> NetworkState
    \<Rightarrow> ClientSimpleInfoList option" where
  "changed_client_simple_list order exclude_ip version st =
     (let s = lease_state st in
      if version = data_version s then None
      else if version > data_version s
      then Some \<lparr>csl_data_version = data_version s,
             csl_list = simple_infos order (\<lambda>e. de_ip e \<noteq> None \<and> de_ip e \<noteq> Some exclude_ip) s,
             csl_is_all = True, csl_time = 0\<rparr>
      else Some \<lparr>csl_data_version = data_version s,
             csl_list = simple_infos order (\<lambda>e. de_data_version e > version \<and> de_ip e \<noteq> None \<and>
               de_ip e \<noteq> Some exclude_ip) s,
             csl_is_all = False, csl_time = 0\<rparr>)"

end
