(* ===== verification/Registry.thy ===== *)
theory Registry
  imports NetworkState
begin

text \<open>
  Correctness of the address registry (\<open>NetworkState\<close>): the search for a free address, the invariant
  \<open>lease_inv\<close> of the lease table and \<open>ns_inv\<close> of a whole network (index, channels and counters agree
  with the device entries), its preservation by every operation, and runs \<open>ns_run\<close> of the operations
  from a state loaded from the database. The properties are in \<open>RegistryProps\<close>.
\<close>

section \<open>The automatic choice of an address\<close>

lemma scan_ip_Some:
  "scan_ip m g i hi = Some ip \<Longrightarrow>
   \<exists>j. i \<le> j \<and> j < hi \<and> ip = word_of_nat j \<and> ip \<noteq> g \<and> m ip = None \<and>
     (\<forall>k. i \<le> k \<longrightarrow> k < j \<longrightarrow> (word_of_nat k :: ipv4) = g \<or> m (word_of_nat k) \<noteq> None)"
proof (induction m g i hi rule: scan_ip.induct)
  case (1 m g i hi)
  show ?case
  proof (cases "hi \<le> i \<or> \<not> ((word_of_nat i :: ipv4) = g \<or> m (word_of_nat i) \<noteq> None)")
    case True
    then show ?thesis using "1.prems" by (subst (asm) scan_ip.simps) (auto split: if_splits)
  next
    case False
    then have "scan_ip m g (i + 1) hi = Some ip"
      using "1.prems" by (subst (asm) scan_ip.simps) simp
    then obtain j where j: "i + 1 \<le> j" "j < hi" "ip = word_of_nat j" "ip \<noteq> g" "m ip = None"
      "\<forall>k. i + 1 \<le> k \<longrightarrow> k < j \<longrightarrow> (word_of_nat k :: ipv4) = g \<or> m (word_of_nat k) \<noteq> None"
      using "1.IH" False by blast
    have "(word_of_nat k :: ipv4) = g \<or> m (word_of_nat k) \<noteq> None" if "i \<le> k" "k < j" for k
      using that j(6) False by (cases "k = i") auto
    then show ?thesis using j by (intro exI [of _ j]) auto
  qed
qed

lemma scan_ip_None:
  "scan_ip m g i hi = None \<longleftrightarrow>
   (\<forall>k. i \<le> k \<longrightarrow> k < hi \<longrightarrow> (word_of_nat k :: ipv4) = g \<or> m (word_of_nat k) \<noteq> None)"
proof (induction m g i hi rule: scan_ip.induct)
  case (1 m g i hi)
  show ?case
  proof (cases "hi \<le> i \<or> \<not> ((word_of_nat i :: ipv4) = g \<or> m (word_of_nat i) \<noteq> None)")
    case True
    then show ?thesis by (subst scan_ip.simps) auto
  next
    case False
    then have e: "scan_ip m g i hi = scan_ip m g (i + 1) hi" by (subst scan_ip.simps) simp
    have IH: "scan_ip m g (i + 1) hi = None \<longleftrightarrow>
      (\<forall>k. i + 1 \<le> k \<longrightarrow> k < hi \<longrightarrow> (word_of_nat k :: ipv4) = g \<or> m (word_of_nat k) \<noteq> None)"
      using "1.IH" False by blast
    have "(\<forall>k. i \<le> k \<longrightarrow> k < hi \<longrightarrow> P k) \<longleftrightarrow> (\<forall>k. i + 1 \<le> k \<longrightarrow> k < hi \<longrightarrow> P k)"
      if "P i" for P :: "nat \<Rightarrow> bool"
      using that by (metis Suc_eq_plus1 Suc_leI le_eq_less_or_eq Suc_leD)
    from this [of "\<lambda>k. (word_of_nat k :: ipv4) = g \<or> m (word_of_nat k) \<noteq> None"]
    show ?thesis unfolding e IH using False by blast
  qed
qed

text \<open>The address after the network address, when there is one.\<close>

definition net_proper :: "Ipv4Net \<Rightarrow> bool" where
  "net_proper net \<longleftrightarrow> net_ok net \<and> net_network net \<noteq> BROADCAST"

lemma net_proper_start: "net_proper net \<Longrightarrow> unat (net_network net + 1) = unat (net_network net) + 1"
proof -
  assume "net_proper net"
  have "net_network net + 1 \<noteq> 0"
  proof (rule contrapos_nn)
    assume "net_network net + 1 = 0"
    then have "net_network net = - 1" by (simp add: eq_neg_iff_add_eq_0)
    then show "net_network net = BROADCAST" by simp
  qed (use \<open>net_proper net\<close> in \<open>simp add: net_proper_def\<close>)
  then show ?thesis by (metis Suc_eq_plus1 add.commute unatSuc)
qed

lemma find_available_ip_Inr:
  assumes "net_proper net" "find_available_ip net g s = Inr ip"
  shows "net_network net < ip" "ip < net_broadcast net" "net_contains net ip" "ip \<noteq> g"
    "device_ip_map s ip = None"
    "\<And>j. net_network net < j \<Longrightarrow> j < ip \<Longrightarrow> j = g \<or> device_ip_map s j \<noteq> None"
proof -
  have "scan_ip (device_ip_map s) g (unat (net_network net) + 1) (unat (net_broadcast net)) = Some ip"
    using assms(2) net_proper_start [OF assms(1)] by (simp add: find_available_ip_def Let_def)
  from scan_ip_Some [OF this]
  obtain j where j: "unat (net_network net) + 1 \<le> j" "j < unat (net_broadcast net)" "ip = word_of_nat j"
    "ip \<noteq> g" "device_ip_map s ip = None"
    "\<forall>k. unat (net_network net) + 1 \<le> k \<longrightarrow> k < j \<longrightarrow>
      (word_of_nat k :: ipv4) = g \<or> device_ip_map s (word_of_nat k) \<noteq> None"
    by blast
  have "j < 2 ^ 32" using j(2) unsigned_less [of "net_broadcast net", where 'a = nat] by simp
  then have u: "unat ip = j" using j(3) by (simp add: unat_of_nat)
  show lt: "net_network net < ip" "ip < net_broadcast net" using j(1,2) u by (simp_all add: word_less_nat_alt)
  then show "net_contains net ip" using assms(1) by (simp add: net_proper_def net_ok_def less_imp_le)
  show "ip \<noteq> g" "device_ip_map s ip = None" using j by auto
  show "x = g \<or> device_ip_map s x \<noteq> None" if "net_network net < x" "x < ip" for x
    using j(6)[rule_format, of "unat x"] that u by (simp add: word_less_nat_alt)
qed

lemma find_available_ip_Inl:
  assumes "net_proper net"
  shows "find_available_ip net g s = Inl e \<longleftrightarrow> e = Bail ''IP exhaustion'' \<and>
    (\<forall>ip. net_network net < ip \<longrightarrow> ip < net_broadcast net \<longrightarrow> ip = g \<or> device_ip_map s ip \<noteq> None)"
proof -
  have "scan_ip (device_ip_map s) g (unat (net_network net) + 1) (unat (net_broadcast net)) = None \<longleftrightarrow>
    (\<forall>ip. net_network net < ip \<longrightarrow> ip < net_broadcast net \<longrightarrow> ip = g \<or> device_ip_map s ip \<noteq> None)"
    unfolding scan_ip_None
  proof (intro iffI allI impI)
    fix ip :: ipv4
    assume a: "\<forall>k. unat (net_network net) + 1 \<le> k \<longrightarrow> k < unat (net_broadcast net) \<longrightarrow>
        (word_of_nat k :: ipv4) = g \<or> device_ip_map s (word_of_nat k) \<noteq> None"
      and "net_network net < ip" "ip < net_broadcast net"
    then show "ip = g \<or> device_ip_map s ip \<noteq> None"
      using a[rule_format, of "unat ip"] by (simp add: word_less_nat_alt)
  next
    fix k
    assume a: "\<forall>ip. net_network net < ip \<longrightarrow> ip < net_broadcast net \<longrightarrow> ip = g \<or> device_ip_map s ip \<noteq> None"
      and k: "unat (net_network net) + 1 \<le> k" "k < unat (net_broadcast net)"
    have "k < 2 ^ 32" using k(2) unsigned_less [of "net_broadcast net", where 'a = nat] by simp
    then have "unat (word_of_nat k :: ipv4) = k" by (simp add: unat_of_nat)
    then show "(word_of_nat k :: ipv4) = g \<or> device_ip_map s (word_of_nat k) \<noteq> None"
      using a k by (simp add: word_less_nat_alt)
  qed
  then show ?thesis
    by (auto simp: find_available_ip_def Let_def net_proper_start [OF assms] ok_or_def split: option.splits)
qed

section \<open>The invariant of the lease table\<close>

definition lease_inv :: "Ipv4Net \<Rightarrow> ipv4 \<Rightarrow> NetworkStateInner \<Rightarrow> bool" where
  "lease_inv net g s \<longleftrightarrow>
     (\<forall>k e. device_map s k = Some e \<longrightarrow> de_device_id e = k) \<and>
     (\<forall>k e ip. device_map s k = Some e \<longrightarrow> de_ip e = Some ip \<longrightarrow> device_ip_map s ip = Some k) \<and>
     (\<forall>ip k. device_ip_map s ip = Some k \<longrightarrow> net_contains net ip \<and> ip \<noteq> g)"

lemma lease_invI:
  assumes "\<And>k e. device_map s k = Some e \<Longrightarrow> de_device_id e = k"
    "\<And>k e ip. device_map s k = Some e \<Longrightarrow> de_ip e = Some ip \<Longrightarrow> device_ip_map s ip = Some k"
    "\<And>ip k. device_ip_map s ip = Some k \<Longrightarrow> net_contains net ip \<and> ip \<noteq> g"
  shows "lease_inv net g s"
  using assms by (simp add: lease_inv_def)

lemma lease_invD:
  assumes "lease_inv net g s"
  shows "device_map s k = Some e \<Longrightarrow> de_device_id e = k"
    "device_map s k = Some e \<Longrightarrow> de_ip e = Some ip \<Longrightarrow> device_ip_map s ip = Some k"
    "device_ip_map s ip = Some k \<Longrightarrow> net_contains net ip \<and> ip \<noteq> g"
  using assms by (auto simp: lease_inv_def)

lemma lease_inv_gateway: "lease_inv net g s \<Longrightarrow> device_ip_map s g = None"
  using lease_invD(3) by (metis not_None_eq)

definition held_ip :: "NetworkStateInner \<Rightarrow> string \<Rightarrow> ipv4 option" where
  "held_ip s k = (case device_map s k of Some e \<Rightarrow> de_ip e | None \<Rightarrow> None)"

text \<open>What a successful allocation does, whichever branch it took.\<close>

definition granted :: "Ipv4Net \<Rightarrow> ipv4 \<Rightarrow> nat \<Rightarrow> nat \<Rightarrow> RegRequestMsg \<Rightarrow> u64 \<Rightarrow> NetworkStateInner
    \<Rightarrow> NetworkStateInner \<Rightarrow> ipv4 \<Rightarrow> ipv4 option \<Rightarrow> DeviceEntry \<Rightarrow> bool" where
  "granted net g now stats r rid s s' ip old e \<longleftrightarrow>
     device_map s' = (device_map s)(rq_device_id r \<mapsto> e) \<and>
     de_device_id e = rq_device_id r \<and> de_ip e = Some ip \<and> de_is_connected e \<and> de_random_id e = rid \<and>
     de_disconnect_time e = None \<and> de_last_connect_time e = now \<and> de_key_sign e = rq_key_sign r \<and>
     de_data_version e = data_version s' \<and> data_version s' = data_version s + 1 \<and>
     device_ip_map s' ip = Some (rq_device_id r) \<and> net_contains net ip \<and> ip \<noteq> g \<and>
     (device_ip_map s ip = None \<or> held_ip s (rq_device_id r) = Some ip) \<and>
     (\<forall>x. x \<noteq> ip \<longrightarrow> device_ip_map s' x = device_ip_map s x \<or>
        (old = Some x \<and> device_ip_map s' x = None)) \<and>
     (if old = None then held_ip s (rq_device_id r) \<in> {None, Some ip}
      else held_ip s (rq_device_id r) = old \<and> old \<noteq> Some ip) \<and>
     (case device_map s (rq_device_id r) of
        Some e0 \<Rightarrow> de_stats e = de_stats e0 \<and> de_device_name e = de_device_name e0 \<or> de_stats e = stats
      | None \<Rightarrow> de_stats e = stats)"

lemma reconnect_granted:
  assumes "net_proper net" "lease_inv net g s" "device_map s (rq_device_id r) = Some e0"
    and "reconnect net g now rid r e0 s = Inr (s', ip, old)"
  shows "\<exists>e. granted net g now stats r rid s s' ip old e"
proof (cases "de_ip e0")
  case None
  then obtain a where "find_available_ip net g s = Inr a"
    using assms(4) by (auto simp: reconnect_def)
  then show ?thesis
    using assms None find_available_ip_Inr [OF assms(1), of g s a] lease_invD(1) [OF assms(2,3)]
    by (auto simp: reconnect_def Let_def granted_def held_ip_def)
next
  case (Some a)
  then show ?thesis
    using assms lease_invD(2) [OF assms(2,3) Some] lease_invD(1) [OF assms(2,3)] lease_invD(3) [OF assms(2)]
    by (auto simp: reconnect_def Let_def granted_def held_ip_def)
qed

lemma place_granted:
  assumes "net_proper net" "lease_inv net g s"
    and "place net g now stats r rid (held_ip s (rq_device_id r)) s = Inr (s', ip, old)"
  shows "\<exists>e. granted net g now stats r rid s s' ip old e"
proof -
  let ?old = "held_ip s (rq_device_id r)"
  have own: "device_ip_map s x = Some (rq_device_id r)" if "?old = Some x" for x
    using that lease_invD(2) [OF assms(2)] by (auto simp: held_ip_def split: option.splits)
  obtain chosen where c: "(case rq_ip r of None \<Rightarrow> Inr None
      | Some ip \<Rightarrow> check_requested net g r ip s) = Inr chosen"
    using assms(3) by (auto simp: place_def)
  have old: "old = ?old"
    using assms(3) by (auto simp: place_def Let_def split: option.splits)
  show ?thesis
  proof (cases chosen)
    case None
    then obtain a where a: "find_available_ip net g s = Inr a" and s': "ip = a"
      "s' = add_device (new_entry now rid stats (data_version s + 1) a r) (s\<lparr>data_version := data_version s + 1\<rparr>)"
      using assms(3) c by (auto simp: place_def Let_def)
    show ?thesis
      using find_available_ip_Inr [OF assms(1) a] own s' old
      by (auto simp: granted_def add_device_def new_entry_def held_ip_def split: option.splits)
  next
    case (Some a)
    then have a: "net_contains net a" "a \<noteq> g" "device_ip_map s a = None" and s': "ip = a"
      "s' = add_device (new_entry now rid stats (data_version s + 1) a r)
         ((case ?old of Some o_ip \<Rightarrow> s\<lparr>device_ip_map := (device_ip_map s)(o_ip := None)\<rparr> | None \<Rightarrow> s)
          \<lparr>data_version := data_version s + 1\<rparr>)"
      using assms(3) c
      by (auto simp: place_def Let_def check_requested_def split: option.splits if_splits)
    show ?thesis
      using a own s' old
      by (auto simp: granted_def add_device_def new_entry_def held_ip_def split: option.splits)
  qed
qed

lemma allocate_granted:
  assumes "net_proper net" "lease_inv net g s"
    and "allocate_ip net g now stats r rid s = Inr (s', ip, old)"
  shows "\<exists>e. granted net g now stats r rid s s' ip old e"
proof (cases "device_map s (rq_device_id r)")
  case None
  then have "held_ip s (rq_device_id r) = None" by (simp add: held_ip_def)
  then show ?thesis
    using assms place_granted [OF assms(1,2)] None by (auto simp: allocate_ip_def Let_def)
next
  case (Some e0)
  then have "held_ip s (rq_device_id r) = de_ip e0" by (simp add: held_ip_def)
  then show ?thesis
    using assms place_granted [OF assms(1,2)] reconnect_granted [OF assms(1,2) Some] Some
    by (auto simp: allocate_ip_def Let_def split: if_splits)
qed

lemma granted_lease_inv:
  assumes "lease_inv net g s" "granted net g now stats r rid s s' ip old e"
  shows "lease_inv net g s'"
proof -
  let ?k = "rq_device_id r"
  have g: "device_map s' = (device_map s)(?k \<mapsto> e)" "de_device_id e = ?k" "de_ip e = Some ip"
    "device_ip_map s' ip = Some ?k" "net_contains net ip" "ip \<noteq> g"
    "device_ip_map s ip = None \<or> held_ip s ?k = Some ip"
    "\<And>x. x \<noteq> ip \<Longrightarrow> device_ip_map s' x = device_ip_map s x \<or> (old = Some x \<and> device_ip_map s' x = None)"
    "old = None \<or> held_ip s ?k = old"
    using assms(2) by (auto simp: granted_def split: if_splits)
  have own: "device_ip_map s x = Some ?k" if "held_ip s ?k = Some x" for x
    using that lease_invD(2) [OF assms(1)] by (auto simp: held_ip_def split: option.splits)
  have idx: "device_ip_map s' x = Some k" if e': "device_map s' k = Some e'" "de_ip e' = Some x" for k e' x
  proof (cases "k = ?k")
    case True
    then show ?thesis using e' g by auto
  next
    case False
    then have i: "device_ip_map s x = Some k" using e' g(1) lease_invD(2) [OF assms(1)] by auto
    moreover have "x \<noteq> ip" using i g(7) own False by auto
    moreover have "old \<noteq> Some x" using i g(9) own False by auto
    ultimately show ?thesis using g(8) by metis
  qed
  have ips: "net_contains net x \<and> x \<noteq> g" if "device_ip_map s' x = Some k" for x k
    using that g(5,6) g(8) [of x] lease_invD(3) [OF assms(1), of x k] by (cases "x = ip") auto
  show ?thesis unfolding lease_inv_def
    using g(1,2) lease_invD(1) [OF assms(1)] idx ips by auto
qed

section \<open>The invariant of a network\<close>

definition online_at :: "NetworkStateInner \<Rightarrow> ipv4 \<Rightarrow> DeviceEntry \<Rightarrow> bool" where
  "online_at s ip e \<longleftrightarrow>
     (\<exists>k. device_map s k = Some e \<and> de_ip e = Some ip \<and> de_is_connected e)"

definition ns_inv :: "NetworkState \<Rightarrow> bool" where
  "ns_inv st \<longleftrightarrow> net_proper (ns_net st) \<and>
     lease_inv (ns_net st) (ns_gateway st) (lease_state st) \<and>
     (\<forall>ip. sender_map st ip \<noteq> None \<longleftrightarrow> (\<exists>e. online_at (lease_state st) ip e)) \<and>
     (\<forall>ip c. traffic_stats_map st ip = Some c \<longleftrightarrow> (\<exists>e. online_at (lease_state st) ip e \<and> de_stats e = c)) \<and>
     (\<forall>k e. device_map (lease_state st) k = Some e \<longrightarrow> de_stats e < stats_next st) \<and>
     (\<forall>k e k' e'. device_map (lease_state st) k = Some e \<longrightarrow> device_map (lease_state st) k' = Some e' \<longrightarrow>
        de_stats e = de_stats e' \<longrightarrow> k = k')"

lemma ns_invD:
  assumes "ns_inv st"
  shows "net_proper (ns_net st)" "lease_inv (ns_net st) (ns_gateway st) (lease_state st)"
    "sender_map st ip \<noteq> None \<longleftrightarrow> (\<exists>e. online_at (lease_state st) ip e)"
    "traffic_stats_map st ip = Some c \<longleftrightarrow> (\<exists>e. online_at (lease_state st) ip e \<and> de_stats e = c)"
    "device_map (lease_state st) k = Some e \<Longrightarrow> de_stats e < stats_next st"
    "device_map (lease_state st) k = Some e \<Longrightarrow> device_map (lease_state st) k' = Some e' \<Longrightarrow>
       de_stats e = de_stats e' \<Longrightarrow> k = k'"
  using assms unfolding ns_inv_def by blast+

lemma holder_unique:
  assumes "lease_inv net g s" "device_map s k = Some e" "de_ip e = Some ip"
    "device_map s k' = Some e'" "de_ip e' = Some ip"
  shows "k = k'" "e = e'"
proof -
  show "k = k'"
    using lease_invD(2) [OF assms(1-3)] lease_invD(2) [OF assms(1,4,5)] by simp
  then show "e = e'" using assms by simp
qed

text \<open>Replacing the entry of one device.\<close>

lemma online_update:
  assumes "device_map s' = (device_map s)(k \<mapsto> e)"
  shows "online_at s' ip x \<longleftrightarrow> (x = e \<and> de_ip e = Some ip \<and> de_is_connected e) \<or>
    (\<exists>j. j \<noteq> k \<and> device_map s j = Some x \<and> de_ip x = Some ip \<and> de_is_connected x)"
  using assms by (auto simp: online_at_def split: if_splits)

lemma online_forget:
  assumes "device_map s' = (device_map s)(k := None)"
  shows "online_at s' ip x \<longleftrightarrow>
    (\<exists>j. j \<noteq> k \<and> device_map s j = Some x \<and> de_ip x = Some ip \<and> de_is_connected x)"
  using assms by (auto simp: online_at_def split: if_splits)

lemma forget_lease_inv:
  assumes "lease_inv net g s"
  shows "lease_inv net g (forget_device k s)"
proof (cases "device_map s k")
  case None
  then show ?thesis using assms by (simp add: forget_device_def)
next
  case (Some e)
  have dm: "device_map (forget_device k s) = (device_map s)(k := None)"
    using Some by (simp add: forget_device_def)
  show ?thesis
  proof (rule lease_invI)
    show "de_device_id f = j" if "device_map (forget_device k s) j = Some f" for j f
      using that dm lease_invD(1) [OF assms] by (auto split: if_splits)
    show "device_ip_map (forget_device k s) x = Some j"
      if f: "device_map (forget_device k s) j = Some f" "de_ip f = Some x" for j f x
    proof -
      have j: "j \<noteq> k" "device_map s j = Some f" using f dm by (auto split: if_splits)
      then have "de_ip e \<noteq> Some x" using holder_unique(1) [OF assms Some _ j(2) f(2)] by auto
      then show ?thesis
        using lease_invD(2) [OF assms j(2) f(2)] Some by (auto simp: forget_device_def split: option.splits)
    qed
    show "net_contains net x \<and> x \<noteq> g" if "device_ip_map (forget_device k s) x = Some j" for x j
    proof (rule lease_invD(3) [OF assms])
      show "device_ip_map s x = Some j"
        using that Some by (auto simp: forget_device_def split: option.splits if_splits)
    qed
  qed
qed

lemma forget_device_map: "device_map (forget_device k s) = (device_map s)(k := None)"
  by (auto simp: forget_device_def split: option.splits)

lemma remove_each_map: "device_map (remove_each ks s) = (\<lambda>k. if k \<in> set ks then None else device_map s k)"
  by (induction ks arbitrary: s) (auto simp: forget_device_map)

lemma remove_each_lease_inv: "lease_inv net g s \<Longrightarrow> lease_inv net g (remove_each ks s)"
  by (induction ks arbitrary: s) (simp_all add: forget_lease_inv)

lemma lease_inv_version [simp]: "lease_inv net g (s\<lparr>data_version := v\<rparr>) = lease_inv net g s"
  by (simp add: lease_inv_def)

lemma remove_devices_lease_inv: "lease_inv net g s \<Longrightarrow> lease_inv net g (remove_devices ks s)"
  by (simp add: remove_devices_def remove_each_lease_inv)

lemma remove_devices_map:
  "device_map (remove_devices ks s) = (\<lambda>k. if k \<in> set ks then None else device_map s k)"
  by (auto simp: remove_devices_def remove_each_map)

lemma held_ip_Some: "held_ip s k = Some i \<longleftrightarrow> (\<exists>e. device_map s k = Some e \<and> de_ip e = Some i)"
  by (simp add: held_ip_def split: option.splits)

lemma online_elsewhere:
  assumes "lease_inv net g s"
  shows "(\<exists>j. j \<noteq> k \<and> device_map s j = Some x \<and> de_ip x = Some i \<and> de_is_connected x) \<longleftrightarrow>
      online_at s i x \<and> held_ip s k \<noteq> Some i"
proof
  assume "\<exists>j. j \<noteq> k \<and> device_map s j = Some x \<and> de_ip x = Some i \<and> de_is_connected x"
  then obtain j where j: "j \<noteq> k" "device_map s j = Some x" "de_ip x = Some i" "de_is_connected x" by blast
  have "held_ip s k \<noteq> Some i"
    using holder_unique(1) [OF assms j(2,3)] j(1) by (auto simp: held_ip_Some)
  then show "online_at s i x \<and> held_ip s k \<noteq> Some i" using j by (auto simp: online_at_def)
next
  assume "online_at s i x \<and> held_ip s k \<noteq> Some i"
  then show "\<exists>j. j \<noteq> k \<and> device_map s j = Some x \<and> de_ip x = Some i \<and> de_is_connected x"
    by (auto simp: online_at_def held_ip_Some)
qed

section \<open>Every operation keeps it\<close>

lemma register_inv:
  assumes inv: "ns_inv st"
    and a: "allocate_ip_and_get_entry now r rid sender st = Inr (st', ip, old, entry)"
  shows "ns_inv st'"
proof -
  let ?s = "lease_state st" and ?k = "rq_device_id r" and ?n = "stats_next st"
  obtain s' where s': "allocate_ip (ns_net st) (ns_gateway st) now ?n r rid ?s = Inr (s', ip, old)"
    using a by (auto simp: allocate_ip_and_get_entry_def Let_def)
  obtain e where g: "granted (ns_net st) (ns_gateway st) now ?n r rid ?s s' ip old e"
    using allocate_granted [OF ns_invD(1,2) [OF inv] s'] by blast
  have dm: "device_map s' = (device_map ?s)(?k \<mapsto> e)" and e: "de_ip e = Some ip" "de_is_connected e"
    using g by (simp_all add: granted_def)
  have st': "st' = st\<lparr>lease_state := s', stats_heap := (stats_heap st)(?n := TrafficStats_new),
      stats_next := ?n + 1,
      sender_map := (case old of Some o_ip \<Rightarrow> (sender_map st)(o_ip := None) | None \<Rightarrow> sender_map st)(ip \<mapsto> sender),
      traffic_stats_map := (case old of Some o_ip \<Rightarrow> (traffic_stats_map st)(o_ip := None)
        | None \<Rightarrow> traffic_stats_map st)(ip \<mapsto> de_stats e)\<rparr>"
    using a s' dm by (auto simp: allocate_ip_and_get_entry_def Let_def drop_ip_def split: option.splits)
  have old: "old = None \<Longrightarrow> held_ip ?s ?k \<in> {None, Some ip}" "old \<noteq> None \<Longrightarrow> held_ip ?s ?k = old \<and> old \<noteq> Some ip"
    and free: "device_ip_map ?s ip = None \<or> held_ip ?s ?k = Some ip"
    using g by (auto simp: granted_def split: if_splits)
  note li = ns_invD(2) [OF inv]
  have others: "(\<exists>j. j \<noteq> ?k \<and> device_map ?s j = Some x \<and> de_ip x = Some i \<and> de_is_connected x) \<longleftrightarrow>
      online_at ?s i x \<and> held_ip ?s ?k \<noteq> Some i" for i x
    by (rule online_elsewhere [OF li])
  have not_ip: "\<not> (online_at ?s ip x \<and> held_ip ?s ?k \<noteq> Some ip)" for x
    using free lease_invD(2) [OF li] by (auto simp: online_at_def)
  have on: "online_at s' i x \<longleftrightarrow> (i = ip \<and> x = e) \<or> (i \<noteq> ip \<and> old \<noteq> Some i \<and> online_at ?s i x)" for i x
    using old not_ip e by (cases "old = None") (auto simp: online_update [OF dm] others)
  have senders: "sender_map st' i \<noteq> None \<longleftrightarrow> (\<exists>e. online_at s' i e)" for i
    unfolding on using ns_invD(3) [OF inv, of i] by (auto simp: st' split: option.splits)
  have traffic: "traffic_stats_map st' i = Some c \<longleftrightarrow> (\<exists>e. online_at s' i e \<and> de_stats e = c)" for i c
    unfolding on using ns_invD(4) [OF inv, of i c] by (auto simp: st' split: option.splits)
  have se: "de_stats e = ?n \<or> (\<exists>e0. device_map ?s ?k = Some e0 \<and> de_stats e = de_stats e0)"
    using g by (auto simp: granted_def split: option.splits)
  have fresh: "de_stats x < ?n + 1" if "device_map s' j = Some x" for j x
    using that se ns_invD(5) [OF inv] by (auto simp: dm less_Suc_eq split: if_splits)
  have inj: "j = j'" if "device_map s' j = Some x" "device_map s' j' = Some x'" "de_stats x = de_stats x'" for j j' x x'
  proof -
    have old_lt: "de_stats y < ?n" if "device_map ?s m = Some y" for m y by (rule ns_invD(5) [OF inv that])
    have "\<exists>y. de_stats y = de_stats x \<and> (x = e \<and> j = ?k \<and> de_stats e = ?n \<or> device_map ?s j = Some y)"
      using that(1) se by (auto simp: dm split: if_splits)
    moreover have "\<exists>y. de_stats y = de_stats x' \<and> (x' = e \<and> j' = ?k \<and> de_stats e = ?n \<or> device_map ?s j' = Some y)"
      using that(2) se by (auto simp: dm split: if_splits)
    ultimately show ?thesis
      using that(3) ns_invD(6) [OF inv] old_lt by (metis less_irrefl)
  qed
  show ?thesis
    using ns_invD(1) [OF inv] granted_lease_inv [OF li g] senders traffic fresh inj
    unfolding ns_inv_def by (auto simp: st')
qed

text \<open>Going offline, being forgotten: the entry of one device loses its address or its connection.\<close>

lemma ns_invI:
  assumes "net_proper (ns_net st)" "lease_inv (ns_net st) (ns_gateway st) (lease_state st)"
    "\<And>ip. sender_map st ip \<noteq> None \<longleftrightarrow> (\<exists>e. online_at (lease_state st) ip e)"
    "\<And>ip c. traffic_stats_map st ip = Some c \<longleftrightarrow> (\<exists>e. online_at (lease_state st) ip e \<and> de_stats e = c)"
    "\<And>k e. device_map (lease_state st) k = Some e \<Longrightarrow> de_stats e < stats_next st"
    "\<And>k e k' e'. device_map (lease_state st) k = Some e \<Longrightarrow> device_map (lease_state st) k' = Some e' \<Longrightarrow>
       de_stats e = de_stats e' \<Longrightarrow> k = k'"
  shows "ns_inv st"
  unfolding ns_inv_def by (intro conjI allI impI assms)

lemma offline_update_inv:
  assumes inv: "ns_inv st" and e: "device_map (lease_state st) k = Some e" "de_ip e = Some ip"
    and s': "device_map s' = (device_map (lease_state st))(k \<mapsto> e')"
      "device_ip_map s' = device_ip_map (lease_state st)"
    and e': "de_device_id e' = k" "de_ip e' = Some ip" "\<not> de_is_connected e'" "de_stats e' = de_stats e"
  shows "ns_inv (drop_ip ip (st\<lparr>lease_state := s'\<rparr>))"
proof -
  let ?s = "lease_state st"
  note li = ns_invD(2) [OF inv]
  have on: "online_at s' i x \<longleftrightarrow> online_at ?s i x \<and> i \<noteq> ip" for i x
    using e e' online_elsewhere [OF li, of k x i] by (auto simp: online_update [OF s'(1)] held_ip_Some)
  show ?thesis
  proof (rule ns_invI)
    show "lease_inv (ns_net (drop_ip ip (st\<lparr>lease_state := s'\<rparr>))) (ns_gateway (drop_ip ip (st\<lparr>lease_state := s'\<rparr>)))
        (lease_state (drop_ip ip (st\<lparr>lease_state := s'\<rparr>)))"
      using s' e e' lease_invD [OF li] lease_inv_gateway [OF li]
      by (auto simp: drop_ip_def intro!: lease_invI split: if_splits)
    show "sender_map (drop_ip ip (st\<lparr>lease_state := s'\<rparr>)) i \<noteq> None \<longleftrightarrow>
        (\<exists>e. online_at (lease_state (drop_ip ip (st\<lparr>lease_state := s'\<rparr>))) i e)" for i
      using ns_invD(3) [OF inv, of i] on by (auto simp: drop_ip_def)
    show "traffic_stats_map (drop_ip ip (st\<lparr>lease_state := s'\<rparr>)) i = Some c \<longleftrightarrow>
        (\<exists>e. online_at (lease_state (drop_ip ip (st\<lparr>lease_state := s'\<rparr>))) i e \<and> de_stats e = c)" for i c
      using ns_invD(4) [OF inv, of i c] on by (auto simp: drop_ip_def)
    show "j = j'" if a: "device_map (lease_state (drop_ip ip (st\<lparr>lease_state := s'\<rparr>))) j = Some x"
      "device_map (lease_state (drop_ip ip (st\<lparr>lease_state := s'\<rparr>))) j' = Some x'" "de_stats x = de_stats x'" for j j' x x'
    proof -
      have "\<exists>y. device_map ?s j = Some y \<and> de_stats y = de_stats x"
        "\<exists>y. device_map ?s j' = Some y \<and> de_stats y = de_stats x'"
        using a(1,2) e e' s'(1) by (auto simp: drop_ip_def split: if_splits)
      then show ?thesis using a(3) ns_invD(6) [OF inv] by metis
    qed
    show "de_stats x < stats_next (drop_ip ip (st\<lparr>lease_state := s'\<rparr>))"
      if "device_map (lease_state (drop_ip ip (st\<lparr>lease_state := s'\<rparr>))) j = Some x" for j x
      using that e(1) e'(4) s'(1) ns_invD(5) [OF inv] by (auto simp: drop_ip_def split: if_splits)
  qed (use ns_invD(1) [OF inv] in \<open>simp add: drop_ip_def\<close>)
qed

lemma offline_inv: "ns_inv st \<Longrightarrow> ns_inv (fst (offline_ip now k ip rid st))"
proof (cases "device_map (lease_state st) k")
  case None
  assume "ns_inv st"
  then show ?thesis using None by (simp add: offline_ip_def offline_inner_def)
next
  case (Some e)
  assume inv: "ns_inv st"
  show ?thesis
  proof (cases "de_random_id e = rid \<and> de_ip e = Some ip")
    case True
    have "de_device_id e = k" using lease_invD(1) [OF ns_invD(2) [OF inv] Some] .
    then show ?thesis
      using True Some
      by (auto simp: offline_ip_def offline_inner_def Let_def intro!: offline_update_inv [OF inv Some])
  next
    case False
    then show ?thesis using Some inv by (auto simp: offline_ip_def offline_inner_def)
  qed
qed

text \<open>An entry that goes away.\<close>

lemma forget_inv:
  assumes inv: "ns_inv st" and e: "device_map (lease_state st) k = Some e"
    and s': "device_map s' = (device_map (lease_state st))(k := None)"
      "device_ip_map s' = device_ip_map (forget_device k (lease_state st))"
    and off: "de_is_connected e \<Longrightarrow> gone = de_ip e" "gone \<noteq> None \<Longrightarrow> gone = de_ip e"
  shows "ns_inv (case gone of Some ip \<Rightarrow> drop_ip ip (st\<lparr>lease_state := s'\<rparr>) | None \<Rightarrow> st\<lparr>lease_state := s'\<rparr>)"
    (is "ns_inv ?st")
proof -
  let ?s = "lease_state st"
  note li = ns_invD(2) [OF inv]
  have f: "lease_state ?st = s'" "ns_net ?st = ns_net st" "ns_gateway ?st = ns_gateway st"
    "stats_next ?st = stats_next st"
    by (simp_all add: drop_ip_def split: option.split)
  have on: "online_at s' i x \<longleftrightarrow> online_at ?s i x \<and> gone \<noteq> Some i" for i x
  proof -
    have "gone = Some i" if on: "online_at ?s i x" and held: "held_ip ?s k = Some i"
    proof -
      obtain j where j: "device_map ?s j = Some x" "de_ip x = Some i" "de_is_connected x"
        using on unfolding online_at_def by blast
      have "de_ip e = Some i" using held e by (simp add: held_ip_Some)
      then have "e = x" by (rule holder_unique(2) [OF li e _ j(1,2)])
      then show ?thesis using off(1) j by simp
    qed
    moreover have "gone = Some i \<Longrightarrow> held_ip ?s k = Some i" using off(2) e by (simp add: held_ip_def)
    ultimately show ?thesis
      using online_elsewhere [OF li, of k x i] by (auto simp: online_forget [OF s'(1)])
  qed
  show ?thesis
  proof (rule ns_invI)
    have "lease_inv (ns_net st) (ns_gateway st) s' = lease_inv (ns_net st) (ns_gateway st) (forget_device k ?s)"
      using s' by (simp add: lease_inv_def forget_device_map)
    then show "lease_inv (ns_net ?st) (ns_gateway ?st) (lease_state ?st)"
      unfolding f using forget_lease_inv [OF li] by simp
    show "sender_map ?st i \<noteq> None \<longleftrightarrow> (\<exists>e. online_at (lease_state ?st) i e)" for i
      unfolding f on using ns_invD(3) [OF inv, of i] by (auto simp: drop_ip_def split: option.splits)
    show "traffic_stats_map ?st i = Some c \<longleftrightarrow> (\<exists>e. online_at (lease_state ?st) i e \<and> de_stats e = c)" for i c
      unfolding f on using ns_invD(4) [OF inv, of i c] by (auto simp: drop_ip_def split: option.splits)
    show "j = j'" if "device_map (lease_state ?st) j = Some x" "device_map (lease_state ?st) j' = Some x'"
      "de_stats x = de_stats x'" for j j' x x'
      using that ns_invD(6) [OF inv, of j x j' x'] unfolding f s'(1) by (auto split: if_splits)
    show "de_stats x < stats_next ?st" if "device_map (lease_state ?st) j = Some x" for j x
      using that ns_invD(5) [OF inv, of j x] unfolding f s'(1) by (auto split: if_splits)
    show "net_proper (ns_net ?st)" unfolding f by (rule ns_invD(1) [OF inv])
  qed
qed

lemma forget_ip_map:
  assumes "device_map s k = Some e"
  shows "device_ip_map (forget_device k s) =
    (case de_ip e of Some ip \<Rightarrow> (device_ip_map s)(ip := None) | None \<Rightarrow> device_ip_map s)"
  using assms by (simp add: forget_device_def split: option.split)

lemma remove_from_memory_inv:
  assumes "ns_inv st"
  shows "ns_inv (fst (remove_device_from_memory k st))"
proof (cases "device_map (lease_state st) k")
  case None
  then show ?thesis using assms by (simp add: remove_device_from_memory_def)
next
  case (Some e)
  let ?s = "lease_state st"
  let ?s' = "?s\<lparr>device_map := (device_map ?s)(k := None), device_ip_map := device_ip_map (forget_device k ?s),
    data_version := data_version ?s + 1\<rparr>"
  have "fst (remove_device_from_memory k st) =
    (case de_ip e of Some ip \<Rightarrow> drop_ip ip (st\<lparr>lease_state := ?s'\<rparr>) | None \<Rightarrow> st\<lparr>lease_state := ?s'\<rparr>)"
    using Some by (simp add: remove_device_from_memory_def Let_def forget_ip_map split: option.split)
  then show ?thesis
    using forget_inv [OF assms Some, of ?s' "de_ip e"] by simp
qed

lemma release_inv:
  assumes "ns_inv st"
  shows "ns_inv (release_pre_registered_ip k ip rid st)"
proof (cases "\<exists>e. device_map (lease_state st) k = Some e \<and> de_random_id e = rid \<and> de_ip e = Some ip")
  case False
  then have "release_pre_registered_ip k ip rid st = st"
    by (auto simp: release_pre_registered_ip_def release_locked_def Let_def split: option.splits)
  then show ?thesis using assms by simp
next
  case True
  then obtain e where e: "device_map (lease_state st) k = Some e" "de_random_id e = rid" "de_ip e = Some ip"
    by blast
  let ?s = "lease_state st"
  let ?s' = "?s\<lparr>device_map := (device_map ?s)(k := None), device_ip_map := (device_ip_map ?s)(ip := None),
    data_version := data_version ?s + 1\<rparr>"
  have "release_pre_registered_ip k ip rid st = drop_ip ip (st\<lparr>lease_state := ?s'\<rparr>)"
    using e by (simp add: release_pre_registered_ip_def release_locked_def Let_def)
  then show ?thesis
    using forget_inv [OF assms e(1), of ?s' "Some ip"] e by (simp add: forget_ip_map)
qed

text \<open>Removal of devices that are not connected.\<close>

lemma forget_offline_inv:
  assumes "ns_inv st" "\<And>e. device_map (lease_state st) k = Some e \<Longrightarrow> \<not> de_is_connected e"
  shows "ns_inv (st\<lparr>lease_state := forget_device k (lease_state st)\<rparr>)"
proof (cases "device_map (lease_state st) k")
  case None
  then show ?thesis using assms by (simp add: forget_device_def)
next
  case (Some e)
  then show ?thesis
    using forget_inv [OF assms(1) Some, of "forget_device k (lease_state st)" None] assms(2)
    by (simp add: forget_device_map)
qed

lemma remove_each_inv:
  assumes "ns_inv st" "\<And>k e. k \<in> set ks \<Longrightarrow> device_map (lease_state st) k = Some e \<Longrightarrow> \<not> de_is_connected e"
  shows "ns_inv (st\<lparr>lease_state := remove_each ks (lease_state st)\<rparr>)"
  using assms
proof (induction ks arbitrary: st)
  case Nil
  then show ?case by simp
next
  case (Cons k ks)
  have "ns_inv (st\<lparr>lease_state := forget_device k (lease_state st)\<rparr>)"
    by (rule forget_offline_inv) (use Cons.prems in auto)
  then have "ns_inv ((st\<lparr>lease_state := forget_device k (lease_state st)\<rparr>)\<lparr>lease_state :=
      remove_each ks (lease_state (st\<lparr>lease_state := forget_device k (lease_state st)\<rparr>))\<rparr>)"
    by (rule Cons.IH) (use Cons.prems(2) in \<open>auto simp: forget_device_map split: if_splits\<close>)
  then show ?case by simp
qed

lemma ns_inv_version: "ns_inv (st\<lparr>lease_state := (lease_state st)\<lparr>data_version := v\<rparr>\<rparr>) = ns_inv st"
  by (simp add: ns_inv_def online_at_def)

lemma expire_inv:
  assumes "ns_inv st"
  shows "ns_inv (ns_remove_devices (ns_collect_expired order now st) st)"
proof -
  let ?ks = "ns_collect_expired order now st"
  let ?st = "st\<lparr>lease_state := (lease_state st)\<lparr>data_version := data_version (lease_state st) + 1\<rparr>\<rparr>"
  have "ns_inv (?st\<lparr>lease_state := remove_each ?ks (lease_state ?st)\<rparr>)"
    by (rule remove_each_inv)
      (use assms in \<open>auto simp: ns_inv_version ns_collect_expired_def collect_expired_devices_def is_expired_def\<close>)
  then show ?thesis
    using assms by (simp add: ns_remove_devices_def remove_devices_def)
qed

lemma latency_inv: "ns_inv st \<Longrightarrow> ns_inv (update_client_latency ip ms st)"
proof (cases "get_device_entry_by_ip ip st")
  case None
  assume "ns_inv st"
  then show ?thesis
    using None by (auto simp: update_client_latency_def get_device_entry_by_ip_def Let_def split: option.splits)
next
  case (Some e)
  assume inv: "ns_inv st"
  then obtain k where k: "device_ip_map (lease_state st) ip = Some k" "device_map (lease_state st) k = Some e"
    using Some by (auto simp: get_device_entry_by_ip_def split: option.splits)
  let ?st = "update_client_latency ip ms st"
  have dm: "device_map (lease_state ?st) = (device_map (lease_state st))(k \<mapsto> e\<lparr>de_latency_ms := Some ms\<rparr>)"
    using k by (simp add: update_client_latency_def Let_def)
  have same: "\<exists>y. device_map (lease_state st) j = Some y \<and> de_ip y = de_ip x \<and> de_stats y = de_stats x \<and>
      de_device_id y = de_device_id x \<and> de_is_connected y = de_is_connected x"
    if "device_map (lease_state ?st) j = Some x" for j x
    using that k by (auto simp: dm split: if_splits)
  have same': "\<exists>x. device_map (lease_state ?st) j = Some x \<and> de_ip y = de_ip x \<and> de_stats y = de_stats x \<and>
      de_is_connected y = de_is_connected x"
    if "device_map (lease_state st) j = Some y" for j y
    using that k by (auto simp: dm)
  have rest: "ns_net ?st = ns_net st" "ns_gateway ?st = ns_gateway st" "sender_map ?st = sender_map st"
    "traffic_stats_map ?st = traffic_stats_map st" "stats_next ?st = stats_next st"
    "device_ip_map (lease_state ?st) = device_ip_map (lease_state st)"
    using k by (simp_all add: update_client_latency_def Let_def)
  have ex: "(\<exists>x. online_at (lease_state ?st) i x \<and> P (de_stats x)) \<longleftrightarrow>
      (\<exists>y. online_at (lease_state st) i y \<and> P (de_stats y))" for i P
  proof
    assume "\<exists>x. online_at (lease_state ?st) i x \<and> P (de_stats x)"
    then obtain x j where x: "device_map (lease_state ?st) j = Some x" "de_ip x = Some i" "de_is_connected x"
      "P (de_stats x)" unfolding online_at_def by blast
    from same [OF x(1)] obtain y where "device_map (lease_state st) j = Some y" "de_ip y = de_ip x"
      "de_stats y = de_stats x" "de_is_connected y = de_is_connected x" by blast
    then have "online_at (lease_state st) i y \<and> P (de_stats y)" using x unfolding online_at_def by auto
    then show "\<exists>y. online_at (lease_state st) i y \<and> P (de_stats y)" by blast
  next
    assume "\<exists>y. online_at (lease_state st) i y \<and> P (de_stats y)"
    then obtain y j where y: "device_map (lease_state st) j = Some y" "de_ip y = Some i" "de_is_connected y"
      "P (de_stats y)" unfolding online_at_def by blast
    from same' [OF y(1)] obtain x where "device_map (lease_state ?st) j = Some x" "de_ip y = de_ip x"
      "de_stats y = de_stats x" "de_is_connected y = de_is_connected x" by blast
    then have "online_at (lease_state ?st) i x \<and> P (de_stats x)" using y unfolding online_at_def by auto
    then show "\<exists>x. online_at (lease_state ?st) i x \<and> P (de_stats x)" by blast
  qed
  show ?thesis
  proof (rule ns_invI)
    show "lease_inv (ns_net ?st) (ns_gateway ?st) (lease_state ?st)"
    proof (rule lease_invI)
      show "de_device_id x = j" if "device_map (lease_state ?st) j = Some x" for j x
        using same [OF that] lease_invD(1) [OF ns_invD(2) [OF inv]] by metis
      show "device_ip_map (lease_state ?st) i = Some j"
        if "device_map (lease_state ?st) j = Some x" "de_ip x = Some i" for i j x
        using same [OF that(1)] that(2) lease_invD(2) [OF ns_invD(2) [OF inv]] unfolding rest by metis
      show "net_contains (ns_net ?st) i \<and> i \<noteq> ns_gateway ?st"
        if "device_ip_map (lease_state ?st) i = Some j" for i j
        using that lease_invD(3) [OF ns_invD(2) [OF inv]] unfolding rest by blast
    qed
    show "sender_map ?st i \<noteq> None \<longleftrightarrow> (\<exists>e. online_at (lease_state ?st) i e)" for i
      using ex [of i "\<lambda>_. True"] ns_invD(3) [OF inv, of i] unfolding rest by simp
    show "traffic_stats_map ?st i = Some c \<longleftrightarrow> (\<exists>e. online_at (lease_state ?st) i e \<and> de_stats e = c)" for i c
      using ex [of i "\<lambda>d. d = c"] ns_invD(4) [OF inv, of i c] unfolding rest by simp
    show "de_stats x < stats_next ?st" if "device_map (lease_state ?st) j = Some x" for j x
      using same [OF that] ns_invD(5) [OF inv] unfolding rest by metis
    show "j = j'" if "device_map (lease_state ?st) j = Some x" "device_map (lease_state ?st) j' = Some x'"
      "de_stats x = de_stats x'" for j j' x x'
      using same [OF that(1)] same [OF that(2)] that(3) ns_invD(6) [OF inv] by metis
  qed (use ns_invD(1) [OF inv] rest in simp)
qed

lemma traffic_inv:
  "ns_inv st \<Longrightarrow> ns_inv (record_tx_traffic ip n st)" "ns_inv st \<Longrightarrow> ns_inv (record_rx_traffic ip n st)"
  "ns_inv st \<Longrightarrow> ns_inv (update_time now st)"
  by (simp_all add: ns_inv_def record_tx_traffic_def record_rx_traffic_def update_time_def split: option.split)

section \<open>Runs of a network\<close>

text \<open>
  The critical sections that the server's tasks run on a network: sessions registering, dropping and
  releasing, the cleanup task, the web interface deleting a device, the packet path and the clock.
  Collection and removal of expired devices are one event here; the section on races splits them.
\<close>

datatype ns_event =
    Register nat RegRequestMsg u64 nat
  | Offline nat string ipv4 u64
  | ReleasePre string ipv4 u64
  | Expire "string list" nat
  | Forget string
  | Latency ipv4 u32
  | Tx ipv4 nat
  | Rx ipv4 nat
  | Touch nat

fun ns_step :: "ns_event \<Rightarrow> NetworkState \<Rightarrow> NetworkState" where
  "ns_step (Register now r rid sender) st =
     (case allocate_ip_and_get_entry now r rid sender st of Inl e \<Rightarrow> st | Inr (st', _) \<Rightarrow> st')"
| "ns_step (Offline now k ip rid) st = fst (offline_ip now k ip rid st)"
| "ns_step (ReleasePre k ip rid) st = release_pre_registered_ip k ip rid st"
| "ns_step (Expire order now) st = ns_remove_devices (ns_collect_expired order now st) st"
| "ns_step (Forget k) st = fst (remove_device_from_memory k st)"
| "ns_step (Latency ip ms) st = update_client_latency ip ms st"
| "ns_step (Tx ip n) st = record_tx_traffic ip n st"
| "ns_step (Rx ip n) st = record_rx_traffic ip n st"
| "ns_step (Touch now) st = update_time now st"

definition ns_run :: "ns_event list \<Rightarrow> NetworkState \<Rightarrow> NetworkState" where
  "ns_run evs st = fold ns_step evs st"

lemma ns_step_inv: "ns_inv st \<Longrightarrow> ns_inv (ns_step ev st)"
proof (cases ev)
  case (Register now r rid sender)
  assume "ns_inv st"
  then show ?thesis
    using Register register_inv
    by (cases "allocate_ip_and_get_entry now r rid sender st") auto
qed (simp_all add: offline_inv release_inv expire_inv remove_from_memory_inv latency_inv traffic_inv)

lemma ns_run_inv: "ns_inv st \<Longrightarrow> ns_inv (ns_run evs st)"
  unfolding ns_run_def by (induction evs arbitrary: st) (simp_all add: ns_step_inv)

text \<open>The database rows a network can be loaded from: distinct devices at distinct usable addresses.\<close>

definition record_ip :: "DeviceRecord \<Rightarrow> ipv4 option" where
  "record_ip r = (case dr_ip r of None \<Rightarrow> None | Some s \<Rightarrow> parse_ipv4 s)"

definition records_ok :: "Ipv4Net \<Rightarrow> DeviceRecord list \<Rightarrow> bool" where
  "records_ok net rs \<longleftrightarrow> distinct (map dr_device_id rs) \<and>
     distinct (filter (\<lambda>x. x \<noteq> None) (map record_ip rs)) \<and>
     (\<forall>r \<in> set rs. \<forall>ip. record_ip r = Some ip \<longrightarrow> net_contains net ip \<and> ip \<noteq> net_network net + 1)"

lemma from_record_simps [simp]:
  "de_device_id (from_record now n r) = dr_device_id r" "de_ip (from_record now n r) = record_ip r"
  "\<not> de_is_connected (from_record now n r)" "de_stats (from_record now n r) = n"
  "de_data_version (from_record now n r) = 0"
  by (simp_all add: from_record_def record_ip_def)

lemma load_records_inv:
  assumes "ns_inv st" "ns_net st = net" "ns_gateway st = net_network net + 1"
    and "\<And>ip. sender_map st ip = None" "records_ok net rs"
    and "\<And>r. r \<in> set rs \<Longrightarrow> device_map (lease_state st) (dr_device_id r) = None"
    and "\<And>r ip. r \<in> set rs \<Longrightarrow> record_ip r = Some ip \<Longrightarrow> device_ip_map (lease_state st) ip = None"
  shows "ns_inv (load_records net (net_network net + 1) now rs st)"
  using assms
proof (induction rs arbitrary: st)
  case Nil
  then show ?case by simp
next
  case (Cons r rs)
  let ?e = "from_record now (stats_next st) r" and ?s = "lease_state st"
  let ?ips = "case record_ip r of Some ip \<Rightarrow> (device_ip_map ?s)(ip \<mapsto> dr_device_id r) | None \<Rightarrow> device_ip_map ?s"
  let ?s' = "?s\<lparr>device_map := (device_map ?s)(dr_device_id r \<mapsto> ?e), device_ip_map := ?ips,
    data_version := max (data_version ?s) 0\<rparr>"
  let ?st = "st\<lparr>lease_state := ?s', stats_heap := (stats_heap st)(stats_next st :=
      \<lparr>tx_total = dr_tx_bytes r, rx_total = dr_rx_bytes r\<rparr>), stats_next := stats_next st + 1\<rparr>"
  note li = ns_invD(2) [OF Cons.prems(1)]
  have usable: "net_contains net ip \<and> net_network net + 1 \<noteq> ip" if "record_ip r = Some ip" for ip
    using that Cons.prems(5) by (auto simp: records_ok_def)
  have step: "load_records net (net_network net + 1) now (r # rs) st
      = load_records net (net_network net + 1) now rs ?st"
    using usable by (simp add: Let_def split: option.split)
  have new: "device_map ?s (dr_device_id r) = None" using Cons.prems(6) by simp
  have free: "device_ip_map ?s ip = None" if "record_ip r = Some ip" for ip
    by (rule Cons.prems(7) [of r]) (use that in simp_all)
  have keep: "?ips x = Some j" if "device_ip_map ?s x = Some j" for x j
    using that free by (auto split: option.splits)
  have "\<not> online_at ?s ip x" for ip x using ns_invD(3) [OF Cons.prems(1)] Cons.prems(4) by blast
  then have off: "\<not> online_at ?s' ip x" for ip x by (auto simp: online_at_def)
  have notraffic: "traffic_stats_map st ip = None" for ip
    using ns_invD(4) [OF Cons.prems(1)] \<open>\<And>ip x. \<not> online_at ?s ip x\<close> by (metis not_None_eq)
  have "ns_inv ?st"
  proof (rule ns_invI)
    show "lease_inv (ns_net ?st) (ns_gateway ?st) (lease_state ?st)"
    proof (rule lease_invI)
      show "de_device_id e = k" if "device_map (lease_state ?st) k = Some e" for k e
        using that lease_invD(1) [OF li] by (auto split: if_splits)
      show "device_ip_map (lease_state ?st) ip = Some k"
        if "device_map (lease_state ?st) k = Some e" "de_ip e = Some ip" for k e ip
        using that lease_invD(2) [OF li, of k e ip] keep [of ip k] by (auto split: if_splits)
      show "net_contains (ns_net ?st) ip \<and> ip \<noteq> ns_gateway ?st"
        if "device_ip_map (lease_state ?st) ip = Some k" for ip k
        using that usable [of ip] lease_invD(3) [OF li, of ip k] Cons.prems(2,3)
        by (auto split: option.splits if_splits)
    qed
    show "sender_map ?st ip \<noteq> None \<longleftrightarrow> (\<exists>e. online_at (lease_state ?st) ip e)" for ip
      using off Cons.prems(4) by simp
    show "traffic_stats_map ?st ip = Some c \<longleftrightarrow> (\<exists>e. online_at (lease_state ?st) ip e \<and> de_stats e = c)" for ip c
      using off notraffic by simp
    show "de_stats e < stats_next ?st" if "device_map (lease_state ?st) k = Some e" for k e
      using that ns_invD(5) [OF Cons.prems(1), of k e] by (auto split: if_splits)
    show "k = k'" if "device_map (lease_state ?st) k = Some e" "device_map (lease_state ?st) k' = Some e'"
      "de_stats e = de_stats e'" for k k' e e'
      using that ns_invD(5) [OF Cons.prems(1), of k e] ns_invD(5) [OF Cons.prems(1), of k' e']
        ns_invD(6) [OF Cons.prems(1), of k e k' e'] by (auto split: if_splits)
  qed (use ns_invD(1) [OF Cons.prems(1)] in simp)
  then show ?case unfolding step
  proof (rule Cons.IH)
    show "records_ok net rs" using Cons.prems(5) by (auto simp: records_ok_def split: if_splits)
    show "device_map (lease_state ?st) (dr_device_id q) = None" if q: "q \<in> set rs" for q
    proof -
      have "dr_device_id q \<noteq> dr_device_id r" 
      proof
        assume "dr_device_id q = dr_device_id r"
        then have "dr_device_id r \<in> set (map dr_device_id rs)" using q by (metis image_eqI set_map)
        then show False using Cons.prems(5) by (simp add: records_ok_def)
      qed
      then show ?thesis using q Cons.prems(6) by simp
    qed
    show "device_ip_map (lease_state ?st) ip = None" if "q \<in> set rs" "record_ip q = Some ip" for q ip
    proof -
      have "record_ip r \<noteq> Some ip"
        using that Cons.prems(5) by (force simp: records_ok_def)
      moreover have "device_ip_map ?s ip = None" by (rule Cons.prems(7) [of q]) (use that in simp_all)
      ultimately show ?thesis by (auto split: option.splits)
    qed
  qed (use Cons.prems in simp_all)
qed

lemma new_from_db_inv:
  assumes "net_proper net" "\<And>rs. records = Some rs \<Longrightarrow> records_ok net rs"
  shows "ns_inv (new_from_db code net lease now records)"
proof -
  let ?empty = "\<lparr>ns_time = now, ns_network_code = code, ns_gateway = net_network net + 1, ns_net = net,
    ns_lease_duration = lease, sender_map = Map.empty,
    lease_state = \<lparr>data_version = 0, device_map = Map.empty, device_ip_map = Map.empty\<rparr>,
    traffic_stats_map = Map.empty, stats_heap = (\<lambda>_. TrafficStats_new), stats_next = 0\<rparr>"
  have e: "ns_inv ?empty"
    using assms(1) by (simp add: ns_inv_def lease_inv_def online_at_def)
  show ?thesis
  proof (cases records)
    case None
    then show ?thesis using e by (simp add: new_from_db_def)
  next
    case (Some rs)
    then show ?thesis
      using load_records_inv [OF e, of net rs now] assms(2) by (simp add: new_from_db_def Let_def)
  qed
qed

end
