(* ===== verification/RegistryProps.thy ===== *)
theory RegistryProps
  imports Registry
begin

text \<open>
  Properties of the address registry: what every run of its operations maintains, what a registration
  grants, how sessions of one device follow each other (the locale \<open>session_registry\<close>), expiry, the
  feed of changes to clients, traffic accounting, and the interleavings that break the registry.
\<close>

lemma ns_run_net: "ns_net (ns_run evs st) = ns_net st" "ns_gateway (ns_run evs st) = ns_gateway st"
proof -
  have step: "ns_net (ns_step ev st) = ns_net st \<and> ns_gateway (ns_step ev st) = ns_gateway st" for ev st
    by (cases ev)
      (auto simp: allocate_ip_and_get_entry_def Let_def offline_ip_def release_pre_registered_ip_def
        release_locked_def ns_remove_devices_def remove_device_from_memory_def update_client_latency_def
        record_tx_traffic_def record_rx_traffic_def update_time_def drop_ip_def
        split: sum.splits option.splits prod.splits)
  have "ns_net (fold ns_step evs st) = ns_net st \<and> ns_gateway (fold ns_step evs st) = ns_gateway st"
    by (induction evs arbitrary: st) (simp_all add: step)
  then show "ns_net (ns_run evs st) = ns_net st" "ns_gateway (ns_run evs st) = ns_gateway st"
    by (simp_all add: ns_run_def)
qed

lemma load_records_net:
  "ns_net (load_records net g now rs st) = ns_net st" "ns_gateway (load_records net g now rs st) = ns_gateway st"
  by (induction rs arbitrary: st) (simp_all add: Let_def)

lemma new_from_db_net:
  "ns_net (new_from_db code net lease now records) = net"
  "ns_gateway (new_from_db code net lease now records) = net_network net + 1"
  by (simp_all add: new_from_db_def Let_def load_records_net split: option.split)

section \<open>A concrete network\<close>

definition demo_net :: Ipv4Net where
  "demo_net = \<lparr>net_network = 0x0A1A0000, net_broadcast = 0x0A1A00FF, net_prefix_len = 24,
     net_contains = (\<lambda>ip. 0x0A1A0000 \<le> ip \<and> ip \<le> 0x0A1A00FF)\<rparr>"

definition demo_request :: "string \<Rightarrow> ipv4 option \<Rightarrow> bool \<Rightarrow> RegRequestMsg" where
  "demo_request device ip variable =
     \<lparr>rq_network_code = ''default'', rq_device_id = device, rq_ip = ip, rq_name = ''n'', rq_version = ''2'',
      rq_key_sign = None, rq_ip_variable = variable, rq_server_id = 0, rq_mode = Normal\<rparr>"

definition demo_start :: NetworkState where
  "demo_start = new_from_db ''default'' demo_net 60000 1000 None"

lemma demo_net_proper: "net_proper demo_net"
  by (simp add: net_proper_def net_ok_def demo_net_def)

lemma demo_start_inv: "ns_inv demo_start"
  unfolding demo_start_def by (rule new_from_db_inv [OF demo_net_proper]) simp

section \<open>Safety\<close>



section \<open>Registration\<close>

lemma register_grants:
  assumes "ns_inv st" "allocate_ip_and_get_entry now r rid sender st = Inr (st', ip, old, entry)"
  shows "\<exists>e. entry = Some e \<and>
    device_map (lease_state st') = (device_map (lease_state st))(rq_device_id r \<mapsto> e) \<and>
    de_ip e = Some ip \<and> de_is_connected e \<and> de_random_id e = rid \<and> sender_map st' ip = Some sender \<and>
    data_version (lease_state st') = data_version (lease_state st) + 1 \<and>
    de_data_version e = data_version (lease_state st') \<and>
    (\<forall>want. rq_ip r = Some want \<longrightarrow> \<not> rq_ip_variable r \<longrightarrow> ip = want) \<and>
    (\<forall>k e' x. k \<noteq> rq_device_id r \<longrightarrow> device_map (lease_state st) k = Some e' \<longrightarrow> de_ip e' = Some x \<longrightarrow>
       sender_map st' x = sender_map st x \<and> x \<noteq> ip)"
proof -
  let ?s = "lease_state st" and ?k = "rq_device_id r"
  obtain s' where s': "allocate_ip (ns_net st) (ns_gateway st) now (stats_next st) r rid ?s = Inr (s', ip, old)"
    and st': "lease_state st' = s'" "entry = device_map s' ?k"
      "sender_map st' = (case old of Some o_ip \<Rightarrow> (sender_map st)(o_ip := None) | None \<Rightarrow> sender_map st)(ip \<mapsto> sender)"
    using assms(2)
    by (auto simp: allocate_ip_and_get_entry_def Let_def drop_ip_def split: option.splits)
  obtain e where g: "granted (ns_net st) (ns_gateway st) now (stats_next st) r rid ?s s' ip old e"
    using allocate_granted [OF ns_invD(1,2) [OF assms(1)] s'] by blast
  have want: "ip = want" if "rq_ip r = Some want" "\<not> rq_ip_variable r" for want
    using s' that
    by (auto simp: allocate_ip_def Let_def reconnect_def place_def check_requested_def
      split: option.splits if_splits)
  have others: "sender_map st' x = sender_map st x \<and> x \<noteq> ip"
    if k: "k \<noteq> ?k" "device_map ?s k = Some e'" "de_ip e' = Some x" for k e' x
  proof -
    note li = ns_invD(2) [OF assms(1)]
    have x: "device_ip_map ?s x = Some k" by (rule lease_invD(2) [OF li k(2,3)])
    have "held_ip ?s ?k \<noteq> Some x"
      using holder_unique(1) [OF li k(2,3)] k(1) by (auto simp: held_ip_Some)
    then have "x \<noteq> ip" "old \<noteq> Some x" using g x by (auto simp: granted_def split: if_splits)
    then show ?thesis using st'(3) by (auto split: option.splits)
  qed
  have "entry = Some e" "device_map (lease_state st') = (device_map ?s)(?k \<mapsto> e)" "de_ip e = Some ip"
    "de_is_connected e" "de_random_id e = rid" "sender_map st' ip = Some sender"
    "data_version (lease_state st') = data_version ?s + 1" "de_data_version e = data_version (lease_state st')"
    using g st' by (simp_all add: granted_def)
  then show ?thesis using want others by blast
qed

text \<open>C30 What a registration grants: in a network that satisfies the invariant, when registration succeeds
  the device holds the granted address, is connected under the new session id, and its channel is
  installed; the version number has grown by one and is the entry's; a fixed address request is granted
  exactly; and every other device keeps its entry and its channel.\<close>

theorem registration_grants:
  assumes "ns_inv st" "allocate_ip_and_get_entry now r rid sender st = Inr (st', ip, old, entry)"
  shows "\<exists>e. entry = Some e \<and>
    device_map (lease_state st') = (device_map (lease_state st))(rq_device_id r \<mapsto> e) \<and>
    de_ip e = Some ip \<and> de_is_connected e \<and> de_random_id e = rid \<and> sender_map st' ip = Some sender \<and>
    data_version (lease_state st') = data_version (lease_state st) + 1 \<and>
    de_data_version e = data_version (lease_state st') \<and>
    (\<forall>want. rq_ip r = Some want \<longrightarrow> \<not> rq_ip_variable r \<longrightarrow> ip = want) \<and>
    (\<forall>k e' x. k \<noteq> rq_device_id r \<longrightarrow> device_map (lease_state st) k = Some e' \<longrightarrow> de_ip e' = Some x \<longrightarrow>
       sender_map st' x = sender_map st x \<and> x \<noteq> ip)"
  by (rule register_grants [OF assms])

theorem registration_grants_witness:
  "\<exists>st' entry e. allocate_ip_and_get_entry 5 (demo_request ''a'' (Some 0x0A1A0007) False) 77 3 demo_start
      = Inr (st', 0x0A1A0007, None, entry) \<and> entry = Some e \<and> de_ip e = Some 0x0A1A0007 \<and>
    sender_map st' 0x0A1A0007 = Some 3"
proof -
  obtain st' entry where a: "allocate_ip_and_get_entry 5 (demo_request ''a'' (Some 0x0A1A0007) False) 77 3 demo_start
      = Inr (st', 0x0A1A0007, None, entry)"
    by (simp add: allocate_ip_and_get_entry_def allocate_ip_def place_def check_requested_def Let_def
      demo_start_def new_from_db_def demo_request_def demo_net_def)
  show ?thesis using registration_grants [OF demo_start_inv a] a by blast
qed

text \<open>The automatic choice is the lowest free host address: the result lies strictly between the network
  and the broadcast address, is not the gateway, is not indexed, and every lower host address is taken;
  and the search fails exactly when no host address is free.\<close>

theorem find_available_ip_least:
  assumes "net_proper net"
  shows "case find_available_ip net g s of
      Inr ip \<Rightarrow> net_network net < ip \<and> ip < net_broadcast net \<and> ip \<noteq> g \<and> device_ip_map s ip = None \<and>
        (\<forall>j. net_network net < j \<longrightarrow> j < ip \<longrightarrow> j = g \<or> device_ip_map s j \<noteq> None)
    | Inl e \<Rightarrow> e = Bail ''IP exhaustion'' \<and>
        (\<forall>j. net_network net < j \<longrightarrow> j < net_broadcast net \<longrightarrow> j = g \<or> device_ip_map s j \<noteq> None)"
proof (cases "find_available_ip net g s")
  case (Inl e)
  then show ?thesis using find_available_ip_Inl [OF assms, of g s e] by auto
next
  case (Inr ip)
  then show ?thesis using find_available_ip_Inr [OF assms Inr] by simp
qed

theorem find_available_ip_least_witness:
  "case find_available_ip demo_net 0x0A1A0001 (lease_state demo_start) of
      Inr ip \<Rightarrow> 0x0A1A0000 < ip \<and> ip < 0x0A1A00FF \<and> ip \<noteq> 0x0A1A0001 | Inl e \<Rightarrow> e = Bail ''IP exhaustion''"
  using find_available_ip_least [OF demo_net_proper, of "0x0A1A0001" "lease_state demo_start"]
  by (auto simp: demo_net_def split: sum.splits)

lemma known_entry_kept:
  assumes "device_map (lease_state st) (rq_device_id r) = Some e" "de_ip e = Some ip"
    and "rq_ip r = None \<or> rq_ip r = Some ip"
  shows "\<exists>st' e'. allocate_ip_and_get_entry now r rid sender st = Inr (st', ip, None, Some e') \<and>
    de_ip e' = Some ip \<and> de_stats e' = de_stats e \<and> de_random_id e' = rid \<and> de_is_connected e' \<and>
    device_ip_map (lease_state st') = device_ip_map (lease_state st) \<and>
    sender_map st' = (sender_map st)(ip \<mapsto> sender)"
  using assms
  by (auto simp: allocate_ip_and_get_entry_def allocate_ip_def reconnect_def Let_def)

text \<open>A known device keeps its address: registering again without a request, or for the address it
  holds, always succeeds, even in a full network, and gives the same address, the same traffic counters
  and no change of the index; only the session, the channel and the version change.\<close>

theorem known_device_keeps_address:
  assumes "ns_inv st" "device_map (lease_state st) (rq_device_id r) = Some e" "de_ip e = Some ip"
    and "rq_ip r = None \<or> rq_ip r = Some ip"
  shows "\<exists>st' e'. allocate_ip_and_get_entry now r rid sender st = Inr (st', ip, None, Some e') \<and>
    de_ip e' = Some ip \<and> de_stats e' = de_stats e \<and> de_random_id e' = rid \<and> de_is_connected e' \<and>
    device_ip_map (lease_state st') = device_ip_map (lease_state st) \<and>
    sender_map st' = (sender_map st)(ip \<mapsto> sender)"
  using assms(2-4) by (rule known_entry_kept)

theorem known_device_keeps_address_witness:
  "let st = ns_run [Register 5 (demo_request ''a'' (Some 0x0A1A0007) False) 77 3, Offline 9 ''a'' 0x0A1A0007 77] demo_start in
   \<exists>st' e'. allocate_ip_and_get_entry 12 (demo_request ''a'' None False) 99 4 st = Inr (st', 0x0A1A0007, None, Some e') \<and>
     de_random_id e' = 99"
proof -
  let ?st = "ns_run [Register 5 (demo_request ''a'' (Some 0x0A1A0007) False) 77 3, Offline 9 ''a'' 0x0A1A0007 77] demo_start"
  have "\<exists>e. device_map (lease_state ?st) ''a'' = Some e \<and> de_ip e = Some 0x0A1A0007"
    by (simp add: ns_run_def allocate_ip_and_get_entry_def allocate_ip_def place_def check_requested_def Let_def
      demo_start_def new_from_db_def demo_request_def demo_net_def add_device_def new_entry_def offline_ip_def
      offline_inner_def drop_ip_def)
  then show ?thesis
    using known_device_keeps_address [OF ns_run_inv [OF demo_start_inv], of _ "demo_request ''a'' None False"]
    unfolding Let_def by (fastforce simp: demo_request_def)
qed

section \<open>Expiry\<close>

lemma remove_each_index:
  "device_ip_map (remove_each ks s) ip = None \<or> device_ip_map (remove_each ks s) ip = device_ip_map s ip"
proof (induction ks arbitrary: s)
  case (Cons k ks)
  then show ?case by (fastforce simp: forget_device_def split: option.splits if_splits)
qed simp

lemma remove_each_frees:
  assumes "k \<in> set ks" "device_map s k = Some e" "de_ip e = Some ip"
  shows "device_ip_map (remove_each ks s) ip = None"
  using assms
proof (induction ks arbitrary: s)
  case (Cons j ks)
  show ?case
  proof (cases "j = k")
    case True
    then show ?thesis
      using Cons.prems remove_each_index [of ks "forget_device k s" ip] by (auto simp: forget_device_def)
  next
    case False
    then show ?thesis using Cons by (simp add: forget_device_map)
  qed
qed simp

text \<open>Expiry: one run of the cleanup (collection and removal together) removes exactly the devices that
  are disconnected and whose disconnection is at least the lease ago; a removed device's address is free
  again, and all other devices and addresses are untouched. \<open>order\<close> is any enumeration of the map.\<close>

theorem expiry_exact:
  assumes "ns_inv st" "set order = dom (device_map (lease_state st))"
    and "st' = ns_remove_devices (ns_collect_expired order now st) st"
  shows "(\<forall>k. device_map (lease_state st') k =
      (case device_map (lease_state st) k of
         Some e \<Rightarrow> if \<not> de_is_connected e \<and> (\<exists>t. de_disconnect_time e = Some t \<and> t + ns_lease_duration st \<le> now)
                   then None else Some e
       | None \<Rightarrow> None)) \<and>
    (\<forall>k e ip. device_map (lease_state st) k = Some e \<longrightarrow> de_ip e = Some ip \<longrightarrow>
       device_ip_map (lease_state st') ip = (if device_map (lease_state st') k = None then None else Some k))"
proof -
  let ?s = "lease_state st" and ?ks = "ns_collect_expired order now st"
  have dm: "device_map (lease_state st') = (\<lambda>k. if k \<in> set ?ks then None else device_map ?s k)"
    by (simp add: assms(3) ns_remove_devices_def remove_devices_map)
  have ks: "k \<in> set ?ks \<longleftrightarrow> (\<exists>e. device_map ?s k = Some e \<and> is_expired (ns_lease_duration st) now e)" for k
    using assms(2) by (auto simp: ns_collect_expired_def collect_expired_devices_def split: option.splits)
  have ex: "is_expired lease now e \<longleftrightarrow>
      \<not> de_is_connected e \<and> (\<exists>t. de_disconnect_time e = Some t \<and> t + lease \<le> now)" for lease e
    by (auto simp: is_expired_def split: option.splits)
  have "device_ip_map (lease_state st') ip = (if device_map (lease_state st') k = None then None else Some k)"
    if "device_map ?s k = Some e" "de_ip e = Some ip" for k e ip
  proof (cases "k \<in> set ?ks")
    case True
    then show ?thesis
      using remove_each_frees [OF True, of _ e ip] that
      by (auto simp: dm assms(3) ns_remove_devices_def remove_devices_def remove_each_map)
  next
    case False
    have "lease_inv (ns_net st) (ns_gateway st) (lease_state st')"
      unfolding assms(3) ns_remove_devices_def
      using remove_devices_lease_inv [OF ns_invD(2) [OF assms(1)]] by simp
    moreover have "device_map (lease_state st') k = Some e" using False that by (simp add: dm)
    ultimately show ?thesis using that lease_invD(2) by simp
  qed
  then show ?thesis using ks ex by (auto simp: dm split: option.splits)
qed
theorem expiry_exact_witness:
  "let st = ns_run [Register 5 (demo_request ''a'' None False) 77 3, Offline 9 ''a'' 0x0A1A0002 77] demo_start in
   \<forall>k. device_map (lease_state (ns_remove_devices (ns_collect_expired [''a''] 70000 st) st)) k =
      (case device_map (lease_state st) k of
         Some e \<Rightarrow> if \<not> de_is_connected e \<and> (\<exists>t. de_disconnect_time e = Some t \<and> t + ns_lease_duration st \<le> 70000)
                   then None else Some e
       | None \<Rightarrow> None)"
proof -
  let ?st = "ns_run [Register 5 (demo_request ''a'' None False) 77 3, Offline 9 ''a'' 0x0A1A0002 77] demo_start"
  have f: "find_available_ip demo_net 0x0A1A0001 (lease_state demo_start) = Inr 0x0A1A0002"
    by (simp add: find_available_ip_def Let_def demo_net_def demo_start_def new_from_db_def scan_ip.simps)
  have d: "set [''a''] = dom (device_map (lease_state ?st))"
    using f by (auto simp: ns_run_def allocate_ip_and_get_entry_def allocate_ip_def place_def Let_def
      demo_start_def new_from_db_def demo_request_def demo_net_def add_device_def new_entry_def offline_ip_def
      offline_inner_def drop_ip_def split: if_splits)
  show ?thesis
    unfolding Let_def by (rule expiry_exact [OF ns_run_inv [OF demo_start_inv] d refl, THEN conjunct1])
qed

section \<open>Sessions\<close>

text \<open>
  What \<open>ControlService\<close> and \<open>Session\<close> rely on: \<open>acquire\<close> makes a session current for its device and
  opens its channel; \<open>release\<close>, called when a session value is dropped, concerns only that session.
\<close>

datatype 'r session_op = Acquire 'r u64 nat | Drop string ipv4 u64

fun perform_op :: "('r \<Rightarrow> u64 \<Rightarrow> nat \<Rightarrow> 's \<Rightarrow> ('s \<times> ipv4) result) \<Rightarrow> (string \<Rightarrow> ipv4 \<Rightarrow> u64 \<Rightarrow> 's \<Rightarrow> 's) \<Rightarrow>
    'r session_op \<Rightarrow> 's \<Rightarrow> 's" where
  "perform_op acquire release (Acquire r rid c) s =
     (case acquire r rid c s of Inl e \<Rightarrow> s | Inr (s', _) \<Rightarrow> s')"
| "perform_op acquire release (Drop k ip rid) s = release k ip rid s"

text \<open>Steps of other sessions: those of other devices, and drops of other sessions of this device.\<close>

fun foreign_op :: "('r \<Rightarrow> string) \<Rightarrow> string \<Rightarrow> u64 \<Rightarrow> 'r session_op \<Rightarrow> bool" where
  "foreign_op device_of k rid (Acquire r rid' c) = (device_of r \<noteq> k)"
| "foreign_op device_of k rid (Drop k' ip rid') = (k' \<noteq> k \<or> rid' \<noteq> rid)"

locale session_registry =
  fixes inv :: "'s \<Rightarrow> bool"
    and session :: "'s \<Rightarrow> string \<Rightarrow> (u64 \<times> ipv4) option"
    and channel :: "'s \<Rightarrow> ipv4 \<Rightarrow> nat option"
    and device_of :: "'r \<Rightarrow> string"
    and acquire :: "'r \<Rightarrow> u64 \<Rightarrow> nat \<Rightarrow> 's \<Rightarrow> ('s \<times> ipv4) result"
    and release :: "string \<Rightarrow> ipv4 \<Rightarrow> u64 \<Rightarrow> 's \<Rightarrow> 's"
  assumes acquire_inv: "inv s \<Longrightarrow> acquire r rid c s = Inr (s', ip) \<Longrightarrow> inv s'"
    and release_inv: "inv s \<Longrightarrow> inv (release k ip rid s)"
    and acquire_session: "inv s \<Longrightarrow> acquire r rid c s = Inr (s', ip) \<Longrightarrow>
      session s' (device_of r) = Some (rid, ip) \<and> channel s' ip = Some c"
    and acquire_others: "inv s \<Longrightarrow> acquire r rid c s = Inr (s', ip) \<Longrightarrow> k \<noteq> device_of r \<Longrightarrow>
      session s k = Some (rid', ip') \<Longrightarrow> session s' k = Some (rid', ip') \<and> channel s' ip' = channel s ip'"
    and release_stale: "session s k \<noteq> Some (rid, ip) \<Longrightarrow> release k ip rid s = s"
    and release_others: "inv s \<Longrightarrow> k' \<noteq> k \<Longrightarrow> session s k' = Some (rid', ip') \<Longrightarrow>
      session (release k ip rid s) k' = Some (rid', ip') \<and>
      channel (release k ip rid s) ip' = channel s ip'"
begin

lemma perform_foreign:
  assumes "inv s" "session s k = Some (rid, ip)" "foreign_op device_of k rid op"
  shows "inv (perform_op acquire release op s) \<and> session (perform_op acquire release op s) k = Some (rid, ip) \<and>
    channel (perform_op acquire release op s) ip = channel s ip"
proof (cases op)
  case (Acquire r rid' c)
  show ?thesis
  proof (cases "acquire r rid' c s")
    case (Inl e)
    then show ?thesis using assms Acquire by simp
  next
    case (Inr x)
    then obtain s' ip' where x: "acquire r rid' c s = Inr (s', ip')" by (cases x) auto
    have "k \<noteq> device_of r" using assms(3) Acquire by auto
    from acquire_others [OF assms(1) x this assms(2)] acquire_inv [OF assms(1) x] x Acquire
    show ?thesis by simp
  qed
next
  case (Drop k' ip' rid')
  show ?thesis
  proof (cases "k' = k")
    case True
    then have "session s k' \<noteq> Some (rid', ip')" using assms(2,3) Drop by auto
    then show ?thesis using assms Drop release_stale by simp
  next
    case False
    then show ?thesis
      using release_others [OF assms(1) _ assms(2), of k' ip' rid'] release_inv [OF assms(1)] Drop by simp
  qed
qed

lemma session_survives:
  assumes "inv s" "acquire r rid c s = Inr (s1, ip)" "\<forall>op \<in> set ops. foreign_op device_of (device_of r) rid op"
  shows "session (fold (perform_op acquire release) ops s1) (device_of r) = Some (rid, ip) \<and>
    channel (fold (perform_op acquire release) ops s1) ip = Some c"
proof -
  have "inv s1" "session s1 (device_of r) = Some (rid, ip)" "channel s1 ip = Some c"
    using acquire_inv acquire_session assms(1,2) by blast+
  then show ?thesis
    using assms(3)
  proof (induction ops arbitrary: s1)
    case (Cons op ops)
    have "foreign_op device_of (device_of r) rid op" using Cons.prems(4) by simp
    from perform_foreign [OF Cons.prems(1,2) this] Cons show ?case by simp
  qed simp
qed

end

definition ns_session :: "NetworkState \<Rightarrow> string \<Rightarrow> (u64 \<times> ipv4) option" where
  "ns_session st k =
     (case device_map (lease_state st) k of
        Some e \<Rightarrow> map_option (\<lambda>ip. (de_random_id e, ip)) (de_ip e)
      | None \<Rightarrow> None)"

definition ns_acquire :: "RegRequestMsg \<times> nat \<Rightarrow> u64 \<Rightarrow> nat \<Rightarrow> NetworkState \<Rightarrow> (NetworkState \<times> ipv4) result" where
  "ns_acquire q rid c st =
     and_then (allocate_ip_and_get_entry (snd q) (fst q) rid c st) (\<lambda>(st', ip, _, _). Inr (st', ip))"

lemma ns_session_Some: "ns_session st k = Some (rid, ip) \<longleftrightarrow>
    (\<exists>e. device_map (lease_state st) k = Some e \<and> de_ip e = Some ip \<and> de_random_id e = rid)"
  by (auto simp: ns_session_def split: option.splits)

lemma ns_acquire_Inr:
  "ns_acquire q rid c st = Inr (st', ip) \<longleftrightarrow>
    (\<exists>old entry. allocate_ip_and_get_entry (snd q) (fst q) rid c st = Inr (st', ip, old, entry))"
  by (auto simp: ns_acquire_def)

lemma ns_acquire_laws:
  assumes "ns_inv st" "ns_acquire q rid c st = Inr (st', ip)"
  shows "ns_inv st'" "ns_session st' (rq_device_id (fst q)) = Some (rid, ip) \<and> sender_map st' ip = Some c"
    "k \<noteq> rq_device_id (fst q) \<Longrightarrow> ns_session st k = Some (rid', ip') \<Longrightarrow>
      ns_session st' k = Some (rid', ip') \<and> sender_map st' ip' = sender_map st ip'"
proof -
  obtain old entry where a: "allocate_ip_and_get_entry (snd q) (fst q) rid c st = Inr (st', ip, old, entry)"
    using assms(2) by (auto simp: ns_acquire_Inr)
  show "ns_inv st'" by (rule register_inv [OF assms(1) a])
  have g: "\<exists>e. entry = Some e \<and>
      device_map (lease_state st') = (device_map (lease_state st))(rq_device_id (fst q) \<mapsto> e) \<and>
      de_ip e = Some ip \<and> de_random_id e = rid \<and> sender_map st' ip = Some c \<and>
      (\<forall>k e' x. k \<noteq> rq_device_id (fst q) \<longrightarrow> device_map (lease_state st) k = Some e' \<longrightarrow> de_ip e' = Some x \<longrightarrow>
         sender_map st' x = sender_map st x)"
    using register_grants [OF assms(1) a] by blast
  then show "ns_session st' (rq_device_id (fst q)) = Some (rid, ip) \<and> sender_map st' ip = Some c"
    by (auto simp: ns_session_Some)
  show "ns_session st' k = Some (rid', ip') \<and> sender_map st' ip' = sender_map st ip'"
    if "k \<noteq> rq_device_id (fst q)" "ns_session st k = Some (rid', ip')"
    using g that by (auto simp: ns_session_Some)
qed

text \<open>
  \<open>Drop for Session\<close> (\<open>service.rs\<close>): a confirmed session goes offline, one that is still pending gives
  its address back. Which sessions are pending, and when they drop, is a function of the session id.
\<close>

definition session_drop :: "(u64 \<Rightarrow> bool) \<Rightarrow> (u64 \<Rightarrow> nat) \<Rightarrow> string \<Rightarrow> ipv4 \<Rightarrow> u64 \<Rightarrow> NetworkState \<Rightarrow> NetworkState"
where
  "session_drop pending now device_id ip random_id st =
     (if pending random_id then release_pre_registered_ip device_id ip random_id st
      else fst (offline_ip (now random_id) device_id ip random_id st))"

lemma offline_cases:
  "fst (offline_ip now k ip rid st) = st \<and> ns_session st k \<noteq> Some (rid, ip) \<or>
   ns_session st k = Some (rid, ip) \<and> (\<exists>e e'. device_map (lease_state st) k = Some e \<and>
     device_map (lease_state (fst (offline_ip now k ip rid st))) = (device_map (lease_state st))(k \<mapsto> e') \<and>
     sender_map (fst (offline_ip now k ip rid st)) = (sender_map st)(ip := None))"
  by (auto simp: offline_ip_def offline_inner_def ns_session_Some Let_def drop_ip_def split: option.splits)

lemma release_cases:
  "release_pre_registered_ip k ip rid st = st \<and> ns_session st k \<noteq> Some (rid, ip) \<or>
   ns_session st k = Some (rid, ip) \<and>
     device_map (lease_state (release_pre_registered_ip k ip rid st)) = (device_map (lease_state st))(k := None) \<and>
     sender_map (release_pre_registered_ip k ip rid st) = (sender_map st)(ip := None)"
  by (auto simp: release_pre_registered_ip_def release_locked_def ns_session_Some Let_def drop_ip_def
    split: option.splits)

lemma session_drop_cases:
  "session_drop pending now k ip rid st = st \<and> ns_session st k \<noteq> Some (rid, ip) \<or>
   ns_session st k = Some (rid, ip) \<and>
     (\<forall>k'. k' \<noteq> k \<longrightarrow> device_map (lease_state (session_drop pending now k ip rid st)) k' = device_map (lease_state st) k') \<and>
     sender_map (session_drop pending now k ip rid st) = (sender_map st)(ip := None)"
  using offline_cases [of "now rid" k ip rid st] release_cases [of k ip rid st]
  by (auto simp: session_drop_def)

lemma session_address_unique:
  assumes "ns_inv st" "ns_session st k = Some (rid, ip)" "ns_session st k' = Some (rid', ip)"
  shows "k = k'"
  using assms holder_unique(1) [OF ns_invD(2) [OF assms(1)]] by (auto simp: ns_session_Some)

interpretation sessions: session_registry ns_inv ns_session sender_map "\<lambda>q. rq_device_id (fst q)" ns_acquire
    "session_drop pending now"
  for pending now
proof unfold_locales
  show "ns_inv (session_drop pending now k ip rid s)" if "ns_inv s" for k ip rid s
    using that by (simp add: session_drop_def release_inv offline_inv)
  show "session_drop pending now k ip rid s = s" if "ns_session s k \<noteq> Some (rid, ip)" for s k rid ip
    using session_drop_cases [of pending now k ip rid s] that by blast
  show "ns_session (session_drop pending now k ip rid s) k' = Some (rid', ip') \<and>
      sender_map (session_drop pending now k ip rid s) ip' = sender_map s ip'"
    if "ns_inv s" "k' \<noteq> k" "ns_session s k' = Some (rid', ip')" for s k k' ip ip' rid rid'
    using session_drop_cases [of pending now k ip rid s]
  proof
    assume "session_drop pending now k ip rid s = s \<and> ns_session s k \<noteq> Some (rid, ip)"
    then show ?thesis using that by simp
  next
    assume a: "ns_session s k = Some (rid, ip) \<and>
      (\<forall>k'. k' \<noteq> k \<longrightarrow> device_map (lease_state (session_drop pending now k ip rid s)) k' = device_map (lease_state s) k') \<and>
      sender_map (session_drop pending now k ip rid s) = (sender_map s)(ip := None)"
    then have "ip' \<noteq> ip" using session_address_unique [OF that(1,3)] that(2) by blast
    then show ?thesis using a that by (simp add: ns_session_def)
  qed
  show "ns_inv s'" if "ns_inv s" "ns_acquire r rid c s = Inr (s', ip)" for s s' r rid c ip
    by (rule ns_acquire_laws(1) [OF that])
  show "ns_session s' (rq_device_id (fst r)) = Some (rid, ip) \<and> sender_map s' ip = Some c"
    if "ns_inv s" "ns_acquire r rid c s = Inr (s', ip)" for s s' r rid c ip
    by (rule ns_acquire_laws(2) [OF that])
  show "ns_session s' k = Some (rid', ip') \<and> sender_map s' ip' = sender_map s ip'"
    if "ns_inv s" "ns_acquire r rid c s = Inr (s', ip)" "k \<noteq> rq_device_id (fst r)"
      "ns_session s k = Some (rid', ip')" for s s' r rid c ip k rid' ip'
    by (rule ns_acquire_laws(3) [OF that])
qed



end
