(* ===== verification/RegistryRaces.thy ===== *)
theory RegistryRaces
  imports RegistryProps
begin

text \<open>
  Traffic accounting through the shared counters, and what the registry does not maintain: the address
  a device leaves on the automatic choice, and two interleavings of critical sections
  (\<open>release_pre_registered_ip\<close> with a registration, expiry with a reconnection).
\<close>

section \<open>Traffic\<close>

text \<open>Traffic is booked to the device: bytes recorded for an address with an outgoing channel increase the
  transmit counter of the row that is persisted for the device holding that address by exactly that
  amount (modulo \<open>2^64\<close>), its receive counter and every other device's row are unchanged; bytes for
  an address without a channel are not booked.\<close>

theorem traffic_booked:
  assumes "ns_inv st" "device_map (lease_state st) k = Some e" "de_ip e = Some ip" "de_is_connected e"
    and "st' = record_tx_traffic ip n st"
  shows "to_record (stats_heap st') code e =
      (to_record (stats_heap st) code e)\<lparr>dr_tx_bytes := dr_tx_bytes (to_record (stats_heap st) code e) + word_of_nat n\<rparr> \<and>
    (\<forall>k' e'. k' \<noteq> k \<longrightarrow> device_map (lease_state st) k' = Some e' \<longrightarrow>
       to_record (stats_heap st') code e' = to_record (stats_heap st) code e') \<and>
    lease_state st' = lease_state st \<and>
    (\<forall>x. sender_map st x = None \<longrightarrow> record_tx_traffic x n st = st)"
proof -
  have t: "traffic_stats_map st ip = Some (de_stats e)"
    unfolding ns_invD(4) [OF assms(1)] online_at_def using assms(2-4) by blast
  have other: "de_stats e' \<noteq> de_stats e" if "k' \<noteq> k" "device_map (lease_state st) k' = Some e'" for k' e'
    using ns_invD(6) [OF assms(1) that(2) assms(2)] that(1) by blast
  have none: "record_tx_traffic x n st = st" if "sender_map st x = None" for x
  proof -
    have "traffic_stats_map st x = None"
      using that ns_invD(3,4) [OF assms(1)] by (metis not_None_eq)
    then show ?thesis by (simp add: record_tx_traffic_def)
  qed
  have st': "stats_heap st' = (stats_heap st)(de_stats e := (stats_heap st (de_stats e))
      \<lparr>tx_total := tx_total (stats_heap st (de_stats e)) + word_of_nat n\<rparr>)" "lease_state st' = lease_state st"
    using t by (simp_all add: assms(5) record_tx_traffic_def)
  show ?thesis using other none by (simp add: st' to_record_def)
qed

definition demo_online :: NetworkState where
  "demo_online = ns_run [Register 5 (demo_request ''a'' (Some 0x0A1A0007) False) 77 3] demo_start"

lemma demo_online_inv: "ns_inv demo_online"
  unfolding demo_online_def by (rule ns_run_inv [OF demo_start_inv])

lemma demo_online_entry:
  "\<exists>e. device_map (lease_state demo_online) ''a'' = Some e \<and> de_ip e = Some 0x0A1A0007 \<and> de_is_connected e \<and>
     de_random_id e = 77"
  by (simp add: demo_online_def ns_run_def allocate_ip_and_get_entry_def allocate_ip_def place_def
    check_requested_def Let_def demo_start_def new_from_db_def demo_request_def demo_net_def add_device_def
    new_entry_def)

theorem traffic_booked_witness:
  "\<exists>e. device_map (lease_state demo_online) ''a'' = Some e \<and>
    dr_tx_bytes (to_record (stats_heap (record_tx_traffic 0x0A1A0007 500 demo_online)) ''default'' e) =
    dr_tx_bytes (to_record (stats_heap demo_online) ''default'' e) + 500"
proof -
  obtain e where e: "device_map (lease_state demo_online) ''a'' = Some e" "de_ip e = Some 0x0A1A0007" "de_is_connected e"
    using demo_online_entry by blast
  show ?thesis
    using traffic_booked [OF demo_online_inv e refl, of 500 "''default''"] e(1) by simp
qed

section \<open>Lost addresses\<close>

text \<open>Moving a device by the automatic choice loses its old address: when a known device asks with
  \<open>ip_variable\<close> for an address it cannot have, it gets another one, and the index still maps its old
  address to it although no device holds it; nobody who asks for that address gets it, and neither
  removing the device nor its expiry frees it.\<close>

theorem variable_ip_leaks_address:
  assumes "ns_inv st" "device_map (lease_state st) (rq_device_id r) = Some e" "de_ip e = Some o_ip"
    and "rq_ip r = Some want" "want \<noteq> o_ip" "rq_ip_variable r"
    and "check_requested (ns_net st) (ns_gateway st) r want (lease_state st) = Inr None"
    and "allocate_ip_and_get_entry now r rid sender st = Inr (st', ip, old, entry)"
  shows "device_ip_map (lease_state st') o_ip = Some (rq_device_id r) \<and>
    (\<forall>k f. device_map (lease_state st') k = Some f \<longrightarrow> de_ip f \<noteq> Some o_ip) \<and>
    (\<forall>r'. \<not> rq_ip_variable r' \<longrightarrow> rq_ip r' = Some o_ip \<longrightarrow>
       (\<exists>e. check_requested (ns_net st) (ns_gateway st) r' o_ip (lease_state st') = Inl e)) \<and>
    device_ip_map (forget_device (rq_device_id r) (lease_state st')) o_ip = Some (rq_device_id r)"
proof -
  let ?s = "lease_state st" and ?s' = "lease_state st'" and ?k = "rq_device_id r"
  note li = ns_invD(2) [OF assms(1)]
  have idx: "device_ip_map ?s o_ip = Some ?k" by (rule lease_invD(2) [OF li assms(2,3)])
  have f: "find_available_ip (ns_net st) (ns_gateway st) ?s = Inr ip" and
    s': "?s' = add_device (new_entry now rid (stats_next st) (data_version ?s + 1) ip r)
      (?s\<lparr>data_version := data_version ?s + 1\<rparr>)"
    using assms(2-8)
    by (auto simp: allocate_ip_and_get_entry_def allocate_ip_def place_def Let_def drop_ip_def split: option.splits)
  have ne: "ip \<noteq> o_ip" using find_available_ip_Inr(5) [OF ns_invD(1) [OF assms(1)] f] idx by auto
  have keep: "device_ip_map ?s' o_ip = Some ?k"
    using ne idx by (simp add: s' add_device_def new_entry_def)
  have unheld: "de_ip g \<noteq> Some o_ip" if "device_map ?s' k = Some g" for k g
    using that ne holder_unique(1) [OF li _ _ assms(2,3)]
    by (auto simp: s' add_device_def new_entry_def split: if_splits)
  have taken: "\<exists>e. check_requested (ns_net st) (ns_gateway st) r' o_ip ?s' = Inl e" if "\<not> rq_ip_variable r'" for r'
    using keep that by (simp add: check_requested_def)
  have "device_ip_map (forget_device ?k ?s') o_ip = Some ?k"
    using keep ne by (simp add: forget_device_def s' add_device_def new_entry_def)
  then show ?thesis using keep unheld taken by blast
qed

theorem variable_ip_leaks_address_witness:
  "\<exists>st' ip old entry. allocate_ip_and_get_entry 9 (demo_request ''a'' (Some 0x0A1A0001) True) 78 4 demo_online
      = Inr (st', ip, old, entry) \<and>
    device_ip_map (lease_state st') 0x0A1A0007 = Some ''a'' \<and>
    (\<forall>k f. device_map (lease_state st') k = Some f \<longrightarrow> de_ip f \<noteq> Some 0x0A1A0007)"
proof -
  let ?r = "demo_request ''a'' (Some 0x0A1A0001) True"
  obtain e where e: "device_map (lease_state demo_online) ''a'' = Some e" "de_ip e = Some 0x0A1A0007"
    using demo_online_entry by blast
  have n: "ns_net demo_online = demo_net" "ns_gateway demo_online = 0x0A1A0001"
    by (simp_all add: demo_online_def ns_run_net demo_start_def new_from_db_net) (simp add: demo_net_def)
  have r: "rq_device_id ?r = ''a''" "rq_ip ?r = Some 0x0A1A0001" "rq_ip_variable ?r"
    by (simp_all add: demo_request_def)
  have c: "check_requested (ns_net demo_online) (ns_gateway demo_online) ?r 0x0A1A0001 (lease_state demo_online) = Inr None"
    using r n by (simp add: check_requested_def)
  have "find_available_ip demo_net 0x0A1A0001 (lease_state demo_online) \<noteq> Inl x" for x
  proof
    assume a: "find_available_ip demo_net 0x0A1A0001 (lease_state demo_online) = Inl x"
    have "device_ip_map (lease_state demo_online) 0x0A1A0002 = None"
      by (simp add: demo_online_def ns_run_def allocate_ip_and_get_entry_def allocate_ip_def place_def
        check_requested_def Let_def demo_start_def new_from_db_def demo_request_def demo_net_def add_device_def
        new_entry_def)
    then show False
      using a[unfolded find_available_ip_Inl [OF demo_net_proper], THEN conjunct2, THEN spec, of "0x0A1A0002"]
      by (simp add: demo_net_def)
  qed
  then obtain ip where ip: "find_available_ip demo_net 0x0A1A0001 (lease_state demo_online) = Inr ip"
    by (cases "find_available_ip demo_net 0x0A1A0001 (lease_state demo_online)") auto
  have "\<exists>st' ip old entry. allocate_ip_and_get_entry 9 ?r 78 4 demo_online = Inr (st', ip, old, entry)"
    using e c ip r n
    by (simp add: allocate_ip_and_get_entry_def allocate_ip_def place_def Let_def)
  then show ?thesis
    using variable_ip_leaks_address [OF demo_online_inv, of ?r e "0x0A1A0007" "0x0A1A0001"] e c r by fastforce
qed

section \<open>Races\<close>

text \<open>Releasing a pending registration races with a new one: \<open>release_pre_registered_ip\<close> drops the channel
  after it has given up the lock, so when in between another session is granted the same address, the
  new session loses its channel: its device is connected at that address, yet nothing can be sent to it.\<close>

theorem release_race:
  assumes "ns_inv st" "release_locked k ip rid st = (st1, True)"
    and "allocate_ip_and_get_entry now r rid' sender st1 = Inr (st2, ip, old, entry)"
    and "st3 = drop_ip ip st2"
  shows "(\<exists>e. device_map (lease_state st3) (rq_device_id r) = Some e \<and> de_ip e = Some ip \<and>
      de_is_connected e \<and> de_random_id e = rid') \<and> sender_map st3 ip = None \<and> \<not> ns_inv st3"
proof -
  obtain e0 where e0: "device_map (lease_state st) k = Some e0" "de_ip e0 = Some ip"
    and st1: "st1 = st\<lparr>lease_state := (lease_state st)\<lparr>device_map := (device_map (lease_state st))(k := None),
       device_ip_map := (device_ip_map (lease_state st))(ip := None), data_version := data_version (lease_state st) + 1\<rparr>\<rparr>"
    using assms(2) by (auto simp: release_locked_def Let_def split: option.splits if_splits)
  have l: "lease_inv (ns_net st1) (ns_gateway st1) (lease_state st1)"
  proof -
    have "lease_inv (ns_net st) (ns_gateway st) (forget_device k (lease_state st))"
      by (rule forget_lease_inv [OF ns_invD(2) [OF assms(1)]])
    then show ?thesis
      using e0 by (simp add: st1 forget_device_def lease_inv_def)
  qed
  have net: "net_proper (ns_net st1)" using ns_invD(1) [OF assms(1)] by (simp add: st1)
  obtain s' where a: "allocate_ip (ns_net st1) (ns_gateway st1) now (stats_next st1) r rid' (lease_state st1)
      = Inr (s', ip, old)" and st2: "lease_state st2 = s'"
    using assms(3) by (auto simp: allocate_ip_and_get_entry_def Let_def drop_ip_def split: option.splits)
  obtain e where "device_map s' (rq_device_id r) = Some e" "de_ip e = Some ip" "de_is_connected e" "de_random_id e = rid'"
    using allocate_granted [OF net l a] by (auto simp: granted_def)
  then have on: "\<exists>e. device_map (lease_state st3) (rq_device_id r) = Some e \<and> de_ip e = Some ip \<and>
      de_is_connected e \<and> de_random_id e = rid'"
    using assms(4) st2 by (simp add: drop_ip_def)
  have off: "sender_map st3 ip = None" using assms(4) by (simp add: drop_ip_def)
  have "\<not> ns_inv st3"
  proof
    assume "ns_inv st3"
    then show False using ns_invD(3) [of st3 ip] on off unfolding online_at_def by blast
  qed
  with on off show ?thesis by blast
qed

theorem release_race_witness:
  "\<exists>st1 st2 old entry. release_locked ''a'' 0x0A1A0007 77 demo_online = (st1, True) \<and>
    allocate_ip_and_get_entry 9 (demo_request ''b'' (Some 0x0A1A0007) False) 78 4 st1
      = Inr (st2, 0x0A1A0007, old, entry) \<and> sender_map (drop_ip 0x0A1A0007 st2) 0x0A1A0007 = None \<and>
    \<not> ns_inv (drop_ip 0x0A1A0007 st2)"
proof -
  let ?r = "demo_request ''b'' (Some 0x0A1A0007) False"
  obtain e where e: "device_map (lease_state demo_online) ''a'' = Some e" "de_ip e = Some 0x0A1A0007" "de_random_id e = 77"
    using demo_online_entry by blast
  then obtain st1 where st1: "release_locked ''a'' 0x0A1A0007 77 demo_online = (st1, True)"
    and s1: "st1 = demo_online\<lparr>lease_state := (lease_state demo_online)\<lparr>device_map := (device_map (lease_state demo_online))(''a'' := None),
       device_ip_map := (device_ip_map (lease_state demo_online))(0x0A1A0007 := None),
       data_version := data_version (lease_state demo_online) + 1\<rparr>\<rparr>"
    by (simp add: release_locked_def Let_def)
  have n: "ns_net demo_online = demo_net" "ns_gateway demo_online = 0x0A1A0001"
    by (simp_all add: demo_online_def ns_run_net demo_start_def new_from_db_net) (simp add: demo_net_def)
  have "device_map (lease_state demo_online) ''b'' = None"
    by (simp add: demo_online_def ns_run_def allocate_ip_and_get_entry_def allocate_ip_def place_def
      check_requested_def Let_def demo_start_def new_from_db_def demo_request_def demo_net_def add_device_def
      new_entry_def)
  then have "\<exists>st2 old entry. allocate_ip_and_get_entry 9 ?r 78 4 st1 = Inr (st2, 0x0A1A0007, old, entry)"
    by (simp add: s1 allocate_ip_and_get_entry_def allocate_ip_def place_def check_requested_def Let_def n
      demo_request_def) (simp add: demo_net_def)
  then obtain st2 old entry where "allocate_ip_and_get_entry 9 ?r 78 4 st1 = Inr (st2, 0x0A1A0007, old, entry)" by blast
  then show ?thesis using release_race [OF demo_online_inv st1 _ refl] st1 by blast
qed

text \<open>Expiry races with a reconnection: the cleanup collects the expired ids and removes them in two
  critical sections; a device that reconnects in between is removed although it is connected, so its
  channel stays open for an address that the registry then gives to the next device.\<close>

theorem expiry_reconnect_race:
  assumes "ns_inv st" "device_map (lease_state st) (rq_device_id r) = Some e" "de_ip e = Some ip"
    and "rq_ip r = None" "rq_device_id r \<in> set (ns_collect_expired order t st)"
    and "ids = ns_collect_expired order t st"
  shows "\<exists>st1 entry. allocate_ip_and_get_entry now r rid sender st = Inr (st1, ip, None, entry) \<and>
    ns_session st1 (rq_device_id r) = Some (rid, ip) \<and>
    device_map (lease_state (ns_remove_devices ids st1)) (rq_device_id r) = None \<and>
    device_ip_map (lease_state (ns_remove_devices ids st1)) ip = None \<and>
    sender_map (ns_remove_devices ids st1) ip = Some sender"
proof -
  let ?k = "rq_device_id r"
  obtain st1 e' where a: "allocate_ip_and_get_entry now r rid sender st = Inr (st1, ip, None, Some e')"
    and e': "de_ip e' = Some ip" "de_random_id e' = rid" "sender_map st1 ip = Some sender"
    using known_entry_kept [OF assms(2,3), of now rid sender] assms(4) by auto
  obtain f where f: "device_map (lease_state st1) ?k = Some f" "de_ip f = Some ip" "de_random_id f = rid"
    using register_grants [OF assms(1) a] by auto
  have k: "?k \<in> set ids" using assms(5,6) by simp
  then have ne: "ids \<noteq> []" by auto
  have "device_ip_map (remove_each ids (lease_state st1\<lparr>data_version := data_version (lease_state st1) + 1\<rparr>)) ip = None"
    by (rule remove_each_frees [OF k _ f(2)]) (use f(1) in simp)
  then have "device_ip_map (lease_state (ns_remove_devices ids st1)) ip = None"
    using ne by (simp add: ns_remove_devices_def remove_devices_def)
  moreover have "device_map (lease_state (ns_remove_devices ids st1)) ?k = None"
    using k by (simp add: ns_remove_devices_def remove_devices_map)
  moreover have "sender_map (ns_remove_devices ids st1) ip = Some sender"
    using e' by (simp add: ns_remove_devices_def)
  ultimately show ?thesis using a f by (auto simp: ns_session_Some)
qed

theorem expiry_reconnect_race_witness:
  "let st = ns_run [Offline 9 ''a'' 0x0A1A0007 77] demo_online; ids = ns_collect_expired [''a''] 70000 st in
   \<exists>st1 entry. allocate_ip_and_get_entry 70001 (demo_request ''a'' None False) 78 4 st = Inr (st1, 0x0A1A0007, None, entry) \<and>
     device_map (lease_state (ns_remove_devices ids st1)) ''a'' = None \<and>
     sender_map (ns_remove_devices ids st1) 0x0A1A0007 = Some 4"
proof -
  let ?st = "ns_run [Offline 9 ''a'' 0x0A1A0007 77] demo_online" and ?r = "demo_request ''a'' None False"
  obtain e where e: "device_map (lease_state demo_online) ''a'' = Some e" "de_ip e = Some 0x0A1A0007" "de_random_id e = 77"
    using demo_online_entry by blast
  let ?f = "e\<lparr>de_data_version := data_version (lease_state demo_online) + 1, de_is_connected := False,
    de_disconnect_time := Some 9\<rparr>"
  have f: "device_map (lease_state ?st) (rq_device_id ?r) = Some ?f"
    using e by (simp add: ns_run_def offline_ip_def offline_inner_def drop_ip_def Let_def demo_request_def)
  have l: "ns_lease_duration ?st = 60000"
    by (simp add: demo_online_def ns_run_def allocate_ip_and_get_entry_def allocate_ip_def place_def
      check_requested_def Let_def demo_start_def new_from_db_def demo_request_def demo_net_def add_device_def
      new_entry_def offline_ip_def offline_inner_def drop_ip_def)
  have c: "rq_device_id ?r \<in> set (ns_collect_expired [''a''] 70000 ?st)"
    using f l by (simp add: ns_collect_expired_def collect_expired_devices_def is_expired_def demo_request_def)
  show ?thesis
    using expiry_reconnect_race [OF ns_run_inv [OF demo_online_inv] f _ _ c refl, of "0x0A1A0007" 70001 78 4] e(2)
    by (auto simp: Let_def demo_request_def)
qed

end
