(* ===== verification/ServerInfo.thy ===== *)
theory ServerInfo
  imports NetworkState
begin

text \<open>
  What a client knows of its servers and of the other clients, \<open>vnt/vnt-core/src/context/mod.rs\<close>:
  \<open>ServerInfoCollection\<close>, the traffic and packet-loss counters, and the peer map. The address of a
  server is its text. Hash maps are partial functions; where the code visits one, the argument
  \<open>order\<close> enumerates its keys. \<open>f64\<close> loss rates are left as the pair of counters they are computed
  from. The messages are those the server sends (\<open>ClientSimpleInfoList\<close>).
\<close>

section \<open>Counters\<close>

record PingStats =
  ps_sent :: u64
  ps_received :: u64

definition PingStats_default :: PingStats where
  "PingStats_default = \<lparr>ps_sent = 0, ps_received = 0\<rparr>"

record TrafficCounter =
  tc_tx_bytes :: u64
  tc_rx_bytes :: u64

definition TrafficCounter_default :: TrafficCounter where
  "TrafficCounter_default = \<lparr>tc_tx_bytes = 0, tc_rx_bytes = 0\<rparr>"

text \<open>Both counter maps are \<open>HashMap<Ipv4Addr, Arc<Mutex<_>>>\<close>; the entry is created on first use.\<close>

definition get_or_create :: "'c \<Rightarrow> ipv4 \<Rightarrow> (ipv4 \<rightharpoonup> 'c) \<Rightarrow> (ipv4 \<rightharpoonup> 'c) \<times> 'c" where
  "get_or_create dflt ip m =
     (case m ip of Some c \<Rightarrow> (m, c) | None \<Rightarrow> (m(ip \<mapsto> dflt), dflt))"

definition update_counter :: "'c \<Rightarrow> ('c \<Rightarrow> 'c) \<Rightarrow> ipv4 \<Rightarrow> (ipv4 \<rightharpoonup> 'c) \<Rightarrow> (ipv4 \<rightharpoonup> 'c)" where
  "update_counter dflt f ip m = (case get_or_create dflt ip m of (m', c) \<Rightarrow> m'(ip \<mapsto> f c))"

definition record_tx :: "ipv4 \<Rightarrow> u64 \<Rightarrow> (ipv4 \<rightharpoonup> TrafficCounter) \<Rightarrow> (ipv4 \<rightharpoonup> TrafficCounter)" where
  "record_tx ip n = update_counter TrafficCounter_default (\<lambda>c. c\<lparr>tc_tx_bytes := tc_tx_bytes c + n\<rparr>) ip"

definition record_rx :: "ipv4 \<Rightarrow> u64 \<Rightarrow> (ipv4 \<rightharpoonup> TrafficCounter) \<Rightarrow> (ipv4 \<rightharpoonup> TrafficCounter)" where
  "record_rx ip n = update_counter TrafficCounter_default (\<lambda>c. c\<lparr>tc_rx_bytes := tc_rx_bytes c + n\<rparr>) ip"

definition record_sent :: "ipv4 \<Rightarrow> (ipv4 \<rightharpoonup> PingStats) \<Rightarrow> (ipv4 \<rightharpoonup> PingStats)" where
  "record_sent ip = update_counter PingStats_default (\<lambda>c. c\<lparr>ps_sent := ps_sent c + 1\<rparr>) ip"

definition record_received :: "ipv4 \<Rightarrow> (ipv4 \<rightharpoonup> PingStats) \<Rightarrow> (ipv4 \<rightharpoonup> PingStats)" where
  "record_received ip = update_counter PingStats_default (\<lambda>c. c\<lparr>ps_received := ps_received c + 1\<rparr>) ip"

definition counter_reset :: "'c \<Rightarrow> ipv4 \<Rightarrow> (ipv4 \<rightharpoonup> 'c) \<Rightarrow> (ipv4 \<rightharpoonup> 'c)" where
  "counter_reset dflt ip m = (case m ip of Some _ \<Rightarrow> m(ip \<mapsto> dflt) | None \<Rightarrow> m)"

definition counter_reset_all :: "'c \<Rightarrow> (ipv4 \<rightharpoonup> 'c) \<Rightarrow> (ipv4 \<rightharpoonup> 'c)" where
  "counter_reset_all dflt m = (\<lambda>ip. map_option (\<lambda>_. dflt) (m ip))"

lemma update_counter_at:
  "update_counter dflt f ip m x =
    (if x = ip then Some (f (case m ip of Some c \<Rightarrow> c | None \<Rightarrow> dflt)) else m x)"
  by (simp add: update_counter_def get_or_create_def split: option.split)

section \<open>Servers and the clients behind them\<close>

record ServerNodeInfo =
  sn_server_id :: u32
  sn_server_addr :: string
  sn_connected :: bool
  sn_rtt :: "u32 option"
  sn_data_version :: u64
  sn_client_map :: "ipv4 \<rightharpoonup> ClientSimpleInfo"
  sn_last_connected_time :: "i64 option"
  sn_disconnected_time :: "i64 option"
  sn_server_version :: "string option"

definition ServerNodeInfo_default :: ServerNodeInfo where
  "ServerNodeInfo_default =
     \<lparr>sn_server_id = 0, sn_server_addr = [], sn_connected = False, sn_rtt = None, sn_data_version = 0,
      sn_client_map = Map.empty, sn_last_connected_time = None, sn_disconnected_time = None,
      sn_server_version = None\<rparr>"

record ServerInfoCollection =
  client_simple_list :: "ClientSimpleInfo list"
  server_node_map :: "u32 \<rightharpoonup> ServerNodeInfo"

definition node_or_default :: "ServerInfoCollection \<Rightarrow> u32 \<Rightarrow> ServerNodeInfo" where
  "node_or_default c sid = (case server_node_map c sid of Some n \<Rightarrow> n | None \<Rightarrow> ServerNodeInfo_default)"

definition update_server :: "(u32 \<times> string) list \<Rightarrow> ServerInfoCollection" where
  "update_server addrs =
     \<lparr>client_simple_list = [],
      server_node_map = foldl (\<lambda>m (sid, addr). m(sid \<mapsto>
        ServerNodeInfo_default\<lparr>sn_server_id := sid, sn_server_addr := addr\<rparr>)) Map.empty addrs\<rparr>"

text \<open>\<open>min_by_key\<close>: the first of the minimal elements.\<close>

fun min_by_key :: "(u32 \<times> u32) list \<Rightarrow> (u32 \<times> u32) option" where
  "min_by_key [] = None"
| "min_by_key (x # xs) =
     (case min_by_key xs of
        None \<Rightarrow> Some x
      | Some y \<Rightarrow> if snd y < snd x then Some y else Some x)"

definition rtt_or_max :: "ServerNodeInfo \<Rightarrow> u32" where
  "rtt_or_max n = (case sn_rtt n of Some r \<Rightarrow> r | None \<Rightarrow> - 1)"

definition find_connected_server :: "u32 list \<Rightarrow> ServerInfoCollection \<Rightarrow> u32 option" where
  "find_connected_server server_ids c =
     map_option fst (min_by_key (List.map_filter (\<lambda>sid.
       case server_node_map c sid of
         None \<Rightarrow> None
       | Some n \<Rightarrow> if \<not> sn_connected n then None else Some (sid, rtt_or_max n)) server_ids))"

definition find_ip_to_server :: "u32 list \<Rightarrow> ipv4 \<Rightarrow> ServerInfoCollection \<Rightarrow> u32 option" where
  "find_ip_to_server server_ids ip c =
     map_option fst (min_by_key (List.map_filter (\<lambda>sid.
       case server_node_map c sid of
         None \<Rightarrow> None
       | Some n \<Rightarrow>
           if \<not> sn_connected n then None
           else (case sn_client_map n ip of
                   None \<Rightarrow> None
                 | Some client \<Rightarrow> if \<not> csi_online client then None else Some (sid, rtt_or_max n))) server_ids))"

definition client_online_ips :: "ServerInfoCollection \<Rightarrow> ipv4 list" where
  "client_online_ips c = map csi_ip (filter csi_online (client_simple_list c))"

definition sic_data_version :: "u32 \<Rightarrow> ServerInfoCollection \<Rightarrow> u64" where
  "sic_data_version sid c = (case server_node_map c sid of Some n \<Rightarrow> sn_data_version n | None \<Rightarrow> 0)"

text \<open>The entry a message contributes, and the merge over all servers (an address is online if any
  server says so). \<open>sids\<close> and \<open>ips\<close> enumerate the hash maps.\<close>

definition infos_map :: "ipv4 \<Rightarrow> ClientSimpleInfo list \<Rightarrow> (ipv4 \<rightharpoonup> ClientSimpleInfo)" where
  "infos_map self_ip xs = map_of (rev (map (\<lambda>i. (csi_ip i, i)) (filter (\<lambda>i. csi_ip i \<noteq> self_ip) xs)))"

definition merge_info :: "ClientSimpleInfo \<Rightarrow> (ipv4 \<rightharpoonup> ClientSimpleInfo) \<Rightarrow> (ipv4 \<rightharpoonup> ClientSimpleInfo)" where
  "merge_info x m =
     (case m (csi_ip x) of
        Some v \<Rightarrow> if csi_online x then m(csi_ip x \<mapsto> v\<lparr>csi_online := True\<rparr>) else m
      | None \<Rightarrow> m(csi_ip x \<mapsto> x))"

definition merge_servers :: "u32 list \<Rightarrow> ipv4 list \<Rightarrow> (u32 \<rightharpoonup> ServerNodeInfo) \<Rightarrow> (ipv4 \<rightharpoonup> ClientSimpleInfo)"
where
  "merge_servers sids ips nodes =
     foldl (\<lambda>m sid. case nodes sid of
         None \<Rightarrow> m
       | Some n \<Rightarrow> foldl (\<lambda>m ip. case sn_client_map n ip of None \<Rightarrow> m | Some x \<Rightarrow> merge_info x m) m ips)
       Map.empty sids"

definition update_client_simple_list ::
    "u32 list \<Rightarrow> ipv4 list \<Rightarrow> u32 \<Rightarrow> ipv4 \<Rightarrow> ClientSimpleInfoList \<Rightarrow> i64 \<Rightarrow> ServerInfoCollection
      \<Rightarrow> ServerInfoCollection" where
  "update_client_simple_list sids ips server_id self_ip l now c =
     (let n = node_or_default c server_id;
          n = (if sint now > sint (csl_time l)
               then n\<lparr>sn_rtt := Some (ucast (now - csl_time l))\<rparr> else n);
          m = infos_map self_ip (csl_list l);
          n = n\<lparr>sn_data_version := csl_data_version l,
                sn_client_map := (if csl_is_all l then m else sn_client_map n ++ m)\<rparr>;
          nodes = (server_node_map c)(server_id \<mapsto> n);
          merged = merge_servers sids ips nodes
      in c\<lparr>server_node_map := nodes,
           client_simple_list := List.map_filter merged ips\<rparr>)"

definition set_server_connected :: "u32 \<Rightarrow> bool \<Rightarrow> ServerInfoCollection \<Rightarrow> ServerInfoCollection \<times> bool" where
  "set_server_connected sid val c =
     (let n = node_or_default c sid in
      (c\<lparr>server_node_map := (server_node_map c)(sid \<mapsto> n\<lparr>sn_connected := val\<rparr>)\<rparr>, sn_connected n))"

definition is_any_server_connected :: "u32 list \<Rightarrow> u32 list option \<Rightarrow> ServerInfoCollection \<Rightarrow> bool" where
  "is_any_server_connected order server_ids c =
     (case server_ids of
        Some ids \<Rightarrow> list_ex (\<lambda>sid. case server_node_map c sid of Some n \<Rightarrow> sn_connected n | None \<Rightarrow> False) ids
      | None \<Rightarrow> list_ex (\<lambda>sid. case server_node_map c sid of Some n \<Rightarrow> sn_connected n | None \<Rightarrow> False) order)"

definition is_server_connected :: "u32 \<Rightarrow> ServerInfoCollection \<Rightarrow> bool" where
  "is_server_connected sid c = (case server_node_map c sid of Some n \<Rightarrow> sn_connected n | None \<Rightarrow> False)"

definition set_last_connected_time :: "u32 \<Rightarrow> i64 option \<Rightarrow> ServerInfoCollection \<Rightarrow> ServerInfoCollection" where
  "set_last_connected_time sid t c =
     c\<lparr>server_node_map := (server_node_map c)(sid \<mapsto> (node_or_default c sid)\<lparr>sn_last_connected_time := t\<rparr>)\<rparr>"

definition set_disconnected_time :: "u32 \<Rightarrow> i64 option \<Rightarrow> ServerInfoCollection \<Rightarrow> ServerInfoCollection" where
  "set_disconnected_time sid t c =
     c\<lparr>server_node_map := (server_node_map c)(sid \<mapsto> (node_or_default c sid)\<lparr>sn_disconnected_time := t\<rparr>)\<rparr>"

definition set_server_rtt :: "u32 \<Rightarrow> u32 \<Rightarrow> ServerInfoCollection \<Rightarrow> ServerInfoCollection" where
  "set_server_rtt sid rtt c =
     (case server_node_map c sid of
        Some n \<Rightarrow> c\<lparr>server_node_map := (server_node_map c)(sid \<mapsto> n\<lparr>sn_rtt := Some rtt\<rparr>)\<rparr>
      | None \<Rightarrow> c)"

definition set_server_version :: "u32 \<Rightarrow> string \<Rightarrow> ServerInfoCollection \<Rightarrow> ServerInfoCollection" where
  "set_server_version sid v c =
     (case server_node_map c sid of
        Some n \<Rightarrow> c\<lparr>server_node_map := (server_node_map c)(sid \<mapsto> n\<lparr>sn_server_version := Some v\<rparr>)\<rparr>
      | None \<Rightarrow> c)"

text \<open>The first server, in the map's order, that is connected and knows the address to be online.\<close>

fun get_server_rtt :: "u32 list \<Rightarrow> ipv4 \<Rightarrow> ServerInfoCollection \<Rightarrow> u32 option" where
  "get_server_rtt [] ip c = None"
| "get_server_rtt (sid # order) ip c =
     (case server_node_map c sid of
        None \<Rightarrow> get_server_rtt order ip c
      | Some n \<Rightarrow>
          if \<not> sn_connected n then get_server_rtt order ip c
          else (case sn_client_map n ip of
                  Some v \<Rightarrow> if csi_online v then sn_rtt n else get_server_rtt order ip c
                | None \<Rightarrow> get_server_rtt order ip c))"

definition exists_online_client_ip :: "ipv4 \<Rightarrow> ServerInfoCollection \<Rightarrow> bool" where
  "exists_online_client_ip ip c \<longleftrightarrow> list_ex (\<lambda>v. csi_ip v = ip \<and> csi_online v) (client_simple_list c)"

definition sic_clear :: "ServerInfoCollection \<Rightarrow> ServerInfoCollection" where
  "sic_clear c =
     \<lparr>client_simple_list = [],
      server_node_map = (\<lambda>sid. map_option (\<lambda>n. n\<lparr>sn_connected := False, sn_rtt := None, sn_data_version := 0,
        sn_client_map := Map.empty, sn_last_connected_time := None, sn_disconnected_time := None\<rparr>)
        (server_node_map c sid))\<rparr>"

section \<open>Lemmas\<close>

lemma min_by_key_None: "min_by_key xs = None \<longleftrightarrow> xs = []"
  by (cases xs) (auto split: option.splits)

lemma min_by_key_Some:
  "min_by_key xs = Some y \<Longrightarrow> y \<in> set xs \<and> (\<forall>x \<in> set xs. snd y \<le> snd x)"
proof (induction xs arbitrary: y)
  case (Cons x xs)
  show ?case
  proof (cases "min_by_key xs")
    case None
    then show ?thesis using Cons.prems by (simp add: min_by_key_None)
  next
    case (Some z)
    then show ?thesis using Cons.IH [OF Some] Cons.prems by (auto split: if_splits)
  qed
qed simp

lemma infos_map_unique:
  assumes "i \<in> set xs" "csi_ip i \<noteq> self_ip" "\<And>j. j \<in> set xs \<Longrightarrow> csi_ip j = csi_ip i \<Longrightarrow> j = i"
  shows "infos_map self_ip xs (csi_ip i) = Some i"
proof (cases "infos_map self_ip xs (csi_ip i)")
  case None
  then have "csi_ip i \<notin> fst ` (\<lambda>x. (csi_ip x, x)) ` {x \<in> set xs. csi_ip x \<noteq> self_ip}"
    by (simp add: infos_map_def map_of_eq_None_iff)
  then show ?thesis using assms(1,2) by (force simp: image_iff)
next
  case (Some j)
  then have "j \<in> set xs" "csi_ip j = csi_ip i"
    by (auto simp: infos_map_def dest!: map_of_SomeD)
  then show ?thesis using Some assms(3) by simp
qed

lemma infos_map_None:
  assumes "\<And>j. j \<in> set xs \<Longrightarrow> csi_ip j \<noteq> ip"
  shows "infos_map self_ip xs ip = None"
proof (rule ccontr)
  assume "infos_map self_ip xs ip \<noteq> None"
  then obtain j where "infos_map self_ip xs ip = Some j" by blast
  then have "j \<in> set xs" "csi_ip j = ip"
    by (auto simp: infos_map_def dest!: map_of_SomeD)
  then show False using assms by blast
qed

section \<open>Properties\<close>

text \<open>Choosing a server for a destination: the answer is a connected server that reports the address
  online, its round-trip time is minimal among all such servers (an unknown time counting as the
  largest), and there is no answer only if there is no such server.\<close>

theorem find_ip_to_server_best:
  "case find_ip_to_server ids ip c of
     Some sid \<Rightarrow> (\<exists>n client. sid \<in> set ids \<and> server_node_map c sid = Some n \<and> sn_connected n \<and>
         sn_client_map n ip = Some client \<and> csi_online client \<and>
         (\<forall>sid' \<in> set ids. \<forall>n' client'. server_node_map c sid' = Some n' \<longrightarrow> sn_connected n' \<longrightarrow>
            sn_client_map n' ip = Some client' \<longrightarrow> csi_online client' \<longrightarrow> rtt_or_max n \<le> rtt_or_max n'))
   | None \<Rightarrow> \<forall>sid \<in> set ids. \<forall>n client. server_node_map c sid = Some n \<longrightarrow> sn_connected n \<longrightarrow>
       sn_client_map n ip = Some client \<longrightarrow> \<not> csi_online client"
proof -
  define xs where "xs = List.map_filter (\<lambda>sid. case server_node_map c sid of
         None \<Rightarrow> None
       | Some n \<Rightarrow>
           if \<not> sn_connected n then None
           else (case sn_client_map n ip of
                   None \<Rightarrow> None
                 | Some client \<Rightarrow> if \<not> csi_online client then None else Some (sid, rtt_or_max n))) ids"
  have xs: "(sid, r) \<in> set xs \<longleftrightarrow> sid \<in> set ids \<and> (\<exists>n client. server_node_map c sid = Some n \<and> sn_connected n \<and>
      sn_client_map n ip = Some client \<and> csi_online client \<and> r = rtt_or_max n)" for sid r
    by (auto simp: xs_def map_filter_def split: option.splits if_splits) force+
  have f: "find_ip_to_server ids ip c = map_option fst (min_by_key xs)"
    by (simp add: find_ip_to_server_def xs_def)
  show ?thesis
  proof (cases "min_by_key xs")
    case None
    then have "xs = []" by (simp add: min_by_key_None)
    then have "\<not> (\<exists>r. (sid, r) \<in> set xs)" for sid by simp
    then show ?thesis using f None unfolding xs by auto
  next
    case (Some y)
    obtain sid r where y: "y = (sid, r)" by (cases y)
    have m: "(sid, r) \<in> set xs" "\<forall>x \<in> set xs. r \<le> snd x" using min_by_key_Some [OF Some] y by auto
    then have "r \<le> rtt_or_max n'" if "sid' \<in> set ids" "server_node_map c sid' = Some n'" "sn_connected n'"
        "sn_client_map n' ip = Some client'" "csi_online client'" for sid' n' client'
    proof -
      have "(sid', rtt_or_max n') \<in> set xs" using that unfolding xs by blast
      then show ?thesis using m(2) by fastforce
    qed
    then show ?thesis using f Some y m(1) unfolding xs by auto
  qed
qed

definition demo_servers :: ServerInfoCollection where
  "demo_servers = \<lparr>client_simple_list = [], server_node_map =
     [1 \<mapsto> ServerNodeInfo_default\<lparr>sn_connected := True, sn_rtt := Some 40, sn_client_map := [9 \<mapsto> \<lparr>csi_ip = 9, csi_online = True\<rparr>]\<rparr>,
      2 \<mapsto> ServerNodeInfo_default\<lparr>sn_connected := True, sn_rtt := Some 7, sn_client_map := [9 \<mapsto> \<lparr>csi_ip = 9, csi_online = False\<rparr>]\<rparr>]\<rparr>"

theorem find_ip_to_server_best_witness:
  "find_ip_to_server [1, 2] 9 demo_servers = Some 1 \<and>
   (\<exists>n. server_node_map demo_servers 1 = Some n \<and> sn_connected n)"
proof -
  have "find_ip_to_server [1, 2] 9 demo_servers = Some 1"
    by (simp add: find_ip_to_server_def demo_servers_def map_filter_def ServerNodeInfo_default_def)
  then show ?thesis using find_ip_to_server_best [where ids = "[1, 2]" and ip = 9 and c = demo_servers] by auto
qed

end
