(* ===== verification/ClientSync.thy ===== *)
theory ClientSync
  imports RegistryProps ServerInfo
begin

text \<open>
  The feed of client status from server to client: \<open>changed_client_simple_list\<close>
  (\<open>vnts/src/server/network_state_provider.rs\<close>) answers a client's version with the entries that changed
  since, and \<open>update_client_simple_list\<close> (\<open>vnt/vnt-core/src/context/mod.rs\<close>) merges the answer. Shown: a
  client in sync stays in sync over any run of the network, and which addresses an incremental answer
  does not retract.
\<close>

section \<open>Versions\<close>

text \<open>Every entry of \<open>s\<close> changed after version \<open>v0\<close>, or tells clients what it told in \<open>s0\<close>.\<close>

definition tracked :: "NetworkStateInner \<Rightarrow> u64 \<Rightarrow> NetworkStateInner \<Rightarrow> bool" where
  "tracked s0 v0 s \<longleftrightarrow> v0 \<le> data_version s \<and>
     (\<forall>k e. device_map s k = Some e \<longrightarrow>
        v0 < de_data_version e \<and> de_data_version e \<le> data_version s \<or>
        (\<exists>e0. device_map s0 k = Some e0 \<and> de_ip e0 = de_ip e \<and> de_is_connected e0 = de_is_connected e))"

lemma trackedI:
  assumes "v0 \<le> data_version s"
    and "\<And>k e. device_map s k = Some e \<Longrightarrow>
        v0 < de_data_version e \<and> de_data_version e \<le> data_version s \<or>
        (\<exists>e0. device_map s0 k = Some e0 \<and> de_ip e0 = de_ip e \<and> de_is_connected e0 = de_is_connected e)"
  shows "tracked s0 v0 s"
  using assms by (simp add: tracked_def)

text \<open>A step that bumps the version: entries are old ones, or carry the new version.\<close>

lemma tracked_bump:
  assumes "tracked s0 v0 s" "unat (data_version s) + 1 < 2 ^ 64" "data_version s' = data_version s + 1"
    and "\<And>k e. device_map s' k = Some e \<Longrightarrow> device_map s k = Some e \<or> de_data_version e = data_version s'"
  shows "tracked s0 v0 s'"
proof -
  have u: "unat (data_version s + 1) = unat (data_version s) + 1"
    using assms(2) by (simp add: unat_word_ariths)
  have lt: "data_version s < data_version s'" using assms(3) u by (simp add: word_less_nat_alt)
  have v: "v0 \<le> data_version s" using assms(1) by (simp add: tracked_def)
  show ?thesis
  proof (rule trackedI)
    show "v0 \<le> data_version s'" using v lt by simp
    fix k e
    assume "device_map s' k = Some e"
    with assms(4) have "device_map s k = Some e \<or> de_data_version e = data_version s'" .
    then show "v0 < de_data_version e \<and> de_data_version e \<le> data_version s' \<or>
        (\<exists>e0. device_map s0 k = Some e0 \<and> de_ip e0 = de_ip e \<and> de_is_connected e0 = de_is_connected e)"
    proof
      assume "device_map s k = Some e"
      with assms(1) have "v0 < de_data_version e \<and> de_data_version e \<le> data_version s \<or>
          (\<exists>e0. device_map s0 k = Some e0 \<and> de_ip e0 = de_ip e \<and> de_is_connected e0 = de_is_connected e)"
        by (simp add: tracked_def)
      then show ?thesis using lt by auto
    next
      assume "de_data_version e = data_version s'"
      then show ?thesis using v lt by auto
    qed
  qed
qed

lemma tracked_same:
  assumes "tracked s0 v0 s" "data_version s' = data_version s"
    and "\<And>k e. device_map s' k = Some e \<Longrightarrow> \<exists>e1. device_map s k = Some e1 \<and> de_ip e1 = de_ip e \<and>
       de_is_connected e1 = de_is_connected e \<and> de_data_version e1 = de_data_version e"
  shows "tracked s0 v0 s'"
proof (rule trackedI)
  show "v0 \<le> data_version s'" using assms(1,2) by (simp add: tracked_def)
  fix k e
  assume "device_map s' k = Some e"
  from assms(3) [OF this] obtain e1 where e1: "device_map s k = Some e1" "de_ip e1 = de_ip e"
    "de_is_connected e1 = de_is_connected e" "de_data_version e1 = de_data_version e" by blast
  with assms(1) have "v0 < de_data_version e1 \<and> de_data_version e1 \<le> data_version s \<or>
      (\<exists>e0. device_map s0 k = Some e0 \<and> de_ip e0 = de_ip e1 \<and> de_is_connected e0 = de_is_connected e1)"
    unfolding tracked_def by blast
  then show "v0 < de_data_version e \<and> de_data_version e \<le> data_version s' \<or>
      (\<exists>e0. device_map s0 k = Some e0 \<and> de_ip e0 = de_ip e \<and> de_is_connected e0 = de_is_connected e)"
    using e1 assms(2) by simp
qed

lemma remove_each_version: "data_version (remove_each ks s) = data_version s"
  by (induction ks arbitrary: s) (simp_all add: forget_device_def split: option.split)

lemma step_version:
  assumes "ns_inv st"
  shows "(data_version (lease_state (ns_step ev st)) = data_version (lease_state st) + 1 \<and>
     (\<forall>k e. device_map (lease_state (ns_step ev st)) k = Some e \<longrightarrow>
        device_map (lease_state st) k = Some e \<or> de_data_version e = data_version (lease_state (ns_step ev st)))) \<or>
    (data_version (lease_state (ns_step ev st)) = data_version (lease_state st) \<and>
     (\<forall>k e. device_map (lease_state (ns_step ev st)) k = Some e \<longrightarrow>
        (\<exists>e1. device_map (lease_state st) k = Some e1 \<and> de_ip e1 = de_ip e \<and>
           de_is_connected e1 = de_is_connected e \<and> de_data_version e1 = de_data_version e)))"
proof (cases ev)
  case (Register now r rid sender)
  show ?thesis
  proof (cases "allocate_ip_and_get_entry now r rid sender st")
    case (Inl err)
    then show ?thesis using Register by simp
  next
    case (Inr x)
    obtain st' ip old entry where x: "x = (st', ip, old, entry)" by (cases x)
    have a: "allocate_ip_and_get_entry now r rid sender st = Inr (st', ip, old, entry)" using Inr x by simp
    from register_grants [OF assms a] obtain e where
      "device_map (lease_state st') = (device_map (lease_state st))(rq_device_id r \<mapsto> e)"
      "data_version (lease_state st') = data_version (lease_state st) + 1"
      "de_data_version e = data_version (lease_state st')" by blast
    moreover have "ns_step ev st = st'" using Register a by simp
    ultimately show ?thesis by (intro disjI1) simp
  qed
next
  case (Expire order now)
  then show ?thesis
    by (auto simp: ns_remove_devices_def remove_devices_def remove_each_map remove_each_version split: if_splits)
qed (auto simp: offline_ip_def offline_inner_def release_pre_registered_ip_def release_locked_def
    remove_device_from_memory_def update_client_latency_def record_tx_traffic_def record_rx_traffic_def
    update_time_def drop_ip_def Let_def split: option.splits if_splits)

lemma ns_run_tracked:
  assumes "ns_inv st" "tracked s0 v0 (lease_state st)" "unat (data_version (lease_state st)) + length evs < 2 ^ 64"
  shows "tracked s0 v0 (lease_state (ns_run evs st))"
  using assms unfolding ns_run_def
proof (induction evs arbitrary: st)
  case (Cons ev evs)
  let ?st = "ns_step ev st"
  have lt: "unat (data_version (lease_state st)) + 1 < 2 ^ 64" using Cons.prems(3) by simp
  then have u: "unat (data_version (lease_state st) + 1) = unat (data_version (lease_state st)) + 1"
    by (simp add: unat_word_ariths)
  have t: "tracked s0 v0 (lease_state ?st)"
    using step_version [OF Cons.prems(1), of ev] tracked_bump [OF Cons.prems(2) lt] tracked_same [OF Cons.prems(2)]
    by blast
  have "unat (data_version (lease_state ?st)) + length evs < 2 ^ 64"
    using step_version [OF Cons.prems(1), of ev] Cons.prems(3) u by auto
  from Cons.IH [OF ns_step_inv [OF Cons.prems(1)] t this] show ?case by simp
qed simp

section \<open>A client in sync\<close>

definition in_sync :: "NetworkStateInner \<Rightarrow> ipv4 \<Rightarrow> ServerNodeInfo \<Rightarrow> bool" where
  "in_sync s self_ip n \<longleftrightarrow> sn_data_version n = data_version s \<and>
     (\<forall>k e ip. device_map s k = Some e \<longrightarrow> de_ip e = Some ip \<longrightarrow> ip \<noteq> self_ip \<longrightarrow>
        map_option csi_online (sn_client_map n ip) = Some (de_is_connected e))"

text \<open>One poll: the server answers the version the client has, the client merges an answer.\<close>

definition poll :: "string list \<Rightarrow> u32 list \<Rightarrow> ipv4 list \<Rightarrow> u32 \<Rightarrow> ipv4 \<Rightarrow> i64 \<Rightarrow> NetworkState
    \<Rightarrow> ServerInfoCollection \<Rightarrow> ServerInfoCollection" where
  "poll order sids ips server_id self_ip now st c =
     (case changed_client_simple_list order self_ip (sic_data_version server_id c) st of
        None \<Rightarrow> c
      | Some l \<Rightarrow> update_client_simple_list sids ips server_id self_ip l now c)"

lemma simple_infos_iff:
  assumes "dom (device_map s) \<subseteq> set order"
  shows "i \<in> set (simple_infos order p s) \<longleftrightarrow>
    (\<exists>k e. device_map s k = Some e \<and> p e \<and> i = \<lparr>csi_ip = the (de_ip e), csi_online = de_is_connected e\<rparr>)"
proof
  assume "i \<in> set (simple_infos order p s)"
  then obtain k e where "device_map s k = Some e" "p e" "i = \<lparr>csi_ip = the (de_ip e), csi_online = de_is_connected e\<rparr>"
    unfolding simple_infos_def by auto
  then show "\<exists>k e. device_map s k = Some e \<and> p e \<and> i = \<lparr>csi_ip = the (de_ip e), csi_online = de_is_connected e\<rparr>"
    by blast
next
  assume "\<exists>k e. device_map s k = Some e \<and> p e \<and> i = \<lparr>csi_ip = the (de_ip e), csi_online = de_is_connected e\<rparr>"
  then obtain k e where k: "device_map s k = Some e" "p e"
    "i = \<lparr>csi_ip = the (de_ip e), csi_online = de_is_connected e\<rparr>" by blast
  then have "k \<in> set order" using assms by blast
  then have "e \<in> set (filter p (map (\<lambda>k. the (device_map s k)) (filter (\<lambda>k. device_map s k \<noteq> None) order)))"
    using k by (auto intro!: image_eqI [of _ _ k])
  then show "i \<in> set (simple_infos order p s)" unfolding simple_infos_def k(3)
    by (subst set_map) (rule imageI)
qed

lemma update_list_node:
  assumes "server_node_map c sid = Some n"
  shows "\<exists>n'. server_node_map (update_client_simple_list sids ips sid self_ip l now c) sid = Some n' \<and>
    sn_data_version n' = csl_data_version l \<and>
    sn_client_map n' = (if csl_is_all l then infos_map self_ip (csl_list l)
                        else sn_client_map n ++ infos_map self_ip (csl_list l))"
proof -
  have n: "node_or_default c sid = n" using assms by (simp add: node_or_default_def)
  define n1 where "n1 = (if sint now > sint (csl_time l) then n\<lparr>sn_rtt := Some (ucast (now - csl_time l))\<rparr> else n)"
  have n1: "sn_client_map n1 = sn_client_map n" by (simp add: n1_def)
  define n2 where "n2 = n1\<lparr>sn_data_version := csl_data_version l,
    sn_client_map := (if csl_is_all l then infos_map self_ip (csl_list l)
                      else sn_client_map n ++ infos_map self_ip (csl_list l))\<rparr>"
  show ?thesis
    unfolding update_client_simple_list_def Let_def n n1_def [symmetric] n1 n2_def [symmetric]
    by (intro exI [of _ n2]) (simp add: n2_def)
qed

lemma poll_node:
  assumes "server_node_map c sid = Some n"
  shows "\<exists>n'. server_node_map (poll order sids ips sid self_ip now st c) sid = Some n' \<and>
    (case changed_client_simple_list order self_ip (sn_data_version n) st of
       None \<Rightarrow> n' = n
     | Some l \<Rightarrow> sn_data_version n' = csl_data_version l \<and>
         sn_client_map n' = (if csl_is_all l then infos_map self_ip (csl_list l)
                             else sn_client_map n ++ infos_map self_ip (csl_list l)))"
proof -
  have v: "sic_data_version sid c = sn_data_version n" using assms by (simp add: sic_data_version_def)
  show ?thesis
  proof (cases "changed_client_simple_list order self_ip (sn_data_version n) st")
    case None
    then show ?thesis using assms by (simp add: poll_def v)
  next
    case (Some l)
    then have "poll order sids ips sid self_ip now st c = update_client_simple_list sids ips sid self_ip l now c"
      by (simp add: poll_def v)
    then show ?thesis using Some update_list_node [OF assms, of sids ips self_ip l now] by simp
  qed
qed

lemma tracked_self: "tracked s (data_version s) s"
  by (rule trackedI) auto

text \<open>C15 Client synchronisation: take a client whose view of a server is in sync with the server's table
  (every other device's address is known with its online status), let any sequence of registry
  operations run (fewer than \<open>2^64\<close> version steps), and let the client poll with its version: it is in
  sync with the server's new table. So a client that polls is in sync after every poll, with only the
  changed entries being sent.\<close>

theorem client_stays_in_sync:
  assumes "ns_inv st0" "server_node_map c sid = Some n" "in_sync (lease_state st0) self_ip n"
    and "unat (data_version (lease_state st0)) + length evs < 2 ^ 64"
    and "st1 = ns_run evs st0" "dom (device_map (lease_state st1)) \<subseteq> set order"
  shows "\<exists>n'. server_node_map (poll order sids ips sid self_ip now st1 c) sid = Some n' \<and>
    in_sync (lease_state st1) self_ip n'"
proof -
  let ?s0 = "lease_state st0" and ?s1 = "lease_state st1"
  let ?v0 = "data_version ?s0"
  have inv: "ns_inv st1" unfolding assms(5) by (rule ns_run_inv [OF assms(1)])
  note li = ns_invD(2) [OF inv]
  have tr: "tracked ?s0 ?v0 ?s1"
    unfolding assms(5) by (rule ns_run_tracked [OF assms(1) tracked_self assms(4)])
  have v0: "sn_data_version n = ?v0" and view: "\<And>k e ip. device_map ?s0 k = Some e \<Longrightarrow> de_ip e = Some ip \<Longrightarrow>
      ip \<noteq> self_ip \<Longrightarrow> map_option csi_online (sn_client_map n ip) = Some (de_is_connected e)"
    using assms(3) by (auto simp: in_sync_def)
  obtain n' where n': "server_node_map (poll order sids ips sid self_ip now st1 c) sid = Some n'"
    and c: "case changed_client_simple_list order self_ip ?v0 st1 of
       None \<Rightarrow> n' = n
     | Some l \<Rightarrow> sn_data_version n' = csl_data_version l \<and>
         sn_client_map n' = (if csl_is_all l then infos_map self_ip (csl_list l)
                             else sn_client_map n ++ infos_map self_ip (csl_list l))"
    using poll_node [OF assms(2), of order sids ips self_ip now st1] v0 by auto
  have old: "\<exists>e0. device_map ?s0 k = Some e0 \<and> de_ip e0 = de_ip e \<and> de_is_connected e0 = de_is_connected e"
    if "device_map ?s1 k = Some e" "\<not> ?v0 < de_data_version e" for k e
    using tr that by (auto simp: tracked_def)
  have "in_sync ?s1 self_ip n'"
  proof (cases "?v0 = data_version ?s1")
    case True
    then have nn: "n' = n" using c by (simp add: changed_client_simple_list_def)
    have "map_option csi_online (sn_client_map n ip) = Some (de_is_connected e)"
      if e: "device_map ?s1 k = Some e" "de_ip e = Some ip" "ip \<noteq> self_ip" for k e ip
    proof -
      have "\<not> ?v0 < de_data_version e \<or> \<not> de_data_version e \<le> data_version ?s1" using True by auto
      then obtain e0 where "device_map ?s0 k = Some e0" "de_ip e0 = de_ip e" "de_is_connected e0 = de_is_connected e"
        using tr e(1) unfolding tracked_def by blast
      then show ?thesis using view [of k e0 ip] e by simp
    qed
    then show ?thesis using nn v0 True by (simp add: in_sync_def)
  next
    case False
    then have lt: "\<not> ?v0 > data_version ?s1" using tr by (simp add: tracked_def not_less)
    let ?p = "\<lambda>e. de_data_version e > ?v0 \<and> de_ip e \<noteq> None \<and> de_ip e \<noteq> Some self_ip"
    let ?l = "simple_infos order ?p ?s1"
    have nv: "sn_data_version n' = data_version ?s1" and nm: "sn_client_map n' = sn_client_map n ++ infos_map self_ip ?l"
      using c False lt by (auto simp: changed_client_simple_list_def Let_def)
    have l: "i \<in> set ?l \<longleftrightarrow> (\<exists>k e. device_map ?s1 k = Some e \<and> ?p e \<and>
        i = \<lparr>csi_ip = the (de_ip e), csi_online = de_is_connected e\<rparr>)" for i
      by (rule simple_infos_iff [OF assms(6)])
    have "map_option csi_online (sn_client_map n' ip) = Some (de_is_connected e)"
      if e: "device_map ?s1 k = Some e" "de_ip e = Some ip" "ip \<noteq> self_ip" for k e ip
    proof -
      have same: "e' = e" if "device_map ?s1 k' = Some e'" "?p e'" "the (de_ip e') = ip" for k' e'
      proof -
        have "de_ip e' = Some ip" using that by auto
        then show ?thesis using holder_unique(2) [OF li that(1) _ e(1,2)] by simp
      qed
      show ?thesis
      proof (cases "?v0 < de_data_version e")
        case True
        let ?i = "\<lparr>csi_ip = ip, csi_online = de_is_connected e\<rparr>"
        have "infos_map self_ip ?l (csi_ip ?i) = Some ?i"
        proof (rule infos_map_unique)
          show "?i \<in> set ?l" unfolding l using e True by (intro exI [of _ k] exI [of _ e]) simp
          show "j = ?i" if j: "j \<in> set ?l" "csi_ip j = csi_ip ?i" for j
          proof -
            obtain k' e' where k': "device_map ?s1 k' = Some e'" "?p e'"
              "j = \<lparr>csi_ip = the (de_ip e'), csi_online = de_is_connected e'\<rparr>"
              using j(1) unfolding l by blast
            then show ?thesis using same [OF k'(1,2)] j(2) e(2) by simp
          qed
        qed (use e(3) in simp)
        then show ?thesis unfolding nm by (simp add: map_add_def)
      next
        case False
        have "infos_map self_ip ?l ip = None"
        proof (rule infos_map_None)
          show "csi_ip j \<noteq> ip" if "j \<in> set ?l" for j
          proof
            assume jip: "csi_ip j = ip"
            obtain k' e' where k': "device_map ?s1 k' = Some e'" "?p e'"
              "j = \<lparr>csi_ip = the (de_ip e'), csi_online = de_is_connected e'\<rparr>"
              using \<open>j \<in> set ?l\<close> unfolding l by blast
            then have "e' = e" using same [OF k'(1,2)] jip by simp
            then show False using k'(2) False by simp
          qed
        qed
        moreover obtain e0 where "device_map ?s0 k = Some e0" "de_ip e0 = de_ip e" "de_is_connected e0 = de_is_connected e"
          using old [OF e(1) False] by blast
        ultimately show ?thesis unfolding nm using view [of k e0 ip] e by (simp add: map_add_def)
      qed
    qed
    then show ?thesis using nv by (simp add: in_sync_def)
  qed
  then show ?thesis using n' by blast
qed

definition demo_client :: ServerInfoCollection where
  "demo_client = \<lparr>client_simple_list = [], server_node_map = [1 \<mapsto> ServerNodeInfo_default]\<rparr>"

theorem client_stays_in_sync_witness:
  "let st1 = ns_run [Register 5 (demo_request ''a'' (Some 0x0A1A0007) False) 77 3] demo_start in
   \<exists>n'. server_node_map (poll [''a''] [1] [0x0A1A0007] 1 0x0A1A0008 0 st1 demo_client) 1 = Some n' \<and>
     in_sync (lease_state st1) 0x0A1A0008 n'"
proof -
  let ?evs = "[Register 5 (demo_request ''a'' (Some 0x0A1A0007) False) 77 3]"
  have d: "dom (device_map (lease_state (ns_run ?evs demo_start))) \<subseteq> set [''a'']"
    by (auto simp: ns_run_def allocate_ip_and_get_entry_def allocate_ip_def place_def check_requested_def Let_def
      demo_start_def new_from_db_def demo_request_def demo_net_def add_device_def
      new_entry_def split: if_splits)
  have s: "in_sync (lease_state demo_start) 0x0A1A0008 ServerNodeInfo_default"
    "server_node_map demo_client 1 = Some ServerNodeInfo_default"
    "unat (data_version (lease_state demo_start)) + length ?evs < 2 ^ 64"
    by (simp_all add: in_sync_def demo_start_def new_from_db_def ServerNodeInfo_default_def demo_client_def)
  show ?thesis
    unfolding Let_def by (rule client_stays_in_sync [OF demo_start_inv s(2,1,3) refl d])
qed

text \<open>Nothing is retracted incrementally: when a client asks with an older version, an address of its
  view that no device of the server holds any more (the device expired, was deleted or moved to another
  address) is not in the answer, so the client keeps its last status for good; only a client that is
  ahead of the server, as after a server restart, gets a full list.\<close>

theorem removed_address_not_retracted:
  assumes "server_node_map c sid = Some n" "sn_data_version n < data_version (lease_state st)"
    and "\<And>k e. device_map (lease_state st) k = Some e \<Longrightarrow> de_ip e \<noteq> Some ip"
    and "dom (device_map (lease_state st)) \<subseteq> set order"
  shows "\<exists>n'. server_node_map (poll order sids ips sid self_ip now st c) sid = Some n' \<and>
    sn_client_map n' ip = sn_client_map n ip \<and> sn_data_version n' = data_version (lease_state st)"
proof -
  let ?p = "\<lambda>e. de_data_version e > sn_data_version n \<and> de_ip e \<noteq> None \<and> de_ip e \<noteq> Some self_ip"
  let ?l = "simple_infos order ?p (lease_state st)"
  have "changed_client_simple_list order self_ip (sn_data_version n) st =
      Some \<lparr>csl_data_version = data_version (lease_state st), csl_list = ?l, csl_is_all = False, csl_time = 0\<rparr>"
    using assms(2) by (auto simp: changed_client_simple_list_def Let_def)
  then obtain n' where n': "server_node_map (poll order sids ips sid self_ip now st c) sid = Some n'"
    "sn_data_version n' = data_version (lease_state st)"
    "sn_client_map n' = sn_client_map n ++ infos_map self_ip ?l"
    using poll_node [OF assms(1), of order sids ips self_ip now st] by auto
  have "infos_map self_ip ?l ip = None"
  proof (rule infos_map_None)
    fix j assume "j \<in> set ?l"
    then obtain k e where e: "device_map (lease_state st) k = Some e" "?p e"
      "j = \<lparr>csi_ip = the (de_ip e), csi_online = de_is_connected e\<rparr>"
      unfolding simple_infos_iff [OF assms(4)] by blast
    then show "csi_ip j \<noteq> ip" using assms(3) [OF e(1)] by auto
  qed
  then show ?thesis using n' by (simp add: map_add_def)
qed

theorem removed_address_not_retracted_witness:
  "let n = ServerNodeInfo_default\<lparr>sn_data_version := 2, sn_client_map := [7 \<mapsto> \<lparr>csi_ip = 7, csi_online = True\<rparr>]\<rparr>;
       st = demo_start\<lparr>lease_state := (lease_state demo_start)\<lparr>data_version := 3\<rparr>\<rparr>
   in \<exists>n'. server_node_map (poll [] [1] [7] 1 5 0 st
        \<lparr>client_simple_list = [], server_node_map = [1 \<mapsto> n]\<rparr>) 1 = Some n' \<and>
      sn_client_map n' 7 = Some \<lparr>csi_ip = 7, csi_online = True\<rparr>"
proof -
  let ?n = "ServerNodeInfo_default\<lparr>sn_data_version := 2, sn_client_map := [7 \<mapsto> \<lparr>csi_ip = 7, csi_online = True\<rparr>]\<rparr>"
  let ?st = "demo_start\<lparr>lease_state := (lease_state demo_start)\<lparr>data_version := 3\<rparr>\<rparr>"
  have "\<exists>n'. server_node_map (poll [] [1] [7] 1 5 0 ?st
        \<lparr>client_simple_list = [], server_node_map = [1 \<mapsto> ?n]\<rparr>) 1 = Some n' \<and>
      sn_client_map n' 7 = sn_client_map ?n 7 \<and> sn_data_version n' = data_version (lease_state ?st)"
    by (rule removed_address_not_retracted) (simp_all add: demo_start_def new_from_db_def)
  then show ?thesis unfolding Let_def by simp blast
qed

end
