(* ===== verification/Database.thy ===== *)
theory Database
  imports NetworkState
begin

text \<open>
  The persistent store of the server, \<open>vnts/src/server/control_server/db.rs\<close>: the tables \<open>networks\<close>,
  \<open>devices\<close> and \<open>peer_servers\<close> and every statement that is run on them.

  A table is the list of its rows in insertion order; the statements have the meaning SQL gives them
  (\<open>INSERT OR REPLACE\<close> deletes the conflicting row first, \<open>ON CONFLICT DO UPDATE\<close> changes it in place).
  The pool is \<open>None\<close> before \<open>init_db_pool\<close>. The argument \<open>io\<close> tells whether the database executes the
  statement; when it does not, the statement has no effect. Surrogate keys are left out.
\<close>

section \<open>Rows\<close>

datatype NetworkSource = SourceConfig | SourceManual | SourceDeviceRegister

fun NetworkSource_as_i32 :: "NetworkSource \<Rightarrow> u32" where
  "NetworkSource_as_i32 SourceConfig = 0"
| "NetworkSource_as_i32 SourceManual = 1"
| "NetworkSource_as_i32 SourceDeviceRegister = 2"

definition NetworkSource_from_i32 :: "u32 \<Rightarrow> NetworkSource" where
  "NetworkSource_from_i32 value =
     (if value = 0 then SourceConfig else if value = 1 then SourceManual
      else if value = 2 then SourceDeviceRegister else SourceConfig)"

datatype PeerServerSource = PeerConfig | PeerManual

fun PeerServerSource_as_i32 :: "PeerServerSource \<Rightarrow> u32" where
  "PeerServerSource_as_i32 PeerConfig = 0"
| "PeerServerSource_as_i32 PeerManual = 1"

definition PeerServerSource_from_i32 :: "u32 \<Rightarrow> PeerServerSource" where
  "PeerServerSource_from_i32 value =
     (if value = 0 then PeerConfig else if value = 1 then PeerManual else PeerConfig)"

record NetworkRecord =
  nr_network_code :: string
  nr_gateway :: string
  nr_netmask :: u8
  nr_secret :: string
  nr_lease_duration :: i64
  nr_source :: NetworkSource
  nr_created_at :: i64

record PeerServerRecord =
  pr_server_addr :: string
  pr_source :: PeerServerSource
  pr_created_at :: i64

text \<open>Rows as stored: the numbers are those the statements bind.\<close>

record NetworkRow =
  network_code :: string
  gateway :: string
  netmask :: u32
  secret :: string
  lease_duration :: i64
  source :: u32
  created_at :: i64

record PeerRow =
  peer_addr :: string
  peer_source :: u32
  peer_created_at :: i64

record Db =
  networks :: "NetworkRow list"
  devices :: "DeviceRecord list"
  peer_servers :: "PeerRow list"

definition network_row :: "NetworkRecord \<Rightarrow> NetworkRow" where
  "network_row r = \<lparr>network_code = nr_network_code r, gateway = nr_gateway r, netmask = ucast (nr_netmask r),
     secret = nr_secret r, lease_duration = nr_lease_duration r,
     source = NetworkSource_as_i32 (nr_source r), created_at = nr_created_at r\<rparr>"

definition network_of_row :: "NetworkRow \<Rightarrow> NetworkRecord" where
  "network_of_row w = \<lparr>nr_network_code = network_code w, nr_gateway = gateway w, nr_netmask = ucast (netmask w),
     nr_secret = secret w, nr_lease_duration = lease_duration w,
     nr_source = NetworkSource_from_i32 (source w), nr_created_at = created_at w\<rparr>"

section \<open>Statements\<close>

definition with_pool :: "bool \<Rightarrow> string \<Rightarrow> 'a \<Rightarrow> (Db \<Rightarrow> 'a \<times> Db) \<Rightarrow> Db option \<Rightarrow> 'a result \<times> Db option" where
  "with_pool io context absent statement pool =
     (case pool of
        None \<Rightarrow> (Inr absent, None)
      | Some d \<Rightarrow>
          if io then (case statement d of (a, d') \<Rightarrow> (Inr a, Some d'))
          else (Inl (Bail context), Some d))"

definition db_pool_initialized :: "Db option \<Rightarrow> bool" where
  "db_pool_initialized pool = (pool \<noteq> None)"

definition save_network :: "bool \<Rightarrow> NetworkRecord \<Rightarrow> Db option \<Rightarrow> unit result \<times> Db option" where
  "save_network io r = with_pool io ''Failed to save network'' () (\<lambda>d.
     ((), d\<lparr>networks := filter (\<lambda>w. network_code w \<noteq> nr_network_code r) (networks d) @ [network_row r]\<rparr>))"

definition save_network_if_not_exists :: "bool \<Rightarrow> NetworkRecord \<Rightarrow> Db option \<Rightarrow> bool result \<times> Db option" where
  "save_network_if_not_exists io r = with_pool io ''Failed to save network'' False (\<lambda>d.
     if nr_network_code r \<in> set (map network_code (networks d)) then (False, d)
     else (True, d\<lparr>networks := networks d @ [network_row r]\<rparr>))"

definition db_update_network :: "bool \<Rightarrow> string \<Rightarrow> string \<Rightarrow> u8 \<Rightarrow> string \<Rightarrow> i64 \<Rightarrow> Db option
    \<Rightarrow> bool result \<times> Db option" where
  "db_update_network io code gw nm sec lease = with_pool io ''Failed to update network'' False (\<lambda>d.
     (code \<in> set (map network_code (networks d)),
      d\<lparr>networks := map (\<lambda>w. if network_code w = code
          then w\<lparr>gateway := gw, netmask := ucast nm, secret := sec, lease_duration := lease\<rparr> else w)
          (networks d)\<rparr>))"

definition db_delete_network :: "bool \<Rightarrow> string \<Rightarrow> Db option \<Rightarrow> bool result \<times> Db option" where
  "db_delete_network io code = with_pool io ''Failed to delete network'' False (\<lambda>d.
     (code \<in> set (map network_code (networks d)),
      d\<lparr>networks := filter (\<lambda>w. network_code w \<noteq> code) (networks d)\<rparr>))"

definition get_network :: "bool \<Rightarrow> string \<Rightarrow> Db option \<Rightarrow> NetworkRecord option result \<times> Db option" where
  "get_network io code = with_pool io ''Failed to fetch network'' None (\<lambda>d.
     (map_option network_of_row (List.find (\<lambda>w. network_code w = code) (networks d)), d))"

text \<open>\<open>ORDER BY created_at\<close>; rows of one time in insertion order.\<close>

definition load_all_networks :: "bool \<Rightarrow> Db option \<Rightarrow> NetworkRecord list result \<times> Db option" where
  "load_all_networks io = with_pool io ''Failed to load all networks'' [] (\<lambda>d.
     (map network_of_row (sort_key (\<lambda>w. sint (created_at w)) (networks d)), d))"

definition network_has_devices :: "bool \<Rightarrow> string \<Rightarrow> Db option \<Rightarrow> bool result \<times> Db option" where
  "network_has_devices io code = with_pool io ''Failed to check network devices'' False (\<lambda>d.
     (length (filter (\<lambda>r. dr_network_code r = code) (devices d)) > 0, d))"

definition same_device :: "DeviceRecord \<Rightarrow> DeviceRecord \<Rightarrow> bool" where
  "same_device r q \<longleftrightarrow> dr_device_id q = dr_device_id r \<and> dr_network_code q = dr_network_code r"

definition save_or_update_device :: "bool \<Rightarrow> DeviceRecord \<Rightarrow> Db option \<Rightarrow> unit result \<times> Db option" where
  "save_or_update_device io r = with_pool io ''Failed to save or update device'' () (\<lambda>d.
     ((), d\<lparr>devices := (if list_ex (same_device r) (devices d)
                        then map (\<lambda>q. if same_device r q then r else q) (devices d)
                        else devices d @ [r])\<rparr>))"

definition release_device_ip :: "bool \<Rightarrow> string \<Rightarrow> string \<Rightarrow> Db option \<Rightarrow> unit result \<times> Db option" where
  "release_device_ip io code device_id = with_pool io ''Failed to release device IP'' () (\<lambda>d.
     ((), d\<lparr>devices := map (\<lambda>q. if dr_network_code q = code \<and> dr_device_id q = device_id
          then q\<lparr>dr_ip := None\<rparr> else q) (devices d)\<rparr>))"

definition db_get_device :: "bool \<Rightarrow> string \<Rightarrow> string \<Rightarrow> Db option \<Rightarrow> DeviceRecord option result \<times> Db option" where
  "db_get_device io code device_id = with_pool io ''Failed to fetch device'' None (\<lambda>d.
     (List.find (\<lambda>q. dr_network_code q = code \<and> dr_device_id q = device_id) (devices d), d))"

definition load_all_devices :: "bool \<Rightarrow> string \<Rightarrow> Db option \<Rightarrow> DeviceRecord list result \<times> Db option" where
  "load_all_devices io code = with_pool io ''Failed to load all devices'' [] (\<lambda>d.
     (filter (\<lambda>q. dr_network_code q = code) (devices d), d))"

definition db_delete_device :: "bool \<Rightarrow> string \<Rightarrow> string \<Rightarrow> Db option \<Rightarrow> bool result \<times> Db option" where
  "db_delete_device io code device_id = with_pool io ''Failed to delete device'' False (\<lambda>d.
     (list_ex (\<lambda>q. dr_network_code q = code \<and> dr_device_id q = device_id) (devices d),
      d\<lparr>devices := filter (\<lambda>q. \<not> (dr_network_code q = code \<and> dr_device_id q = device_id)) (devices d)\<rparr>))"

definition delete_devices_by_network :: "bool \<Rightarrow> string \<Rightarrow> Db option \<Rightarrow> nat result \<times> Db option" where
  "delete_devices_by_network io code = with_pool io ''Failed to delete devices by network'' 0 (\<lambda>d.
     (length (filter (\<lambda>q. dr_network_code q = code) (devices d)),
      d\<lparr>devices := filter (\<lambda>q. dr_network_code q \<noteq> code) (devices d)\<rparr>))"

definition peer_row :: "PeerServerRecord \<Rightarrow> PeerRow" where
  "peer_row r = \<lparr>peer_addr = pr_server_addr r, peer_source = PeerServerSource_as_i32 (pr_source r),
     peer_created_at = pr_created_at r\<rparr>"

definition peer_of_row :: "PeerRow \<Rightarrow> PeerServerRecord" where
  "peer_of_row w = \<lparr>pr_server_addr = peer_addr w, pr_source = PeerServerSource_from_i32 (peer_source w),
     pr_created_at = peer_created_at w\<rparr>"

definition save_peer_server_if_not_exists :: "bool \<Rightarrow> PeerServerRecord \<Rightarrow> Db option \<Rightarrow> bool result \<times> Db option"
where
  "save_peer_server_if_not_exists io r = with_pool io ''Failed to save peer server'' False (\<lambda>d.
     if pr_server_addr r \<in> set (map peer_addr (peer_servers d)) then (False, d)
     else (True, d\<lparr>peer_servers := peer_servers d @ [peer_row r]\<rparr>))"

definition save_peer_server :: "bool \<Rightarrow> PeerServerRecord \<Rightarrow> Db option \<Rightarrow> unit result \<times> Db option" where
  "save_peer_server io r = with_pool io ''Failed to save peer server'' () (\<lambda>d.
     ((), d\<lparr>peer_servers := filter (\<lambda>w. peer_addr w \<noteq> pr_server_addr r) (peer_servers d) @ [peer_row r]\<rparr>))"

definition load_all_peer_servers :: "bool \<Rightarrow> Db option \<Rightarrow> PeerServerRecord list result \<times> Db option" where
  "load_all_peer_servers io = with_pool io ''Failed to load all peer servers'' [] (\<lambda>d.
     (map peer_of_row (sort_key (\<lambda>w. sint (peer_created_at w)) (peer_servers d)), d))"

definition delete_peer_server :: "bool \<Rightarrow> string \<Rightarrow> Db option \<Rightarrow> bool result \<times> Db option" where
  "delete_peer_server io addr = with_pool io ''Failed to delete peer server'' False (\<lambda>d.
     (addr \<in> set (map peer_addr (peer_servers d)),
      d\<lparr>peer_servers := filter (\<lambda>w. peer_addr w \<noteq> addr) (peer_servers d)\<rparr>))"

section \<open>Tables as maps\<close>

definition stored_network :: "Db \<Rightarrow> string \<rightharpoonup> NetworkRecord" where
  "stored_network d code = map_option network_of_row (List.find (\<lambda>w. network_code w = code) (networks d))"

definition stored_device :: "Db \<Rightarrow> string \<Rightarrow> string \<rightharpoonup> DeviceRecord" where
  "stored_device d code k = List.find (\<lambda>q. dr_network_code q = code \<and> dr_device_id q = k) (devices d)"

text \<open>The constraints \<open>PRIMARY KEY\<close> and \<open>UNIQUE\<close>.\<close>

definition db_ok :: "Db \<Rightarrow> bool" where
  "db_ok d \<longleftrightarrow> distinct (map network_code (networks d)) \<and>
     distinct (map (\<lambda>q. (dr_device_id q, dr_network_code q)) (devices d)) \<and>
     distinct (map peer_addr (peer_servers d))"

named_theorems db_simps \<open>what a statement does to the tables seen as maps\<close>

lemma u8_through_i32 [simp]: "ucast (ucast (m :: u8) :: u32) = m"
  by transfer (simp add: take_bit_take_bit)

lemma network_row_roundtrip [simp]: "network_of_row (network_row r) = r"
proof -
  have "NetworkSource_from_i32 (NetworkSource_as_i32 x) = x" for x
    by (cases x) (simp_all add: NetworkSource_from_i32_def)
  then show ?thesis by (simp add: network_of_row_def network_row_def)
qed

lemma peer_row_roundtrip [simp]: "peer_of_row (peer_row r) = r"
proof -
  have "PeerServerSource_from_i32 (PeerServerSource_as_i32 x) = x" for x
    by (cases x) (simp_all add: PeerServerSource_from_i32_def)
  then show ?thesis by (simp add: peer_of_row_def peer_row_def)
qed

lemma network_row_code [simp]: "network_code (network_row r) = nr_network_code r"
  by (simp add: network_row_def)

lemma peer_row_addr [simp]: "peer_addr (peer_row r) = pr_server_addr r"
  by (simp add: peer_row_def)

text \<open>\<open>find\<close> after the list operations of the statements.\<close>

lemma find_append: "List.find P (xs @ ys) = (case List.find P xs of None \<Rightarrow> List.find P ys | Some x \<Rightarrow> Some x)"
  by (induction xs) auto

lemma find_drop_key:
  "List.find (\<lambda>w. f w = x) (filter (\<lambda>w. f w \<noteq> k) xs) = (if x = k then None else List.find (\<lambda>w. f w = x) xs)"
  by (induction xs) auto

lemma find_map_key:
  assumes "\<And>w. f (g w) = f w"
  shows "List.find (\<lambda>w. f w = x) (map g xs) = map_option g (List.find (\<lambda>w. f w = x) xs)"
  by (induction xs) (auto simp: assms)

lemma find_update_key:
  assumes "\<And>w. f (g w) = f w"
  shows "List.find (\<lambda>w. f w = x) (map (\<lambda>w. if f w = k then g w else w) xs) =
    (if x = k then map_option g (List.find (\<lambda>w. f w = k) xs) else List.find (\<lambda>w. f w = x) xs)"
  by (induction xs) (auto simp: assms)

lemma find_Some_set: "List.find P xs = Some x \<Longrightarrow> x \<in> set xs \<and> P x"
  by (induction xs) (auto split: if_splits)

lemma find_None: "List.find P xs = None \<longleftrightarrow> (\<forall>x \<in> set xs. \<not> P x)"
  by (induction xs) auto

lemma find_key_None: "List.find (\<lambda>w. f w = x) xs = None \<longleftrightarrow> x \<notin> f ` set xs"
  by (induction xs) auto

lemma find_key_Some:
  "distinct (map f xs) \<Longrightarrow> List.find (\<lambda>w. f w = x) xs = Some w \<longleftrightarrow> w \<in> set xs \<and> f w = x"
  by (induction xs) (auto simp: image_iff)

section \<open>The table of networks\<close>

lemma with_pool_Some [simp]:
  "with_pool True context absent statement (Some d) = (Inr (fst (statement d)), Some (snd (statement d)))"
  "with_pool False context absent statement (Some d) = (Inl (Bail context), Some d)"
  by (simp_all add: with_pool_def split: prod.splits)

lemma with_pool_None [simp]: "with_pool io context absent statement None = (Inr absent, None)"
  by (simp add: with_pool_def)

definition put_network :: "NetworkRecord \<Rightarrow> Db \<Rightarrow> Db" where
  "put_network r d =
     d\<lparr>networks := filter (\<lambda>w. network_code w \<noteq> nr_network_code r) (networks d) @ [network_row r]\<rparr>"

lemma save_network_stored [db_simps]:
  "stored_network (put_network r d) = (stored_network d)(nr_network_code r \<mapsto> r)"
  by (auto simp: put_network_def stored_network_def find_append find_drop_key fun_eq_iff
      split: option.splits)

lemma append_network_stored [db_simps]:
  "stored_network d (nr_network_code r) = None \<Longrightarrow>
   stored_network (d\<lparr>networks := networks d @ [network_row r]\<rparr>) = (stored_network d)(nr_network_code r \<mapsto> r)"
  by (auto simp: stored_network_def find_append fun_eq_iff split: option.splits)

lemma update_network_stored [db_simps]:
  "stored_network (d\<lparr>networks := map (\<lambda>w. if network_code w = code
      then w\<lparr>gateway := gw, netmask := ucast (nm :: u8), secret := sec, lease_duration := lease\<rparr> else w) (networks d)\<rparr>) =
   (case stored_network d code of None \<Rightarrow> stored_network d
    | Some r \<Rightarrow> (stored_network d)(code \<mapsto>
        r\<lparr>nr_gateway := gw, nr_netmask := nm, nr_secret := sec, nr_lease_duration := lease\<rparr>))"
  by (auto simp: stored_network_def find_update_key fun_eq_iff network_of_row_def u8_through_i32 option.map_comp
      split: option.splits)

lemma delete_network_stored [db_simps]:
  "stored_network (d\<lparr>networks := filter (\<lambda>w. network_code w \<noteq> code) (networks d)\<rparr>) = (stored_network d)(code := None)"
  by (auto simp: stored_network_def find_drop_key fun_eq_iff)

lemma stored_network_None: "stored_network d code = None \<longleftrightarrow> code \<notin> network_code ` set (networks d)"
  by (simp add: stored_network_def find_key_None)

lemma stored_network_set:
  "db_ok d \<Longrightarrow> r \<in> network_of_row ` set (networks d) \<longleftrightarrow> stored_network d (nr_network_code r) = Some r"
  by (auto simp: stored_network_def db_ok_def find_key_Some image_iff network_of_row_def)

lemma stored_network_code: "stored_network d code = Some r \<Longrightarrow> nr_network_code r = code"
  by (auto simp: stored_network_def network_of_row_def dest: find_Some_set)

lemma distinct_drop_add:
  "distinct (map f xs) \<Longrightarrow> f y = k \<Longrightarrow> distinct (map f (filter (\<lambda>x. f x \<noteq> k) xs @ [y]))"
  by (auto simp: distinct_map_filter)

lemma distinct_map_drop: "distinct (map f xs) \<Longrightarrow> distinct (map f (filter P xs))"
  by (rule distinct_map_filter)

lemma distinct_map_same: "(\<And>x. f (g x) = f x) \<Longrightarrow> distinct (map f (map g xs)) = distinct (map f xs)"
  by (simp add: comp_def)

lemma loaded_networks:
  assumes "db_ok d"
  shows "\<exists>rs. load_all_networks True (Some d) = (Inr rs, Some d) \<and> distinct (map nr_network_code rs) \<and>
    sorted (map (\<lambda>r. sint (nr_created_at r)) rs) \<and> map_of (map (\<lambda>r. (nr_network_code r, r)) rs) = stored_network d"
proof -
  let ?ws = "sort_key (\<lambda>w. sint (created_at w)) (networks d)" and ?rs = "map network_of_row
      (sort_key (\<lambda>w. sint (created_at w)) (networks d))"
  have code: "nr_network_code (network_of_row w) = network_code w"
    "nr_created_at (network_of_row w) = created_at w" for w by (simp_all add: network_of_row_def)
  have d: "distinct (map network_code ?ws)"
  proof -
    have "distinct (networks d)" "inj_on network_code (set (networks d))"
      using assms by (simp_all add: db_ok_def distinct_map)
    then show ?thesis by (simp add: distinct_map)
  qed
  have "map_of (map (\<lambda>r. (nr_network_code r, r)) ?rs) x = stored_network d x" for x
  proof (cases "stored_network d x")
    case None
    then have "map_of (map (\<lambda>r. (nr_network_code r, r)) ?rs) x = None"
      unfolding map_of_eq_None_iff by (auto simp: stored_network_None code)
    then show ?thesis using None by (simp only:)
  next
    case (Some r)
    then have "r \<in> set ?rs" "nr_network_code r = x"
      using stored_network_set [OF assms, of r] stored_network_code [OF Some] by auto
    then have "(x, r) \<in> set (map (\<lambda>r. (nr_network_code r, r)) ?rs)" by auto
    moreover have "distinct (map fst (map (\<lambda>r. (nr_network_code r, r)) ?rs))" using d by (simp add: comp_def code)
    ultimately show ?thesis using Some by (simp only: map_of_is_SomeI)
  qed
  moreover have "sorted (map (\<lambda>r. sint (nr_created_at r)) ?rs)" by (simp add: comp_def code)
  moreover have "distinct (map nr_network_code ?rs)" using d by (simp add: comp_def code)
  ultimately show ?thesis by (auto simp: load_all_networks_def)
qed

lemma statements_db_ok:
  assumes "db_ok d"
  shows "db_ok (put_network r d)"
    "stored_network d (nr_network_code r) = None \<Longrightarrow> db_ok (d\<lparr>networks := networks d @ [network_row r]\<rparr>)"
    "db_ok (d\<lparr>networks := map (\<lambda>w. if network_code w = code
      then w\<lparr>gateway := gw, netmask := nm, secret := sec, lease_duration := lease\<rparr> else w) (networks d)\<rparr>)"
    "db_ok (d\<lparr>networks := filter P (networks d)\<rparr>)"
proof -
  show "db_ok (put_network r d)"
    using assms distinct_drop_add [of network_code "networks d" "network_row r" "nr_network_code r"]
    by (simp add: db_ok_def put_network_def)
  show "db_ok (d\<lparr>networks := networks d @ [network_row r]\<rparr>)" if "stored_network d (nr_network_code r) = None"
    using assms that by (simp add: db_ok_def stored_network_None)
  have eq: "map network_code (map (\<lambda>w. if network_code w = code
      then w\<lparr>gateway := gw, netmask := nm, secret := sec, lease_duration := lease\<rparr> else w) xs) = map network_code xs" for xs
    by (induction xs) auto
  then show "db_ok (d\<lparr>networks := map (\<lambda>w. if network_code w = code
      then w\<lparr>gateway := gw, netmask := nm, secret := sec, lease_duration := lease\<rparr> else w) (networks d)\<rparr>)"
    using assms unfolding db_ok_def by (simp add: eq del: map_map)
  show "db_ok (d\<lparr>networks := filter P (networks d)\<rparr>)" using assms by (simp add: db_ok_def distinct_map_filter)
qed

section \<open>The table of devices\<close>

abbreviation device_key :: "DeviceRecord \<Rightarrow> string \<times> string" where
  "device_key q \<equiv> (dr_network_code q, dr_device_id q)"

lemma stored_device_key: "stored_device d code k = List.find (\<lambda>q. device_key q = (code, k)) (devices d)"
  by (simp add: stored_device_def)

definition put_device :: "DeviceRecord \<Rightarrow> Db \<Rightarrow> Db" where
  "put_device r d = d\<lparr>devices := (if list_ex (same_device r) (devices d)
     then map (\<lambda>q. if same_device r q then r else q) (devices d) else devices d @ [r])\<rparr>"

lemma same_device_key: "same_device r q \<longleftrightarrow> device_key q = device_key r"
  by (auto simp: same_device_def)

lemma find_replace:
  "List.find (\<lambda>q. f q = x) (map (\<lambda>q. if f q = f r then r else q) xs) =
    (if x = f r then if \<exists>q \<in> set xs. f q = f r then Some r else None else List.find (\<lambda>q. f q = x) xs)"
  by (induction xs) auto

lemma find_snoc:
  "\<forall>q \<in> set xs. f q \<noteq> f r \<Longrightarrow>
   List.find (\<lambda>q. f q = x) (xs @ [r]) = (if x = f r then Some r else List.find (\<lambda>q. f q = x) xs)"
  by (induction xs) auto

lemma find_upsert:
  "List.find (\<lambda>q. f q = x) (if list_ex (\<lambda>q. f q = f r) xs then map (\<lambda>q. if f q = f r then r else q) xs else xs @ [r]) =
    (if x = f r then Some r else List.find (\<lambda>q. f q = x) xs)"
  by (auto simp: find_replace find_snoc list_ex_iff)

lemma stored_upsert [db_simps]:
  "stored_device (put_device r d) code k =
    (if code = dr_network_code r \<and> k = dr_device_id r then Some r else stored_device d code k)"
proof -
  have "same_device r = (\<lambda>q. device_key q = device_key r)" by (simp add: fun_eq_iff same_device_key)
  then have "stored_device (put_device r d) code k = List.find (\<lambda>q. device_key q = (code, k))
      (if list_ex (\<lambda>q. device_key q = device_key r) (devices d)
       then map (\<lambda>q. if device_key q = device_key r then r else q) (devices d) else devices d @ [r])"
    by (simp only: stored_device_key put_device_def) simp
  also have "\<dots> = (if (code, k) = device_key r then Some r else stored_device d code k)"
    unfolding stored_device_key by (rule find_upsert)
  finally show ?thesis by simp
qed

lemma stored_release [db_simps]:
  "stored_device (d\<lparr>devices := map (\<lambda>q. if dr_network_code q = c \<and> dr_device_id q = k
       then q\<lparr>dr_ip := None\<rparr> else q) (devices d)\<rparr>) code k' =
    (if code = c \<and> k' = k then map_option (\<lambda>q. q\<lparr>dr_ip := None\<rparr>) (stored_device d c k)
     else stored_device d code k')"
  using find_update_key [of device_key "\<lambda>q. q\<lparr>dr_ip := None\<rparr>" "(code, k')" "(c, k)" "devices d"]
  by (simp add: stored_device_key)

lemma stored_delete [db_simps]:
  "stored_device (d\<lparr>devices := filter (\<lambda>q. \<not> (dr_network_code q = c \<and> dr_device_id q = k)) (devices d)\<rparr>) code k' =
    (if code = c \<and> k' = k then None else stored_device d code k')"
  using find_drop_key [of device_key "(code, k')" "(c, k)" "devices d"]
  by (simp add: stored_device_key)

lemma distinct_upsert:
  "distinct (map f xs) \<Longrightarrow> distinct (map f (if list_ex (\<lambda>q. f q = f r) xs
      then map (\<lambda>q. if f q = f r then r else q) xs else xs @ [r]))"
proof -
  assume d: "distinct (map f xs)"
  have "map f (map (\<lambda>q. if f q = f r then r else q) xs) = map f xs" by (induction xs) auto
  then show ?thesis using d by (auto simp: list_ex_iff simp del: map_map)
qed

lemma device_statements_db_ok:
  assumes "db_ok d"
  shows "db_ok (put_device r d)" "db_ok (d\<lparr>devices := filter P (devices d)\<rparr>)"
    "db_ok (d\<lparr>devices := map (\<lambda>q. if dr_network_code q = c \<and> dr_device_id q = k
       then q\<lparr>dr_ip := None\<rparr> else q) (devices d)\<rparr>)"
proof -
  let ?f = "\<lambda>q. (dr_device_id q, dr_network_code q)"
  have "same_device r = (\<lambda>q. ?f q = ?f r)" by (auto simp: fun_eq_iff same_device_def)
  then have "devices (put_device r d) = (if list_ex (\<lambda>q. ?f q = ?f r) (devices d)
      then map (\<lambda>q. if ?f q = ?f r then r else q) (devices d) else devices d @ [r])"
    by (simp only: put_device_def) simp
  then have "distinct (map ?f (devices (put_device r d)))"
    using assms distinct_upsert [of ?f "devices d" r] by (simp only: db_ok_def)
  then show "db_ok (put_device r d)" using assms by (simp add: db_ok_def put_device_def)
  show "db_ok (d\<lparr>devices := filter P (devices d)\<rparr>)" using assms by (simp add: db_ok_def distinct_map_filter)
  have eq2: "map ?f (map (\<lambda>q. if dr_network_code q = c \<and> dr_device_id q = k then q\<lparr>dr_ip := None\<rparr> else q) xs) = map ?f xs" for xs
    by (induction xs) auto
  then show "db_ok (d\<lparr>devices := map (\<lambda>q. if dr_network_code q = c \<and> dr_device_id q = k
       then q\<lparr>dr_ip := None\<rparr> else q) (devices d)\<rparr>)"
    using assms unfolding db_ok_def by (simp add: eq2 del: map_map)
qed

lemma loaded_devices:
  assumes "db_ok d" "load_all_devices True code (Some d) = (Inr rs, p)"
  shows "distinct (map dr_device_id rs)" "r \<in> set rs \<longleftrightarrow> dr_network_code r = code \<and> stored_device d code (dr_device_id r) = Some r"
proof -
  have rs: "rs = filter (\<lambda>q. dr_network_code q = code) (devices d)"
    using assms(2) by (simp add: load_all_devices_def)
  have "distinct (map (\<lambda>q. (dr_device_id q, dr_network_code q)) (devices d))"
    using assms(1) by (simp add: db_ok_def)
  then have d: "distinct (map device_key (devices d))"
    by (auto simp: distinct_map inj_on_def)
  then have "distinct (map device_key rs)" unfolding rs by (rule distinct_map_filter)
  moreover have "dr_network_code q = code" if "q \<in> set rs" for q using that by (simp add: rs)
  ultimately show "distinct (map dr_device_id rs)" by (auto simp: distinct_map inj_on_def)
  show "r \<in> set rs \<longleftrightarrow> dr_network_code r = code \<and> stored_device d code (dr_device_id r) = Some r"
    unfolding stored_device_key find_key_Some [OF d] by (auto simp: rs)
qed

lemma has_devices: "network_has_devices True code (Some d) =
    (Inr (\<exists>k. stored_device d code k \<noteq> None), Some d)"
  by (auto simp: network_has_devices_def stored_device_def find_None filter_empty_conv)

text \<open>The tables are maps. On a database that satisfies its uniqueness constraints, each statement on
  \<open>networks\<close> and \<open>devices\<close> is the map operation it is named after (store, store if new, change in place,
  delete, clear the address), keeps the constraints, and concerns no other key; \<open>load_all_networks\<close>
  returns every stored network once, oldest first, as it was saved. A statement that fails changes
  nothing, and without a pool nothing is stored.\<close>

theorem tables_are_maps:
  assumes "db_ok d"
  shows "(\<exists>d1. save_network True r (Some d) = (Inr (), Some d1) \<and> db_ok d1 \<and>
      stored_network d1 = (stored_network d)(nr_network_code r \<mapsto> r)) \<and>
    (\<exists>d1. save_network_if_not_exists True r (Some d) = (Inr (stored_network d (nr_network_code r) = None), Some d1) \<and>
      db_ok d1 \<and> stored_network d1 = (if stored_network d (nr_network_code r) = None
        then (stored_network d)(nr_network_code r \<mapsto> r) else stored_network d)) \<and>
    (\<exists>d1. db_delete_network True code (Some d) = (Inr (stored_network d code \<noteq> None), Some d1) \<and> db_ok d1 \<and>
      stored_network d1 = (stored_network d)(code := None)) \<and>
    (\<exists>d1. save_or_update_device True q (Some d) = (Inr (), Some d1) \<and> db_ok d1 \<and>
      (\<forall>c k. stored_device d1 c k = (if c = dr_network_code q \<and> k = dr_device_id q then Some q else stored_device d c k))) \<and>
    (\<exists>d1. release_device_ip True code dev (Some d) = (Inr (), Some d1) \<and> db_ok d1 \<and>
      (\<forall>c k. stored_device d1 c k = (if c = code \<and> k = dev
         then map_option (\<lambda>q. q\<lparr>dr_ip := None\<rparr>) (stored_device d code dev) else stored_device d c k))) \<and>
    (\<exists>d1. db_delete_device True code dev (Some d) = (Inr (stored_device d code dev \<noteq> None), Some d1) \<and> db_ok d1 \<and>
      (\<forall>c k. stored_device d1 c k = (if c = code \<and> k = dev then None else stored_device d c k))) \<and>
    (\<exists>rs. load_all_networks True (Some d) = (Inr rs, Some d) \<and> distinct (map nr_network_code rs) \<and>
      sorted (map (\<lambda>r. sint (nr_created_at r)) rs) \<and> map_of (map (\<lambda>r. (nr_network_code r, r)) rs) = stored_network d) \<and>
    snd (save_network False r (Some d)) = Some d \<and> snd (save_or_update_device False q (Some d)) = Some d \<and>
    save_network True r None = (Inr (), None)"
proof -
  note ok = statements_db_ok [OF assms] device_statements_db_ok [OF assms]
  have code: "r \<in> network_code ` set (networks d) \<longleftrightarrow> stored_network d r \<noteq> None" for r
    by (simp add: stored_network_None)
  have dev: "list_ex (\<lambda>q. dr_network_code q = code \<and> dr_device_id q = dev) (devices d) \<longleftrightarrow> stored_device d code dev \<noteq> None"
    by (simp add: stored_device_def find_None list_ex_iff)
  have save: "save_network True r (Some d) = (Inr (), Some (put_network r d))"
    by (simp add: save_network_def put_network_def)
  have new: "save_network_if_not_exists True r (Some d) = (Inr (stored_network d (nr_network_code r) = None),
      Some (if stored_network d (nr_network_code r) = None then d\<lparr>networks := networks d @ [network_row r]\<rparr> else d))"
    by (simp add: save_network_if_not_exists_def code)
  have del: "db_delete_network True code (Some d) = (Inr (stored_network d code \<noteq> None),
      Some (d\<lparr>networks := filter (\<lambda>w. network_code w \<noteq> code) (networks d)\<rparr>))"
    by (simp add: db_delete_network_def code)
  have upd: "save_or_update_device True q (Some d) = (Inr (), Some (put_device q d))"
    by (simp add: save_or_update_device_def put_device_def)
  have deld: "db_delete_device True code dev (Some d) = (Inr (stored_device d code dev \<noteq> None),
      Some (d\<lparr>devices := filter (\<lambda>q. \<not> (dr_network_code q = code \<and> dr_device_id q = dev)) (devices d)\<rparr>))"
    by (simp add: db_delete_device_def dev del: not_None_eq)
  show ?thesis
    unfolding save new del upd deld
    using loaded_networks [OF assms] assms
    by (simp add: release_device_ip_def db_simps stored_delete [simplified] ok save_network_def save_or_update_device_def)
qed

definition demo_record :: "string \<Rightarrow> NetworkRecord" where
  "demo_record code = \<lparr>nr_network_code = code, nr_gateway = ''10.26.0.1'', nr_netmask = 24,
     nr_secret = ''0123456789abcdef0123456789abcdef'', nr_lease_duration = 86400, nr_source = SourceManual,
     nr_created_at = 7\<rparr>"

definition demo_device :: "string \<Rightarrow> DeviceRecord" where
  "demo_device k = \<lparr>dr_device_id = k, dr_network_code = ''default'', dr_ip = Some ''10.26.0.2'', dr_device_name = ''n'',
     dr_device_version = ''2'', dr_last_connect_time = 9, dr_tx_bytes = 0, dr_rx_bytes = 0\<rparr>"

theorem tables_are_maps_witness:
  "\<exists>d1. save_network True (demo_record ''default'')
      (Some \<lparr>networks = [], devices = [demo_device ''a''], peer_servers = []\<rparr>) = (Inr (), Some d1) \<and> db_ok d1 \<and>
    stored_network d1 = (stored_network \<lparr>networks = [], devices = [demo_device ''a''], peer_servers = []\<rparr>)
      (''default'' \<mapsto> demo_record ''default'')"
  using tables_are_maps [THEN conjunct1, of "\<lparr>networks = [], devices = [demo_device ''a''], peer_servers = []\<rparr>"
    "demo_record ''default''"]
  by (simp add: db_ok_def demo_record_def)

end
