(* ===== verification/ControlService.thy ===== *)
theory ControlService
  imports Database RegistryProps
begin

text \<open>
  The control service of the server, \<open>vnts/src/server/control_server/service.rs\<close>: the managed networks,
  registration of devices, sessions, administration of networks and devices, start-up from configuration
  and database, and clean-up.

  An \<open>Arc<NetworkState>\<close> is an address of \<open>ns_store\<close>: a session keeps its state although the provider may
  have dropped it. Each operation is one step; a spawned task is an element of \<open>spawned\<close> and runs later,
  in any order. Parameters: \<open>net_new\<close> is \<open>Ipv4Net::new\<close> (crate \<open>ipnet\<close>), \<open>sha\<close> is SHA-256 and \<open>hx\<close> the
  crate \<open>hex\<close>; \<open>io\<close> says which database statements succeed; times are milliseconds.
\<close>

section \<open>State\<close>

record NetworkConfig =
  nc_net :: Ipv4Net
  nc_lease_duration :: nat
  nc_source :: NetworkSource

record ManagedNetwork =
  mn_config :: NetworkConfig
  mn_secret :: string

datatype RegistrationStatus = Confirmed | PendingConfirmation

record Session =
  se_network_code :: string
  se_device_id :: string
  se_ip :: ipv4
  se_random_id :: u64
  se_network_state :: nat
  se_status :: RegistrationStatus

datatype spawned_save = SaveEntry nat string DeviceEntry | SaveRecord DeviceRecord

record ControlService =
  default_lease_duration :: nat
  db_nets :: "string \<rightharpoonup> ManagedNetwork"
  cs_white_list :: "string list"
  network_states :: "string \<rightharpoonup> nat"
  ns_store :: "nat \<Rightarrow> NetworkState"
  ns_fresh :: nat
  db_pool :: "Db option"
  spawned :: "spawned_save list"

section \<open>Networks in the configuration and in the database\<close>

definition checked_pred :: "ipv4 \<Rightarrow> ipv4 option" where
  "checked_pred g = (if g = 0 then None else Some (g - 1))"

definition to_ipv4_net :: "(ipv4 \<Rightarrow> u8 \<Rightarrow> Ipv4Net option) \<Rightarrow> NetworkRecord \<Rightarrow> Ipv4Net option" where
  "to_ipv4_net net_new r =
     (case parse_ipv4 (nr_gateway r) of
        None \<Rightarrow> None
      | Some g \<Rightarrow> (case checked_pred g of None \<Rightarrow> None | Some n \<Rightarrow> net_new n (nr_netmask r)))"

definition build_network_from_gateway :: "(ipv4 \<Rightarrow> u8 \<Rightarrow> Ipv4Net option) \<Rightarrow> ipv4 \<Rightarrow> u8 \<Rightarrow> Ipv4Net result" where
  "build_network_from_gateway net_new g nm =
     and_then (ok_or (Bail ''gateway must be the first usable IP in the subnet'') (checked_pred g))
       (\<lambda>network_ip. ok_or (Bail ''Invalid network'') (net_new network_ip nm))"

fun build_networks_from_config :: "(string \<times> string) list \<Rightarrow> nat \<Rightarrow> (string \<times> Ipv4Net) list
    \<Rightarrow> (string \<rightharpoonup> ManagedNetwork) \<Rightarrow> (string \<rightharpoonup> ManagedNetwork)" where
  "build_networks_from_config secrets lease [] m = m"
| "build_networks_from_config secrets lease ((code, net) # nets) m =
     build_networks_from_config secrets lease nets
       (case map_of secrets code of
          None \<Rightarrow> m
        | Some s \<Rightarrow> m(code \<mapsto> \<lparr>mn_config = \<lparr>nc_net = net, nc_lease_duration = lease, nc_source = SourceConfig\<rparr>,
                              mn_secret = s\<rparr>))"

definition seed_record :: "i64 \<Rightarrow> nat \<Rightarrow> string \<Rightarrow> Ipv4Net \<Rightarrow> string \<Rightarrow> NetworkRecord" where
  "seed_record now lease code net s =
     \<lparr>nr_network_code = code, nr_gateway = ip_to_string (net_network net + 1), nr_netmask = net_prefix_len net,
      nr_secret = s, nr_lease_duration = word_of_nat (lease div 1000), nr_source = SourceConfig,
      nr_created_at = now\<rparr>"

fun seed_config_networks_to_db :: "(string \<Rightarrow> bool) \<Rightarrow> i64 \<Rightarrow> (string \<times> string) list \<Rightarrow> nat
    \<Rightarrow> (string \<times> Ipv4Net) list \<Rightarrow> Db option \<Rightarrow> Db option" where
  "seed_config_networks_to_db io now secrets lease [] pool = pool"
| "seed_config_networks_to_db io now secrets lease ((code, net) # nets) pool =
     seed_config_networks_to_db io now secrets lease nets
       (case map_of secrets code of
          None \<Rightarrow> pool
        | Some s \<Rightarrow> snd (save_network_if_not_exists (io code) (seed_record now lease code net s) pool))"

definition is_blank :: "string \<Rightarrow> bool" where
  "is_blank s = list_all is_whitespace (chars_of s)"

fun backfill_missing_secrets :: "(string \<Rightarrow> bool) \<Rightarrow> (string \<times> string) list \<Rightarrow> NetworkRecord list
    \<Rightarrow> bool \<Rightarrow> Db option \<Rightarrow> bool \<times> Db option" where
  "backfill_missing_secrets io secrets [] updated pool = (updated, pool)"
| "backfill_missing_secrets io secrets (r # rs) updated pool =
     (if \<not> is_blank (nr_secret r) then backfill_missing_secrets io secrets rs updated pool
      else case map_of secrets (nr_network_code r) of
             None \<Rightarrow> backfill_missing_secrets io secrets rs updated pool
           | Some s \<Rightarrow>
               (case save_network (io (nr_network_code r)) (r\<lparr>nr_secret := s\<rparr>) pool of
                  (Inr _, pool') \<Rightarrow> backfill_missing_secrets io secrets rs True pool'
                | (Inl _, pool') \<Rightarrow> backfill_missing_secrets io secrets rs updated pool'))"

definition load_network_records_from_db :: "bool \<Rightarrow> Db option \<Rightarrow> NetworkRecord list" where
  "load_network_records_from_db io pool =
     (case fst (load_all_networks io pool) of Inl _ \<Rightarrow> [] | Inr rs \<Rightarrow> rs)"

fun managed_networks_from_records :: "(ipv4 \<Rightarrow> u8 \<Rightarrow> Ipv4Net option) \<Rightarrow> NetworkRecord list
    \<Rightarrow> (string \<rightharpoonup> ManagedNetwork) \<Rightarrow> (string \<rightharpoonup> ManagedNetwork)" where
  "managed_networks_from_records net_new [] m = m"
| "managed_networks_from_records net_new (r # rs) m =
     managed_networks_from_records net_new rs
       (case to_ipv4_net net_new r of
          Some net \<Rightarrow> m(nr_network_code r \<mapsto>
            \<lparr>mn_config = \<lparr>nc_net = net, nc_lease_duration = unat (nr_lease_duration r) * 1000, nc_source = nr_source r\<rparr>,
             mn_secret = nr_secret r\<rparr>)
        | None \<Rightarrow> m)"

text \<open>\<open>io1\<close> and \<open>io2\<close> are the two loads, \<open>iow\<close> the writes between them.\<close>

definition load_or_initialize_networks :: "(ipv4 \<Rightarrow> u8 \<Rightarrow> Ipv4Net option) \<Rightarrow> bool \<Rightarrow> bool \<Rightarrow> (string \<Rightarrow> bool) \<Rightarrow> i64
    \<Rightarrow> (string \<times> Ipv4Net) list \<Rightarrow> (string \<times> string) list \<Rightarrow> nat \<Rightarrow> Db option
    \<Rightarrow> (string \<rightharpoonup> ManagedNetwork) \<times> Db option" where
  "load_or_initialize_networks net_new io1 io2 iow now nets secrets lease pool =
     (if \<not> db_pool_initialized pool then (build_networks_from_config secrets lease nets Map.empty, pool)
      else
        let records = load_network_records_from_db io1 pool;
            (records, pool) =
              (if records = []
               then (let pool = seed_config_networks_to_db iow now secrets lease nets pool
                     in (load_network_records_from_db io2 pool, pool))
               else (case backfill_missing_secrets iow secrets records False pool of
                       (updated, pool) \<Rightarrow>
                         (if updated then load_network_records_from_db io2 pool else records, pool)))
        in if records = [] then (build_networks_from_config secrets lease nets Map.empty, pool)
           else (managed_networks_from_records net_new records Map.empty, pool))"

definition ControlService_new :: "(ipv4 \<Rightarrow> u8 \<Rightarrow> Ipv4Net option) \<Rightarrow> bool \<Rightarrow> bool \<Rightarrow> (string \<Rightarrow> bool) \<Rightarrow> i64
    \<Rightarrow> ConfigFile \<Rightarrow> nat \<Rightarrow> (nat \<Rightarrow> NetworkState) \<Rightarrow> Db option \<Rightarrow> ControlService" where
  "ControlService_new net_new io1 io2 iow now c lease store pool =
     (case load_or_initialize_networks net_new io1 io2 iow now (custom_nets c) (network_secrets c) lease pool of
        (nets, pool) \<Rightarrow>
          \<lparr>default_lease_duration = lease, db_nets = nets, cs_white_list = white_list c,
           network_states = Map.empty, ns_store = store, ns_fresh = 0, db_pool = pool, spawned = []\<rparr>)"

definition cleanup_interval :: "nat \<Rightarrow> nat" where
  "cleanup_interval lease = max (min 1800000 (lease div 2)) 10000"

section \<open>Registration\<close>

definition key_sign :: "(bytes \<Rightarrow> bytes) \<Rightarrow> (bytes \<Rightarrow> string) \<Rightarrow> string \<Rightarrow> string" where
  "key_sign sha hx s = hx (take 16 (sha (map of_char (''KEY-BEGIN'' @ s @ ''KEY-END''))))"

definition network_config :: "string \<Rightarrow> ControlService \<Rightarrow> NetworkConfig result" where
  "network_config code cs = ok_or (Bail ''network_code is not allowed'') (map_option mn_config (db_nets cs code))"

definition validate_registration :: "(bytes \<Rightarrow> bytes) \<Rightarrow> (bytes \<Rightarrow> string) \<Rightarrow> RegRequestMsg \<Rightarrow> ControlService
    \<Rightarrow> unit result" where
  "validate_registration sha hx r cs =
     (case db_nets cs (rq_network_code r) of
        None \<Rightarrow> Inl (Bail ''network_code is not allowed by server configuration or database'')
      | Some network \<Rightarrow>
          and_then (validate_network_secret_value (rq_network_code r) (mn_secret network)) (\<lambda>_.
            case rq_key_sign r of
              None \<Rightarrow> Inl (Bail ''network_code requires a network secret'')
            | Some provided \<Rightarrow>
                if provided \<noteq> key_sign sha hx (mn_secret network) then Inl (Bail ''invalid network secret'')
                else Inr ()))"

definition get_or_create_network_state :: "bool \<Rightarrow> nat \<Rightarrow> string \<Rightarrow> NetworkConfig \<Rightarrow> ControlService
    \<Rightarrow> nat \<times> ControlService" where
  "get_or_create_network_state io now code config cs =
     (case network_states cs code of
        Some a \<Rightarrow> (a, cs\<lparr>ns_store := (ns_store cs)(a := update_time now (ns_store cs a))\<rparr>)
      | None \<Rightarrow>
          (let records = (case fst (load_all_devices io code (db_pool cs)) of Inl _ \<Rightarrow> None | Inr rs \<Rightarrow> Some rs);
               a = ns_fresh cs
           in (a, cs\<lparr>ns_store := (ns_store cs)(a := new_from_db code (nc_net config) (nc_lease_duration config) now records),
                    ns_fresh := a + 1, network_states := (network_states cs)(code \<mapsto> a)\<rparr>)))"

definition admit :: "(bytes \<Rightarrow> bytes) \<Rightarrow> (bytes \<Rightarrow> string) \<Rightarrow> RegRequestMsg \<Rightarrow> ControlService \<Rightarrow> NetworkConfig result" where
  "admit sha hx r cs =
     and_then (reg_check r) (\<lambda>_.
     and_then (validate_registration sha hx r cs) (\<lambda>_.
     and_then (network_config (rq_network_code r) cs) (\<lambda>config.
       if cs_white_list cs \<noteq> [] \<and> rq_network_code r \<notin> set (cs_white_list cs)
       then Inl (Bail ''network_code is not in white_list'') else Inr config)))"

definition register :: "(bytes \<Rightarrow> bytes) \<Rightarrow> (bytes \<Rightarrow> string) \<Rightarrow> bool \<Rightarrow> nat \<Rightarrow> u64 \<Rightarrow> nat \<Rightarrow> RegRequestMsg
    \<Rightarrow> ControlService \<Rightarrow> Session result \<times> ControlService" where
  "register sha hx io now rid sender r cs =
     (case admit sha hx r cs of
        Inl e \<Rightarrow> (Inl e, cs)
      | Inr config \<Rightarrow>
          (case get_or_create_network_state io now (rq_network_code r) config cs of
             (a, cs) \<Rightarrow>
               (case allocate_ip_and_get_entry now r rid sender (ns_store cs a) of
                  Inl e \<Rightarrow> (Inl e, cs)
                | Inr (st, ip, _, entry) \<Rightarrow>
                    (Inr \<lparr>se_network_code = rq_network_code r, se_device_id = rq_device_id r, se_ip = ip,
                          se_random_id = rid, se_network_state = a,
                          se_status = (case rq_mode r of Normal \<Rightarrow> Confirmed | PreRegister \<Rightarrow> PendingConfirmation)\<rparr>,
                     cs\<lparr>ns_store := (ns_store cs)(a := st),
                        spawned := spawned cs @ (case entry of
                            Some e \<Rightarrow> if rq_mode r = Normal then [SaveEntry a (rq_network_code r) e] else []
                          | None \<Rightarrow> [])\<rparr>))))"

section \<open>Sessions\<close>

text \<open>\<open>confirm_registration\<close> of \<open>NetworkState\<close>: the row is written before the session changes.\<close>

definition confirm_registration :: "bool \<Rightarrow> string \<Rightarrow> string \<Rightarrow> NetworkState \<Rightarrow> Db option \<Rightarrow> unit result \<times> Db option" where
  "confirm_registration io code device_id st pool =
     (case get_device_entry device_id st of
        Some e \<Rightarrow> save_or_update_device io (to_record (stats_heap st) code e) pool
      | None \<Rightarrow> (Inr (), pool))"

definition drop_session :: "nat \<Rightarrow> Session \<Rightarrow> ControlService \<Rightarrow> ControlService" where
  "drop_session now se cs =
     (let a = se_network_state se in
      case se_status se of
        Confirmed \<Rightarrow>
          (case offline_ip now (se_device_id se) (se_ip se) (se_random_id se) (ns_store cs a) of
             (st, record) \<Rightarrow>
               cs\<lparr>ns_store := (ns_store cs)(a := st),
                  spawned := spawned cs @ (case record of Some r \<Rightarrow> [SaveRecord r] | None \<Rightarrow> [])\<rparr>)
      | PendingConfirmation \<Rightarrow>
          cs\<lparr>ns_store := (ns_store cs)(a :=
               release_pre_registered_ip (se_device_id se) (se_ip se) (se_random_id se) (ns_store cs a))\<rparr>)"

text \<open>A spawned task: the row of an entry is made when the task runs, its counters being shared.\<close>

definition run_spawned :: "bool \<Rightarrow> nat \<Rightarrow> ControlService \<Rightarrow> ControlService" where
  "run_spawned io i cs =
     (if i < length (spawned cs)
      then cs\<lparr>spawned := take i (spawned cs) @ drop (i + 1) (spawned cs),
              db_pool := snd (case spawned cs ! i of
                  SaveEntry a code e \<Rightarrow> save_or_update_device io (to_record (stats_heap (ns_store cs a)) code e) (db_pool cs)
                | SaveRecord r \<Rightarrow> save_or_update_device io r (db_pool cs))\<rparr>
      else cs)"

section \<open>Clean-up\<close>

definition ns_is_empty :: "NetworkState \<Rightarrow> bool" where
  "ns_is_empty st \<longleftrightarrow> device_map (lease_state st) = Map.empty \<and> device_ip_map (lease_state st) = Map.empty"

definition release_one :: "nat \<Rightarrow> string \<Rightarrow> ControlService \<Rightarrow> ControlService" where
  "release_one now code cs =
     (case network_states cs code of
        None \<Rightarrow> cs
      | Some a \<Rightarrow>
          if \<not> ns_is_empty (ns_store cs a) then cs
          else if now < ns_time (ns_store cs a) + 3600000 then cs
          else cs\<lparr>network_states := (network_states cs)(code := None)\<rparr>)"

definition release_network :: "nat \<Rightarrow> string list \<Rightarrow> ControlService \<Rightarrow> ControlService" where
  "release_network now order cs =
     fold (release_one now)
       (filter (\<lambda>code. case network_states cs code of
           Some a \<Rightarrow> ns_time (ns_store cs a) + 3600000 < now | None \<Rightarrow> False) order) cs"

definition release_expired_ips :: "(string \<Rightarrow> bool) \<Rightarrow> nat \<Rightarrow> string list \<Rightarrow> nat \<Rightarrow> ControlService \<Rightarrow> ControlService" where
  "release_expired_ips io now order a cs =
     (let st = ns_store cs a; expired = ns_collect_expired order now st in
      if expired = [] then cs
      else cs\<lparr>ns_store := (ns_store cs)(a := ns_remove_devices expired st),
              db_pool := fold (\<lambda>k pool. snd (release_device_ip (io k) (ns_network_code st) k pool)) expired (db_pool cs)\<rparr>)"

section \<open>Administration\<close>

definition add_network :: "(ipv4 \<Rightarrow> u8 \<Rightarrow> Ipv4Net option) \<Rightarrow> bool \<Rightarrow> i64 \<Rightarrow> string \<Rightarrow> ipv4 \<Rightarrow> u8 \<Rightarrow> nat option \<Rightarrow> string
    \<Rightarrow> ControlService \<Rightarrow> unit result \<times> ControlService" where
  "add_network net_new io now code gw nm lease s cs =
     (let lease = (case lease of Some l \<Rightarrow> l | None \<Rightarrow> default_lease_duration cs) in
      case and_then (validate_network_code_value code ''network_code'') (\<lambda>_.
           and_then (validate_network_secret_value code s) (\<lambda>_.
             if db_nets cs code \<noteq> None then Inl (Bail ''network_code already exists'')
             else build_network_from_gateway net_new gw nm)) of
        Inl e \<Rightarrow> (Inl e, cs)
      | Inr net \<Rightarrow>
          (case save_network io \<lparr>nr_network_code = code, nr_gateway = ip_to_string gw, nr_netmask = nm, nr_secret = s,
               nr_lease_duration = word_of_nat (lease div 1000), nr_source = SourceManual, nr_created_at = now\<rparr>
               (db_pool cs) of
             (Inl e, pool) \<Rightarrow> (Inl e, cs\<lparr>db_pool := pool\<rparr>)
           | (Inr _, pool) \<Rightarrow>
               (Inr (), cs\<lparr>db_pool := pool, db_nets := (db_nets cs)(code \<mapsto>
                  \<lparr>mn_config = \<lparr>nc_net = net, nc_lease_duration = lease, nc_source = SourceManual\<rparr>, mn_secret = s\<rparr>)\<rparr>)))"

text \<open>The two checks \<open>network_has_devices\<close> and \<open>count().0 > 0\<close> that guard a change of a network.\<close>

definition network_in_use :: "bool \<Rightarrow> string \<Rightarrow> ControlService \<Rightarrow> unit result" where
  "network_in_use io code cs =
     (case fst (network_has_devices io code (db_pool cs)) of
        Inl e \<Rightarrow> Inl e
      | Inr has \<Rightarrow>
          if has then Inl (Bail ''network has devices'')
          else (case network_states cs code of
                  Some a \<Rightarrow>
                    if device_map (lease_state (ns_store cs a)) \<noteq> Map.empty \<or> sender_map (ns_store cs a) \<noteq> Map.empty
                    then Inl (Bail ''network has devices'') else Inr ()
                | None \<Rightarrow> Inr ()))"

definition update_network :: "(ipv4 \<Rightarrow> u8 \<Rightarrow> Ipv4Net option) \<Rightarrow> bool \<Rightarrow> bool \<Rightarrow> string \<Rightarrow> ipv4 \<Rightarrow> u8 \<Rightarrow> nat \<Rightarrow> string
    \<Rightarrow> ControlService \<Rightarrow> unit result \<times> ControlService" where
  "update_network net_new io io_upd code gw nm lease s cs =
     (case and_then (validate_network_secret_value code s) (\<lambda>_.
           and_then (ok_or (Bail ''network does not exist'') (map_option (\<lambda>m. nc_source (mn_config m)) (db_nets cs code)))
             (\<lambda>src. and_then (network_in_use io code cs) (\<lambda>_. Inr src))) of
        Inl e \<Rightarrow> (Inl e, cs)
      | Inr src \<Rightarrow>
          (case db_update_network io_upd code (ip_to_string gw) nm s (word_of_nat (lease div 1000)) (db_pool cs) of
             (Inl e, pool) \<Rightarrow> (Inl e, cs\<lparr>db_pool := pool\<rparr>)
           | (Inr _, pool) \<Rightarrow>
               (case build_network_from_gateway net_new gw nm of
                  Inl e \<Rightarrow> (Inl e, cs\<lparr>db_pool := pool\<rparr>)
                | Inr net \<Rightarrow>
                    (Inr (), cs\<lparr>db_pool := pool,
                       db_nets := (db_nets cs)(code \<mapsto>
                         \<lparr>mn_config = \<lparr>nc_net = net, nc_lease_duration = lease, nc_source = src\<rparr>, mn_secret = s\<rparr>),
                       network_states := (network_states cs)(code := None)\<rparr>))))"

definition delete_network :: "bool \<Rightarrow> bool \<Rightarrow> string \<Rightarrow> ControlService \<Rightarrow> unit result \<times> ControlService" where
  "delete_network io io_del code cs =
     (if code = DEFAULT_NETWORK_CODE then (Inl (Bail ''the default network cannot be deleted''), cs)
      else if db_nets cs code = None then (Inl (Bail ''network does not exist''), cs)
      else
        (case network_in_use io code cs of
           Inl e \<Rightarrow> (Inl e, cs)
         | Inr _ \<Rightarrow>
             (case db_delete_network io_del code (db_pool cs) of
                (Inl e, pool) \<Rightarrow> (Inl e, cs\<lparr>db_pool := pool\<rparr>)
              | (Inr _, pool) \<Rightarrow>
                  (Inr (), cs\<lparr>db_pool := pool, db_nets := (db_nets cs)(code := None),
                              network_states := (network_states cs)(code := None)\<rparr>))))"

definition delete_device :: "bool \<Rightarrow> string \<Rightarrow> string \<Rightarrow> ControlService \<Rightarrow> unit result \<times> ControlService" where
  "delete_device io code device_id cs =
     (let finish = (\<lambda>cs. case db_delete_device io code device_id (db_pool cs) of
                      (Inl e, pool) \<Rightarrow> (Inl e, cs\<lparr>db_pool := pool\<rparr>)
                    | (Inr _, pool) \<Rightarrow> (Inr (), cs\<lparr>db_pool := pool\<rparr>))
      in case network_states cs code of
           Some a \<Rightarrow>
             if is_device_online device_id (ns_store cs a) then (Inl (Bail ''device is online''), cs)
             else finish (cs\<lparr>ns_store := (ns_store cs)(a := fst (remove_device_from_memory device_id (ns_store cs a)))\<rparr>)
         | None \<Rightarrow> finish cs)"

end
