(* ===== verification/ServiceProps.thy ===== *)
theory ServiceProps
  imports ControlService
begin

text \<open>
  Properties of the control service: who is admitted, the invariant of the service over every
  interleaving of its operations (\<open>service_step\<close>), the agreement of memory and database, and start-up.
\<close>

section \<open>Parameters\<close>

text \<open>The documented behaviour of \<open>ipnet::Ipv4Net\<close>: prefix lengths above 32 are refused, the network and
  the broadcast address are the first and last of the block.\<close>

definition ipnet_ok :: "(ipv4 \<Rightarrow> u8 \<Rightarrow> Ipv4Net option) \<Rightarrow> bool" where
  "ipnet_ok net_new \<longleftrightarrow>
     (\<forall>a p. (net_new a p = None \<longleftrightarrow> 32 < p) \<and>
       (\<forall>n. net_new a p = Some n \<longrightarrow> net_ok n \<and> net_prefix_len n = p \<and>
          net_network n = a AND NOT (mask (32 - unat p)) \<and> net_broadcast n = a OR mask (32 - unat p)))"

lemma ipnetD:
  assumes "ipnet_ok net_new" "net_new a p = Some n"
  shows "p \<le> 32" "net_ok n" "net_prefix_len n = p" "net_network n = a AND NOT (mask (32 - unat p))"
    "net_broadcast n = a OR mask (32 - unat p)"
  using assms unfolding ipnet_ok_def by (metis not_less option.distinct(1))+

lemma ipnet_defined: "ipnet_ok net_new \<Longrightarrow> p \<le> 32 \<Longrightarrow> \<exists>n. net_new a p = Some n"
  unfolding ipnet_ok_def by (metis not_less not_None_eq)

lemma net_contains_eq: "net_ok n \<Longrightarrow> net_contains n = (\<lambda>ip. net_network n \<le> ip \<and> ip \<le> net_broadcast n)"
  by (simp add: net_ok_def fun_eq_iff)

lemma ipv4net_eqI:
  assumes "net_ok n" "net_ok m" "net_network n = net_network m" "net_broadcast n = net_broadcast m"
    "net_prefix_len n = net_prefix_len m"
  shows "n = m"
  by (rule Ipv4Net.equality) (simp_all add: assms net_contains_eq)

text \<open>The network address of a network denotes the same network.\<close>

lemma ipnet_canonical:
  assumes "ipnet_ok net_new" "net_new a p = Some n"
  shows "net_new (net_network n) p = Some n"
proof -
  obtain m where m: "net_new (net_network n) p = Some m"
    using ipnet_defined [OF assms(1) ipnetD(1) [OF assms]] by blast
  note n = ipnetD [OF assms] and m' = ipnetD [OF assms(1) m]
  have "net_network m = net_network n" "net_broadcast m = net_broadcast n"
    unfolding n(4,5) m'(4,5) by (auto intro!: bit_eqI simp: bit_simps)
  then have "m = n" using ipv4net_eqI m'(2,3) n(2,3) by metis
  then show ?thesis using m by simp
qed

lemma built_net_proper:
  assumes "ipnet_ok net_new" "build_network_from_gateway net_new g nm = Inr n"
  shows "net_proper n"
proof -
  have g: "g \<noteq> 0" "net_new (g - 1) nm = Some n"
    using assms(2) by (auto simp: build_network_from_gateway_def checked_pred_def split: if_splits)
  have "net_network n \<le> g - 1" unfolding ipnetD(4) [OF assms(1) g(2)] by (rule word_and_le2)
  moreover have "g - 1 \<noteq> BROADCAST"
  proof
    assume "g - 1 = BROADCAST"
    then have "g = BROADCAST + 1" by (simp only: diff_eq_eq)
    also have "\<dots> = 0" by simp
    finally show False using g(1) by simp
  qed
  moreover have "x \<le> BROADCAST" for x :: ipv4
    using unsigned_less [of x, where 'a = nat] by (simp add: word_le_nat_alt)
  ultimately have "net_network n \<noteq> BROADCAST" by (metis antisym)
  then show ?thesis using ipnetD(2) [OF assms(1) g(2)] by (simp add: net_proper_def)
qed

section \<open>Admission\<close>

lemma admit_Inr:
  "admit sha hx r cs = Inr config \<longleftrightarrow>
    reg_check r = Inr () \<and>
    (\<exists>m. db_nets cs (rq_network_code r) = Some m \<and> config = mn_config m \<and>
       validate_network_secret_value (rq_network_code r) (mn_secret m) = Inr () \<and>
       rq_key_sign r = Some (key_sign sha hx (mn_secret m))) \<and>
    (cs_white_list cs = [] \<or> rq_network_code r \<in> set (cs_white_list cs))"
  by (auto simp: admit_def validate_registration_def network_config_def split: option.splits if_splits)

section \<open>The frame of a network state\<close>

lemma ns_step_frame [simp]:
  "ns_net (ns_step ev st) = ns_net st" "ns_gateway (ns_step ev st) = ns_gateway st"
  "ns_network_code (ns_step ev st) = ns_network_code st"
  "ns_lease_duration (ns_step ev st) = ns_lease_duration st"
proof -
  have "ns_net (ns_step ev st) = ns_net st \<and> ns_gateway (ns_step ev st) = ns_gateway st \<and>
      ns_network_code (ns_step ev st) = ns_network_code st \<and> ns_lease_duration (ns_step ev st) = ns_lease_duration st"
    by (cases ev)
      (auto simp: allocate_ip_and_get_entry_def Let_def offline_ip_def release_pre_registered_ip_def
        release_locked_def ns_remove_devices_def remove_device_from_memory_def update_client_latency_def
        record_tx_traffic_def record_rx_traffic_def update_time_def drop_ip_def
        split: sum.splits option.splits prod.splits)
  then show "ns_net (ns_step ev st) = ns_net st" "ns_gateway (ns_step ev st) = ns_gateway st"
    "ns_network_code (ns_step ev st) = ns_network_code st"
    "ns_lease_duration (ns_step ev st) = ns_lease_duration st" by simp_all
qed

fun is_registration :: "ns_event \<Rightarrow> bool" where
  "is_registration (Register _ _ _ _) = True"
| "is_registration _ = False"

text \<open>Only a registration adds a device.\<close>

lemma ns_step_devices:
  "\<not> is_registration ev \<Longrightarrow> device_map (lease_state (ns_step ev st)) k \<noteq> None \<Longrightarrow> device_map (lease_state st) k \<noteq> None"
  by (cases ev)
    (auto simp: Let_def offline_ip_def offline_inner_def release_pre_registered_ip_def release_locked_def
      ns_remove_devices_def remove_devices_map remove_device_from_memory_def update_client_latency_def
      record_tx_traffic_def record_rx_traffic_def update_time_def drop_ip_def
      split: option.splits prod.splits if_splits)

section \<open>The invariant of the service\<close>

definition attached :: "ControlService \<Rightarrow> nat \<Rightarrow> bool" where
  "attached cs a \<longleftrightarrow> network_states cs (ns_network_code (ns_store cs a)) = Some a"

definition svc_inv :: "ControlService \<Rightarrow> bool" where
  "svc_inv cs \<longleftrightarrow>
     (\<forall>a < ns_fresh cs. ns_inv (ns_store cs a) \<and>
        (\<forall>k. device_map (lease_state (ns_store cs a)) k \<noteq> None \<longrightarrow> attached cs a)) \<and>
     (\<forall>code a. network_states cs code = Some a \<longrightarrow> a < ns_fresh cs \<and> ns_network_code (ns_store cs a) = code \<and>
        ns_gateway (ns_store cs a) = net_network (ns_net (ns_store cs a)) + 1 \<and>
        (\<exists>m. db_nets cs code = Some m \<and> ns_net (ns_store cs a) = nc_net (mn_config m) \<and>
           ns_lease_duration (ns_store cs a) = nc_lease_duration (mn_config m))) \<and>
     (\<forall>code m. db_nets cs code = Some m \<longrightarrow> net_proper (nc_net (mn_config m)))"

lemma svc_invD:
  assumes "svc_inv cs"
  shows "a < ns_fresh cs \<Longrightarrow> ns_inv (ns_store cs a)"
    "a < ns_fresh cs \<Longrightarrow> device_map (lease_state (ns_store cs a)) k = Some e \<Longrightarrow> attached cs a"
    "network_states cs code = Some a \<Longrightarrow> a < ns_fresh cs"
    "network_states cs code = Some a \<Longrightarrow> ns_network_code (ns_store cs a) = code"
    "network_states cs code = Some a \<Longrightarrow> ns_gateway (ns_store cs a) = net_network (ns_net (ns_store cs a)) + 1"
    "network_states cs code = Some a \<Longrightarrow> \<exists>m. db_nets cs code = Some m \<and> ns_net (ns_store cs a) = nc_net (mn_config m) \<and>
       ns_lease_duration (ns_store cs a) = nc_lease_duration (mn_config m)"
    "db_nets cs code = Some m \<Longrightarrow> net_proper (nc_net (mn_config m))"
  using assms unfolding svc_inv_def by blast+

lemma svc_inv_simps [simp]:
  "svc_inv (cs\<lparr>db_pool := p\<rparr>) = svc_inv cs" "svc_inv (cs\<lparr>spawned := q\<rparr>) = svc_inv cs"
  by (simp_all add: svc_inv_def attached_def)

lemma svc_invI:
  assumes "\<And>a. a < ns_fresh cs \<Longrightarrow> ns_inv (ns_store cs a)"
    and "\<And>a k e. a < ns_fresh cs \<Longrightarrow> device_map (lease_state (ns_store cs a)) k = Some e \<Longrightarrow> attached cs a"
    and "\<And>code a. network_states cs code = Some a \<Longrightarrow> a < ns_fresh cs \<and> ns_network_code (ns_store cs a) = code \<and>
        ns_gateway (ns_store cs a) = net_network (ns_net (ns_store cs a)) + 1 \<and>
        (\<exists>m. db_nets cs code = Some m \<and> ns_net (ns_store cs a) = nc_net (mn_config m) \<and>
           ns_lease_duration (ns_store cs a) = nc_lease_duration (mn_config m))"
    and "\<And>code m. db_nets cs code = Some m \<Longrightarrow> net_proper (nc_net (mn_config m))"
  shows "svc_inv cs"
  unfolding svc_inv_def using assms by blast

text \<open>A step of one network state, when it adds no device or the state is the one in use.\<close>

lemma svc_inv_step:
  assumes "svc_inv cs" "a < ns_fresh cs" "\<not> is_registration ev \<or> attached cs a"
  shows "svc_inv (cs\<lparr>ns_store := (ns_store cs)(a := ns_step ev (ns_store cs a))\<rparr>)"
proof (rule svc_invI)
  let ?cs = "cs\<lparr>ns_store := (ns_store cs)(a := ns_step ev (ns_store cs a))\<rparr>"
  have att: "attached ?cs b = attached cs b" for b by (simp add: attached_def)
  show "ns_inv (ns_store ?cs b)" if "b < ns_fresh ?cs" for b
    using that svc_invD(1) [OF assms(1)] ns_step_inv assms(2) by simp
  show "attached ?cs b" if "b < ns_fresh ?cs" "device_map (lease_state (ns_store ?cs b)) k = Some e" for b k e
  proof (cases "b = a \<and> \<not> is_registration ev")
    case True
    then have "device_map (lease_state (ns_store cs a)) k \<noteq> None"
      using that(2) ns_step_devices [of ev "ns_store cs a" k] by simp
    then show ?thesis using svc_invD(2) [OF assms(1,2)] True unfolding att by auto
  next
    case False
    then show ?thesis using that svc_invD(2) [OF assms(1)] assms(3) unfolding att by (auto split: if_splits)
  qed
  show "b < ns_fresh ?cs \<and> ns_network_code (ns_store ?cs b) = code \<and>
      ns_gateway (ns_store ?cs b) = net_network (ns_net (ns_store ?cs b)) + 1 \<and>
      (\<exists>m. db_nets ?cs code = Some m \<and> ns_net (ns_store ?cs b) = nc_net (mn_config m) \<and>
         ns_lease_duration (ns_store ?cs b) = nc_lease_duration (mn_config m))"
    if "network_states ?cs code = Some b" for code b
    using that svc_invD(3-6) [OF assms(1)] by auto
  show "net_proper (nc_net (mn_config m))" if "db_nets ?cs code = Some m" for code m
    using that svc_invD(7) [OF assms(1)] by simp
qed

text \<open>Dropping a network state that holds no device.\<close>

lemma svc_inv_detach:
  assumes "svc_inv cs" "\<And>a k. network_states cs code = Some a \<Longrightarrow> device_map (lease_state (ns_store cs a)) k = None"
    and "\<And>c m. nets c = Some m \<Longrightarrow> net_proper (nc_net (mn_config m))" "\<And>c. c \<noteq> code \<Longrightarrow> nets c = db_nets cs c"
  shows "svc_inv (cs\<lparr>db_nets := nets, network_states := (network_states cs)(code := None)\<rparr>)"
proof (rule svc_invI)
  let ?cs = "cs\<lparr>db_nets := nets, network_states := (network_states cs)(code := None)\<rparr>"
  show "ns_inv (ns_store ?cs b)" if "b < ns_fresh ?cs" for b
    using that svc_invD(1) [OF assms(1)] by simp
  show "attached ?cs b" if "b < ns_fresh ?cs" "device_map (lease_state (ns_store ?cs b)) k = Some e" for b k e
  proof -
    have b: "attached cs b" using that svc_invD(2) [OF assms(1)] by simp
    then have "ns_network_code (ns_store cs b) \<noteq> code"
      using assms(2) that(2) by (auto simp: attached_def)
    then show ?thesis using b by (simp add: attached_def)
  qed
  show "b < ns_fresh ?cs \<and> ns_network_code (ns_store ?cs b) = c \<and>
      ns_gateway (ns_store ?cs b) = net_network (ns_net (ns_store ?cs b)) + 1 \<and>
      (\<exists>m. db_nets ?cs c = Some m \<and> ns_net (ns_store ?cs b) = nc_net (mn_config m) \<and>
         ns_lease_duration (ns_store ?cs b) = nc_lease_duration (mn_config m))"
    if "network_states ?cs c = Some b" for c b
    using that svc_invD(3-6) [OF assms(1)] assms(4) by (auto split: if_splits)
  show "net_proper (nc_net (mn_config m))" if "db_nets ?cs c = Some m" for c m
    using that assms(3) by simp
qed

text \<open>A network is loaded from the rows of its devices; \<open>loadable\<close> says that they are consistent.\<close>

definition loadable :: "bool \<Rightarrow> string \<Rightarrow> ControlService \<Rightarrow> bool" where
  "loadable io code cs \<longleftrightarrow> network_states cs code = None \<longrightarrow>
     (\<forall>m rs. db_nets cs code = Some m \<longrightarrow> fst (load_all_devices io code (db_pool cs)) = Inr rs \<longrightarrow>
        records_ok (nc_net (mn_config m)) rs)"

lemma load_records_frame:
  "ns_network_code (load_records net g now rs st) = ns_network_code st"
  "ns_lease_duration (load_records net g now rs st) = ns_lease_duration st"
  by (induction rs arbitrary: st) (simp_all add: Let_def)

lemma new_from_db_frame [simp]:
  "ns_network_code (new_from_db code net lease now records) = code"
  "ns_lease_duration (new_from_db code net lease now records) = lease"
  "ns_net (new_from_db code net lease now records) = net"
  "ns_gateway (new_from_db code net lease now records) = net_network net + 1"
  by (simp_all add: new_from_db_def Let_def load_records_frame load_records_net split: option.split)

lemma get_or_create_inv:
  assumes "svc_inv cs" "db_nets cs code = Some m" "loadable io code cs"
    and "get_or_create_network_state io now code (mn_config m) cs = (a, cs')"
  shows "svc_inv cs'" "network_states cs' code = Some a" "db_nets cs' = db_nets cs" "ns_fresh cs \<le> ns_fresh cs'"
proof -
  show "network_states cs' code = Some a" "db_nets cs' = db_nets cs" "ns_fresh cs \<le> ns_fresh cs'"
    using assms(4) by (auto simp: get_or_create_network_state_def Let_def split: option.splits)
  show "svc_inv cs'"
  proof (cases "network_states cs code")
    case (Some b)
    then have "cs' = cs\<lparr>ns_store := (ns_store cs)(b := ns_step (Touch now) (ns_store cs b))\<rparr>"
      using assms(4) by (auto simp: get_or_create_network_state_def)
    then show ?thesis using svc_inv_step [OF assms(1) svc_invD(3) [OF assms(1) Some], of "Touch now"] by simp
  next
    case None
    define records where "records = (case fst (load_all_devices io code (db_pool cs)) of Inl _ \<Rightarrow> None | Inr rs \<Rightarrow> Some rs)"
    define st where "st = new_from_db code (nc_net (mn_config m)) (nc_lease_duration (mn_config m)) now records"
    have cs': "cs' = cs\<lparr>ns_store := (ns_store cs)(ns_fresh cs := st), ns_fresh := ns_fresh cs + 1,
        network_states := (network_states cs)(code \<mapsto> ns_fresh cs)\<rparr>"
      using assms(4) None by (auto simp: get_or_create_network_state_def Let_def st_def records_def)
    have inv: "ns_inv st" unfolding st_def
    proof (rule new_from_db_inv)
      show "net_proper (nc_net (mn_config m))" by (rule svc_invD(7) [OF assms(1,2)])
      show "records_ok (nc_net (mn_config m)) rs" if "records = Some rs" for rs
        using that assms(2,3) None by (auto simp: records_def loadable_def split: sum.splits)
    qed
    have frame: "ns_network_code st = code" "ns_gateway st = net_network (ns_net st) + 1"
      "ns_net st = nc_net (mn_config m)" "ns_lease_duration st = nc_lease_duration (mn_config m)"
      by (simp_all add: st_def)
    show ?thesis unfolding cs'
    proof (rule svc_invI, goal_cases)
      case (1 b)
      then show ?case using inv svc_invD(1) [OF assms(1)] by simp
    next
      case (2 b k e)
      show ?case
      proof (cases "b = ns_fresh cs")
        case True
        then show ?thesis by (simp add: attached_def frame)
      next
        case False
        then have "attached cs b" using 2 svc_invD(2) [OF assms(1), of b k e] by simp
        then show ?thesis using False None by (auto simp: attached_def)
      qed
    next
      case (3 c b)
      then show ?case
        using svc_invD(3-6) [OF assms(1)] frame assms(2) by (fastforce split: if_splits)
    next
      case (4 c m')
      then show ?case using svc_invD(7) [OF assms(1)] by simp
    qed
  qed
qed

lemma register_inv_service:
  assumes "svc_inv cs" "loadable io (rq_network_code r) cs"
    and "register sha hx io now rid sender r cs = (res, cs')"
  shows "svc_inv cs' \<and> ns_fresh cs \<le> ns_fresh cs' \<and>
    (\<forall>se. res = Inr se \<longrightarrow> se_network_state se < ns_fresh cs')"
proof (cases "admit sha hx r cs")
  case (Inl e)
  then show ?thesis using assms by (auto simp: register_def)
next
  case (Inr config)
  then obtain m where m: "db_nets cs (rq_network_code r) = Some m" "config = mn_config m" by (auto simp: admit_Inr)
  obtain a cs1 where g: "get_or_create_network_state io now (rq_network_code r) (mn_config m) cs = (a, cs1)"
    by (cases "get_or_create_network_state io now (rq_network_code r) (mn_config m) cs")
  note i = get_or_create_inv [OF assms(1) m(1) assms(2) g]
  have a: "a < ns_fresh cs1" by (rule svc_invD(3) [OF i(1,2)])
  show ?thesis
  proof (cases "allocate_ip_and_get_entry now r rid sender (ns_store cs1 a)")
    case (Inl e)
    then show ?thesis using assms(3) Inr g i m(2) by (auto simp: register_def)
  next
    case alloc: (Inr x)
    obtain st ip old entry where x: "x = (st, ip, old, entry)" by (cases x)
    have st: "st = ns_step (Register now r rid sender) (ns_store cs1 a)" using alloc x by simp
    have "attached cs1 a" using svc_invD(4) [OF i(1,2)] i(2) by (simp add: attached_def)
    then have "svc_inv (cs1\<lparr>ns_store := (ns_store cs1)(a := st)\<rparr>)"
      unfolding st using svc_inv_step [OF i(1) a, of "Register now r rid sender"] by simp
    then have "svc_inv (cs1\<lparr>ns_store := (ns_store cs1)(a := st), spawned := q\<rparr>)" for q
      by (metis svc_inv_simps(2))
    then show ?thesis using assms(3) Inr g a i(4) m(2) alloc x by (auto simp: register_def)
  qed
qed

lemma drop_session_step:
  "\<exists>ev q. \<not> is_registration ev \<and> drop_session now se cs =
     cs\<lparr>ns_store := (ns_store cs)(se_network_state se := ns_step ev (ns_store cs (se_network_state se))), spawned := q\<rparr>"
proof (cases "se_status se")
  case Confirmed
  then show ?thesis
    by (intro exI [of _ "Offline now (se_device_id se) (se_ip se) (se_random_id se)"])
      (auto simp: drop_session_def Let_def split: prod.split)
next
  case PendingConfirmation
  then show ?thesis
    by (intro exI [of _ "ReleasePre (se_device_id se) (se_ip se) (se_random_id se)"] exI [of _ "spawned cs"])
      (simp add: drop_session_def Let_def)
qed

lemma svc_inv_step_spawn:
  assumes "svc_inv cs" "a < ns_fresh cs" "\<not> is_registration ev"
  shows "svc_inv (cs\<lparr>ns_store := (ns_store cs)(a := ns_step ev (ns_store cs a)), spawned := q\<rparr>)"
  using svc_inv_step [of cs a ev] assms by (metis svc_inv_simps(2))

lemma svc_inv_step_pool:
  assumes "svc_inv cs" "a < ns_fresh cs" "\<not> is_registration ev"
  shows "svc_inv (cs\<lparr>ns_store := (ns_store cs)(a := ns_step ev (ns_store cs a)), db_pool := p\<rparr>)"
  using svc_inv_step [of cs a ev] assms by (metis svc_inv_simps(1))

lemma release_expired_inv:
  assumes "svc_inv cs" "a < ns_fresh cs"
  shows "svc_inv (release_expired_ips io now order a cs)"
  using svc_inv_step_pool [OF assms, of "Expire order now"] assms
  by (simp add: release_expired_ips_def Let_def)

lemma release_one_inv: "svc_inv cs \<Longrightarrow> svc_inv (release_one now code cs)"
proof (cases "network_states cs code")
  case (Some a)
  assume inv: "svc_inv cs"
  have "svc_inv (cs\<lparr>db_nets := db_nets cs, network_states := (network_states cs)(code := None)\<rparr>)"
    if "ns_is_empty (ns_store cs a)"
    by (rule svc_inv_detach [OF inv]) (use Some that svc_invD(7) [OF inv] in \<open>auto simp: ns_is_empty_def\<close>)
  then show ?thesis using inv Some by (simp add: release_one_def)
qed (simp add: release_one_def)

lemma release_one_fresh [simp]: "ns_fresh (release_one now code cs) = ns_fresh cs"
  by (simp add: release_one_def split: option.split)

lemma release_network_inv: "svc_inv cs \<Longrightarrow> svc_inv (release_network now order cs)"
proof -
  have "svc_inv (fold (release_one now) codes cs)" if "svc_inv cs" for codes cs
    using that by (induction codes arbitrary: cs) (simp_all add: release_one_inv)
  then show "svc_inv cs \<Longrightarrow> svc_inv (release_network now order cs)" by (simp add: release_network_def)
qed

lemma release_network_fresh: "ns_fresh (release_network now order cs) = ns_fresh cs"
proof -
  have "ns_fresh (fold (release_one now) codes cs) = ns_fresh cs" for codes cs
    by (induction codes arbitrary: cs) simp_all
  then show ?thesis by (simp add: release_network_def)
qed

lemma network_in_use_Inr:
  "network_in_use io code cs = Inr () \<Longrightarrow> network_states cs code = Some a \<Longrightarrow>
   device_map (lease_state (ns_store cs a)) k = None"
  by (auto simp: network_in_use_def split: sum.splits option.splits if_splits)

text \<open>What the administration of networks does when it succeeds, and when it does not.\<close>

abbreviation managed :: "Ipv4Net \<Rightarrow> nat \<Rightarrow> NetworkSource \<Rightarrow> string \<Rightarrow> ManagedNetwork" where
  "managed net lease src s \<equiv>
     \<lparr>mn_config = \<lparr>nc_net = net, nc_lease_duration = lease, nc_source = src\<rparr>, mn_secret = s\<rparr>"

abbreviation network_rec :: "string \<Rightarrow> ipv4 \<Rightarrow> u8 \<Rightarrow> string \<Rightarrow> nat \<Rightarrow> NetworkSource \<Rightarrow> i64 \<Rightarrow> NetworkRecord" where
  "network_rec code gw nm s lease src now \<equiv>
     \<lparr>nr_network_code = code, nr_gateway = ip_to_string gw, nr_netmask = nm, nr_secret = s,
      nr_lease_duration = word_of_nat (lease div 1000), nr_source = src, nr_created_at = now\<rparr>"

abbreviation lease_or_default :: "nat option \<Rightarrow> ControlService \<Rightarrow> nat" where
  "lease_or_default lease cs \<equiv> (case lease of Some l \<Rightarrow> l | None \<Rightarrow> default_lease_duration cs)"

lemma only_pool: "\<exists>p. cs = cs\<lparr>db_pool := p\<rparr>"
  by (rule exI [of _ "db_pool cs"]) simp

lemma add_network_Inr:
  assumes "add_network net_new io now code gw nm lease s cs = (Inr (), cs')"
  shows "\<exists>net p. validate_network_code_value code ''network_code'' = Inr () \<and>
    validate_network_secret_value code s = Inr () \<and> db_nets cs code = None \<and>
    build_network_from_gateway net_new gw nm = Inr net \<and>
    save_network io (network_rec code gw nm s (lease_or_default lease cs) SourceManual now) (db_pool cs) = (Inr (), p) \<and>
    cs' = cs\<lparr>db_pool := p, db_nets := (db_nets cs)(code \<mapsto> managed net (lease_or_default lease cs) SourceManual s)\<rparr>"
  using assms by (auto simp: add_network_def Let_def split: sum.splits prod.splits if_splits)

lemma add_network_Inl:
  "add_network net_new io now code gw nm lease s cs = (Inl e, cs') \<Longrightarrow> \<exists>p. cs' = cs\<lparr>db_pool := p\<rparr>"
  by (auto simp: add_network_def Let_def only_pool split: sum.splits prod.splits if_splits)

lemma update_network_Inr:
  assumes "update_network net_new io io' code gw nm lease s cs = (Inr (), cs')"
  shows "\<exists>net p m b. validate_network_secret_value code s = Inr () \<and> db_nets cs code = Some m \<and>
    network_in_use io code cs = Inr () \<and> build_network_from_gateway net_new gw nm = Inr net \<and>
    db_update_network io' code (ip_to_string gw) nm s (word_of_nat (lease div 1000)) (db_pool cs) = (Inr b, p) \<and>
    cs' = cs\<lparr>db_pool := p, db_nets := (db_nets cs)(code \<mapsto> managed net lease (nc_source (mn_config m)) s),
      network_states := (network_states cs)(code := None)\<rparr>"
  using assms by (auto simp: update_network_def split: sum.splits prod.splits if_splits)

lemma update_network_Inl:
  "update_network net_new io io' code gw nm lease s cs = (Inl e, cs') \<Longrightarrow> \<exists>p. cs' = cs\<lparr>db_pool := p\<rparr>"
  by (auto simp: update_network_def only_pool split: sum.splits prod.splits if_splits)

lemma delete_network_Inr:
  assumes "delete_network io io' code cs = (Inr (), cs')"
  shows "\<exists>p m b. code \<noteq> DEFAULT_NETWORK_CODE \<and> db_nets cs code = Some m \<and> network_in_use io code cs = Inr () \<and>
    db_delete_network io' code (db_pool cs) = (Inr b, p) \<and>
    cs' = cs\<lparr>db_pool := p, db_nets := (db_nets cs)(code := None), network_states := (network_states cs)(code := None)\<rparr>"
  using assms by (auto simp: delete_network_def split: sum.splits prod.splits if_splits)

lemma delete_network_Inl:
  "delete_network io io' code cs = (Inl e, cs') \<Longrightarrow> \<exists>p. cs' = cs\<lparr>db_pool := p\<rparr>"
  by (auto simp: delete_network_def only_pool split: sum.splits prod.splits if_splits)

lemma add_network_inv:
  assumes "ipnet_ok net_new" "svc_inv cs" "add_network net_new io now code gw nm lease s cs = (res, cs')"
  shows "svc_inv cs' \<and> ns_fresh cs' = ns_fresh cs"
proof (cases res)
  case (Inl e)
  then show ?thesis using add_network_Inl assms(2,3) by fastforce
next
  case (Inr u)
  then have "add_network net_new io now code gw nm lease s cs = (Inr (), cs')" using assms(3) by simp
  then obtain net p where n: "db_nets cs code = None" "build_network_from_gateway net_new gw nm = Inr net"
      "cs' = cs\<lparr>db_pool := p, db_nets := (db_nets cs)(code \<mapsto> managed net (lease_or_default lease cs) SourceManual s)\<rparr>"
    using add_network_Inr by blast
  have p: "net_proper net" by (rule built_net_proper [OF assms(1) n(2)])
  have ns: "network_states cs code = None"
    using svc_invD(6) [OF assms(2), of code] n(1) by (cases "network_states cs code") auto
  have "svc_inv cs'" unfolding n(3)
  proof (rule svc_invI, goal_cases)
    case (1 a)
    then show ?case using svc_invD(1) [OF assms(2)] by simp
  next
    case (2 a k e)
    then show ?case using svc_invD(2) [OF assms(2)] by (simp add: attached_def)
  next
    case (3 c a)
    then show ?case using svc_invD(3-6) [OF assms(2)] ns by auto
  next
    case (4 c m')
    then show ?case using svc_invD(7) [OF assms(2)] p by (auto split: if_splits)
  qed
  then show ?thesis by (simp add: n(3))
qed

lemma update_network_inv:
  assumes "ipnet_ok net_new" "svc_inv cs" "update_network net_new io io' code gw nm lease s cs = (res, cs')"
  shows "svc_inv cs' \<and> ns_fresh cs' = ns_fresh cs"
proof (cases res)
  case (Inl e)
  then show ?thesis using update_network_Inl assms(2,3) by fastforce
next
  case (Inr u)
  then have "update_network net_new io io' code gw nm lease s cs = (Inr (), cs')" using assms(3) by simp
  then obtain net p and m :: ManagedNetwork
    where n: "network_in_use io code cs = Inr ()" "build_network_from_gateway net_new gw nm = Inr net"
      "cs' = cs\<lparr>db_pool := p, db_nets := (db_nets cs)(code \<mapsto> managed net lease (nc_source (mn_config m)) s),
        network_states := (network_states cs)(code := None)\<rparr>"
    using update_network_Inr [of net_new io io' code gw nm lease s cs cs'] by blast
  have p: "net_proper net" by (rule built_net_proper [OF assms(1) n(2)])
  have "svc_inv (cs\<lparr>db_nets := (db_nets cs)(code \<mapsto> managed net lease (nc_source (mn_config m)) s),
      network_states := (network_states cs)(code := None)\<rparr>)"
  proof (rule svc_inv_detach [OF assms(2)])
    show "device_map (lease_state (ns_store cs a)) k = None" if "network_states cs code = Some a" for a k
      by (rule network_in_use_Inr [OF n(1) that])
    show "net_proper (nc_net (mn_config m'))"
      if "((db_nets cs)(code \<mapsto> managed net lease (nc_source (mn_config m)) s)) c = Some m'" for c m'
      using that p svc_invD(7) [OF assms(2)] by (auto split: if_splits)
  qed simp
  then have "svc_inv cs'" unfolding n(3) svc_inv_def attached_def by simp
  then show ?thesis by (simp add: n(3))
qed

lemma delete_network_inv:
  assumes "svc_inv cs" "delete_network io io' code cs = (res, cs')"
  shows "svc_inv cs' \<and> ns_fresh cs' = ns_fresh cs"
proof (cases res)
  case (Inl e)
  then show ?thesis using delete_network_Inl assms by fastforce
next
  case (Inr u)
  then have "delete_network io io' code cs = (Inr (), cs')" using assms(2) by simp
  then obtain p where n: "network_in_use io code cs = Inr ()"
      "cs' = cs\<lparr>db_pool := p, db_nets := (db_nets cs)(code := None), network_states := (network_states cs)(code := None)\<rparr>"
    using delete_network_Inr by blast
  have "svc_inv (cs\<lparr>db_nets := (db_nets cs)(code := None), network_states := (network_states cs)(code := None)\<rparr>)"
    by (rule svc_inv_detach [OF assms(1)])
      (use network_in_use_Inr [OF n(1)] svc_invD(7) [OF assms(1)] in \<open>auto split: if_splits\<close>)
  then have "svc_inv cs'" unfolding n(2) svc_inv_def attached_def by simp
  then show ?thesis by (simp add: n(2))
qed

lemma delete_device_inv:
  assumes "svc_inv cs" "delete_device io code k cs = (res, cs')"
  shows "svc_inv cs' \<and> ns_fresh cs' = ns_fresh cs"
proof (cases "network_states cs code")
  case None
  then show ?thesis using assms by (auto simp: delete_device_def Let_def split: prod.splits sum.splits)
next
  case (Some a)
  then have "svc_inv (cs\<lparr>ns_store := (ns_store cs)(a := ns_step (Forget k) (ns_store cs a)), db_pool := p\<rparr>)" for p
    by (intro svc_inv_step_pool [OF assms(1) svc_invD(3) [OF assms(1)]]) simp_all
  then show ?thesis
    using assms Some by (auto simp: delete_device_def Let_def split: prod.splits sum.splits if_splits)
qed

section \<open>Runs of the service\<close>

text \<open>
  A state is the service with the sessions of its connections. Every operation of the service, every use
  a connection makes of its session, the execution of a spawned task and the clean-up are steps.
\<close>

fun session_event :: "ns_event \<Rightarrow> bool" where
  "session_event (Latency _ _) = True"
| "session_event (Tx _ _) = True"
| "session_event (Rx _ _) = True"
| "session_event _ = False"

inductive service_step :: "(bytes \<Rightarrow> bytes) \<Rightarrow> (bytes \<Rightarrow> string) \<Rightarrow> (ipv4 \<Rightarrow> u8 \<Rightarrow> Ipv4Net option)
    \<Rightarrow> ControlService \<times> Session list \<Rightarrow> ControlService \<times> Session list \<Rightarrow> bool"
  for sha hx net_new where
  registered: "register sha hx io now rid sender r cs = (Inr se, cs') \<Longrightarrow> loadable io (rq_network_code r) cs \<Longrightarrow>
    service_step sha hx net_new (cs, ss) (cs', se # ss)"
| refused: "register sha hx io now rid sender r cs = (Inl e, cs') \<Longrightarrow> loadable io (rq_network_code r) cs \<Longrightarrow>
    service_step sha hx net_new (cs, ss) (cs', ss)"
| confirmed: "se \<in> set ss \<Longrightarrow> se_status se = PendingConfirmation \<Longrightarrow>
    confirm_registration io (se_network_code se) (se_device_id se) (ns_store cs (se_network_state se)) (db_pool cs)
      = (Inr (), p) \<Longrightarrow>
    service_step sha hx net_new (cs, ss)
      (cs\<lparr>db_pool := p\<rparr>, se\<lparr>se_status := Confirmed\<rparr> # remove1 se ss)"
| dropped: "se \<in> set ss \<Longrightarrow> service_step sha hx net_new (cs, ss) (drop_session now se cs, remove1 se ss)"
| used: "se \<in> set ss \<Longrightarrow> session_event ev \<Longrightarrow>
    a = se_network_state se \<or> network_states cs (se_network_code se) = Some a \<Longrightarrow>
    service_step sha hx net_new (cs, ss) (cs\<lparr>ns_store := (ns_store cs)(a := ns_step ev (ns_store cs a))\<rparr>, ss)"
| task_run: "service_step sha hx net_new (cs, ss) (run_spawned io i cs, ss)"
| expiry: "network_states cs code = Some a \<Longrightarrow>
    service_step sha hx net_new (cs, ss) (release_expired_ips ios now order a cs, ss)"
| idle: "service_step sha hx net_new (cs, ss) (release_network now order cs, ss)"
| network_added: "add_network net_new io created code gw nm l s cs = (res, cs') \<Longrightarrow>
    service_step sha hx net_new (cs, ss) (cs', ss)"
| network_updated: "update_network net_new io io' code gw nm lease s cs = (res, cs') \<Longrightarrow>
    service_step sha hx net_new (cs, ss) (cs', ss)"
| network_deleted: "delete_network io io' code cs = (res, cs') \<Longrightarrow> service_step sha hx net_new (cs, ss) (cs', ss)"
| device_deleted: "delete_device io code k cs = (res, cs') \<Longrightarrow> service_step sha hx net_new (cs, ss) (cs', ss)"

inductive_cases service_stepE: "service_step sha hx net_new (cs, ss) (cs', ss')"

text \<open>A network state keeps its code.\<close>

definition same_codes :: "ControlService \<Rightarrow> ControlService \<Rightarrow> bool" where
  "same_codes cs cs' \<longleftrightarrow> ns_fresh cs \<le> ns_fresh cs' \<and>
     (\<forall>a < ns_fresh cs. ns_network_code (ns_store cs' a) = ns_network_code (ns_store cs a))"

lemma same_codes_store:
  "ns_fresh cs' = ns_fresh cs \<Longrightarrow> ns_store cs' = ns_store cs \<Longrightarrow> same_codes cs cs'"
  by (simp add: same_codes_def)

lemma same_codes_step:
  "ns_fresh cs' = ns_fresh cs \<Longrightarrow> ns_store cs' = (ns_store cs)(a := ns_step ev (ns_store cs a)) \<Longrightarrow> same_codes cs cs'"
  by (simp add: same_codes_def)

lemma get_or_create_codes:
  "get_or_create_network_state io now code config cs = (a, cs') \<Longrightarrow> same_codes cs cs'"
  by (auto simp: get_or_create_network_state_def same_codes_def Let_def update_time_def split: option.splits)

lemma register_result:
  assumes "register sha hx io now rid sender r cs = (Inr se, cs')"
  shows "\<exists>config a cs1 st ip old entry. admit sha hx r cs = Inr config \<and>
    get_or_create_network_state io now (rq_network_code r) config cs = (a, cs1) \<and>
    allocate_ip_and_get_entry now r rid sender (ns_store cs1 a) = Inr (st, ip, old, entry) \<and>
    se = \<lparr>se_network_code = rq_network_code r, se_device_id = rq_device_id r, se_ip = ip, se_random_id = rid,
          se_network_state = a, se_status = (case rq_mode r of Normal \<Rightarrow> Confirmed | PreRegister \<Rightarrow> PendingConfirmation)\<rparr> \<and>
    cs' = cs1\<lparr>ns_store := (ns_store cs1)(a := st), spawned := spawned cs1 @ (case entry of
        Some e \<Rightarrow> if rq_mode r = Normal then [SaveEntry a (rq_network_code r) e] else [] | None \<Rightarrow> [])\<rparr>"
  using assms by (auto simp: register_def split: sum.splits prod.splits)

lemma register_codes:
  assumes "register sha hx io now rid sender r cs = (res, cs')"
  shows "same_codes cs cs'"
proof (cases "admit sha hx r cs")
  case (Inr config)
  obtain a cs1 where g: "get_or_create_network_state io now (rq_network_code r) config cs = (a, cs1)"
    by (cases "get_or_create_network_state io now (rq_network_code r) config cs")
  show ?thesis
  proof (cases "allocate_ip_and_get_entry now r rid sender (ns_store cs1 a)")
    case (Inl e)
    then show ?thesis using assms Inr g get_or_create_codes [OF g] by (simp add: register_def)
  next
    case al: (Inr x)
    have "ns_network_code (fst x) = ns_network_code (ns_store cs1 a)"
      using ns_step_frame(3) [of "Register now r rid sender" "ns_store cs1 a"] al by (cases x) simp
    then have "same_codes cs1 cs'" using assms Inr g al by (cases x) (auto simp: register_def same_codes_def)
    then show ?thesis using get_or_create_codes [OF g] by (auto simp: same_codes_def)
  qed
qed (use assms in \<open>simp add: register_def same_codes_def\<close>)

lemma admin_codes:
  "add_network net_new io created code gw nm l s cs = (res, cs') \<Longrightarrow> same_codes cs cs'"
  "update_network net_new io io' code gw nm lease s cs = (res, cs') \<Longrightarrow> same_codes cs cs'"
  "delete_network io io' code cs = (res, cs') \<Longrightarrow> same_codes cs cs'"
  "delete_device io code k cs = (res, cs') \<Longrightarrow> same_codes cs cs'"
proof -
  show "same_codes cs cs'" if "add_network net_new io created code gw nm l s cs = (res, cs')"
    using that by (auto simp: add_network_def Let_def same_codes_def split: sum.splits prod.splits if_splits)
  show "same_codes cs cs'" if "update_network net_new io io' code gw nm lease s cs = (res, cs')"
    using that by (auto simp: update_network_def same_codes_def split: sum.splits prod.splits if_splits)
  show "same_codes cs cs'" if "delete_network io io' code cs = (res, cs')"
    using that by (auto simp: delete_network_def same_codes_def split: sum.splits prod.splits if_splits)
  show "same_codes cs cs'" if d: "delete_device io code k cs = (res, cs')"
  proof (cases "network_states cs code")
    case None
    then show ?thesis using d by (auto simp: delete_device_def same_codes_def split: sum.splits prod.splits)
  next
    case (Some a)
    have "ns_network_code (fst (remove_device_from_memory k st)) = ns_network_code st" for st
      using ns_step_frame(3) [of "Forget k" st] by simp
    then show ?thesis using d Some
      by (auto simp: delete_device_def same_codes_def Let_def split: sum.splits prod.splits if_splits)
  qed
qed

lemma release_network_store: "ns_store (release_network now order cs) = ns_store cs"
proof -
  have "ns_store (fold (release_one now) codes cs) = ns_store cs" for codes cs
    by (induction codes arbitrary: cs) (simp_all add: release_one_def split: option.split)
  then show ?thesis by (simp add: release_network_def)
qed

lemma service_step_codes:
  assumes "service_step sha hx net_new x y"
  shows "same_codes (fst x) (fst y)"
  using assms
proof (induction rule: service_step.cases)
  case (dropped se ss cs now)
  then show ?case using drop_session_step [of now se cs] by (auto intro: same_codes_step)
next
  case (used se ss ev a cs)
  then show ?case by (auto intro: same_codes_step)
next
  case (task_run cs ss io i)
  then show ?case by (auto simp: run_spawned_def intro: same_codes_store)
next
  case (expiry cs code a ss ios now order)
  then show ?case by (auto simp: release_expired_ips_def same_codes_def Let_def ns_remove_devices_def)
next
  case (idle cs ss now order)
  then show ?case by (auto simp: release_network_fresh release_network_store intro: same_codes_store)
qed (auto intro: register_codes admin_codes same_codes_store)

definition service_ok :: "ControlService \<times> Session list \<Rightarrow> bool" where
  "service_ok x \<longleftrightarrow> svc_inv (fst x) \<and> (\<forall>se \<in> set (snd x). se_network_state se < ns_fresh (fst x) \<and>
     ns_network_code (ns_store (fst x) (se_network_state se)) = se_network_code se)"

lemma run_spawned_inv: "svc_inv (run_spawned io i cs) = svc_inv cs"
  by (simp add: run_spawned_def svc_inv_def attached_def)

lemma service_step_inv:
  assumes "ipnet_ok net_new" "service_step sha hx net_new x y" "svc_inv (fst x)"
    and "\<And>se. se \<in> set (snd x) \<Longrightarrow> se_network_state se < ns_fresh (fst x)"
  shows "svc_inv (fst y)"
  using assms(2-4)
proof (induction rule: service_step.cases)
  case (registered io now rid sender r cs se cs' ss)
  then show ?case using register_inv_service [of cs io r sha hx now rid sender "Inr se" cs'] by simp
next
  case (refused io now rid sender r cs e cs' ss)
  then show ?case using register_inv_service [of cs io r sha hx now rid sender "Inl e" cs'] by simp
next
  case (dropped se ss cs now)
  then show ?case using drop_session_step [of now se cs] svc_inv_step_spawn by auto
next
  case (used se ss ev a cs)
  moreover have "\<not> is_registration ev" using used(4) by (cases ev) auto
  moreover have "a < ns_fresh cs" using used svc_invD(3) [of cs] by auto
  ultimately show ?case using svc_inv_step [of cs a ev] by simp
next
  case (expiry cs code a ss ios now order)
  then show ?case using release_expired_inv svc_invD(3) by simp
qed (use assms(1) in \<open>auto simp: run_spawned_inv release_network_inv
    dest: add_network_inv update_network_inv delete_network_inv delete_device_inv\<close>)

lemma service_step_sessions:
  assumes "service_step sha hx net_new x y" "service_ok x" "se \<in> set (snd y)"
  shows "se_network_state se < ns_fresh (fst y) \<and> ns_network_code (ns_store (fst y) (se_network_state se)) = se_network_code se"
proof -
  have old: ?thesis if "se' \<in> set (snd x)" "se_network_state se' = se_network_state se" "se_network_code se' = se_network_code se" for se'
    using that assms(2) service_step_codes [OF assms(1)] by (auto simp: service_ok_def same_codes_def)
  show ?thesis
    using assms(1)
  proof (cases rule: service_step.cases)
    case (registered io now rid sender r cs se' cs' ss)
    show ?thesis
    proof (cases "se = se'")
      case True
      obtain config a cs1 st where r: "admit sha hx r cs = Inr config"
          "get_or_create_network_state io now (rq_network_code r) config cs = (a, cs1)"
          "se_network_state se = a" "se_network_code se = rq_network_code r"
          "ns_store cs' a = st" "ns_fresh cs' = ns_fresh cs1" "\<exists>y. allocate_ip_and_get_entry now r rid sender (ns_store cs1 a) = Inr (st, y)"
        using register_result [OF registered(3)] True by auto
      obtain m where m: "db_nets cs (rq_network_code r) = Some m" "config = mn_config m"
        using r(1) by (auto simp: admit_Inr)
      have inv: "svc_inv cs" using assms(2) registered by (simp add: service_ok_def)
      note i = get_or_create_inv [OF inv m(1) registered(4) r(2) [unfolded m(2)]]
      have "ns_network_code st = ns_network_code (ns_store cs1 a)"
        using ns_step_frame(3) [of "Register now r rid sender" "ns_store cs1 a"] r(7) by auto
      then show ?thesis using svc_invD(3,4) [OF i(1,2)] r registered by simp
    next
      case False
      then show ?thesis using old [of se] assms(3) registered by simp
    qed
  next
    case (confirmed se' ss io cs p)
    then obtain s0 where "s0 \<in> set (snd x)" "se_network_state s0 = se_network_state se" "se_network_code s0 = se_network_code se"
      using assms(3) set_remove1_subset [of se' ss] by fastforce
    then show ?thesis by (rule old)
  next
    case (dropped se' ss cs now)
    then show ?thesis using old [of se] assms(3) set_remove1_subset by fastforce
  qed (use old [of se] assms(3) in auto)
qed

lemma service_step_ok:
  assumes "ipnet_ok net_new" "service_step sha hx net_new x y" "service_ok x"
  shows "service_ok y"
  using service_step_inv [OF assms(1,2)] service_step_sessions [OF assms(2,3)] assms(3)
  by (auto simp: service_ok_def)

lemma service_run_ok:
  assumes "ipnet_ok net_new" "(service_step sha hx net_new)\<^sup>*\<^sup>* x y" "service_ok x"
  shows "service_ok y"
  using assms(2,3) by (induction rule: rtranclp_induct) (auto intro: service_step_ok [OF assms(1)])

end
