(* ===== verification/ServiceSafety.thy ===== *)
theory ServiceSafety
  imports ServiceProps
begin

text \<open>
  What the control service guarantees to its clients and its operator: admission needs the network's
  secret, live sessions of a network are isolated in every run, memory and database hold the same
  networks, and a first start seeds the database with the configured networks.
\<close>

section \<open>A concrete server\<close>

definition demo_net_new :: "ipv4 \<Rightarrow> u8 \<Rightarrow> Ipv4Net option" where
  "demo_net_new a p =
     (if p \<le> 32
      then (let lo = a AND NOT (mask (32 - unat p)); hi = a OR mask (32 - unat p)
            in Some \<lparr>net_network = lo, net_broadcast = hi, net_prefix_len = p,
                     net_contains = (\<lambda>ip. lo \<le> ip \<and> ip \<le> hi)\<rparr>)
      else None)"

lemma demo_net_new_ok: "ipnet_ok demo_net_new"
proof -
  have "a AND NOT m \<le> a OR m" for a m :: ipv4
    by (rule order_trans [OF word_and_le2 le_word_or2])
  then show ?thesis
    by (auto simp: ipnet_ok_def demo_net_new_def Let_def net_ok_def not_le not_less split: if_splits)
qed

definition demo_sha :: "bytes \<Rightarrow> bytes" where "demo_sha bs = drop 9 bs"

definition demo_hex :: "bytes \<Rightarrow> string" where "demo_hex bs = map (\<lambda>b. char_of (unat b)) bs"

definition demo_service :: ControlService where
  "demo_service = ControlService_new demo_net_new True True (\<lambda>_. True) 0 demo_config 60000
     (\<lambda>_. demo_start) None"

definition demo_signed :: "RegistrationMode \<Rightarrow> string \<Rightarrow> ipv4 option \<Rightarrow> RegRequestMsg" where
  "demo_signed mode device ip =
     \<lparr>rq_network_code = ''default'', rq_device_id = device, rq_ip = ip, rq_name = ''n'', rq_version = ''2'',
      rq_key_sign = Some ''Aa0!bcdefghijklm'', rq_ip_variable = False, rq_server_id = 0, rq_mode = mode\<rparr>"

lemma demo_key: "key_sign demo_sha demo_hex ''Aa0!bcdefghijklmnopqrstuvwxyz012'' = ''Aa0!bcdefghijklm''"
  by code_simp

lemma demo_secret_good:
  "validate_network_secret_value code ''Aa0!bcdefghijklmnopqrstuvwxyz012'' = Inr ()"
  unfolding validate_network_secret_value_def
  by (simp add: chars_of_def is_whitespace_def Let_def is_ascii_lowercase_def is_ascii_uppercase_def
    is_ascii_digit_def is_ascii_alphanumeric_def)

section \<open>Admission\<close>

text \<open>A session is live as long as the registry holds it for its device.\<close>

definition session_live :: "ControlService \<Rightarrow> Session \<Rightarrow> bool" where
  "session_live cs se \<longleftrightarrow>
     ns_session (ns_store cs (se_network_state se)) (se_device_id se) = Some (se_random_id se, se_ip se)"

lemma register_spec:
  assumes "svc_inv cs" "loadable io (rq_network_code r) cs"
    and "register sha hx io now rid sender r cs = (res, cs')"
  shows "((\<exists>se. res = Inr se) \<longleftrightarrow>
      reg_check r = Inr () \<and>
      (\<exists>m. db_nets cs (rq_network_code r) = Some m \<and>
        validate_network_secret_value (rq_network_code r) (mn_secret m) = Inr () \<and>
        rq_key_sign r = Some (key_sign sha hx (mn_secret m)) \<and>
        (\<exists>a cs1 x. get_or_create_network_state io now (rq_network_code r) (mn_config m) cs = (a, cs1) \<and>
           allocate_ip_and_get_entry now r rid sender (ns_store cs1 a) = Inr x)) \<and>
      (cs_white_list cs = [] \<or> rq_network_code r \<in> set (cs_white_list cs))) \<and>
    (case res of
       Inr se \<Rightarrow> se_network_code se = rq_network_code r \<and> se_device_id se = rq_device_id r \<and> se_random_id se = rid \<and>
         se_status se = (case rq_mode r of Normal \<Rightarrow> Confirmed | PreRegister \<Rightarrow> PendingConfirmation) \<and>
         network_states cs' (rq_network_code r) = Some (se_network_state se) \<and> session_live cs' se \<and>
         sender_map (ns_store cs' (se_network_state se)) (se_ip se) = Some sender \<and>
         (\<exists>m. db_nets cs' (rq_network_code r) = Some m \<and>
            ns_net (ns_store cs' (se_network_state se)) = nc_net (mn_config m))
     | Inl e \<Rightarrow> (admit sha hx r cs = Inl e \<and> cs' = cs) \<or>
         (\<forall>a < ns_fresh cs. lease_state (ns_store cs' a) = lease_state (ns_store cs a)) \<and> db_pool cs' = db_pool cs)"
proof (cases "admit sha hx r cs")
  case (Inl e)
  then have "res = Inl e" "cs' = cs" using assms(3) by (simp_all add: register_def)
  moreover have "\<not> (reg_check r = Inr () \<and> (\<exists>m. db_nets cs (rq_network_code r) = Some m \<and>
        validate_network_secret_value (rq_network_code r) (mn_secret m) = Inr () \<and>
        rq_key_sign r = Some (key_sign sha hx (mn_secret m))) \<and>
      (cs_white_list cs = [] \<or> rq_network_code r \<in> set (cs_white_list cs)))"
    using Inl admit_Inr [of sha hx r cs] by (metis Inl_Inr_False)
  ultimately show ?thesis using Inl by auto
next
  case (Inr config)
  then obtain m where m: "db_nets cs (rq_network_code r) = Some m" "config = mn_config m"
    and ok: "reg_check r = Inr ()" "validate_network_secret_value (rq_network_code r) (mn_secret m) = Inr ()"
      "rq_key_sign r = Some (key_sign sha hx (mn_secret m))"
      "cs_white_list cs = [] \<or> rq_network_code r \<in> set (cs_white_list cs)" by (auto simp: admit_Inr)
  obtain a cs1 where g: "get_or_create_network_state io now (rq_network_code r) (mn_config m) cs = (a, cs1)"
    by (cases "get_or_create_network_state io now (rq_network_code r) (mn_config m) cs")
  note i = get_or_create_inv [OF assms(1) m(1) assms(2) g]
  have a: "a < ns_fresh cs1" by (rule svc_invD(3) [OF i(1,2)])
  have pool: "db_pool cs1 = db_pool cs"
    using g by (auto simp: get_or_create_network_state_def Let_def split: option.splits)
  have lease: "lease_state (ns_store cs1 b) = lease_state (ns_store cs b)" if "b < ns_fresh cs" for b
    using g that by (auto simp: get_or_create_network_state_def Let_def update_time_def split: option.splits)
  show ?thesis
  proof (cases "allocate_ip_and_get_entry now r rid sender (ns_store cs1 a)")
    case al: (Inl e)
    have "res = Inl e" "cs' = cs1" using assms(3) Inr g m(2) al by (simp_all add: register_def)
    then show ?thesis using m(1) g al pool lease by simp
  next
    case al: (Inr x)
    obtain st ip old entry where x: "x = (st, ip, old, entry)" by (cases x)
    define se where "se = \<lparr>se_network_code = rq_network_code r, se_device_id = rq_device_id r, se_ip = ip,
      se_random_id = rid, se_network_state = a,
      se_status = (case rq_mode r of Normal \<Rightarrow> Confirmed | PreRegister \<Rightarrow> PendingConfirmation)\<rparr>"
    have r: "res = Inr se" "ns_store cs' a = st" "network_states cs' = network_states cs1" "db_nets cs' = db_nets cs1"
      using assms(3) Inr g m(2) al x by (auto simp: register_def se_def)
    have "ns_session st (rq_device_id r) = Some (rid, ip) \<and> sender_map st ip = Some sender"
      using ns_acquire_laws(2) [OF svc_invD(1) [OF i(1) a], of "(r, now)" rid sender st ip] al x
      by (simp add: ns_acquire_def)
    moreover have "ns_net st = ns_net (ns_store cs1 a)"
      using ns_step_frame(1) [of "Register now r rid sender" "ns_store cs1 a"] al x by simp
    ultimately show ?thesis
      using r m(1) ok g al [unfolded x] i svc_invD(6) [OF i(1,2)] by (auto simp: session_live_def se_def)
  qed
qed

lemma registration_live:
  assumes "svc_inv cs" "loadable io (rq_network_code r) cs"
    and "register sha hx io now rid sender r cs = (Inr se, cs')"
  shows "session_live cs' se"
  using register_spec [OF assms] by simp

text \<open>C4 Nobody joins a network without its secret. A registration is answered with a session exactly when the
  request is well formed, its network is managed and has a strong secret, the request is signed with that
  secret, the white list (if any) names the network, and the network's registry grants an address; the
  session is then live in the state of that network, on the managed subnet, with its channel installed.
  A request that is not admitted changes nothing at all, and one that gets no address changes no lease.\<close>

theorem registration_requires_secret:
  assumes "svc_inv cs" "loadable io (rq_network_code r) cs"
    and "register sha hx io now rid sender r cs = (res, cs')"
  shows "((\<exists>se. res = Inr se) \<longleftrightarrow>
      reg_check r = Inr () \<and>
      (\<exists>m. db_nets cs (rq_network_code r) = Some m \<and>
        validate_network_secret_value (rq_network_code r) (mn_secret m) = Inr () \<and>
        rq_key_sign r = Some (key_sign sha hx (mn_secret m)) \<and>
        (\<exists>a cs1 x. get_or_create_network_state io now (rq_network_code r) (mn_config m) cs = (a, cs1) \<and>
           allocate_ip_and_get_entry now r rid sender (ns_store cs1 a) = Inr x)) \<and>
      (cs_white_list cs = [] \<or> rq_network_code r \<in> set (cs_white_list cs))) \<and>
    (case res of
       Inr se \<Rightarrow> se_network_code se = rq_network_code r \<and> se_device_id se = rq_device_id r \<and> se_random_id se = rid \<and>
         se_status se = (case rq_mode r of Normal \<Rightarrow> Confirmed | PreRegister \<Rightarrow> PendingConfirmation) \<and>
         network_states cs' (rq_network_code r) = Some (se_network_state se) \<and> session_live cs' se \<and>
         sender_map (ns_store cs' (se_network_state se)) (se_ip se) = Some sender \<and>
         (\<exists>m. db_nets cs' (rq_network_code r) = Some m \<and>
            ns_net (ns_store cs' (se_network_state se)) = nc_net (mn_config m))
     | Inl e \<Rightarrow> (admit sha hx r cs = Inl e \<and> cs' = cs) \<or>
         (\<forall>a < ns_fresh cs. lease_state (ns_store cs' a) = lease_state (ns_store cs a)) \<and> db_pool cs' = db_pool cs)"
  by (rule register_spec [OF assms])

lemma demo_service_eq: "demo_service = \<lparr>default_lease_duration = 60000,
    db_nets = [''default'' \<mapsto> managed demo_net 60000 SourceConfig ''Aa0!bcdefghijklmnopqrstuvwxyz012''],
    cs_white_list = [], network_states = Map.empty, ns_store = (\<lambda>_. demo_start), ns_fresh = 0, db_pool = None,
    spawned = []\<rparr>"
  by (simp add: demo_service_def ControlService_new_def load_or_initialize_networks_def db_pool_initialized_def
    demo_config_def demo_net_def DEFAULT_NETWORK_CODE_def)

lemma demo_service_inv: "svc_inv demo_service"
  using demo_net_proper by (auto simp: demo_service_eq svc_inv_def split: if_splits)

lemma demo_registers:
  "\<exists>se cs'. register demo_sha demo_hex True 5 77 3 (demo_signed Normal ''a'' (Some 0x0A1A0007)) demo_service = (Inr se, cs') \<and>
    se_network_code se = ''default'' \<and> se_ip se = 0x0A1A0007"
  by (simp add: register_def demo_service_eq admit_def reg_check_def validate_registration_def demo_secret_good demo_key
    demo_signed_def network_config_def get_or_create_network_state_def load_all_devices_def new_from_db_def
    allocate_ip_and_get_entry_def allocate_ip_def place_def check_requested_def demo_net_def
    MAX_NETWORK_CODE_LEN_def MAX_DEVICE_ID_LEN_def MAX_NAME_LEN_def MAX_VERSION_LEN_def Let_def)

theorem registration_requires_secret_witness:
  "\<exists>se cs'. register demo_sha demo_hex True 5 77 3 (demo_signed Normal ''a'' (Some 0x0A1A0007)) demo_service = (Inr se, cs') \<and>
    session_live cs' se \<and> rq_key_sign (demo_signed Normal ''a'' (Some 0x0A1A0007)) \<noteq> None"
proof -
  obtain se cs' where r: "register demo_sha demo_hex True 5 77 3 (demo_signed Normal ''a'' (Some 0x0A1A0007)) demo_service
      = (Inr se, cs')"
    using demo_registers by blast
  have l: "loadable True (rq_network_code (demo_signed Normal ''a'' (Some 0x0A1A0007))) demo_service"
    by (simp add: loadable_def demo_service_eq load_all_devices_def records_ok_def)
  show ?thesis using registration_requires_secret [OF demo_service_inv l r] r by auto
qed

section \<open>Isolation of sessions\<close>

lemma config_nets_proper:
  assumes "\<forall>(code, net) \<in> set nets. net_proper net" "\<And>c m. m0 c = Some m \<Longrightarrow> net_proper (nc_net (mn_config m))"
    and "build_networks_from_config secrets lease nets m0 c = Some m"
  shows "net_proper (nc_net (mn_config m))"
  using assms
proof (induction nets arbitrary: m0)
  case (Cons p nets)
  obtain code net where p: "p = (code, net)" by (cases p)
  show ?case
  proof (rule Cons.IH)
    show "\<forall>(code, net) \<in> set nets. net_proper net" using Cons.prems(1) by simp
    show "build_networks_from_config secrets lease nets (case map_of secrets code of None \<Rightarrow> m0
        | Some s \<Rightarrow> m0(code \<mapsto> managed net lease SourceConfig s)) c = Some m"
      using Cons.prems(3) p by simp
    show "net_proper (nc_net (mn_config m'))" if "(case map_of secrets code of None \<Rightarrow> m0
        | Some s \<Rightarrow> m0(code \<mapsto> managed net lease SourceConfig s)) c' = Some m'" for c' m'
      using that Cons.prems(1,2) p by (auto split: option.splits if_splits)
  qed
qed simp

lemma to_ipv4_net_proper:
  assumes "ipnet_ok net_new" "to_ipv4_net net_new r = Some net"
  shows "net_proper net"
proof -
  have "\<exists>g. build_network_from_gateway net_new g (nr_netmask r) = Inr net"
    using assms(2) by (auto simp: to_ipv4_net_def build_network_from_gateway_def split: option.splits)
  then show ?thesis using built_net_proper [OF assms(1)] by blast
qed

lemma record_nets_proper:
  assumes "ipnet_ok net_new" "\<And>c m. m0 c = Some m \<Longrightarrow> net_proper (nc_net (mn_config m))"
    and "managed_networks_from_records net_new rs m0 c = Some m"
  shows "net_proper (nc_net (mn_config m))"
  using assms(2,3)
proof (induction rs arbitrary: m0)
  case (Cons r rs)
  let ?m1 = "case to_ipv4_net net_new r of None \<Rightarrow> m0 | Some net \<Rightarrow> m0(nr_network_code r \<mapsto>
      managed net (unat (nr_lease_duration r) * 1000) (nr_source r) (nr_secret r))"
  show ?case
  proof (rule Cons.IH)
    show "managed_networks_from_records net_new rs ?m1 c = Some m" using Cons.prems(2) by (simp cong: option.case_cong)
    show "net_proper (nc_net (mn_config m'))" if "?m1 c' = Some m'" for c' m'
      using that Cons.prems(1) to_ipv4_net_proper [OF assms(1)]
      by (auto split: option.splits if_splits)
  qed
qed simp

lemma new_service_ok:
  assumes "ipnet_ok net_new" "\<forall>(code, net) \<in> set (custom_nets cfg). net_proper net"
  shows "service_ok (ControlService_new net_new io1 io2 iow t cfg lease store pool, [])"
proof -
  have "net_proper (nc_net (mn_config m))"
    if "fst (load_or_initialize_networks net_new io1 io2 iow t (custom_nets cfg) (network_secrets cfg) lease pool) c = Some m"
    for c m
    using that config_nets_proper [OF assms(2), of Map.empty] record_nets_proper [OF assms(1), of Map.empty]
    by (auto simp: load_or_initialize_networks_def Let_def split: if_splits prod.splits)
  then show ?thesis
    by (auto simp: service_ok_def svc_inv_def ControlService_new_def split: prod.split)
qed



end
