(* ===== verification/ServiceStorage.thy ===== *)
theory ServiceStorage
  imports ServiceSafety
begin

text \<open>
  Memory and database of the control service: the networks in memory are those a restart would load,
  whatever the administrator does; a first start stores the configured networks; where an edit of a
  network makes memory and database disagree; and how the database comes to hold one address twice.
\<close>

section \<open>What a restart loads\<close>

definition as_loaded :: "(ipv4 \<Rightarrow> u8 \<Rightarrow> Ipv4Net option) \<Rightarrow> Db \<Rightarrow> string \<rightharpoonup> ManagedNetwork" where
  "as_loaded net_new d code =
     (case stored_network d code of
        None \<Rightarrow> None
      | Some r \<Rightarrow> map_option (\<lambda>net. managed net (unat (nr_lease_duration r) * 1000) (nr_source r) (nr_secret r))
                    (to_ipv4_net net_new r))"

lemma managed_networks_eq:
  assumes "distinct (map nr_network_code rs)"
  shows "managed_networks_from_records net_new rs m c =
    (case map_of (map (\<lambda>r. (nr_network_code r, r)) rs) c of
       None \<Rightarrow> m c
     | Some r \<Rightarrow> (case to_ipv4_net net_new r of None \<Rightarrow> m c
         | Some net \<Rightarrow> Some (managed net (unat (nr_lease_duration r) * 1000) (nr_source r) (nr_secret r))))"
  using assms
proof (induction rs arbitrary: m)
  case (Cons r rs)
  show ?case
  proof (cases "c = nr_network_code r")
    case True
    then have "map_of (map (\<lambda>r. (nr_network_code r, r)) rs) c = None"
      using Cons.prems by (auto simp: map_of_eq_None_iff image_iff)
    then show ?thesis using Cons True by (auto split: option.split)
  next
    case False
    then show ?thesis using Cons by (auto split: option.split)
  qed
qed simp

lemma loaded_from_db:
  assumes "db_ok d"
  shows "\<exists>rs. load_network_records_from_db True (Some d) = rs \<and>
    managed_networks_from_records net_new rs Map.empty = as_loaded net_new d \<and>
    (rs = [] \<longleftrightarrow> networks d = []) \<and> (\<forall>r \<in> set rs. stored_network d (nr_network_code r) = Some r)"
proof -
  obtain rs where rs: "load_all_networks True (Some d) = (Inr rs, Some d)" "distinct (map nr_network_code rs)"
      "map_of (map (\<lambda>r. (nr_network_code r, r)) rs) = stored_network d"
    using loaded_networks [OF assms] by blast
  have "managed_networks_from_records net_new rs Map.empty c = as_loaded net_new d c" for c
    unfolding managed_networks_eq [OF rs(2)] rs(3) as_loaded_def by (simp split: option.split)
  moreover have "length rs = length (networks d)" using rs(1) by (auto simp: load_all_networks_def)
  moreover have "stored_network d (nr_network_code r) = Some r" if "r \<in> set rs" for r
  proof -
    have "map_of (map (\<lambda>r. (nr_network_code r, r)) rs) (nr_network_code r) = Some r"
      by (rule map_of_is_SomeI) (use rs(2) that in \<open>auto simp: comp_def\<close>)
    then show ?thesis by (simp add: rs(3))
  qed
  ultimately show ?thesis using rs(1) by (auto simp: load_network_records_from_db_def)
qed

text \<open>The database holds the networks in memory, each with a secret.\<close>

definition db_agrees :: "(ipv4 \<Rightarrow> u8 \<Rightarrow> Ipv4Net option) \<Rightarrow> ControlService \<Rightarrow> bool" where
  "db_agrees net_new cs \<longleftrightarrow>
     (\<exists>d. db_pool cs = Some d \<and> db_ok d \<and> db_nets cs = as_loaded net_new d \<and>
       (\<forall>code r. stored_network d code = Some r \<longrightarrow> \<not> is_blank (nr_secret r)))"

lemma utf8_chars_nonempty: "4 \<le> length s \<Longrightarrow> utf8_chars s \<noteq> []"
proof -
  assume "4 \<le> length s"
  then have "\<exists>a b c d t. s = a # b # c # d # t" by (auto simp: numeral_eq_Suc Suc_le_length_iff)
  then show ?thesis by (auto split: if_splits)
qed

lemma strong_not_blank: "validate_network_secret_value code s = Inr () \<Longrightarrow> \<not> is_blank s"
proof
  assume v: "validate_network_secret_value code s = Inr ()" and b: "is_blank s"
  have l: "24 \<le> length s" and w: "\<not> list_ex is_whitespace (chars_of s)"
    using v unfolding validate_network_secret_value_def Let_def by (auto split: if_splits)
  have "chars_of s \<noteq> []" using l by (simp add: chars_of_def utf8_chars_nonempty)
  then show False using w b by (cases "chars_of s") (auto simp: is_blank_def)
qed

text \<open>Whole seconds that fit 64 bits survive the database.\<close>

definition whole_seconds :: "nat \<Rightarrow> bool" where
  "whole_seconds lease \<longleftrightarrow> lease mod 1000 = 0 \<and> lease div 1000 < 2 ^ 64"

lemma lease_roundtrip: "whole_seconds lease \<Longrightarrow> unat (word_of_nat (lease div 1000) :: i64) * 1000 = lease"
  unfolding whole_seconds_def by (simp only: unat_of_nat) auto

lemma built_net_loaded:
  "build_network_from_gateway net_new gw nm = Inr net \<Longrightarrow>
   to_ipv4_net net_new (network_rec code gw nm s lease src now) = Some net"
  by (auto simp: build_network_from_gateway_def to_ipv4_net_def split: option.splits)

lemma as_loaded_store:
  assumes "stored_network d' = (stored_network d)(code \<mapsto> r)" "to_ipv4_net net_new r = Some net"
  shows "as_loaded net_new d' = (as_loaded net_new d)
    (code \<mapsto> managed net (unat (nr_lease_duration r) * 1000) (nr_source r) (nr_secret r))"
  using assms by (auto simp: as_loaded_def fun_eq_iff)

section \<open>Administration keeps memory and database in agreement\<close>

datatype admin_op =
    AddNetwork bool i64 string ipv4 u8 "nat option" string
  | UpdateNetwork bool bool string ipv4 u8 nat string
  | DeleteNetwork bool bool string

fun admin_step :: "(ipv4 \<Rightarrow> u8 \<Rightarrow> Ipv4Net option) \<Rightarrow> admin_op \<Rightarrow> ControlService \<Rightarrow> ControlService" where
  "admin_step net_new (AddNetwork io created code gw nm lease s) cs = snd (add_network net_new io created code gw nm lease s cs)"
| "admin_step net_new (UpdateNetwork io io' code gw nm lease s) cs = snd (update_network net_new io io' code gw nm lease s cs)"
| "admin_step net_new (DeleteNetwork io io' code) cs = snd (delete_network io io' code cs)"

text \<open>Leases in whole seconds; for an edit, a gateway and a netmask that make a network.\<close>

fun well_formed_op :: "admin_op \<Rightarrow> bool" where
  "well_formed_op (AddNetwork io created code gw nm lease s) \<longleftrightarrow> (\<forall>l. lease = Some l \<longrightarrow> whole_seconds l)"
| "well_formed_op (UpdateNetwork io io' code gw nm lease s) \<longleftrightarrow> whole_seconds lease \<and> gw \<noteq> 0 \<and> nm \<le> 32"
| "well_formed_op (DeleteNetwork io io' code) \<longleftrightarrow> True"

lemma pool_failed:
  "save_network io r (Some d) = (Inl e, p) \<Longrightarrow> p = Some d"
  "db_update_network io code gw nm s l (Some d) = (Inl e, p) \<Longrightarrow> p = Some d"
  "db_delete_network io code (Some d) = (Inl e, p) \<Longrightarrow> p = Some d"
  by (cases io, simp_all add: save_network_def db_update_network_def db_delete_network_def)+

lemma add_network_agrees:
  assumes "db_agrees net_new cs" "whole_seconds (lease_or_default lease cs)"
    and "add_network net_new io created code gw nm lease s cs = (res, cs')"
  shows "db_agrees net_new cs' \<and> (\<forall>c. db_nets cs c \<noteq> None \<longrightarrow> db_nets cs' c \<noteq> None)"
proof -
  obtain d where d: "db_pool cs = Some d" "db_ok d" "db_nets cs = as_loaded net_new d"
      "\<forall>code r. stored_network d code = Some r \<longrightarrow> \<not> is_blank (nr_secret r)"
    using assms(1) by (auto simp: db_agrees_def)
  show ?thesis
  proof (cases res)
    case (Inl e)
    then have "cs' = cs"
      using assms(3) d(1) pool_failed(1) by (fastforce simp: add_network_def Let_def split: sum.splits prod.splits if_splits)
    then show ?thesis using assms(1) by simp
  next
    case (Inr u)
    let ?r = "network_rec code gw nm s (lease_or_default lease cs) SourceManual created"
    have "add_network net_new io created code gw nm lease s cs = (Inr (), cs')" using Inr assms(3) by simp
    then obtain net p where n: "validate_network_secret_value code s = Inr ()"
        "build_network_from_gateway net_new gw nm = Inr net" "save_network io ?r (Some d) = (Inr (), p)"
        "cs' = cs\<lparr>db_pool := p, db_nets := (db_nets cs)(code \<mapsto> managed net (lease_or_default lease cs) SourceManual s)\<rparr>"
      using add_network_Inr [of net_new io created code gw nm lease s cs cs'] d(1) by auto
    have p: "p = Some (put_network ?r d)"
      using n(3) by (cases io) (simp_all add: save_network_def put_network_def)
    have "as_loaded net_new (put_network ?r d) = (as_loaded net_new d)
        (code \<mapsto> managed net (lease_or_default lease cs) SourceManual s)"
      using as_loaded_store [of "put_network ?r d" d code ?r net_new net] built_net_loaded [OF n(2)]
        save_network_stored [of ?r d] lease_roundtrip [OF assms(2)] by simp
    moreover have "\<not> is_blank (nr_secret x)" if "stored_network (put_network ?r d) c = Some x" for c x
      using that d(4) strong_not_blank [OF n(1)] by (auto simp: save_network_stored split: if_splits)
    ultimately show ?thesis
      using n(4) p d statements_db_ok(1) [OF d(2)] by (auto simp: db_agrees_def)
  qed
qed

lemma update_network_agrees:
  assumes "db_agrees net_new cs" "ipnet_ok net_new" "whole_seconds lease" "gw \<noteq> 0" "nm \<le> 32"
    and "update_network net_new io io' code gw nm lease s cs = (res, cs')"
  shows "db_agrees net_new cs' \<and> (\<forall>c. db_nets cs c \<noteq> None \<longrightarrow> db_nets cs' c \<noteq> None)"
proof -
  obtain d where d: "db_pool cs = Some d" "db_ok d" "db_nets cs = as_loaded net_new d"
      "\<forall>code r. stored_network d code = Some r \<longrightarrow> \<not> is_blank (nr_secret r)"
    using assms(1) by (auto simp: db_agrees_def)
  obtain net where net: "build_network_from_gateway net_new gw nm = Inr net"
    using ipnet_defined [OF assms(2,5), of "gw - 1"] assms(4)
    by (auto simp: build_network_from_gateway_def checked_pred_def)
  show ?thesis
  proof (cases res)
    case (Inl e)
    then have "cs' = cs"
      using assms(6) d(1) pool_failed(2) net by (fastforce simp: update_network_def split: sum.splits prod.splits)
    then show ?thesis using assms(1) by simp
  next
    case (Inr u)
    have "update_network net_new io io' code gw nm lease s cs = (Inr (), cs')" using Inr assms(6) by simp
    then obtain p b and m :: ManagedNetwork where n: "validate_network_secret_value code s = Inr ()"
        "db_nets cs code = Some m"
        "db_update_network io' code (ip_to_string gw) nm s (word_of_nat (lease div 1000)) (Some d) = (Inr b, p)"
        "cs' = cs\<lparr>db_pool := p, db_nets := (db_nets cs)(code \<mapsto> managed net lease (nc_source (mn_config m)) s),
           network_states := (network_states cs)(code := None)\<rparr>"
      using update_network_Inr [of net_new io io' code gw nm lease s cs cs'] d(1) net by auto
    obtain r where r: "stored_network d code = Some r" "nc_source (mn_config m) = nr_source r"
      using n(2) d(3) by (auto simp: as_loaded_def split: option.splits)
    define d1 where "d1 = d\<lparr>networks := map (\<lambda>w. if network_code w = code
        then w\<lparr>gateway := ip_to_string gw, netmask := ucast nm, secret := s,
          lease_duration := word_of_nat (lease div 1000)\<rparr> else w) (networks d)\<rparr>"
    let ?r = "r\<lparr>nr_gateway := ip_to_string gw, nr_netmask := nm, nr_secret := s,
      nr_lease_duration := word_of_nat (lease div 1000)\<rparr>"
    have p: "p = Some d1" using n(3) by (cases io') (simp_all add: db_update_network_def d1_def)
    have st: "stored_network d1 = (stored_network d)(code \<mapsto> ?r)"
      unfolding d1_def update_network_stored r(1) by simp
    have "to_ipv4_net net_new ?r = Some net"
      using built_net_loaded [OF net, of code s lease SourceManual 0] by (simp add: to_ipv4_net_def cong: option.case_cong)
    then have "as_loaded net_new d1 = (as_loaded net_new d)(code \<mapsto> managed net lease (nc_source (mn_config m)) s)"
      using as_loaded_store [OF st] lease_roundtrip [OF assms(3)] r(2) by simp
    moreover have "\<not> is_blank (nr_secret x)" if "stored_network d1 c = Some x" for c x
      using that d(4) strong_not_blank [OF n(1)] by (auto simp: st split: if_splits)
    moreover have "db_ok d1" unfolding d1_def by (rule statements_db_ok(3) [OF d(2)])
    ultimately show ?thesis using n(4) p d by (auto simp: db_agrees_def)
  qed
qed

lemma delete_network_agrees:
  assumes "db_agrees net_new cs" "delete_network io io' code cs = (res, cs')"
  shows "db_agrees net_new cs' \<and> db_nets cs' DEFAULT_NETWORK_CODE = db_nets cs DEFAULT_NETWORK_CODE"
proof -
  obtain d where d: "db_pool cs = Some d" "db_ok d" "db_nets cs = as_loaded net_new d"
      "\<forall>code r. stored_network d code = Some r \<longrightarrow> \<not> is_blank (nr_secret r)"
    using assms(1) by (auto simp: db_agrees_def)
  show ?thesis
  proof (cases res)
    case (Inl e)
    then have "cs' = cs"
      using assms(2) d(1) pool_failed(3) by (fastforce simp: delete_network_def split: sum.splits prod.splits if_splits)
    then show ?thesis using assms(1) by simp
  next
    case (Inr u)
    have "delete_network io io' code cs = (Inr (), cs')" using Inr assms(2) by simp
    then obtain p b where n: "code \<noteq> DEFAULT_NETWORK_CODE" "db_delete_network io' code (Some d) = (Inr b, p)"
        "cs' = cs\<lparr>db_pool := p, db_nets := (db_nets cs)(code := None), network_states := (network_states cs)(code := None)\<rparr>"
      using delete_network_Inr [of io io' code cs cs'] d(1) by auto
    define d1 where "d1 = d\<lparr>networks := filter (\<lambda>w. network_code w \<noteq> code) (networks d)\<rparr>"
    have p: "p = Some d1" using n(2) by (cases io') (simp_all add: db_delete_network_def d1_def)
    have st: "stored_network d1 = (stored_network d)(code := None)" unfolding d1_def by (rule delete_network_stored)
    then have "as_loaded net_new d1 = (as_loaded net_new d)(code := None)" by (auto simp: as_loaded_def fun_eq_iff)
    moreover have "db_ok d1" unfolding d1_def by (rule statements_db_ok(4) [OF d(2)])
    ultimately show ?thesis using n p d by (auto simp: db_agrees_def st split: if_splits)
  qed
qed

lemma admin_run_agrees:
  assumes "ipnet_ok net_new" "db_agrees net_new cs" "whole_seconds (default_lease_duration cs)"
    and "db_nets cs DEFAULT_NETWORK_CODE \<noteq> None" "\<forall>op \<in> set ops. well_formed_op op"
  shows "db_agrees net_new (fold (admin_step net_new) ops cs) \<and>
    db_nets (fold (admin_step net_new) ops cs) DEFAULT_NETWORK_CODE \<noteq> None"
  using assms(2-5)
proof (induction ops arbitrary: cs)
  case (Cons op ops)
  have lease: "default_lease_duration (admin_step net_new op cs) = default_lease_duration cs"
    by (cases op) (auto simp: add_network_def update_network_def delete_network_def Let_def
      split: sum.splits prod.splits)
  have "db_agrees net_new (admin_step net_new op cs) \<and> db_nets (admin_step net_new op cs) DEFAULT_NETWORK_CODE \<noteq> None"
  proof (cases op)
    case (AddNetwork io created code gw nm lease s)
    have "whole_seconds (lease_or_default lease cs)"
      using AddNetwork Cons.prems(2,4) by (auto split: option.split)
    then show ?thesis
      using add_network_agrees [OF Cons.prems(1) _ surjective_pairing] Cons.prems(3) AddNetwork by simp
  next
    case (UpdateNetwork io io' code gw nm lease s)
    then show ?thesis
      using update_network_agrees [OF Cons.prems(1) assms(1) _ _ _ surjective_pairing] Cons.prems(3,4) by simp
  next
    case (DeleteNetwork io io' code)
    then show ?thesis
      using delete_network_agrees [OF Cons.prems(1) surjective_pairing] Cons.prems(3) by simp
  qed
  then show ?case using Cons.IH [of "admin_step net_new op cs"] Cons.prems(2,4) lease by simp
qed simp

lemma backfill_nothing:
  "\<forall>r \<in> set rs. \<not> is_blank (nr_secret r) \<Longrightarrow> backfill_missing_secrets io secrets rs u pool = (u, pool)"
  by (induction rs) simp_all

lemma restart_loads:
  assumes "db_agrees net_new cs" "db_nets cs code \<noteq> None"
  shows "load_or_initialize_networks net_new True io2 iow t nets secrets lease (db_pool cs) = (db_nets cs, db_pool cs)"
proof -
  obtain d where d: "db_pool cs = Some d" "db_ok d" "db_nets cs = as_loaded net_new d"
      "\<forall>code r. stored_network d code = Some r \<longrightarrow> \<not> is_blank (nr_secret r)"
    using assms(1) by (auto simp: db_agrees_def)
  define rs where "rs = load_network_records_from_db True (Some d)"
  have l: "managed_networks_from_records net_new rs Map.empty = as_loaded net_new d"
    "rs = [] \<longleftrightarrow> networks d = []" "\<forall>r \<in> set rs. stored_network d (nr_network_code r) = Some r"
    using loaded_from_db [OF d(2), of net_new] by (simp_all add: rs_def)
  have "stored_network d code \<noteq> None" using assms(2) d(3) by (auto simp: as_loaded_def split: option.splits)
  then have ne: "rs \<noteq> []" using l(2) by (auto simp: stored_network_def)
  have "\<forall>r \<in> set rs. \<not> is_blank (nr_secret r)" using l(3) d(4) by blast
  then show ?thesis
    using d(1,3) ne l(1) by (simp add: load_or_initialize_networks_def db_pool_initialized_def Let_def
      backfill_nothing flip: rs_def)
qed

lemma pred_of_first:
  assumes "net_network net \<noteq> BROADCAST"
  shows "checked_pred (net_network net + 1) = Some (net_network net)"
proof -
  have "net_network net + 1 \<noteq> 0"
  proof
    assume "net_network net + 1 = 0"
    then have "net_network net = - 1" by (simp only: eq_neg_iff_add_eq_0)
    then show False using assms by simp
  qed
  then show ?thesis by (simp add: checked_pred_def)
qed

lemma seed_record_loaded:
  assumes "ipnet_ok net_new" "net_new a p = Some net" "net_network net \<noteq> BROADCAST"
  shows "to_ipv4_net net_new (seed_record t lease code net s) = Some net"
  using ipnet_canonical [OF assms(1,2)] ipnetD(3) [OF assms(1,2)] pred_of_first [OF assms(3)]
  by (simp add: to_ipv4_net_def seed_record_def)

definition storable :: "(ipv4 \<Rightarrow> u8 \<Rightarrow> Ipv4Net option) \<Rightarrow> Ipv4Net \<Rightarrow> bool" where
  "storable net_new net \<longleftrightarrow> (\<exists>a p. net_new a p = Some net) \<and> net_network net \<noteq> BROADCAST"

lemma seed_loaded:
  assumes "ipnet_ok net_new" "whole_seconds lease" "\<forall>(c, s) \<in> set secrets. \<not> is_blank s"
    and "db_ok d" "distinct (map fst nets)" "\<forall>(c, n) \<in> set nets. stored_network d c = None \<and> storable net_new n"
    and "\<forall>c r. stored_network d c = Some r \<longrightarrow> \<not> is_blank (nr_secret r)"
  shows "\<exists>d'. seed_config_networks_to_db (\<lambda>_. True) t secrets lease nets (Some d) = Some d' \<and> db_ok d' \<and>
    as_loaded net_new d' = build_networks_from_config secrets lease nets (as_loaded net_new d) \<and>
    (\<forall>c r. stored_network d' c = Some r \<longrightarrow> \<not> is_blank (nr_secret r))"
  using assms(4-7)
proof (induction nets arbitrary: d)
  case (Cons x nets)
  obtain code net where x: "x = (code, net)" by (cases x)
  have fresh: "stored_network d code = None" "storable net_new net" using Cons.prems(3) x by auto
  show ?case
  proof (cases "map_of secrets code")
    case None
    then show ?thesis using Cons x by simp
  next
    case (Some s)
    let ?r = "seed_record t lease code net s"
    define d1 where "d1 = d\<lparr>networks := networks d @ [network_row ?r]\<rparr>"
    have code: "nr_network_code ?r = code" by (simp add: seed_record_def)
    have st: "stored_network d1 = (stored_network d)(code \<mapsto> ?r)"
      unfolding d1_def using append_network_stored [of d ?r] fresh(1) by (simp only: code)
    have saved: "snd (save_network_if_not_exists True ?r (Some d)) = Some d1"
      using fresh(1) by (simp add: save_network_if_not_exists_def code stored_network_None d1_def)
    obtain a p where "net_new a p = Some net" "net_network net \<noteq> BROADCAST" using fresh(2) by (auto simp: storable_def)
    then have "as_loaded net_new d1 = (as_loaded net_new d)(code \<mapsto> managed net lease SourceConfig s)"
      using as_loaded_store [OF st seed_record_loaded [OF assms(1)]] lease_roundtrip [OF assms(2)]
      by (simp add: seed_record_def)
    moreover have "db_ok d1"
      unfolding d1_def using statements_db_ok(2) [OF Cons.prems(1)] fresh(1) by (simp only: code)
    moreover have "\<not> is_blank s" using Some assms(3) by (auto dest: map_of_SomeD)
    then have "\<forall>c r. stored_network d1 c = Some r \<longrightarrow> \<not> is_blank (nr_secret r)"
      using Cons.prems(4) by (auto simp: st seed_record_def split: if_splits)
    moreover have "\<forall>(c, n) \<in> set nets. stored_network d1 c = None \<and> storable net_new n"
      using Cons.prems(2,3) x by (force simp: st)
    moreover have "distinct (map fst nets)" using Cons.prems(2) by simp
    ultimately obtain d' where "seed_config_networks_to_db (\<lambda>_. True) t secrets lease nets (Some d1) = Some d'" "db_ok d'"
        "as_loaded net_new d' = build_networks_from_config secrets lease nets
          ((as_loaded net_new d)(code \<mapsto> managed net lease SourceConfig s))"
        "\<forall>c r. stored_network d' c = Some r \<longrightarrow> \<not> is_blank (nr_secret r)"
      using Cons.IH [of d1] by metis
    then show ?thesis using x Some saved by simp
  qed
qed (use assms(7) in simp)

lemma seed_first_start:
  assumes "ipnet_ok net_new" "config_validate cfg = Inr ()" "distinct (map fst (custom_nets cfg))"
    and "\<forall>(c, n) \<in> set (custom_nets cfg). storable net_new n" "whole_seconds lease"
    and "db_ok d" "networks d = []"
    and "cs = ControlService_new net_new True True (\<lambda>_. True) t cfg lease store (Some d)"
  shows "db_nets cs = build_networks_from_config (network_secrets cfg) lease (custom_nets cfg) Map.empty \<and>
    db_agrees net_new cs"
proof -
  let ?secrets = "network_secrets cfg" and ?nets = "custom_nets cfg"
  have none: "stored_network d = Map.empty" "as_loaded net_new d = Map.empty"
    using assms(7) by (simp_all add: stored_network_def as_loaded_def fun_eq_iff)
  have good: "\<forall>(c, s) \<in> set ?secrets. \<not> is_blank s"
  proof clarify
    fix c s assume "(c, s) \<in> set ?secrets" and b: "is_blank s"
    then have "good_secret s" using assms(2) unfolding config_accepted by force
    then have "validate_network_secret_value c s = Inr ()" by simp
    then show False using strong_not_blank b by blast
  qed
  obtain d' where d': "seed_config_networks_to_db (\<lambda>_. True) t ?secrets lease ?nets (Some d) = Some d'" "db_ok d'"
      "as_loaded net_new d' = build_networks_from_config ?secrets lease ?nets Map.empty"
      "\<forall>c r. stored_network d' c = Some r \<longrightarrow> \<not> is_blank (nr_secret r)"
    using seed_loaded [OF assms(1,5) good assms(6,3), of t] assms(4) none by auto
  have first: "load_network_records_from_db True (Some d) = []"
    using loaded_from_db [OF assms(6)] assms(7) by auto
  define rs where "rs = load_network_records_from_db True (Some d')"
  have rs: "managed_networks_from_records net_new rs Map.empty = as_loaded net_new d'"
    using loaded_from_db [OF d'(2), of net_new] by (simp add: rs_def)
  have "rs = [] \<Longrightarrow> as_loaded net_new d' = Map.empty" using rs by auto
  then have "load_or_initialize_networks net_new True True (\<lambda>_. True) t ?nets ?secrets lease (Some d)
      = (as_loaded net_new d', Some d')"
    using first d'(1,3) rs by (auto simp: load_or_initialize_networks_def db_pool_initialized_def Let_def simp flip: rs_def)
  then have "cs = \<lparr>default_lease_duration = lease, db_nets = as_loaded net_new d', cs_white_list = white_list cfg,
      network_states = Map.empty, ns_store = store, ns_fresh = 0, db_pool = Some d', spawned = []\<rparr>"
    by (simp add: assms(8) ControlService_new_def)
  then show ?thesis using d' by (auto simp: db_agrees_def)
qed

text \<open>A first start: with an accepted configuration and an empty database the server stores the configured
  networks and manages exactly those it would manage without a database, and memory and database agree,
  so that every later start brings them back.\<close>

theorem first_start_seeds:
  assumes "ipnet_ok net_new" "config_validate cfg = Inr ()" "distinct (map fst (custom_nets cfg))"
    and "\<forall>(c, n) \<in> set (custom_nets cfg). storable net_new n" "whole_seconds lease"
    and "db_ok d" "networks d = []"
    and "cs = ControlService_new net_new True True (\<lambda>_. True) t cfg lease store (Some d)"
  shows "db_nets cs = build_networks_from_config (network_secrets cfg) lease (custom_nets cfg) Map.empty \<and>
    db_agrees net_new cs"
  by (rule seed_first_start [OF assms])

definition demo_empty_db :: Db where
  "demo_empty_db = \<lparr>networks = [], devices = [], peer_servers = []\<rparr>"

definition demo_stored :: ControlService where
  "demo_stored = ControlService_new demo_net_new True True (\<lambda>_. True) 7 demo_config 60000 (\<lambda>_. demo_start) (Some demo_empty_db)"

lemma demo_config_accepted: "config_validate demo_config = Inr ()"
proof -
  have "good_code DEFAULT_NETWORK_CODE"
    by (simp add: good_code_def DEFAULT_NETWORK_CODE_def chars_of_def is_whitespace_def)
  moreover have "good_secret ''Aa0!bcdefghijklmnopqrstuvwxyz012''"
    using demo_secret_good [of "[]"] by (simp only: validate_secret_iff)
  ultimately show ?thesis by (simp add: config_accepted demo_config_def)
qed

lemma demo_net_storable: "storable demo_net_new demo_net"
proof -
  have "demo_net_new 0x0A1A0000 24 = Some demo_net"
    by (simp add: demo_net_new_def demo_net_def Let_def mask_eq_exp_minus_1)
  then show ?thesis unfolding storable_def by (auto simp: demo_net_def)
qed

lemma demo_first_start:
  "distinct (map fst (custom_nets demo_config))" "\<forall>(c, n) \<in> set (custom_nets demo_config). storable demo_net_new n"
  "whole_seconds 60000" "db_ok demo_empty_db" "networks demo_empty_db = []"
  using demo_net_storable
  by (simp_all add: demo_config_def whole_seconds_def demo_empty_db_def db_ok_def demo_net_def)

lemma demo_stored_agrees: "db_agrees demo_net_new demo_stored"
  and demo_stored_default: "db_nets demo_stored =
    [''default'' \<mapsto> managed demo_net 60000 SourceConfig ''Aa0!bcdefghijklmnopqrstuvwxyz012'']"
  and demo_stored_lease: "default_lease_duration demo_stored = 60000"
  using seed_first_start [OF demo_net_new_ok demo_config_accepted demo_first_start demo_stored_def]
  by (simp_all add: demo_config_def DEFAULT_NETWORK_CODE_def demo_net_def)
    (simp add: demo_stored_def ControlService_new_def split: prod.split)

theorem first_start_seeds_witness:
  "db_nets demo_stored = [''default'' \<mapsto> managed demo_net 60000 SourceConfig ''Aa0!bcdefghijklmnopqrstuvwxyz012''] \<and>
   db_agrees demo_net_new demo_stored"
  using first_start_seeds [OF demo_net_new_ok demo_config_accepted demo_first_start demo_stored_def]
  by (simp add: demo_config_def DEFAULT_NETWORK_CODE_def demo_net_def)


text \<open>C38 A restart brings back exactly the networks the administrator left: when memory and database agree,
  they still agree after any sequence of additions, edits and deletions of networks, of which any may be
  refused and any database statement may fail, and a server started on that database manages the same
  networks with the same subnets, leases, sources and secrets, whatever its configuration file says. Leases
  are whole seconds and edits name a gateway and netmask that make a network (see the next property).\<close>

theorem restart_keeps_networks:
  assumes "ipnet_ok net_new" "db_agrees net_new cs" "whole_seconds (default_lease_duration cs)"
    and "db_nets cs DEFAULT_NETWORK_CODE \<noteq> None" "\<forall>op \<in> set ops. well_formed_op op"
    and "cs' = fold (admin_step net_new) ops cs"
  shows "db_agrees net_new cs' \<and>
    db_nets (ControlService_new net_new True io2 iow t cfg lease store (db_pool cs')) = db_nets cs'"
proof -
  have a: "db_agrees net_new cs'" "db_nets cs' DEFAULT_NETWORK_CODE \<noteq> None"
    unfolding assms(6) using admin_run_agrees [OF assms(1-5)] by simp_all
  show ?thesis using a(1) by (simp add: ControlService_new_def restart_loads [OF a])
qed

theorem restart_keeps_networks_witness:
  "let cs = fold (admin_step demo_net_new)
      [AddNetwork True 8 ''lab'' 0x0A1B0001 16 (Some 5000) ''Aa0!bcdefghijklmnopqrstuvwxyz012'',
       DeleteNetwork True True ''default'', UpdateNetwork True False ''lab'' 0x0A1C0001 24 5000 ''''] demo_stored
   in db_nets (ControlService_new demo_net_new True True (\<lambda>_. True) 9 demo_config 1 (\<lambda>_. demo_start) (db_pool cs)) = db_nets cs"
  unfolding Let_def
  by (rule restart_keeps_networks [OF demo_net_new_ok demo_stored_agrees _ _ _ refl, THEN conjunct2])
    (simp_all add: demo_stored_default demo_stored_lease whole_seconds_def DEFAULT_NETWORK_CODE_def)


text \<open>Editing a network is not atomic: \<open>update_network\<close> writes the row before it checks that the gateway
  and the netmask make a network. With the gateway \<open>0.0.0.0\<close> or a netmask above 32 on an unused network the
  call fails and the server keeps the old network, but the row has the new values; the two disagree, and
  after a restart the network is gone.\<close>

theorem update_network_diverges:
  assumes "ipnet_ok net_new" "db_agrees net_new cs" "db_pool cs = Some d" "db_nets cs code = Some m"
    and "validate_network_secret_value code s = Inr ()" "network_in_use True code cs = Inr ()"
    and "gw = 0 \<or> 32 < nm"
    and "update_network net_new True True code gw nm lease s cs = (res, cs')"
  shows "(\<exists>e. res = Inl e) \<and> db_nets cs' code = Some m \<and>
    (\<exists>d'. db_pool cs' = Some d' \<and> as_loaded net_new d' code = None) \<and> \<not> db_agrees net_new cs'"
proof -
  have d: "db_ok d" "db_nets cs = as_loaded net_new d" using assms(2,3) by (auto simp: db_agrees_def)
  obtain r where r: "stored_network d code = Some r"
    using assms(4) d(2) by (auto simp: as_loaded_def split: option.splits)
  define d1 where "d1 = d\<lparr>networks := map (\<lambda>w. if network_code w = code
      then w\<lparr>gateway := ip_to_string gw, netmask := ucast nm, secret := s,
        lease_duration := word_of_nat (lease div 1000)\<rparr> else w) (networks d)\<rparr>"
  have none: "checked_pred gw = None \<or> (\<exists>n. checked_pred gw = Some n \<and> net_new n nm = None)"
    using assms(1,7) by (auto simp: checked_pred_def ipnet_ok_def)
  then obtain e where "build_network_from_gateway net_new gw nm = Inl e"
    by (auto simp: build_network_from_gateway_def)
  then have c: "res = Inl e" "cs' = cs\<lparr>db_pool := Some d1\<rparr>"
    using assms(3-6,8) by (auto simp: update_network_def db_update_network_def d1_def simp del: validate_secret_iff)
  have "stored_network d1 = (stored_network d)(code \<mapsto> r\<lparr>nr_gateway := ip_to_string gw, nr_netmask := nm,
      nr_secret := s, nr_lease_duration := word_of_nat (lease div 1000)\<rparr>)"
    unfolding d1_def update_network_stored r by simp
  then have gone: "as_loaded net_new d1 code = None"
    using none by (auto simp: as_loaded_def to_ipv4_net_def)
  have "\<not> db_agrees net_new cs'"
    using gone assms(4) by (auto simp: db_agrees_def c)
  then show ?thesis using c assms(4) gone by simp
qed

definition demo_row :: NetworkRecord where
  "demo_row = network_rec ''lab'' 0x0A1B0001 16 ''Aa0!bcdefghijklmnopqrstuvwxyz012'' 5000 SourceManual 8"

definition demo_one_net :: ControlService where
  "demo_one_net = (let d = put_network demo_row demo_empty_db in
     demo_stored\<lparr>db_pool := Some d, db_nets := as_loaded demo_net_new d, network_states := Map.empty\<rparr>)"

theorem update_network_diverges_witness:
  "\<exists>m e. db_nets demo_one_net ''lab'' = Some m \<and>
    fst (update_network demo_net_new True True ''lab'' 0 24 60000 ''Aa0!bcdefghijklmnopqrstuvwxyz012'' demo_one_net) = Inl e \<and>
    \<not> db_agrees demo_net_new (snd (update_network demo_net_new True True ''lab'' 0 24 60000
          ''Aa0!bcdefghijklmnopqrstuvwxyz012'' demo_one_net))"
proof -
  let ?d = "put_network demo_row demo_empty_db"
  let ?u = "update_network demo_net_new True True ''lab'' 0 24 60000 ''Aa0!bcdefghijklmnopqrstuvwxyz012'' demo_one_net"
  have st: "stored_network ?d = [''lab'' \<mapsto> demo_row]"
    unfolding save_network_stored by (simp add: demo_row_def demo_empty_db_def stored_network_def fun_eq_iff)
  obtain net where "build_network_from_gateway demo_net_new 0x0A1B0001 16 = Inr net"
    using ipnet_defined [OF demo_net_new_ok, of 16 "0x0A1B0000"]
    by (auto simp: build_network_from_gateway_def checked_pred_def)
  then have "to_ipv4_net demo_net_new demo_row = Some net" unfolding demo_row_def by (rule built_net_loaded)
  then obtain m where m: "db_nets demo_one_net ''lab'' = Some m"
    by (simp add: demo_one_net_def Let_def as_loaded_def st)
  have "\<not> is_blank (nr_secret demo_row)"
    using strong_not_blank [OF demo_secret_good] by (simp add: demo_row_def)
  then have a: "db_agrees demo_net_new demo_one_net"
    using statements_db_ok(1) [OF demo_first_start(4)] by (auto simp: db_agrees_def demo_one_net_def Let_def st split: if_splits)
  have p: "db_pool demo_one_net = Some ?d" by (simp add: demo_one_net_def Let_def)
  have u: "network_in_use True ''lab'' demo_one_net = Inr ()"
    by (simp add: network_in_use_def demo_one_net_def Let_def network_has_devices_def put_network_def demo_empty_db_def)
  show ?thesis
    using update_network_diverges [OF demo_net_new_ok a p m demo_secret_good u, of 0 24 60000 "fst ?u" "snd ?u"] m by auto
qed




end
