(* ===== verification/SubnetRoute.thy ===== *)
theory SubnetRoute
  imports ServerConfig
begin

text \<open>
  Routes to networks behind other clients, \<open>vnt/vnt-core/src/nat/mod.rs\<close>: the networks whose traffic is
  sent to another client (\<open>SubnetExternalRoute\<close>) and the networks a client forwards into
  (\<open>AllowSubnetExternalRoute\<close>). \<open>Ipv4Net\<close> is the crate \<open>ipnet\<close>. The shared, locked route table is the
  list it holds. The reference definition is longest-prefix matching over the configured list.
\<close>

section \<open>The tables\<close>

record NetInput =
  ni_net :: Ipv4Net
  ni_target_ip :: ipv4

type_synonym SubnetExternalRoute = "NetInput list"

text \<open>\<open>sort_by_key(|r| Reverse(r.net.prefix_len()))\<close>: stable, longest prefix first.\<close>

definition sort_by_prefix :: "NetInput list \<Rightarrow> NetInput list" where
  "sort_by_prefix = sort_key (\<lambda>r. - int (unat (net_prefix_len (ni_net r))))"

definition SubnetExternalRoute_new :: "NetInput list \<Rightarrow> SubnetExternalRoute" where
  "SubnetExternalRoute_new routes = sort_by_prefix routes"

definition set_route_table :: "NetInput list \<Rightarrow> SubnetExternalRoute \<Rightarrow> SubnetExternalRoute" where
  "set_route_table routes self = sort_by_prefix routes"

definition reset_route :: "NetInput list \<Rightarrow> SubnetExternalRoute \<Rightarrow> SubnetExternalRoute" where
  "reset_route routes self = routes"

definition all_route :: "SubnetExternalRoute \<Rightarrow> NetInput list" where
  "all_route self = self"

fun first_route :: "NetInput list \<Rightarrow> ipv4 \<Rightarrow> ipv4 option" where
  "first_route [] ip = None"
| "first_route (n # ns) ip = (if net_contains (ni_net n) ip then Some (ni_target_ip n) else first_route ns ip)"

definition subnet_route :: "SubnetExternalRoute \<Rightarrow> ipv4 \<Rightarrow> ipv4 option" where
  "subnet_route self ip = (if self = [] then None else first_route self ip)"

type_synonym AllowSubnetExternalRoute = "Ipv4Net list"

definition AllowSubnetExternalRoute_new :: "Ipv4Net list \<Rightarrow> AllowSubnetExternalRoute" where
  "AllowSubnetExternalRoute_new nets = sort_key net_prefix_len nets"

definition allow :: "AllowSubnetExternalRoute \<Rightarrow> ipv4 \<Rightarrow> bool" where
  "allow self ip = (if self = [] then False else list_ex (\<lambda>net. net_contains net ip) self)"

lemma allow_new: "allow (AllowSubnetExternalRoute_new nets) ip \<longleftrightarrow> (\<exists>net \<in> set nets. net_contains net ip)"
proof (cases "nets = []")
  case False
  have "set (AllowSubnetExternalRoute_new nets) = set nets" by (simp add: AllowSubnetExternalRoute_new_def)
  moreover from this False have "AllowSubnetExternalRoute_new nets \<noteq> []" by force
  ultimately show ?thesis by (simp add: allow_def list_ex_iff)
qed (simp add: allow_def AllowSubnetExternalRoute_new_def)

section \<open>Longest-prefix matching\<close>

text \<open>The reference: among the configured entries that contain the address, one with the longest prefix,
  the first of them in the configured order.\<close>

fun longest_match :: "NetInput list \<Rightarrow> ipv4 \<Rightarrow> NetInput option" where
  "longest_match [] ip = None"
| "longest_match (n # ns) ip =
     (if \<not> net_contains (ni_net n) ip then longest_match ns ip
      else (case longest_match ns ip of
              None \<Rightarrow> Some n
            | Some m \<Rightarrow> if net_prefix_len (ni_net n) < net_prefix_len (ni_net m) then Some m else Some n))"

lemma longest_match_None: "longest_match ns ip = None \<longleftrightarrow> (\<forall>n \<in> set ns. \<not> net_contains (ni_net n) ip)"
  by (induction ns) (auto split: option.splits)

lemma longest_match_Some:
  "longest_match ns ip = Some m \<Longrightarrow> m \<in> set ns \<and> net_contains (ni_net m) ip \<and>
    (\<forall>n \<in> set ns. net_contains (ni_net n) ip \<longrightarrow> net_prefix_len (ni_net n) \<le> net_prefix_len (ni_net m))"
proof (induction ns arbitrary: m)
  case (Cons n ns)
  show ?case
  proof (cases "longest_match ns ip")
    case None
    then show ?thesis using Cons.prems longest_match_None [of ns ip] by (auto split: if_splits)
  next
    case (Some x)
    then show ?thesis using Cons.IH [OF Some] Cons.prems by (force split: if_splits)
  qed
qed simp

lemma first_route_find: "first_route ns ip = map_option ni_target_ip (find (\<lambda>n. net_contains (ni_net n) ip) ns)"
  by (induction ns) simp_all

text \<open>Inserting an entry in front of those that are not longer keeps the first match the longest one.\<close>

lemma find_insort_prefix:
  fixes key :: "'a \<Rightarrow> int"
  assumes "sorted (map key l)"
  shows "find P (insort_key key n l) =
    (if \<not> P n then find P l
     else (case find P l of None \<Rightarrow> Some n | Some m \<Rightarrow> if key m < key n then Some m else Some n))"
  using assms
proof (induction l)
  case (Cons a l)
  have "key a \<le> key m" if "find P l = Some m" for m
  proof -
    have "m \<in> set l" using that by (auto simp: find_Some_iff)
    then show ?thesis using Cons.prems by auto
  qed
  then show ?case using Cons by (auto split: option.splits if_splits)
qed simp

lemma sorted_sort_by_prefix: "sorted (map (\<lambda>r. - int (unat (net_prefix_len (ni_net r)))) (sort_by_prefix ns))"
  by (simp add: sort_by_prefix_def)

lemma find_sort_by_prefix: "find (\<lambda>n. net_contains (ni_net n) ip) (sort_by_prefix ns) = longest_match ns ip"
proof (induction ns)
  case (Cons n ns)
  let ?key = "\<lambda>r. - int (unat (net_prefix_len (ni_net r)))"
  have "sort_by_prefix (n # ns) = insort_key ?key n (sort_by_prefix ns)"
    by (simp add: sort_by_prefix_def)
  then show ?case
    using find_insort_prefix [OF sorted_sort_by_prefix, of "\<lambda>n. net_contains (ni_net n) ip" n ns] Cons.IH
    by (simp add: word_less_def split: option.split)
qed (simp add: sort_by_prefix_def)

text \<open>C29 The routing table is longest-prefix matching: after \<open>new\<close> or \<open>set_route_table\<close> the first matching
  entry of the sorted table is the entry that the reference definition finds in the configured list, for
  every list of networks and every address.\<close>

theorem longest_prefix_route:
  "subnet_route (set_route_table routes old) ip = map_option ni_target_ip (longest_match routes ip) \<and>
   subnet_route (SubnetExternalRoute_new routes) ip = map_option ni_target_ip (longest_match routes ip)"
proof -
  have "sort_by_prefix routes = [] \<longleftrightarrow> routes = []"
    by (metis length_0_conv length_sort sort_by_prefix_def)
  then show ?thesis
    by (auto simp: subnet_route_def set_route_table_def SubnetExternalRoute_new_def first_route_find
      find_sort_by_prefix)
qed

text \<open>\<open>reset_route\<close> stores the list as it is given: a wide network listed first hides every narrower one.\<close>

lemma reset_route_hides:
  assumes "net_contains (ni_net n) ip"
  shows "subnet_route (reset_route (n # ns) old) ip = Some (ni_target_ip n)"
  using assms by (simp add: subnet_route_def reset_route_def)

section \<open>The client's own network\<close>

record NetworkAddr =
  na_gateway :: ipv4
  na_broadcast :: ipv4
  na_ip :: ipv4
  na_prefix_len :: u8

text \<open>\<open>Ipv4Net::new_assert\<close> panics for a prefix length above 32. \<open>net_new\<close> is \<open>Ipv4Net::new\<close>.\<close>

definition na_network :: "(ipv4 \<Rightarrow> u8 \<Rightarrow> Ipv4Net option) \<Rightarrow> NetworkAddr \<Rightarrow> Ipv4Net result" where
  "na_network net_new a = ok_or Panic (net_new (na_ip a) (na_prefix_len a))"

text \<open>\<open>NetworkRoute::network_contains\<close> and \<open>AppState::network_contains\<close>; the latter is false without a
  network of one's own.\<close>

definition network_contains :: "(ipv4 \<Rightarrow> u8 \<Rightarrow> Ipv4Net option) \<Rightarrow> NetworkAddr option \<Rightarrow> SubnetExternalRoute \<Rightarrow> ipv4
    \<Rightarrow> bool result" where
  "network_contains net_new network subnets ip =
     (case network of
        None \<Rightarrow> Inr (subnet_route subnets ip \<noteq> None)
      | Some a \<Rightarrow> and_then (na_network net_new a) (\<lambda>net.
          Inr (net_contains net ip \<or> subnet_route subnets ip \<noteq> None)))"

definition app_network_contains :: "(ipv4 \<Rightarrow> u8 \<Rightarrow> Ipv4Net option) \<Rightarrow> NetworkAddr option \<Rightarrow> SubnetExternalRoute \<Rightarrow> ipv4
    \<Rightarrow> bool result" where
  "app_network_contains net_new network subnets ip =
     (case network of
        None \<Rightarrow> Inr False
      | Some a \<Rightarrow> and_then (na_network net_new a) (\<lambda>net.
          if net_contains net ip then Inr True else Inr (subnet_route subnets ip \<noteq> None)))"

lemma network_contains_agree:
  "network \<noteq> None \<Longrightarrow> network_contains net_new network subnets ip = app_network_contains net_new network subnets ip"
  by (auto simp: network_contains_def app_network_contains_def na_network_def ok_or_def split: option.splits)

end
