(* ===== verification/ClientState.thy ===== *)
theory ClientState
  imports SubnetRoute ServerInfo RouteTable
begin

text \<open>
  The state a client shares between its tasks, \<open>vnt/vnt-core/src/context/nat.rs\<close> and the \<open>AppState\<close> of
  \<open>vnt/vnt-core/src/context/mod.rs\<close>: its own network address, what it knows of servers, peers, routes and
  its own NAT, and the brake on hole punching. Each \<open>Arc<Mutex<_>>\<close> is the value it protects. \<open>NatInfo\<close> and
  \<open>Index\<close> are plain data of the crate \<open>rust_p2p_core\<close>; its \<open>is_ipv4_global\<close> is the parameter \<open>is_global\<close>. The
  start-up configuration that \<open>AppState\<close> also holds is read nowhere in the data path and left out.
\<close>

section \<open>NAT information\<close>

datatype SocketAddr = V4 ipv4 u16 | V6 "128 word" u16

datatype NatType = Cone | Symmetric

record NatInfo =
  nat_type :: NatType
  public_ips :: "ipv4 list"
  public_udp_ports :: "u16 list"
  mapping_tcp_addr :: "SocketAddr list"
  mapping_udp_addr :: "SocketAddr list"
  public_port_range :: u16
  local_ipv4 :: ipv4
  local_ipv4s :: "ipv4 list"
  nat_ipv6 :: "128 word option"
  local_udp_ports :: "u16 list"
  local_tcp_port :: u16
  public_tcp_port :: u16

datatype UDPIndex = MainV4 nat | MainV6 nat | SubV4 nat

datatype Index = Udp UDPIndex | Tcp nat | OtherIndex

text \<open>\<open>Ipv6Addr::to_ipv4_mapped\<close>: the addresses \<open>::ffff:a.b.c.d\<close>.\<close>

definition to_ipv4_mapped :: "128 word \<Rightarrow> ipv4 option" where
  "to_ipv4_mapped a = (if drop_bit 32 a = 0xFFFF then Some (ucast a) else None)"

fun mapping_addr :: "SocketAddr \<Rightarrow> (ipv4 \<times> u16) option" where
  "mapping_addr (V4 ip port) = Some (ip, port)"
| "mapping_addr (V6 a port) = map_option (\<lambda>ip. (ip, port)) (to_ipv4_mapped a)"

definition add_public_ip :: "ipv4 \<Rightarrow> NatInfo \<Rightarrow> NatInfo" where
  "add_public_ip ip i = (if ip \<in> set (public_ips i) then i else i\<lparr>public_ips := public_ips i @ [ip]\<rparr>)"

fun main_udp_index :: "UDPIndex \<Rightarrow> nat option" where
  "main_udp_index (MainV4 i) = Some i"
| "main_udp_index (MainV6 i) = Some i"
| "main_udp_index (SubV4 i) = None"

fun set_public_port :: "Index \<Rightarrow> u16 \<Rightarrow> NatInfo \<Rightarrow> NatInfo" where
  "set_public_port (Udp u) port i =
     (case main_udp_index u of
        None \<Rightarrow> i
      | Some n \<Rightarrow> if n < length (public_udp_ports i) then i\<lparr>public_udp_ports := (public_udp_ports i)[n := port]\<rparr> else i)"
| "set_public_port (Tcp _) port i = i\<lparr>public_tcp_port := port\<rparr>"
| "set_public_port OtherIndex port i = i"

definition update_public_addr :: "(ipv4 \<Rightarrow> bool) \<Rightarrow> Index \<Rightarrow> SocketAddr \<Rightarrow> NatInfo option \<Rightarrow> NatInfo option" where
  "update_public_addr is_global index addr self =
     (case mapping_addr addr of
        None \<Rightarrow> self
      | Some (ip, port) \<Rightarrow>
          map_option (\<lambda>i. if is_global ip then set_public_port index port (add_public_ip ip i) else i) self)"

fun update_tcp_public_addr :: "(ipv4 \<Rightarrow> bool) \<Rightarrow> SocketAddr \<Rightarrow> NatInfo option \<Rightarrow> NatInfo option" where
  "update_tcp_public_addr is_global (V6 _ _) self = self"
| "update_tcp_public_addr is_global (V4 ip port) self =
     map_option (\<lambda>i.
       if ip = UNSPECIFIED \<and> port = 0 then i\<lparr>public_tcp_port := 0\<rparr>
       else if is_global ip then (add_public_ip ip i)\<lparr>public_tcp_port := port\<rparr> else i) self"

section \<open>The brake on hole punching\<close>

record PunchState =
  ps_count :: i64
  ps_last_ts :: i64

type_synonym PunchBackoff = "ipv4 \<rightharpoonup> PunchState"

definition MAX_BACKOFF_MS :: i64 where "MAX_BACKOFF_MS = 3600000"
definition BASE_MS :: i64 where "BASE_MS = 3000"

definition record_punch :: "i64 \<Rightarrow> ipv4 \<Rightarrow> PunchBackoff \<Rightarrow> PunchBackoff" where
  "record_punch now ip m =
     (let s = (case m ip of Some s \<Rightarrow> s | None \<Rightarrow> \<lparr>ps_count = 0, ps_last_ts = 0\<rparr>)
      in m(ip \<mapsto> \<lparr>ps_count = ps_count s + 1, ps_last_ts = now\<rparr>))"

definition backoff_reset :: "ipv4 \<Rightarrow> PunchBackoff \<Rightarrow> PunchBackoff" where
  "backoff_reset ip m = m(ip := None)"

definition should_punch :: "i64 \<Rightarrow> ipv4 \<Rightarrow> PunchBackoff \<Rightarrow> bool" where
  "should_punch now ip m =
     (case m ip of
        None \<Rightarrow> True
      | Some s \<Rightarrow>
          (let elapsed = now - ps_last_ts s;
               backoff = BASE_MS * ps_count s;
               backoff = (if sint backoff > sint MAX_BACKOFF_MS then MAX_BACKOFF_MS else backoff)
           in sint elapsed \<ge> sint backoff))"

section \<open>The shared state\<close>

record 'k AppState =
  as_network :: "NetworkAddr option"
  as_server_info :: ServerInfoCollection
  as_peer_map :: "ipv4 \<rightharpoonup> NatInfo option"
  as_routes :: "'k RouteTable"
  as_subnets :: SubnetExternalRoute
  as_nat_info :: "NatInfo option"
  as_backoff :: PunchBackoff
  as_loss :: "ipv4 \<rightharpoonup> PingStats"
  as_traffic :: "ipv4 \<rightharpoonup> TrafficCounter"

definition AppState_default :: "'k AppState" where
  "AppState_default =
     \<lparr>as_network = None, as_server_info = \<lparr>client_simple_list = [], server_node_map = Map.empty\<rparr>,
      as_peer_map = Map.empty, as_routes = RouteTable_new, as_subnets = [], as_nat_info = None,
      as_backoff = Map.empty, as_loss = Map.empty, as_traffic = Map.empty\<rparr>"

definition update_nat_info :: "ipv4 \<Rightarrow> NatInfo \<Rightarrow> (ipv4 \<rightharpoonup> NatInfo option) \<Rightarrow> (ipv4 \<rightharpoonup> NatInfo option)" where
  "update_nat_info ip info m = m(ip \<mapsto> Some info)"

definition stop_network :: "'k AppState \<Rightarrow> 'k AppState" where
  "stop_network s = s\<lparr>as_network := None, as_server_info := sic_clear (as_server_info s), as_peer_map := Map.empty,
     as_nat_info := None, as_backoff := Map.empty, as_loss := Map.empty, as_traffic := Map.empty\<rparr>"

text \<open>\<open>filter_ip\<close>: addresses inside the virtual network are not offered to peers. \<open>contains\<close> is one of the two
  \<open>network_contains\<close>; evaluating it can panic.\<close>

fun retain_outside :: "(ipv4 \<Rightarrow> bool result) \<Rightarrow> ipv4 list \<Rightarrow> ipv4 list result" where
  "retain_outside contains [] = Inr []"
| "retain_outside contains (ip # ips) =
     and_then (contains ip) (\<lambda>b. and_then (retain_outside contains ips) (\<lambda>kept.
       Inr (if b then kept else ip # kept)))"

definition filter_ip :: "(ipv4 \<Rightarrow> bool result) \<Rightarrow> NatInfo \<Rightarrow> NatInfo result" where
  "filter_ip contains i =
     and_then (contains (local_ipv4 i)) (\<lambda>b.
     and_then (retain_outside contains (local_ipv4s i)) (\<lambda>kept.
       Inr (i\<lparr>local_ipv4 := (if b then UNSPECIFIED else local_ipv4 i), local_ipv4s := kept\<rparr>)))"

definition get_punch_info :: "(ipv4 \<Rightarrow> bool result) \<Rightarrow> NatInfo option \<Rightarrow> NatInfo option result" where
  "get_punch_info contains info =
     (case info of None \<Rightarrow> Inr None | Some i \<Rightarrow> and_then (filter_ip contains i) (\<lambda>i. Inr (Some i)))"

definition app_get_nat_info :: "(ipv4 \<Rightarrow> u8 \<Rightarrow> Ipv4Net option) \<Rightarrow> 'k AppState \<Rightarrow> NatInfo option result" where
  "app_get_nat_info net_new s =
     get_punch_info (app_network_contains net_new (as_network s) (as_subnets s)) (as_nat_info s)"

text \<open>The views of the counters and of the server table that the other components read.\<close>

definition get_traffic_info :: "ipv4 \<Rightarrow> (ipv4 \<rightharpoonup> TrafficCounter) \<Rightarrow> (ipv4 \<times> u64 \<times> u64) option" where
  "get_traffic_info ip m = map_option (\<lambda>c. (ip, tc_tx_bytes c, tc_rx_bytes c)) (m ip)"

definition server_client_ip_map :: "ipv4 list \<Rightarrow> ServerInfoCollection \<Rightarrow> (u32 \<rightharpoonup> ipv4 list \<times> u32)" where
  "server_client_ip_map ips c = (\<lambda>sid. map_option (\<lambda>n.
     (filter (\<lambda>ip. case sn_client_map n ip of Some v \<Rightarrow> csi_online v | None \<Rightarrow> False) ips,
      case sn_rtt n of Some r \<Rightarrow> r | None \<Rightarrow> 500)) (server_node_map c sid))"

section \<open>Lemmas\<close>

lemma retain_outside_Inr:
  "retain_outside contains ips = Inr kept \<Longrightarrow>
    kept = filter (\<lambda>ip. contains ip = Inr False) ips \<and> (\<forall>ip \<in> set ips. \<exists>b. contains ip = Inr b)"
  by (induction ips arbitrary: kept) (auto split: if_splits)

lemma retain_outside_total:
  "\<forall>ip \<in> set ips. \<exists>b. contains ip = Inr b \<Longrightarrow> \<exists>kept. retain_outside contains ips = Inr kept"
proof (induction ips)
  case (Cons a ips)
  then obtain kept b where "retain_outside contains ips = Inr kept" "contains a = Inr b" by auto
  then show ?case by (cases b) simp_all
qed simp

text \<open>A punch message never offers an address of the virtual network or of a subnet behind it: whatever
  \<open>filter_ip\<close> returns has no such local address, and it changes nothing else.\<close>

lemma punch_info_outside:
  assumes "get_punch_info (network_contains net_new network subnets) (Some i) = Inr (Some j)"
  shows "(\<forall>ip \<in> insert (local_ipv4 j) (set (local_ipv4s j)) - {UNSPECIFIED}.
      network_contains net_new network subnets ip = Inr False) \<and>
    set (local_ipv4s j) \<subseteq> set (local_ipv4s i) \<and> j\<lparr>local_ipv4 := local_ipv4 i, local_ipv4s := local_ipv4s i\<rparr> = i"
proof -
  let ?c = "network_contains net_new network subnets"
  obtain b kept where b: "?c (local_ipv4 i) = Inr b" "retain_outside ?c (local_ipv4s i) = Inr kept"
    and j: "j = i\<lparr>local_ipv4 := (if b then UNSPECIFIED else local_ipv4 i), local_ipv4s := kept\<rparr>"
    using assms by (auto simp: get_punch_info_def filter_ip_def)
  have k: "kept = filter (\<lambda>ip. ?c ip = Inr False) (local_ipv4s i)"
    using retain_outside_Inr [OF b(2)] by blast
  show ?thesis using b(1) unfolding j k by (cases b) auto
qed

section \<open>The punch schedule\<close>

text \<open>The number of milliseconds a peer is left alone after \<open>n\<close> punches.\<close>

definition quiet_ms :: "nat \<Rightarrow> int" where
  "quiet_ms n = min (3000 * int n) 3600000"

definition punches :: "i64 list \<Rightarrow> ipv4 \<Rightarrow> PunchBackoff \<Rightarrow> PunchBackoff" where
  "punches ts ip m = foldl (\<lambda>m t. record_punch t ip m) m ts"

lemma punches_state:
  "ts \<noteq> [] \<Longrightarrow> m ip = None \<Longrightarrow>
    punches ts ip m ip = Some \<lparr>ps_count = word_of_nat (length ts), ps_last_ts = last ts\<rparr>"
proof (induction ts rule: rev_induct)
  case (snoc t us)
  show ?case
  proof (cases "us = []")
    case True
    then show ?thesis using snoc.prems by (simp add: punches_def record_punch_def)
  next
    case False
    then have "punches us ip m ip = Some \<lparr>ps_count = word_of_nat (length us), ps_last_ts = last us\<rparr>"
      using snoc by simp
    then show ?thesis by (simp add: punches_def record_punch_def Let_def)
  qed
qed simp

lemma sint_small: "0 \<le> k \<Longrightarrow> k < 2 ^ 63 \<Longrightarrow> sint (word_of_int k :: i64) = k"
  by (simp add: signed_of_int signed_take_bit_int_eq_self)

text \<open>The brake is linear and bounded: after \<open>n\<close> punches (fewer than \<open>2^50\<close>, at times in order) a peer is
  tried again exactly when \<open>min (n * 3 s) 1 h\<close> have passed since the last of them, so a peer is never
  left alone for longer than an hour, and other peers are not affected.\<close>

theorem punch_schedule:
  assumes "m ip = None" "ts \<noteq> []" "length ts < 2 ^ 50"
    and "0 \<le> sint (last ts)" "sint (last ts) \<le> sint now"
  shows "(should_punch now ip (punches ts ip m) \<longleftrightarrow> quiet_ms (length ts) \<le> sint now - sint (last ts)) \<and>
    quiet_ms (length ts) \<le> 3600000 \<and>
    (other \<noteq> ip \<longrightarrow> should_punch now other (punches ts ip m) = should_punch now other m)"
proof -
  let ?n = "int (length ts)"
  have n: "0 \<le> 3000 * ?n" "3000 * ?n < 2 ^ 63" using assms(3) by simp_all
  have bk: "sint (BASE_MS * word_of_nat (length ts)) = 3000 * ?n"
    using sint_small [OF n] by (simp add: BASE_MS_def)
  have mx: "sint MAX_BACKOFF_MS = 3600000"
    using sint_small [of 3600000] by (simp add: MAX_BACKOFF_MS_def)
  have el: "sint (now - last ts) = sint now - sint (last ts)"
  proof -
    have "0 \<le> sint now - sint (last ts)" "sint now - sint (last ts) < 2 ^ 63"
      using assms(4,5) sint_less [of now] by simp_all
    then have "sint (word_of_int (sint now - sint (last ts)) :: i64) = sint now - sint (last ts)"
      by (rule sint_small)
    then show ?thesis by simp
  qed
  have "should_punch now ip (punches ts ip m) \<longleftrightarrow> quiet_ms (length ts) \<le> sint now - sint (last ts)"
    using punches_state [where m = m and ip = ip and ts = ts, OF assms(2) assms(1)] bk mx el
    by (simp add: should_punch_def Let_def quiet_ms_def min_def)
  moreover have "punches ts ip m other = m other" if "other \<noteq> ip"
    using that unfolding punches_def
    by (induction ts arbitrary: m) (simp_all add: record_punch_def Let_def)
  ultimately show ?thesis by (auto simp: quiet_ms_def should_punch_def)
qed

theorem punch_schedule_witness:
  "\<not> should_punch 10000 7 (punches [1000, 5000] 7 Map.empty) \<and> should_punch 11000 7 (punches [1000, 5000] 7 Map.empty)"
  using punch_schedule [of Map.empty 7 "[1000, 5000]" 10000 8] punch_schedule [of Map.empty 7 "[1000, 5000]" 11000 8]
  by (simp add: quiet_ms_def)

end
