(* ===== verification/ControlMessage.thy ===== *)
theory ControlMessage
  imports NetworkState
begin

text \<open>
  The control messages of the server, \<open>vnts/src/protocol/control_message.rs\<close>: conversions between the
  messages of the program and those of the generated protobuf code. The wire codec itself is generated
  (crate \<open>prost\<close>) and a parameter: \<open>dec\<close> is \<open>Message::decode\<close>, \<open>enc\<close> is \<open>encode\<close>.
\<close>

section \<open>Messages of the generated code\<close>

text \<open>An enumeration field is an \<open>i32\<close>; its accessor gives the default for unknown values.\<close>

record ProtoRegRequest =
  p_network_code :: string
  p_device_id :: string
  p_ip :: "u32 option"
  p_name :: string
  p_version :: string
  p_key_sign :: "string option"
  p_ip_variable :: bool
  p_server_id :: u32
  p_registration_mode :: u32

datatype RequestPayload = PReg ProtoRegRequest | PConfirmReg

record ProtoRegResponse =
  p_res_ip :: u32
  p_prefix_len :: u32
  p_gateway :: u32
  p_server_version :: string

datatype ResponsePayload =
    PRegRes ProtoRegResponse
  | PErrorRes u32 string
  | PConfirmRes bool

type_synonym ProtoSelectiveBroadcast = "u32 list \<times> bytes"

type_synonym ProtoClientSimpleInfo = "u32 \<times> bool"

record ProtoClientSimpleInfoList =
  p_data_version :: u64
  p_list :: "ProtoClientSimpleInfo list"
  p_is_all :: bool
  p_time :: i64

section \<open>Requests\<close>

fun RegistrationMode_as_i32 :: "RegistrationMode \<Rightarrow> u32" where
  "RegistrationMode_as_i32 Normal = 0"
| "RegistrationMode_as_i32 PreRegister = 1"

definition registration_mode :: "ProtoRegRequest \<Rightarrow> RegistrationMode" where
  "registration_mode m = (if p_registration_mode m = 1 then PreRegister else Normal)"

definition RegRequestMsg_from :: "ProtoRegRequest \<Rightarrow> RegRequestMsg result" where
  "RegRequestMsg_from m = Inr
     \<lparr>rq_network_code = p_network_code m, rq_device_id = p_device_id m, rq_ip = p_ip m, rq_name = p_name m,
      rq_version = p_version m, rq_key_sign = p_key_sign m, rq_ip_variable = p_ip_variable m,
      rq_server_id = p_server_id m, rq_mode = registration_mode m\<rparr>"

definition RegRequestMsg_to :: "RegRequestMsg \<Rightarrow> ProtoRegRequest" where
  "RegRequestMsg_to r =
     \<lparr>p_network_code = rq_network_code r, p_device_id = rq_device_id r, p_ip = rq_ip r, p_name = rq_name r,
      p_version = rq_version r, p_key_sign = rq_key_sign r, p_ip_variable = rq_ip_variable r,
      p_server_id = rq_server_id r, p_registration_mode = RegistrationMode_as_i32 (rq_mode r)\<rparr>"

datatype RequestMessage = ReqReg RegRequestMsg | ReqConfirmReg

definition RequestMessage_from_slice :: "(bytes \<Rightarrow> RequestPayload option option) \<Rightarrow> bytes \<Rightarrow> RequestMessage result" where
  "RequestMessage_from_slice dec buf =
     (case dec buf of
        None \<Rightarrow> Inl InvalidData
      | Some None \<Rightarrow> Inl (Bail ''unsupported'')
      | Some (Some (PReg reg)) \<Rightarrow> and_then (RegRequestMsg_from reg) (\<lambda>r. Inr (ReqReg r))
      | Some (Some PConfirmReg) \<Rightarrow> Inr ReqConfirmReg)"

fun RequestMessage_encode :: "(RequestPayload option \<Rightarrow> bytes) \<Rightarrow> RequestMessage \<Rightarrow> bytes" where
  "RequestMessage_encode enc (ReqReg r) = enc (Some (PReg (RegRequestMsg_to r)))"
| "RequestMessage_encode enc ReqConfirmReg = enc (Some PConfirmReg)"

section \<open>Responses\<close>

record RegResponseMsg =
  rs_ip :: ipv4
  rs_prefix_len :: u8
  rs_gateway :: ipv4
  rs_server_version :: string

definition RegResponseMsg_to :: "RegResponseMsg \<Rightarrow> ProtoRegResponse" where
  "RegResponseMsg_to r = \<lparr>p_res_ip = rs_ip r, p_prefix_len = ucast (rs_prefix_len r), p_gateway = rs_gateway r,
     p_server_version = rs_server_version r\<rparr>"

datatype ResponseMessage =
    ResReg RegResponseMsg
  | ResError u32 string
  | ResConfirmReg bool

fun ResponseMessage_encode :: "(ResponsePayload option \<Rightarrow> bytes) \<Rightarrow> ResponseMessage \<Rightarrow> bytes" where
  "ResponseMessage_encode enc (ResReg r) = enc (Some (PRegRes (RegResponseMsg_to r)))"
| "ResponseMessage_encode enc (ResError code message) = enc (Some (PErrorRes code message))"
| "ResponseMessage_encode enc (ResConfirmReg success) = enc (Some (PConfirmRes success))"

section \<open>Broadcasts and the client list\<close>

text \<open>The \<open>HashSet\<close> of addresses is the list it is collected from; only membership is used.\<close>

record SelectiveBroadcast =
  sb_ips :: "ipv4 list"
  sb_data :: bytes

definition SelectiveBroadcast_from_slice :: "(bytes \<Rightarrow> ProtoSelectiveBroadcast option) \<Rightarrow> bytes
    \<Rightarrow> SelectiveBroadcast result" where
  "SelectiveBroadcast_from_slice dec buf =
     and_then (ok_or InvalidData (dec buf)) (\<lambda>(ips, data). Inr \<lparr>sb_ips = ips, sb_data = data\<rparr>)"

definition SelectiveBroadcast_encode :: "(ProtoSelectiveBroadcast \<Rightarrow> bytes) \<Rightarrow> SelectiveBroadcast \<Rightarrow> bytes" where
  "SelectiveBroadcast_encode enc b = enc (sb_ips b, sb_data b)"

definition ClientSimpleInfo_from :: "ProtoClientSimpleInfo \<Rightarrow> ClientSimpleInfo" where
  "ClientSimpleInfo_from m = \<lparr>csi_ip = fst m, csi_online = snd m\<rparr>"

definition ClientSimpleInfo_to :: "ClientSimpleInfo \<Rightarrow> ProtoClientSimpleInfo" where
  "ClientSimpleInfo_to c = (csi_ip c, csi_online c)"

definition ClientSimpleInfoList_from_slice :: "(bytes \<Rightarrow> ProtoClientSimpleInfoList option) \<Rightarrow> bytes
    \<Rightarrow> ClientSimpleInfoList result" where
  "ClientSimpleInfoList_from_slice dec buf =
     and_then (ok_or InvalidData (dec buf)) (\<lambda>m.
       Inr \<lparr>csl_data_version = p_data_version m, csl_list = map ClientSimpleInfo_from (p_list m),
            csl_is_all = p_is_all m, csl_time = p_time m\<rparr>)"

definition ClientSimpleInfoList_encode :: "(ProtoClientSimpleInfoList \<Rightarrow> bytes) \<Rightarrow> ClientSimpleInfoList \<Rightarrow> bytes" where
  "ClientSimpleInfoList_encode enc l = enc
     \<lparr>p_data_version = csl_data_version l, p_list = map ClientSimpleInfo_to (csl_list l),
      p_is_all = csl_is_all l, p_time = csl_time l\<rparr>"

section \<open>Round trips\<close>

lemma reg_request_roundtrip [simp]: "RegRequestMsg_from (RegRequestMsg_to r) = Inr r"
  by (cases "rq_mode r") (simp_all add: RegRequestMsg_from_def RegRequestMsg_to_def registration_mode_def)

lemma request_roundtrip:
  assumes "\<And>m. dec (enc m) = Some m"
  shows "RequestMessage_from_slice dec (RequestMessage_encode enc r) = Inr r"
  by (cases r) (simp_all add: RequestMessage_from_slice_def assms)

lemma selective_roundtrip:
  assumes "\<And>m. dec (enc m) = Some m"
  shows "SelectiveBroadcast_from_slice dec (SelectiveBroadcast_encode enc b) = Inr b"
  by (simp add: SelectiveBroadcast_from_slice_def SelectiveBroadcast_encode_def assms)

lemma simple_info_roundtrip [simp]: "map (ClientSimpleInfo_from \<circ> ClientSimpleInfo_to) cs = cs"
  by (induction cs) (simp_all add: ClientSimpleInfo_from_def ClientSimpleInfo_to_def)

lemma simple_list_roundtrip:
  assumes "\<And>m. dec (enc m) = Some m"
  shows "ClientSimpleInfoList_from_slice dec (ClientSimpleInfoList_encode enc l) = Inr l"
  by (simp add: ClientSimpleInfoList_from_slice_def ClientSimpleInfoList_encode_def assms)

end
