(* ===== verification/IpPacket.thy ===== *)
theory IpPacket
  imports Prelude
begin

text \<open>
  IPv4, ICMP and TCP headers as the crate \<open>pnet_packet\<close> reads and writes them: the record of its functions is a
  parameter of the model. \<open>ipv4_new\<close>, \<open>icmp_new\<close>, \<open>echo_request_new\<close> and \<open>tcp_new\<close> say whether the packet view
  can be made of the bytes. \<open>demo_pnet\<close> is an instance for the concrete runs: a header of 20 bytes, without
  checksums.
\<close>

record pnet =
  ipv4_new :: "bytes \<Rightarrow> bool"
  ip_version :: "bytes \<Rightarrow> u8"
  next_level_protocol :: "bytes \<Rightarrow> u8"
  ipv4_payload :: "bytes \<Rightarrow> bytes"
  header_length :: "bytes \<Rightarrow> u8"
  total_length :: "bytes \<Rightarrow> u16"
  ip_flags :: "bytes \<Rightarrow> u8"
  fragment_offset :: "bytes \<Rightarrow> u16"
  ip_source :: "bytes \<Rightarrow> ipv4"
  ip_destination :: "bytes \<Rightarrow> ipv4"
  set_source :: "ipv4 \<Rightarrow> bytes \<Rightarrow> bytes"
  set_destination :: "ipv4 \<Rightarrow> bytes \<Rightarrow> bytes"
  ipv4_checksum :: "bytes \<Rightarrow> u16"
  set_ipv4_checksum :: "u16 \<Rightarrow> bytes \<Rightarrow> bytes"
  echo_request_new :: "bytes \<Rightarrow> bool"
  icmp_new :: "bytes \<Rightarrow> bool"
  icmp_type :: "bytes \<Rightarrow> u8"
  set_icmp_type :: "u8 \<Rightarrow> bytes \<Rightarrow> bytes"
  set_icmp_code :: "u8 \<Rightarrow> bytes \<Rightarrow> bytes"
  icmp_checksum :: "bytes \<Rightarrow> u16"
  set_icmp_checksum :: "u16 \<Rightarrow> bytes \<Rightarrow> bytes"
  tcp_new :: "bytes \<Rightarrow> bool"
  tcp_flags :: "bytes \<Rightarrow> u8"
  tcp_source :: "bytes \<Rightarrow> u16"
  tcp_destination :: "bytes \<Rightarrow> u16"

definition demo_pnet :: pnet where
  "demo_pnet = \<lparr>ipv4_new = \<lambda>ip. 20 \<le> length ip, ip_version = \<lambda>ip. drop_bit 4 (ip ! 0),
     next_level_protocol = \<lambda>ip. ip ! 9, ipv4_payload = \<lambda>ip. drop 20 ip,
     header_length = \<lambda>ip. ip ! 0 AND 0x0F, total_length = \<lambda>ip. word_of_nat (be_dec (take 2 (drop 2 ip))),
     ip_flags = \<lambda>ip. drop_bit 5 (ip ! 6), fragment_offset = \<lambda>ip. word_of_nat (be_dec (take 2 (drop 6 ip))) AND 0x1FFF,
     ip_source = \<lambda>ip. word_of_nat (be_dec (take 4 (drop 12 ip))), ip_destination = \<lambda>ip. word_of_nat (be_dec (take 4 (drop 16 ip))),
     set_source = \<lambda>a ip. write_slice 12 (be_enc 4 (unat a)) ip, set_destination = \<lambda>a ip. write_slice 16 (be_enc 4 (unat a)) ip,
     ipv4_checksum = \<lambda>_. 0, set_ipv4_checksum = \<lambda>_ ip. ip, echo_request_new = \<lambda>b. 8 \<le> length b, icmp_new = \<lambda>b. 4 \<le> length b,
     icmp_type = \<lambda>b. b ! 0, set_icmp_type = \<lambda>t b. b[0 := t], set_icmp_code = \<lambda>t b. b[1 := t],
     icmp_checksum = \<lambda>_. 0, set_icmp_checksum = \<lambda>_ b. b, tcp_new = \<lambda>b. 20 \<le> length b, tcp_flags = \<lambda>b. b ! 13,
     tcp_source = \<lambda>b. word_of_nat (be_dec (take 2 b)), tcp_destination = \<lambda>b. word_of_nat (be_dec (take 2 (drop 2 b)))\<rparr>"

section \<open>Classes of addresses\<close>

text \<open>\<open>Ipv4Addr::is_multicast\<close>: the first octet is 224 to 239.\<close>

definition is_multicast :: "ipv4 \<Rightarrow> bool" where
  "is_multicast ip \<longleftrightarrow> 224 \<le> unat ip div 2 ^ 24 \<and> unat ip div 2 ^ 24 \<le> 239"

definition LOCALHOST :: ipv4 where "LOCALHOST = 0x7F000001"

end
