(* ===== verification/ClientOutbound.thy ===== *)
theory ClientOutbound
  imports ClientState Fec Codec ControlMessage IpPacket
begin

text \<open>
  The sending side of a client: what becomes of an IP packet read from the virtual interface. In the order of
  the code, \<open>vnt/vnt-core/src/tunnel_core/p2p/outbound.rs\<close>, \<open>tunnel_core/server/outbound.rs\<close>,
  \<open>tunnel_core/outbound.rs\<close>, \<open>enhanced_tunnel/quic_over/quic_outbound.rs\<close> and \<open>enhanced_tunnel/outbound.rs\<close>.

  An operation returns its result, the list of its effects in order, and the node with its new state. Whether
  a send is accepted is a parameter of \<open>client_env\<close>, as are the primitives of the crates (see \<open>Codec\<close>,
  \<open>Fec\<close>, \<open>IpPacket\<close>) and the TCP/IP stack of the crate \<open>tcp_ip\<close>. \<open>client_conf\<close> holds what \<open>create_network\<close> fixes
  once. The five seconds a queued packet may wait are left to the connection task.
\<close>

section \<open>Parameters, configuration and state of a node\<close>

datatype UseChannel = Auto | P2p | Relay

datatype 'k client_effect =
    ToServer u32 bytes
  | ToPeer 'k bytes
  | ToQuicStack bytes
  | ToTun bytes
  | ToNatStack bytes
  | ToQuic ipv4 bytes
  | Answer bytes
  | SpawnPunch ipv4 NatInfo "nat option"

record ('key, 'k) client_env =
  ce_al :: "nat \<Rightarrow> nat"
  ce_net_new :: "ipv4 \<Rightarrow> u8 \<Rightarrow> Ipv4Net option"
  ce_pnet :: pnet
  ce_lz_c :: "bytes \<Rightarrow> bytes"
  ce_lz_d :: "bytes \<Rightarrow> bytes option"
  ce_seal :: "'key seal"
  ce_unseal :: "'key unseal"
  ce_fec_enc :: "FecPacket \<Rightarrow> bytes"
  ce_fec_dec :: "bytes \<Rightarrow> FecPacket option"
  ce_rs :: rs_reconstruct
  ce_selective_enc :: "ProtoSelectiveBroadcast \<Rightarrow> bytes"
  ce_peer_takes :: "'k \<Rightarrow> bytes \<Rightarrow> bool"
  ce_server_takes :: "u32 \<Rightarrow> bytes \<Rightarrow> bool"
  ce_stack_takes :: "bytes \<Rightarrow> bool"
  ce_tun_takes :: "bytes \<Rightarrow> bool"
  ce_tcp_connection :: "ipv4 \<times> u16 \<Rightarrow> ipv4 \<times> u16 \<Rightarrow> bool"
  ce_tcp_half_open :: "ipv4 \<times> u16 \<Rightarrow> ipv4 \<times> u16 \<Rightarrow> bool"

record 'key client_conf =
  cc_crypto :: "'key option"
  cc_compression :: PacketCompression
  cc_use_channel :: UseChannel
  cc_p2p :: bool
  cc_servers :: "u32 list"
  cc_open_quic :: bool

record 'k Node = "'k AppState" +
  nd_fec_encoder :: "FecEncoder option"
  nd_fec_decoder :: FecDecoder

text \<open>A send that is awaited with \<open>?\<close>: it takes effect or fails.\<close>

definition send_or :: "bool \<Rightarrow> rust_error \<Rightarrow> 'e \<Rightarrow> unit result \<times> 'e list" where
  "send_or ok err e = (if ok then (Inr (), [e]) else (Inl err, []))"

text \<open>Header writes of a packet in its buffer, \<open>NetPacket::new\<close> on a buffer and \<open>into_bytes\<close> with \<open>NetPacket::new\<close>.\<close>

definition tb_map :: "(bytes \<Rightarrow> bytes) \<Rightarrow> TransmissionBytes \<Rightarrow> TransmissionBytes" where
  "tb_map f t = tb_write (f (tb_view t)) t"

definition packet_new :: "TransmissionBytes \<Rightarrow> TransmissionBytes result" where
  "packet_new t = and_then (tb_as_slice t) (\<lambda>v. and_then (NetPacket_new v) (\<lambda>_. Inr t))"

definition frozen :: "TransmissionBytes \<Rightarrow> bytes result" where
  "frozen t = and_then (tb_into_bytes t) NetPacket_new"

section \<open>Routes to peers\<close>

definition get_p2p_route_by_id :: "'k RouteTable \<Rightarrow> ipv4 \<Rightarrow> 'k Route option" where
  "get_p2p_route_by_id t ip =
     (case get_by_id t ip of Some r \<Rightarrow> if is_direct r then Some r else None | None \<Rightarrow> None)"

definition p2p_send_raw_to :: "('key, 'k) client_env \<Rightarrow> 'k \<Rightarrow> bytes \<Rightarrow> unit result \<times> 'k client_effect list" where
  "p2p_send_raw_to env k buf = send_or (ce_peer_takes env k buf) IoOther (ToPeer k buf)"

definition p2p_send_to :: "('key, 'k) client_env \<Rightarrow> 'key client_conf \<Rightarrow> 'k \<Rightarrow> TransmissionBytes
    \<Rightarrow> unit result \<times> 'k client_effect list" where
  "p2p_send_to env conf k t =
     (case and_then (encrypt_in_place (ce_al env) (ce_seal env) (cc_crypto conf) t) tb_into_bytes of
        Inl e \<Rightarrow> (Inl e, [])
      | Inr buf \<Rightarrow> p2p_send_raw_to env k buf)"

text \<open>The peers that took the packet; \<open>n\<close> is the number still wanted. The check follows the push, so at least
  one is sent.\<close>

fun p2p_broadcast :: "('key, 'k) client_env \<Rightarrow> 'k RouteTable \<Rightarrow> ipv4 list \<Rightarrow> nat \<Rightarrow> bytes
    \<Rightarrow> ipv4 list \<times> 'k client_effect list" where
  "p2p_broadcast env t [] n buf = ([], [])"
| "p2p_broadcast env t (ip # ips) n buf =
     (case get_p2p_route_by_id t ip of
        None \<Rightarrow> p2p_broadcast env t ips n buf
      | Some r \<Rightarrow>
          if \<not> ce_peer_takes env (route_key r) buf then p2p_broadcast env t ips n buf
          else if n \<le> 1 then ([ip], [ToPeer (route_key r) buf])
          else (case p2p_broadcast env t ips (n - 1) buf of
                  (sent, effs) \<Rightarrow> (ip # sent, ToPeer (route_key r) buf # effs)))"

section \<open>Routes over servers\<close>

definition server_exists_route :: "ipv4 \<Rightarrow> ServerInfoCollection \<Rightarrow> bool" where
  "server_exists_route dest c = exists_online_client_ip dest c"

definition send_channel :: "('key, 'k) client_env \<Rightarrow> 'key client_conf \<Rightarrow> u32 \<Rightarrow> bytes
    \<Rightarrow> unit result \<times> 'k client_effect list" where
  "send_channel env conf sid buf =
     (if sid \<notin> set (cc_servers conf) then (Inl (Bail ''not found server''), [])
      else send_or (ce_server_takes env sid buf) (Bail ''connect server task failed'') (ToServer sid buf))"

definition send_expired_impl :: "('key, 'k) client_env \<Rightarrow> 'key client_conf \<Rightarrow> u32 \<Rightarrow> TransmissionBytes
    \<Rightarrow> unit result \<times> 'k client_effect list" where
  "send_expired_impl env conf sid t =
     (case (if is_gateway (tb_view t) then Inr t
            else encrypt_in_place (ce_al env) (ce_seal env) (cc_crypto conf) t) of
        Inl e \<Rightarrow> (Inl e, [])
      | Inr t \<Rightarrow>
          if sid \<notin> set (cc_servers conf) then (Inl (Bail ''not found server''), [])
          else (case tb_into_bytes t of Inl e \<Rightarrow> (Inl e, []) | Inr buf \<Rightarrow> send_channel env conf sid buf))"

definition send_to_gateway_expired :: "('key, 'k) client_env \<Rightarrow> 'key client_conf \<Rightarrow> u32 \<Rightarrow> TransmissionBytes
    \<Rightarrow> ServerInfoCollection \<Rightarrow> unit result \<times> 'k client_effect list" where
  "send_to_gateway_expired env conf sid t c =
     (if \<not> is_server_connected sid c then (Inl (Bail ''not connected''), [])
      else send_expired_impl env conf sid (tb_map (set_gateway_flag True) t))"

definition server_send :: "('key, 'k) client_env \<Rightarrow> 'key client_conf \<Rightarrow> ipv4 \<Rightarrow> TransmissionBytes
    \<Rightarrow> ServerInfoCollection \<Rightarrow> unit result \<times> 'k client_effect list" where
  "server_send env conf dest t c =
     (case find_ip_to_server (cc_servers conf) dest c of
        None \<Rightarrow> (Inl (Bail ''not found ip route''), [])
      | Some sid \<Rightarrow> send_expired_impl env conf sid t)"

definition server_send_raw :: "('key, 'k) client_env \<Rightarrow> 'key client_conf \<Rightarrow> ipv4 \<Rightarrow> bytes \<Rightarrow> ServerInfoCollection
    \<Rightarrow> unit result \<times> 'k client_effect list" where
  "server_send_raw env conf dest buf c =
     (case find_ip_to_server (cc_servers conf) dest c of
        None \<Rightarrow> (Inl (Bail ''not found ip route''), [])
      | Some sid \<Rightarrow> send_channel env conf sid buf)"

definition server_send_default_raw :: "('key, 'k) client_env \<Rightarrow> 'key client_conf \<Rightarrow> bytes \<Rightarrow> ServerInfoCollection
    \<Rightarrow> unit result \<times> 'k client_effect list" where
  "server_send_default_raw env conf buf c =
     (case find_connected_server (cc_servers conf) c of
        None \<Rightarrow> (Inl (Bail ''not found default route''), [])
      | Some sid \<Rightarrow> send_channel env conf sid buf)"

section \<open>Broadcasts over servers\<close>

text \<open>\<open>send_exclude_broadcast\<close> and \<open>send_target_broadcast\<close> wrap the packet; the source of the wrapper is not set.\<close>

definition selective_packet :: "('key, 'k) client_env \<Rightarrow> MsgType \<Rightarrow> ipv4 list \<Rightarrow> bytes \<Rightarrow> bytes" where
  "selective_packet env t ips buf =
     (let b = SelectiveBroadcast_encode (ce_selective_enc env) \<lparr>sb_ips = ips, sb_data = buf\<rparr>
      in write_slice HEAD_LENGTH b (set_ttl 5 (set_msg_type t (replicate (HEAD_LENGTH + length b) 0))))"

text \<open>The score of a server is the \<open>f64\<close> quotient \<open>clients / (rtt + 1)\<close>; the quotients are compared exactly,
  which the doubles do for fewer than \<open>2^20\<close> clients. \<open>max_by\<close> keeps the last of several maximal elements.\<close>

definition score_le :: "nat \<times> u32 \<Rightarrow> nat \<times> u32 \<Rightarrow> bool" where
  "score_le a b \<longleftrightarrow> fst a * (unat (snd b) + 1) \<le> fst b * (unat (snd a) + 1)"

fun max_server :: "(u32 \<times> ipv4 list \<times> u32) list \<Rightarrow> u32 \<times> ipv4 list \<times> u32 \<Rightarrow> u32 \<times> ipv4 list \<times> u32" where
  "max_server [] best = best"
| "max_server (x # xs) best =
     max_server xs (if score_le (length (fst (snd best)), snd (snd best)) (length (fst (snd x)), snd (snd x))
                    then x else best)"

definition main_task :: "('key, 'k) client_env \<Rightarrow> ipv4 list option \<Rightarrow> u32 \<Rightarrow> bytes \<Rightarrow> unit result \<times> 'k client_effect list" where
  "main_task env exclude sid buf =
     (let data = (case exclude of Some ips \<Rightarrow> selective_packet env ExcludeBroadcast ips buf | None \<Rightarrow> buf)
      in send_or (ce_server_takes env sid data) (Bail ''failed to send broadcast'') (ToServer sid data))"

fun target_tasks :: "('key, 'k) client_env \<Rightarrow> 'key client_conf \<Rightarrow> u32 \<Rightarrow> ipv4 list \<Rightarrow> ipv4 list \<Rightarrow> bytes
    \<Rightarrow> (u32 \<times> ipv4 list \<times> u32) list \<Rightarrow> (unit result \<times> 'k client_effect list) list" where
  "target_tasks env conf main main_ips exclude buf [] = []"
| "target_tasks env conf main main_ips exclude buf ((sid, ips, lat) # xs) =
     (let rest = target_tasks env conf main main_ips exclude buf xs;
          targets = filter (\<lambda>ip. ip \<notin> set main_ips \<and> ip \<notin> set exclude) ips;
          data = selective_packet env TargetBroadcast targets buf
      in if sid = main \<or> targets = [] \<or> sid \<notin> set (cc_servers conf) then rest
         else send_or (ce_server_takes env sid data) (Bail ''failed to send target broadcast'') (ToServer sid data) # rest)"

text \<open>\<open>table\<close> lists \<open>server_client_ip_map\<close> in the order of the hash map. The tasks run concurrently; their
  effects, each on a channel of its own, are listed in the order they are spawned.\<close>

definition server_broadcast :: "('key, 'k) client_env \<Rightarrow> 'key client_conf \<Rightarrow> (u32 \<times> ipv4 list \<times> u32) list
    \<Rightarrow> ipv4 list option \<Rightarrow> bytes \<Rightarrow> unit result \<times> 'k client_effect list" where
  "server_broadcast env conf table exclude buf =
     (case table of
        [] \<Rightarrow> (Inl (Bail ''no connected servers with clients''), [])
      | [(sid, ips, _)] \<Rightarrow>
          if ips = [] then (Inr (), [])
          else if sid \<notin> set (cc_servers conf) then (Inl (Bail ''server sender not found''), [])
          else main_task env exclude sid buf
      | first # others \<Rightarrow>
          (case max_server others first of
             (main, main_ips, _) \<Rightarrow>
               if main_ips = [] then (Inr (), [])
               else if main \<notin> set (cc_servers conf) then (Inl (Bail ''max server sender not found''), [])
               else
                 (let tasks = main_task env exclude main buf
                        # target_tasks env conf main main_ips (case exclude of Some ips \<Rightarrow> ips | None \<Rightarrow> []) buf table
                  in (if list_all (\<lambda>t. fst t = Inr ()) tasks then Inr () else Inl (Bail ''broadcast failed''),
                      concat (map snd tasks)))))"

definition server_table :: "u32 list \<Rightarrow> ipv4 list \<Rightarrow> ServerInfoCollection \<Rightarrow> (u32 \<times> ipv4 list \<times> u32) list" where
  "server_table sids ips c =
     List.map_filter (\<lambda>sid. map_option (Pair sid) (server_client_ip_map ips c sid)) sids"

section \<open>Choosing the way\<close>

definition use_route :: "'key client_conf \<Rightarrow> 'k RouteTable \<Rightarrow> ipv4 \<Rightarrow> 'k Route option" where
  "use_route conf t dest = (if cc_p2p conf then get_by_id t dest else None)"

definition basic_send_raw :: "('key, 'k) client_env \<Rightarrow> 'key client_conf \<Rightarrow> ipv4 \<Rightarrow> TransmissionBytes
    \<Rightarrow> 'k Node \<Rightarrow> unit result \<times> 'k client_effect list" where
  "basic_send_raw env conf dest t nd =
     (case tb_into_bytes t of
        Inl e \<Rightarrow> (Inl e, [])
      | Inr buf \<Rightarrow>
          (case use_route conf (as_routes nd) dest of
             Some r \<Rightarrow> p2p_send_raw_to env (route_key r) buf
           | None \<Rightarrow>
               if cc_use_channel conf \<noteq> P2p then server_send_raw env conf dest buf (as_server_info nd)
               else (Inr (), [])))"

definition basic_send_default_raw :: "('key, 'k) client_env \<Rightarrow> 'key client_conf \<Rightarrow> TransmissionBytes \<Rightarrow> 'k Node
    \<Rightarrow> unit result \<times> 'k client_effect list" where
  "basic_send_default_raw env conf t nd =
     (case frozen t of
        Inl e \<Rightarrow> (Inl e, [])
      | Inr buf \<Rightarrow> server_send_default_raw env conf buf (as_server_info nd))"

definition send_encrypted_packet :: "('key, 'k) client_env \<Rightarrow> 'key client_conf \<Rightarrow> ipv4 \<Rightarrow> TransmissionBytes
    \<Rightarrow> 'k Node \<Rightarrow> unit result \<times> 'k client_effect list" where
  "send_encrypted_packet env conf dest t nd =
     (case encrypt_in_place (ce_al env) (ce_seal env) (cc_crypto conf) t of
        Inl e \<Rightarrow> (Inl e, [])
      | Inr t \<Rightarrow>
          (case use_route conf (as_routes nd) dest of
             Some r \<Rightarrow> (case frozen t of Inl e \<Rightarrow> (Inl e, []) | Inr buf \<Rightarrow> p2p_send_raw_to env (route_key r) buf)
           | None \<Rightarrow>
               if cc_use_channel conf \<noteq> P2p
               then (case frozen t of
                       Inl e \<Rightarrow> (Inl e, [])
                     | Inr buf \<Rightarrow> server_send_raw env conf dest buf (as_server_info nd))
               else (Inr (), [])))"

definition exists_route :: "'key client_conf \<Rightarrow> ipv4 \<Rightarrow> 'k Node \<Rightarrow> bool" where
  "exists_route conf dest nd \<longleftrightarrow>
     cc_p2p conf \<and> route_exists (as_routes nd) dest \<or> server_exists_route dest (as_server_info nd)"

definition p2p_broadcast_transmission :: "('key, 'k) client_env \<Rightarrow> 'key client_conf \<Rightarrow> ipv4 list \<Rightarrow> nat \<Rightarrow> bytes
    \<Rightarrow> 'k Node \<Rightarrow> ipv4 list option \<times> 'k client_effect list" where
  "p2p_broadcast_transmission env conf ips mx buf nd =
     (if cc_p2p conf
      then (case p2p_broadcast env (as_routes nd) ips mx buf of
              (sent, effs) \<Rightarrow> (if sent = [] then None else Some sent, effs))
      else (None, []))"

section \<open>From the interface to the network\<close>

definition fec_wrap :: "('key, 'k) client_env \<Rightarrow> nat \<Rightarrow> TransmissionBytes \<Rightarrow> 'k Node
    \<Rightarrow> 'k Node \<times> TransmissionBytes result" where
  "fec_wrap env now t nd =
     (case nd_fec_encoder nd of
        None \<Rightarrow> (nd, Inr t)
      | Some enc \<Rightarrow>
          (case fec_encode (ce_al env) (ce_fec_enc env) now t enc of
             (enc', r) \<Rightarrow> (nd\<lparr>nd_fec_encoder := Some enc'\<rparr>, r)))"

definition outbound_raw :: "('key, 'k) client_env \<Rightarrow> 'key client_conf \<Rightarrow> nat \<Rightarrow> ipv4 \<Rightarrow> TransmissionBytes
    \<Rightarrow> 'k Node \<Rightarrow> unit result \<times> 'k client_effect list \<times> 'k Node" where
  "outbound_raw env conf now dest t nd =
     (case (if src_id (tb_view t) = 0
            then (case as_network nd of
                    Some net \<Rightarrow> Inr (tb_map (set_src_id (na_ip net)) t)
                  | None \<Rightarrow> Inl (Bail ''Not src ip''))
            else Inr t) of
        Inl e \<Rightarrow> (Inl e, [], nd)
      | Inr t \<Rightarrow>
          (let len = length (tb_view t) in
           case fec_wrap env now t nd of
             (nd, Inl e) \<Rightarrow> (Inl e, [], nd)
           | (nd, Inr t) \<Rightarrow>
               (case basic_send_raw env conf dest t nd of
                  (Inl e, effs) \<Rightarrow> (Inl e, effs, nd)
                | (Inr _, effs) \<Rightarrow>
                    (Inr (), effs, nd\<lparr>as_traffic := record_tx dest (word_of_nat len) (as_traffic nd)\<rparr>))))"

text \<open>The client that a destination address is reached through: itself inside the network, else the target of
  the subnet route.\<close>

definition overlay_dest :: "('key, 'k) client_env \<Rightarrow> NetworkAddr \<Rightarrow> ipv4 \<Rightarrow> 'k Node \<Rightarrow> ipv4 option result" where
  "overlay_dest env net dest nd =
     and_then (na_network (ce_net_new env) net) (\<lambda>n.
       Inr (if net_contains n dest then Some dest else subnet_route (as_subnets nd) dest))"

definition ipv4_outbound :: "('key, 'k) client_env \<Rightarrow> 'key client_conf \<Rightarrow> nat \<Rightarrow> NetworkAddr \<Rightarrow> TransmissionBytes
    \<Rightarrow> 'k Node \<Rightarrow> unit result \<times> 'k client_effect list \<times> 'k Node" where
  "ipv4_outbound env conf now net data nd =
     (if \<not> ipv4_new (ce_pnet env) (tb_view data) then (Inr (), [], nd)
      else
        (let len = length (tb_view data) in
         case and_then (tb_retreat_head HEAD_LENGTH data) packet_new of
           Inl e \<Rightarrow> (Inl e, [], nd)
         | Inr t \<Rightarrow>
             (let t = tb_map (\<lambda>v. set_ttl 5 (set_src_id (na_ip net) (set_msg_type Turn v))) t in
              case overlay_dest env net (ip_destination (ce_pnet env) (tb_view data)) nd of
                Inl e \<Rightarrow> (Inl e, [], nd)
              | Inr None \<Rightarrow> (Inr (), [], nd)
              | Inr (Some dest) \<Rightarrow>
                  (case pc_compress (ce_al env) (ce_lz_c env) (cc_compression conf) (tb_map (set_dest_id dest) t)
                        (encrypt_reserve (cc_crypto conf)) of
                     Inl e \<Rightarrow> (Inl e, [], nd)
                   | Inr t \<Rightarrow>
                       (case fec_wrap env now t nd of
                          (nd, Inl e) \<Rightarrow> (Inl e, [], nd)
                        | (nd, Inr t) \<Rightarrow>
                            (case send_encrypted_packet env conf dest t nd of
                               (Inl e, effs) \<Rightarrow> (Inl e, effs, nd)
                             | (Inr _, effs) \<Rightarrow>
                                 (Inr (), effs,
                                  nd\<lparr>as_traffic := record_tx dest (word_of_nat len) (as_traffic nd)\<rparr>)))))))"

definition ipv4_outbound_common :: "('key, 'k) client_env \<Rightarrow> 'key client_conf \<Rightarrow> nat \<Rightarrow> TransmissionBytes
    \<Rightarrow> 'k Node \<Rightarrow> unit result \<times> 'k client_effect list \<times> 'k Node" where
  "ipv4_outbound_common env conf now data nd =
     (case as_network nd of
        None \<Rightarrow> (Inl (Bail ''Not src ip''), [], nd)
      | Some net \<Rightarrow> ipv4_outbound env conf now net data nd)"

definition ipv4_gateway_outbound :: "('key, 'k) client_env \<Rightarrow> 'key client_conf \<Rightarrow> NetworkAddr \<Rightarrow> TransmissionBytes
    \<Rightarrow> 'k Node \<Rightarrow> unit result \<times> 'k client_effect list" where
  "ipv4_gateway_outbound env conf net data nd =
     (case and_then (tb_retreat_head HEAD_LENGTH data) packet_new of
        Inl e \<Rightarrow> (Inl e, [])
      | Inr t \<Rightarrow>
          basic_send_default_raw env conf
            (tb_map (\<lambda>v. set_gateway_flag True (set_ttl 5 (set_dest_id (na_gateway net)
               (set_src_id (na_ip net) (set_msg_type Turn v))))) t) nd)"

text \<open>\<open>sids\<close> and \<open>ips\<close> enumerate the hash maps of the servers and their clients.\<close>

definition ipv4_broadcast_outbound :: "('key, 'k) client_env \<Rightarrow> 'key client_conf \<Rightarrow> u32 list \<Rightarrow> ipv4 list
    \<Rightarrow> NetworkAddr \<Rightarrow> TransmissionBytes \<Rightarrow> 'k Node \<Rightarrow> unit result \<times> 'k client_effect list" where
  "ipv4_broadcast_outbound env conf sids ips net data nd =
     (case and_then (and_then (tb_retreat_head HEAD_LENGTH data) packet_new) (\<lambda>t.
           and_then (pc_compress (ce_al env) (ce_lz_c env) (cc_compression conf)
             (tb_map (\<lambda>v. set_ttl 5 (set_dest_id BROADCAST (set_src_id (na_ip net) (set_msg_type Broadcast v)))) t)
             (encrypt_reserve (cc_crypto conf))) (\<lambda>t.
           and_then (encrypt_in_place (ce_al env) (ce_seal env) (cc_crypto conf) t) tb_into_bytes)) of
        Inl e \<Rightarrow> (Inl e, [])
      | Inr buf \<Rightarrow>
          (let list = client_online_ips (as_server_info nd) in
           case p2p_broadcast_transmission env conf list 16 buf nd of
             (exclude, effs) \<Rightarrow>
               if \<exists>sent. exclude = Some sent \<and> length sent = length list then (Inr (), effs)
               else if cc_use_channel conf \<noteq> P2p
               then (case server_broadcast env conf (server_table sids ips (as_server_info nd)) exclude buf of
                       (res, effs') \<Rightarrow> (res, effs @ effs'))
               else (Inr (), effs)))"

section \<open>TCP connections over QUIC\<close>

definition is_first_segment :: "pnet \<Rightarrow> bytes \<Rightarrow> bool" where
  "is_first_segment pn ip \<longleftrightarrow> ip_flags pn ip AND 1 \<noteq> 1 \<and> fragment_offset pn ip = 0"

definition opens_connection :: "pnet \<Rightarrow> bytes \<Rightarrow> bool" where
  "opens_connection pn tcp \<longleftrightarrow> tcp_flags pn tcp AND 2 = 2 \<and> tcp_flags pn tcp AND 16 \<noteq> 16"

text \<open>Whether the packet was taken over by the user-space stack, and the effect of handing it over.\<close>

definition quic_outbound :: "('key, 'k) client_env \<Rightarrow> 'key client_conf \<Rightarrow> bytes \<Rightarrow> bool \<times> 'k client_effect list" where
  "quic_outbound env conf ip =
     (let pn = ce_pnet env; tcp = ipv4_payload pn ip;
          src = (ip_source pn ip, tcp_source pn tcp); dst = (ip_destination pn ip, tcp_destination pn tcp);
          to_stack = (True, if ce_stack_takes env ip then [ToQuicStack ip] else []);
          whole_tcp = (next_level_protocol pn ip = 6 \<and> is_first_segment pn ip)
      in if \<not> ipv4_new pn ip then (True, [])
         else if cc_open_quic conf
         then
           (if whole_tcp \<and> \<not> tcp_new pn tcp then (True, [])
            else if whole_tcp \<and> \<not> opens_connection pn tcp \<and> \<not> ce_tcp_connection env src dst \<and>
              \<not> ce_tcp_connection env dst src \<and> \<not> ce_tcp_half_open env dst src
            then (False, [])
            else to_stack)
         else if whole_tcp \<and> tcp_new pn tcp \<and> ce_tcp_connection env dst src then to_stack
         else (False, []))"

section \<open>The packets of the virtual interface\<close>

definition ipv4_outbound_impl :: "('key, 'k) client_env \<Rightarrow> 'key client_conf \<Rightarrow> u32 list \<Rightarrow> ipv4 list \<Rightarrow> nat
    \<Rightarrow> TransmissionBytes \<Rightarrow> 'k Node \<Rightarrow> unit result \<times> 'k client_effect list \<times> 'k Node" where
  "ipv4_outbound_impl env conf sids ips now data nd =
     (let pn = ce_pnet env; v = tb_view data; src = ip_source pn v; dest = ip_destination pn v in
      if \<not> ipv4_new pn v then (Inr (), [], nd)
      else case as_network nd of
        None \<Rightarrow> (Inr (), [], nd)
      | Some net \<Rightarrow>
          if dest = src \<or> dest = UNSPECIFIED then (Inr (), [], nd)
          else if dest = na_gateway net
          then (case ipv4_gateway_outbound env conf net data nd of (res, effs) \<Rightarrow> (res, effs, nd))
          else if is_multicast dest \<or> dest = na_broadcast net \<or> dest = BROADCAST
          then (case ipv4_broadcast_outbound env conf sids ips net data nd of (res, effs) \<Rightarrow> (res, effs, nd))
          else (case quic_outbound env conf v of
                  (True, effs) \<Rightarrow> (Inr (), effs, nd)
                | (False, effs) \<Rightarrow>
                    (case ipv4_outbound env conf now net data nd of
                       (res, effs', nd') \<Rightarrow> (res, effs @ effs', nd'))))"

text \<open>Errors are logged.\<close>

definition enhanced_ipv4_outbound :: "('key, 'k) client_env \<Rightarrow> 'key client_conf \<Rightarrow> u32 list \<Rightarrow> ipv4 list \<Rightarrow> nat
    \<Rightarrow> TransmissionBytes \<Rightarrow> 'k Node \<Rightarrow> 'k client_effect list \<times> 'k Node" where
  "enhanced_ipv4_outbound env conf sids ips now data nd =
     (if tb_view data = [] \<or> drop_bit 4 (hd (tb_view data)) \<noteq> 4 then ([], nd)
      else (case ipv4_outbound_impl env conf sids ips now data nd of (_, effs, nd) \<Rightarrow> (effs, nd)))"

text \<open>What the interface hands over: the codec of the device puts the packet behind room for a header.\<close>

definition bytes_codec_decode :: "(nat \<Rightarrow> nat) \<Rightarrow> bytes \<Rightarrow> TransmissionBytes option result" where
  "bytes_codec_decode al buf =
     (if buf = [] then Inr None
      else and_then (tb_put buf (tb_new_offset al HEAD_LENGTH)) (\<lambda>t. Inr (Some t)))"

end
