(* ===== verification/ClientMessage.thy ===== *)
theory ClientMessage
  imports ClientState ControlMessage
begin

text \<open>
  The messages of a client: \<open>vnt/vnt-core/src/protocol/client_message.rs\<close> (NAT information exchanged for hole
  punching) and the client's side of \<open>vnt/vnt-core/src/protocol/control_message.rs\<close>. The protobuf messages are
  those of the server's \<open>ControlMessage\<close>: both programs generate them from the same \<open>.proto\<close> file. The wire codec
  is a parameter, as there.
\<close>

section \<open>NAT information\<close>

record ProtoNatInfo =
  pn_nat_type :: u32
  pn_public_ips :: "u32 list"
  pn_public_udp_ports :: "u32 list"
  pn_public_port_range :: u32
  pn_local_ipv4s :: "u32 list"
  pn_ipv6 :: "bytes option"
  pn_local_udp_ports :: "u32 list"
  pn_local_tcp_port :: u32
  pn_public_tcp_port :: u32

fun NatType_as_i32 :: "NatType \<Rightarrow> u32" where
  "NatType_as_i32 Cone = 0"
| "NatType_as_i32 Symmetric = 1"

definition proto_nat_type :: "ProtoNatInfo \<Rightarrow> NatType" where
  "proto_nat_type m = (if pn_nat_type m = 1 then Symmetric else Cone)"

definition encode_nat_info :: "NatInfo \<Rightarrow> ProtoNatInfo" where
  "encode_nat_info i =
     \<lparr>pn_nat_type = NatType_as_i32 (nat_type i), pn_public_ips = public_ips i,
      pn_public_udp_ports = map ucast (public_udp_ports i), pn_public_port_range = ucast (public_port_range i),
      pn_local_ipv4s = local_ipv4s i, pn_ipv6 = map_option (\<lambda>a. be_enc 16 (unat a)) (nat_ipv6 i),
      pn_local_udp_ports = map ucast (local_udp_ports i), pn_local_tcp_port = ucast (local_tcp_port i),
      pn_public_tcp_port = ucast (public_tcp_port i)\<rparr>"

definition validate_port :: "u32 \<Rightarrow> u16 result" where
  "validate_port p = (if unat p \<le> 65535 then Inr (ucast p) else Inl (Bail ''invalid port number''))"

fun collect_ports :: "u32 list \<Rightarrow> u16 list result" where
  "collect_ports [] = Inr []"
| "collect_ports (p # ps) = and_then (validate_port p) (\<lambda>q. and_then (collect_ports ps) (\<lambda>qs. Inr (q # qs)))"

definition decode_nat_info :: "ProtoNatInfo \<Rightarrow> NatInfo result" where
  "decode_nat_info m =
     (let ipv6 = (case pn_ipv6 m of
                    Some b \<Rightarrow> if length b = 16 then Some (word_of_nat (be_dec b)) else None
                  | None \<Rightarrow> None);
          public_udp_ports = collect_ports (pn_public_udp_ports m);
          local_udp_ports = collect_ports (pn_local_udp_ports m)
      in and_then public_udp_ports (\<lambda>pup.
         and_then (validate_port (pn_public_port_range m)) (\<lambda>range.
         and_then local_udp_ports (\<lambda>lup.
         and_then (validate_port (pn_local_tcp_port m)) (\<lambda>ltp.
         and_then (validate_port (pn_public_tcp_port m)) (\<lambda>ptp.
           Inr \<lparr>nat_type = proto_nat_type m, public_ips = pn_public_ips m, public_udp_ports = pup,
             mapping_tcp_addr = [], mapping_udp_addr = [], public_port_range = range,
             local_ipv4 = (case pn_local_ipv4s m of [] \<Rightarrow> UNSPECIFIED | ip # _ \<Rightarrow> ip),
             local_ipv4s = pn_local_ipv4s m, nat_ipv6 = ipv6, local_udp_ports = lup, local_tcp_port = ltp,
             public_tcp_port = ptp\<rparr>))))))"

text \<open>\<open>PunchInfo\<close> has the one field \<open>nat_info\<close>.\<close>

definition PunchInfo_from_slice :: "(bytes \<Rightarrow> ProtoNatInfo option option) \<Rightarrow> bytes \<Rightarrow> NatInfo result" where
  "PunchInfo_from_slice dec buf =
     (case dec buf of
        None \<Rightarrow> Inl InvalidData
      | Some None \<Rightarrow> Inl (Bail ''Punched info decode failed.'')
      | Some (Some m) \<Rightarrow> decode_nat_info m)"

definition PunchInfo_encode :: "(ProtoNatInfo option \<Rightarrow> bytes) \<Rightarrow> NatInfo \<Rightarrow> bytes" where
  "PunchInfo_encode enc i = enc (Some (encode_nat_info i))"

section \<open>Control messages, client side\<close>

definition client_RegRequestMsg_to :: "RegRequestMsg \<Rightarrow> ProtoRegRequest" where
  "client_RegRequestMsg_to r =
     \<lparr>p_network_code = rq_network_code r, p_device_id = rq_device_id r, p_ip = rq_ip r, p_name = rq_name r,
      p_version = rq_version r, p_key_sign = rq_key_sign r, p_ip_variable = rq_ip_variable r,
      p_server_id = rq_server_id r, p_registration_mode = RegistrationMode_as_i32 (rq_mode r)\<rparr>"

fun client_request_encode :: "(RequestPayload option \<Rightarrow> bytes) \<Rightarrow> RequestMessage \<Rightarrow> bytes" where
  "client_request_encode enc (ReqReg r) = enc (Some (PReg (client_RegRequestMsg_to r)))"
| "client_request_encode enc ReqConfirmReg = enc (Some PConfirmReg)"

definition RegResponseMsg_from :: "ProtoRegResponse \<Rightarrow> RegResponseMsg result" where
  "RegResponseMsg_from m = Inr \<lparr>rs_ip = p_res_ip m, rs_prefix_len = ucast (p_prefix_len m AND 0xFF),
     rs_gateway = p_gateway m, rs_server_version = p_server_version m\<rparr>"

definition ResponseMessage_from_slice :: "(bytes \<Rightarrow> ResponsePayload option option) \<Rightarrow> bytes \<Rightarrow> ResponseMessage result" where
  "ResponseMessage_from_slice dec buf =
     (case dec buf of
        None \<Rightarrow> Inl InvalidData
      | Some None \<Rightarrow> Inl (Bail ''unsupported'')
      | Some (Some (PRegRes reg)) \<Rightarrow> and_then (RegResponseMsg_from reg) (\<lambda>r. Inr (ResReg r))
      | Some (Some (PErrorRes code message)) \<Rightarrow> Inr (ResError code message)
      | Some (Some (PConfirmRes success)) \<Rightarrow> Inr (ResConfirmReg success))"

definition SelectiveBroadcast_new :: "ipv4 list \<Rightarrow> bytes \<Rightarrow> SelectiveBroadcast" where
  "SelectiveBroadcast_new ips data = \<lparr>sb_ips = ips, sb_data = data\<rparr>"

section \<open>Lemmas\<close>

lemma response_roundtrip:
  assumes "\<And>m. dec (enc m) = Some m"
  shows "ResponseMessage_from_slice dec (ResponseMessage_encode enc r) = Inr r"
proof (cases r)
  case (ResReg g)
  have "(x :: u32) AND 0xFF = take_bit 8 x" for x
    by (simp add: take_bit_eq_mask mask_eq_exp_minus_1)
  moreover have "ucast (take_bit 8 (ucast (rs_prefix_len g) :: u32)) = rs_prefix_len g"
    by (intro bit_word_eqI) (simp add: bit_simps)
  ultimately have "ucast ((ucast (rs_prefix_len g) :: u32) AND 0xFF) = rs_prefix_len g" by simp
  then show ?thesis
    using ResReg assms by (simp add: ResponseMessage_from_slice_def RegResponseMsg_from_def RegResponseMsg_to_def)
qed (simp_all add: ResponseMessage_from_slice_def assms)

lemma client_request_is_server_request: "client_request_encode enc r = RequestMessage_encode enc r"
  by (cases r) (simp_all add: client_RegRequestMsg_to_def RegRequestMsg_to_def)

lemma validate_ucast [simp]: "validate_port (ucast (p :: u16)) = Inr p"
proof -
  have "unat p < 65536" using unsigned_less [of p, where 'a = nat] by simp
  moreover have "(ucast (ucast p :: u32) :: u16) = p" by (intro bit_word_eqI) (simp add: bit_simps)
  moreover have "unat (ucast p :: u32) = unat p" by transfer (simp add: take_bit_take_bit)
  ultimately show ?thesis by (simp add: validate_port_def)
qed

lemma collect_ucast [simp]: "collect_ports (map ucast (ps :: u16 list)) = Inr ps"
  by (induction ps) simp_all

lemma be_roundtrip_u128: "word_of_nat (be_dec (be_enc 16 (unat (w :: 128 word)))) = w"
  by (rule of_nat_be_dec_enc) simp

text \<open>What \<open>decode\<close> makes of an encoded \<open>NatInfo\<close>: the address mappings are dropped and the local address is the
  first of the local addresses.\<close>

lemma decode_encode_nat_info:
  "decode_nat_info (encode_nat_info i) = Inr (i\<lparr>mapping_tcp_addr := [], mapping_udp_addr := [],
     local_ipv4 := (case local_ipv4s i of [] \<Rightarrow> UNSPECIFIED | ip # _ \<Rightarrow> ip)\<rparr>)"
proof -
  have "proto_nat_type (encode_nat_info i) = nat_type i"
    by (cases "nat_type i") (simp_all add: proto_nat_type_def encode_nat_info_def)
  moreover have "(case map_option (\<lambda>a. be_enc 16 (unat a)) (nat_ipv6 i) of
      Some b \<Rightarrow> if length b = 16 then Some (word_of_nat (be_dec b)) else None | None \<Rightarrow> None) = nat_ipv6 i"
    by (cases "nat_ipv6 i") (simp_all add: be_roundtrip_u128)
  ultimately show ?thesis by (simp add: decode_nat_info_def Let_def) (simp add: encode_nat_info_def)
qed

text \<open>NAT information as \<open>my_nat_info\<close> makes it: no mappings, and the local address heads the list.\<close>

definition nat_coherent :: "NatInfo \<Rightarrow> bool" where
  "nat_coherent i \<longleftrightarrow> mapping_tcp_addr i = [] \<and> mapping_udp_addr i = [] \<and>
     (local_ipv4s i = [] \<longrightarrow> local_ipv4 i = UNSPECIFIED) \<and> (local_ipv4s i \<noteq> [] \<longrightarrow> local_ipv4 i = hd (local_ipv4s i)) \<and>
     length (local_ipv4s i) \<le> 1"

text \<open>A peer reads exactly what was sent: NAT information of the shape \<open>my_nat_info\<close> stores is, after the filter that
  removes addresses of the virtual network, still of that shape, and the punch message made of it decodes to it.\<close>

theorem punch_info_roundtrip:
  assumes "nat_coherent i" "get_punch_info contains (Some i) = Inr (Some j)"
    and "dec (enc (Some (encode_nat_info j))) = Some (Some (encode_nat_info j))"
  shows "nat_coherent j \<and> PunchInfo_from_slice dec (PunchInfo_encode enc j) = Inr j"
proof -
  obtain b kept where b: "contains (local_ipv4 i) = Inr b" "retain_outside contains (local_ipv4s i) = Inr kept"
    and j: "j = i\<lparr>local_ipv4 := (if b then UNSPECIFIED else local_ipv4 i), local_ipv4s := kept\<rparr>"
    using assms(2) by (auto simp: get_punch_info_def filter_ip_def)
  have k: "kept = filter (\<lambda>ip. contains ip = Inr False) (local_ipv4s i)"
    using retain_outside_Inr [OF b(2)] by blast
  have c: "nat_coherent j"
    using assms(1) b(1) unfolding nat_coherent_def j k by (cases "local_ipv4s i"; cases b) auto
  then have "j\<lparr>mapping_tcp_addr := [], mapping_udp_addr := [],
      local_ipv4 := (case local_ipv4s j of [] \<Rightarrow> UNSPECIFIED | ip # _ \<Rightarrow> ip)\<rparr> = j"
    by (cases "local_ipv4s j") (simp_all add: nat_coherent_def)
  then show ?thesis using c assms(3) by (simp add: PunchInfo_from_slice_def PunchInfo_encode_def decode_encode_nat_info)
qed

definition demo_nat :: NatInfo where
  "demo_nat = \<lparr>nat_type = Symmetric, public_ips = [0x01020304], public_udp_ports = [4000, 0], mapping_tcp_addr = [],
     mapping_udp_addr = [], public_port_range = 7, local_ipv4 = 0x0A1A0007, local_ipv4s = [0x0A1A0007],
     nat_ipv6 = Some 5, local_udp_ports = [1, 2], local_tcp_port = 3, public_tcp_port = 0\<rparr>"

theorem punch_info_roundtrip_witness:
  "let j = demo_nat\<lparr>local_ipv4 := 0, local_ipv4s := []\<rparr> in
   get_punch_info (\<lambda>ip. Inr (ip = 0x0A1A0007)) (Some demo_nat) = Inr (Some j) \<and>
   PunchInfo_from_slice (\<lambda>_. Some (Some (encode_nat_info j))) (PunchInfo_encode (\<lambda>_. [1]) j) = Inr j"
proof -
  let ?j = "demo_nat\<lparr>local_ipv4 := 0, local_ipv4s := []\<rparr>"
  have g: "get_punch_info (\<lambda>ip. Inr (ip = 0x0A1A0007)) (Some demo_nat) = Inr (Some ?j)"
    by (simp add: get_punch_info_def filter_ip_def demo_nat_def)
  have "nat_coherent demo_nat" by (simp add: nat_coherent_def demo_nat_def)
  then show ?thesis
    using punch_info_roundtrip [OF _ g, of "\<lambda>_. Some (Some (encode_nat_info ?j))" "\<lambda>_. [1]"] g
    unfolding Let_def by simp
qed

end
