(* ===== verification/ClientInbound.thy ===== *)
theory ClientInbound
  imports ClientOutbound ClientMessage
begin

text \<open>
  The receiving side of a client: \<open>vnt/vnt-core/src/tun/sender.rs\<close> and \<open>tun/enhanced_tun.rs\<close>, the entry of the
  user-space NAT (\<open>nat/internal_nat/mod.rs\<close>), \<open>enhanced_tunnel/inbound.rs\<close>, packets from a server
  (\<open>tunnel_core/server/inbound.rs\<close>), packets from peers (\<open>tunnel_core/p2p/inbound.rs\<close>) and the decision to
  punch (\<open>tunnel_core/p2p/transport/punch.rs\<close>).

  As on the sending side an operation returns its result, its effects and the node. \<open>Answer\<close> is a send on
  the connection or tunnel the packet came by. \<open>sids\<close>, \<open>ips\<close> and \<open>order\<close> enumerate hash maps; \<open>inst\<close> is
  \<open>Instant::now()\<close>, \<open>now\<close> the wall clock in milliseconds.
\<close>

section \<open>Parameters and configuration\<close>

record ('key, 'k) inbound_env = "('key, 'k) client_env" +
  ie_list_dec :: "bytes \<Rightarrow> ProtoClientSimpleInfoList option"
  ie_punch_dec :: "bytes \<Rightarrow> ProtoNatInfo option option"
  ie_punch_enc :: "ProtoNatInfo option \<Rightarrow> bytes"
  ie_rpc_dec :: "bytes \<Rightarrow> bool"
  ie_answer_takes :: "bytes \<Rightarrow> bool"
  ie_quic_takes :: "bytes \<Rightarrow> bool"
  ie_nat_takes :: "bytes \<Rightarrow> bool"
  ie_key_ip :: "'k \<Rightarrow> ipv4 option"
  ie_default_rtt :: u32

datatype EnhancedTunInbound = InTun AllowSubnetExternalRoute | InNat AllowSubnetExternalRoute

record 'key inbound_conf = "'key client_conf" +
  ci_tun :: EnhancedTunInbound
  ci_nat :: "AllowSubnetExternalRoute option"
  ci_puncher :: bool

section \<open>Delivery to the host\<close>

text \<open>The test shared by \<open>TunDataInbound::send\<close> and \<open>InternalNatInbound::send\<close>; \<open>data[0]\<close> panics on an empty buffer
  and \<open>network()\<close> on a bad prefix length.\<close>

definition accepts_local :: "('key, 'k) inbound_env \<Rightarrow> AllowSubnetExternalRoute \<Rightarrow> NetworkAddr \<Rightarrow> bytes \<Rightarrow> bool result" where
  "accepts_local env allowed net data =
     (if data = [] then Inl Panic
      else if drop_bit 4 (hd data) \<noteq> 4 then Inr False
      else if \<not> ipv4_new (ce_pnet env) data then Inr False
      else
        (let dest = ip_destination (ce_pnet env) data in
         and_then (na_network (ce_net_new env) net) (\<lambda>n.
           Inr (net_contains n dest \<or> dest = na_broadcast net \<or> dest = BROADCAST \<or> is_multicast dest \<or>
                allow allowed dest))))"

definition tun_send :: "('key, 'k) inbound_env \<Rightarrow> AllowSubnetExternalRoute \<Rightarrow> NetworkAddr \<Rightarrow> bytes
    \<Rightarrow> unit result \<times> 'k client_effect list" where
  "tun_send env allowed net data =
     (case accepts_local env allowed net data of
        Inl e \<Rightarrow> (Inl e, [])
      | Inr b \<Rightarrow> if b then send_or (ce_tun_takes env data) IoOther (ToTun data) else (Inr (), []))"

definition internal_nat_send :: "('key, 'k) inbound_env \<Rightarrow> AllowSubnetExternalRoute \<Rightarrow> NetworkAddr \<Rightarrow> bytes
    \<Rightarrow> unit result \<times> 'k client_effect list" where
  "internal_nat_send env allowed net data =
     (case accepts_local env allowed net data of
        Inl e \<Rightarrow> (Inl e, [])
      | Inr b \<Rightarrow> if b then send_or (ie_nat_takes env data) IoOther (ToNatStack data) else (Inr (), []))"

fun enhanced_tun_inbound :: "('key, 'k) inbound_env \<Rightarrow> EnhancedTunInbound \<Rightarrow> NetworkAddr \<Rightarrow> bytes
    \<Rightarrow> unit result \<times> 'k client_effect list" where
  "enhanced_tun_inbound env (InTun allowed) net data = tun_send env allowed net data"
| "enhanced_tun_inbound env (InNat allowed) net data = internal_nat_send env allowed net data"

text \<open>\<open>EnhancedInbound::inbound\<close>: the traffic is booked first; a packet for an address outside the network goes to
  the user-space NAT where there is one.\<close>

definition outside_network :: "('key, 'k) inbound_env \<Rightarrow> NetworkAddr \<Rightarrow> ipv4 \<Rightarrow> bool result" where
  "outside_network env net dest =
     (if dest = na_ip net then Inr False
      else and_then (na_network (ce_net_new env) net) (\<lambda>n. Inr (\<not> net_contains n dest)))"

definition deliver_turn :: "('key, 'k) inbound_env \<Rightarrow> 'key inbound_conf \<Rightarrow> NetworkAddr \<Rightarrow> bytes
    \<Rightarrow> unit result \<times> 'k client_effect list" where
  "deliver_turn env conf net data =
     (case ci_nat conf of
        None \<Rightarrow> enhanced_tun_inbound env (ci_tun conf) net data
      | Some allowed \<Rightarrow>
          if \<not> ipv4_new (ce_pnet env) data then (Inl (Bail ''EnhancedInbound not ipv4''), [])
          else (case outside_network env net (ip_destination (ce_pnet env) data) of
                  Inl e \<Rightarrow> (Inl e, [])
                | Inr True \<Rightarrow> internal_nat_send env allowed net data
                | Inr False \<Rightarrow> enhanced_tun_inbound env (ci_tun conf) net data))"

definition deliver :: "('key, 'k) inbound_env \<Rightarrow> 'key inbound_conf \<Rightarrow> NetworkAddr \<Rightarrow> MsgType \<Rightarrow> ipv4 \<Rightarrow> bytes
    \<Rightarrow> unit result \<times> 'k client_effect list" where
  "deliver env conf net t src data =
     (if t = Turn then deliver_turn env conf net data
      else if t = Broadcast \<or> t = ExcludeBroadcast then enhanced_tun_inbound env (ci_tun conf) net data
      else if t = Quic then send_or (ie_quic_takes env data) (Bail ''inbound quic'') (ToQuic src data)
      else (Inr (), []))"

definition enhanced_inbound :: "('key, 'k) inbound_env \<Rightarrow> 'key inbound_conf \<Rightarrow> NetworkAddr \<Rightarrow> MsgType \<Rightarrow> ipv4
    \<Rightarrow> TransmissionBytes \<Rightarrow> 'k Node \<Rightarrow> unit result \<times> 'k client_effect list \<times> 'k Node" where
  "enhanced_inbound env conf net t src packet nd =
     (let nd = nd\<lparr>as_traffic := record_rx src (word_of_nat (length (tb_view packet))) (as_traffic nd)\<rparr> in
      case tb_advance_head HEAD_LENGTH packet of
        Inl e \<Rightarrow> (Inl e, [], nd)
      | Inr buf \<Rightarrow>
          (case deliver env conf net t src (tb_view buf) of (res, effs) \<Rightarrow> (res, effs, nd)))"

text \<open>The packets of a FEC group in order; the first error ends the loop. The rebuilt packets are buffers of their
  own.\<close>

fun process_all :: "(bytes \<Rightarrow> 'k Node \<Rightarrow> unit result \<times> 'k client_effect list \<times> 'k Node) \<Rightarrow> bytes list
    \<Rightarrow> 'k Node \<Rightarrow> unit result \<times> 'k client_effect list \<times> 'k Node" where
  "process_all f [] nd = (Inr (), [], nd)"
| "process_all f (p # ps) nd =
     (case f p nd of
        (Inl e, effs, nd) \<Rightarrow> (Inl e, effs, nd)
      | (Inr _, effs, nd) \<Rightarrow>
          (case process_all f ps nd of (res, effs', nd) \<Rightarrow> (res, effs @ effs', nd)))"

definition fec_unwrap :: "('key, 'k) inbound_env \<Rightarrow> group_key list \<Rightarrow> nat \<Rightarrow> bytes \<Rightarrow> 'k Node
    \<Rightarrow> 'k Node \<times> bytes list option result" where
  "fec_unwrap env order inst p nd =
     (case fec_receive (ce_fec_dec env) (ce_rs env) order inst p (nd_fec_decoder nd) of
        (dec, r) \<Rightarrow> (nd\<lparr>nd_fec_decoder := dec\<rparr>, r))"

text \<open>\<open>if net_packet.is_fec() { .. receive .. for pkt in packets { f(pkt)? } } else { f(net_packet) }\<close>, the shape that
  both handlers repeat.\<close>

definition after_fec :: "('key, 'k) inbound_env \<Rightarrow> group_key list \<Rightarrow> nat
    \<Rightarrow> (TransmissionBytes \<Rightarrow> 'k Node \<Rightarrow> unit result \<times> 'k client_effect list \<times> 'k Node) \<Rightarrow> TransmissionBytes
    \<Rightarrow> 'k Node \<Rightarrow> unit result \<times> 'k client_effect list \<times> 'k Node" where
  "after_fec env order inst f packet nd =
     (if \<not> is_fec (tb_view packet) then f packet nd
      else
        (case fec_unwrap env order inst (tb_view packet) nd of
           (nd, Inl e) \<Rightarrow> (Inl e, [], nd)
         | (nd, Inr None) \<Rightarrow> (Inr (), [], nd)
         | (nd, Inr (Some ps)) \<Rightarrow> process_all (\<lambda>p. f (tb_from_slice (ce_al env) p)) ps nd))"

definition after_decompress :: "('key, 'k) inbound_env \<Rightarrow> 'key inbound_conf
    \<Rightarrow> (TransmissionBytes \<Rightarrow> 'k Node \<Rightarrow> unit result \<times> 'k client_effect list \<times> 'k Node) \<Rightarrow> TransmissionBytes
    \<Rightarrow> 'k Node \<Rightarrow> unit result \<times> 'k client_effect list \<times> 'k Node" where
  "after_decompress env conf f packet nd =
     (case pc_decompress (ce_al env) (ce_lz_d env) (cc_compression conf) packet of
        Inl e \<Rightarrow> (Inl e, [], nd)
      | Inr p \<Rightarrow> f p nd)"

section \<open>Packets a client makes\<close>

text \<open>A fresh packet with room for the tag at its end, sealed.\<close>

definition sealed_packet :: "('key, 'k) inbound_env \<Rightarrow> 'key inbound_conf \<Rightarrow> MsgType \<Rightarrow> u8 \<Rightarrow> ipv4 \<Rightarrow> ipv4 \<Rightarrow> nat \<Rightarrow> bytes
    \<Rightarrow> bytes result" where
  "sealed_packet env conf t hops src dest n pl =
     (let b = tb_zeroed_size (ce_al env) (HEAD_LENGTH + n) (encrypt_reserve (cc_crypto conf)) in
      and_then (packet_new b) (\<lambda>b.
      and_then (set_payload pl (set_dest_id dest (set_src_id src (set_ttl hops (set_msg_type t (tb_view b)))))) (\<lambda>v.
      and_then (encrypt_in_place (ce_al env) (ce_seal env) (cc_crypto conf) (tb_write v b)) tb_into_bytes)))"

definition answer :: "('key, 'k) inbound_env \<Rightarrow> bytes \<Rightarrow> unit result \<times> 'k client_effect list" where
  "answer env data = send_or (ie_answer_takes env data) IoOther (Answer data)"

definition answer_sealed :: "('key, 'k) inbound_env \<Rightarrow> 'key inbound_conf \<Rightarrow> MsgType \<Rightarrow> u8 \<Rightarrow> ipv4 \<Rightarrow> ipv4 \<Rightarrow> nat \<Rightarrow> bytes
    \<Rightarrow> unit result \<times> 'k client_effect list" where
  "answer_sealed env conf t hops src dest n pl =
     (case sealed_packet env conf t hops src dest n pl of
        Inl e \<Rightarrow> (Inl e, [])
      | Inr data \<Rightarrow> answer env data)"

section \<open>Hole punching\<close>

text \<open>\<open>punch_now\<close> runs in a task of its own, after \<open>delay\<close> milliseconds.\<close>

definition punch_uncheck_delay :: "'key inbound_conf \<Rightarrow> ipv4 \<Rightarrow> NatInfo \<Rightarrow> nat option \<Rightarrow> 'k Node
    \<Rightarrow> unit result \<times> 'k client_effect list" where
  "punch_uncheck_delay conf dest info delay nd =
     (if \<not> ci_puncher conf then (Inr (), [])
      else if as_network nd = None then (Inl (Bail ''not ip''), [])
      else (Inr (), [SpawnPunch dest info delay]))"

definition punch_uncheck :: "'key inbound_conf \<Rightarrow> ipv4 \<Rightarrow> NatInfo \<Rightarrow> 'k Node \<Rightarrow> unit result \<times> 'k client_effect list" where
  "punch_uncheck conf dest info nd = punch_uncheck_delay conf dest info None nd"

definition punch :: "'key inbound_conf \<Rightarrow> i64 \<Rightarrow> ipv4 \<Rightarrow> NatInfo \<Rightarrow> 'k Node
    \<Rightarrow> bool result \<times> 'k client_effect list" where
  "punch conf now dest info nd =
     (if \<not> ci_puncher conf then (Inr False, [])
      else if \<not> should_punch now dest (as_backoff nd) then (Inr False, [])
      else (case punch_uncheck_delay conf dest info (Some 50) nd of
              (Inl e, effs) \<Rightarrow> (Inl e, effs)
            | (Inr _, effs) \<Rightarrow> (Inr True, effs)))"

definition punch_packet :: "('key, 'k) inbound_env \<Rightarrow> 'key inbound_conf \<Rightarrow> i64 \<Rightarrow> ipv4 \<Rightarrow> ipv4 \<Rightarrow> bytes result" where
  "punch_packet env conf now src dest = sealed_packet env conf PunchReq 1 src dest 8 (be_enc 8 (unat now))"

section \<open>Packets from the server\<close>

definition handle_server_turn :: "('key, 'k) inbound_env \<Rightarrow> 'key inbound_conf \<Rightarrow> NetworkAddr \<Rightarrow> ipv4
    \<Rightarrow> TransmissionBytes \<Rightarrow> 'k Node \<Rightarrow> unit result \<times> 'k client_effect list \<times> 'k Node" where
  "handle_server_turn env conf net src packet nd =
     (let pn = ce_pnet env; ip = payload (tb_view packet); icmp = ipv4_payload pn ip in
      if ipv4_new pn ip \<and> ip_version pn ip = 4 \<and> next_level_protocol pn ip = 1 \<and> icmp_new pn icmp \<and>
        icmp_type pn icmp = 0
      then enhanced_inbound env conf net Turn src packet nd else (Inr (), [], nd))"

definition pong_turn_rtt :: "i64 \<Rightarrow> bytes \<Rightarrow> u32 option" where
  "pong_turn_rtt now pl =
     (let time = word_of_nat (be_dec (take 8 pl)) in
      if length pl = 16 \<and> sint time \<le> sint now then Some (ucast (now - time)) else None)"

definition handle_server_data :: "('key, 'k) inbound_env \<Rightarrow> 'key inbound_conf \<Rightarrow> u32 list \<Rightarrow> ipv4 list \<Rightarrow> u32 \<Rightarrow> i64
    \<Rightarrow> NetworkAddr \<Rightarrow> TransmissionBytes \<Rightarrow> 'k Node \<Rightarrow> unit result \<times> 'k client_effect list \<times> 'k Node" where
  "handle_server_data env conf sids ips sid now net data nd =
     (case and_then (packet_new data) (\<lambda>t. and_then (msg_type (tb_view t)) (\<lambda>m.
             and_then (pc_decompress (ce_al env) (ce_lz_d env) (cc_compression conf) t) (\<lambda>p. Inr (m, p)))) of
        Inl e \<Rightarrow> (Inl e, [], nd)
      | Inr (m, p) \<Rightarrow>
          (let src = src_id (tb_view data); pl = payload (tb_view p) in
           if m = Turn then handle_server_turn env conf net src p nd
           else if m = Ping
           then (case tb_into_bytes (tb_map (\<lambda>v. set_dest_id src (set_src_id (na_ip net) (set_msg_type Pong (set_ttl 2 v)))) p) of
                   Inl e \<Rightarrow> (Inl e, [], nd)
                 | Inr buf \<Rightarrow> (case answer env buf of (res, effs) \<Rightarrow> (res, effs, nd)))
           else if m = PongTurn
           then (Inr (), [], (case pong_turn_rtt now pl of
                   Some rt \<Rightarrow> nd\<lparr>as_server_info := set_server_rtt sid rt (as_server_info nd)\<rparr> | None \<Rightarrow> nd))
           else if m = PushClientIps
           then (case ClientSimpleInfoList_from_slice (ie_list_dec env) pl of
                   Inl e \<Rightarrow> (Inl e, [], nd)
                 | Inr l \<Rightarrow> (Inr (), [], nd\<lparr>as_server_info :=
                     update_client_simple_list sids ips sid (na_ip net) l now (as_server_info nd)\<rparr>))
           else if m = RpcRes then (if ie_rpc_dec env pl then (Inr (), [], nd) else (Inl InvalidData, [], nd))
           else (Inr (), [], nd)))"

definition handle_punch_start1 :: "('key, 'k) inbound_env \<Rightarrow> 'key inbound_conf \<Rightarrow> i64 \<Rightarrow> ipv4 \<Rightarrow> ipv4 \<Rightarrow> bytes
    \<Rightarrow> 'k Node \<Rightarrow> unit result \<times> 'k client_effect list \<times> 'k Node" where
  "handle_punch_start1 env conf now src dest pl nd =
     (case PunchInfo_from_slice (ie_punch_dec env) pl of
        Inl e \<Rightarrow> (Inl e, [], nd)
      | Inr peer \<Rightarrow>
          (case get_punch_info (network_contains (ce_net_new env) (as_network nd) (as_subnets nd)) (as_nat_info nd) of
             Inl e \<Rightarrow> (Inl e, [], nd)
           | Inr None \<Rightarrow> (Inr (), [], nd)
           | Inr (Some own) \<Rightarrow>
               (let nd = nd\<lparr>as_peer_map := update_nat_info src peer (as_peer_map nd)\<rparr> in
                case punch conf now src peer nd of
                  (Inl e, effs) \<Rightarrow> (Inl e, effs, nd)
                | (Inr False, effs) \<Rightarrow> (Inr (), effs, nd)
                | (Inr True, effs) \<Rightarrow>
                    (let info = PunchInfo_encode (ie_punch_enc env) own in
                     case answer_sealed env conf PunchStart2 2 dest src (length info) info of
                       (res, effs') \<Rightarrow> (res, effs @ effs', nd)))))"

definition handle_punch_start2 :: "('key, 'k) inbound_env \<Rightarrow> 'key inbound_conf \<Rightarrow> i64 \<Rightarrow> ipv4 \<Rightarrow> bytes
    \<Rightarrow> 'k Node \<Rightarrow> unit result \<times> 'k client_effect list \<times> 'k Node" where
  "handle_punch_start2 env conf now src pl nd =
     (let nd = nd\<lparr>as_backoff := record_punch now src (as_backoff nd)\<rparr> in
      case PunchInfo_from_slice (ie_punch_dec env) pl of
        Inl e \<Rightarrow> (Inl e, [], nd)
      | Inr peer \<Rightarrow>
          (let nd = nd\<lparr>as_peer_map := update_nat_info src peer (as_peer_map nd)\<rparr> in
           case punch_uncheck conf src peer nd of (res, effs) \<Rightarrow> (res, effs, nd)))"

definition server_process :: "('key, 'k) inbound_env \<Rightarrow> 'key inbound_conf \<Rightarrow> i64 \<Rightarrow> NetworkAddr \<Rightarrow> MsgType \<Rightarrow> ipv4
    \<Rightarrow> ipv4 \<Rightarrow> TransmissionBytes \<Rightarrow> 'k Node \<Rightarrow> unit result \<times> 'k client_effect list \<times> 'k Node" where
  "server_process env conf now net t src dest packet nd =
     (if t = Turn \<or> t = Broadcast then enhanced_inbound env conf net t src packet nd
      else if t = PunchStart1 then handle_punch_start1 env conf now src dest (payload (tb_view packet)) nd
      else if t = PunchStart2 then handle_punch_start2 env conf now src (payload (tb_view packet)) nd
      else (Inr (), [], nd))"

text \<open>A packet that cannot be decrypted is logged and dropped.\<close>

definition handle_client_data :: "('key, 'k) inbound_env \<Rightarrow> 'key inbound_conf \<Rightarrow> group_key list \<Rightarrow> nat \<Rightarrow> i64
    \<Rightarrow> NetworkAddr \<Rightarrow> TransmissionBytes \<Rightarrow> 'k Node \<Rightarrow> unit result \<times> 'k client_effect list \<times> 'k Node" where
  "handle_client_data env conf order inst now net data nd =
     (case and_then (packet_new data) (\<lambda>t. and_then (msg_type (tb_view t)) (\<lambda>m. Inr (m, t))) of
        Inl e \<Rightarrow> (Inl e, [], nd)
      | Inr (t, packet) \<Rightarrow>
          (let src = src_id (tb_view packet); dest = dest_id (tb_view packet) in
           if t = Quic then after_fec env order inst (enhanced_inbound env conf net t src) packet nd
           else
             (case decrypt_in_place (ce_unseal env) (cc_crypto conf) packet of
                Inl e \<Rightarrow> (Inr (), [], nd)
              | Inr packet \<Rightarrow>
                  after_fec env order inst
                    (after_decompress env conf (server_process env conf now net t src dest)) packet nd)))"

definition server_handle :: "('key, 'k) inbound_env \<Rightarrow> 'key inbound_conf \<Rightarrow> u32 list \<Rightarrow> ipv4 list \<Rightarrow> group_key list
    \<Rightarrow> nat \<Rightarrow> i64 \<Rightarrow> u32 \<Rightarrow> NetworkAddr \<Rightarrow> TransmissionBytes \<Rightarrow> 'k Node
    \<Rightarrow> unit result \<times> 'k client_effect list \<times> 'k Node" where
  "server_handle env conf sids ips order inst now sid net data nd =
     (case packet_new data of
        Inl e \<Rightarrow> (Inl e, [], nd)
      | Inr packet \<Rightarrow>
          (let dest = dest_id (tb_view packet) in
           if is_gateway (tb_view packet) then handle_server_data env conf sids ips sid now net data nd
           else if dest \<noteq> BROADCAST \<and> dest \<noteq> UNSPECIFIED \<and> na_ip net \<noteq> dest then (Inr (), [], nd)
           else handle_client_data env conf order inst now net data nd))"

text \<open>The ping that polls the server: time and known version, 8 bytes each.\<close>

definition handle_ping :: "('key, 'k) inbound_env \<Rightarrow> u32 \<Rightarrow> i64 \<Rightarrow> 'k Node \<Rightarrow> unit result \<times> 'k client_effect list" where
  "handle_ping env sid now nd =
     (case and_then (packet_new (tb_zeroed (ce_al env) (HEAD_LENGTH + 8 + 8))) (\<lambda>b.
           and_then (set_payload (be_enc 8 (unat now))
             (set_gateway_flag True (set_msg_type PingTurn (set_ttl 1 (tb_view b))))) (\<lambda>v.
           tb_into_bytes (tb_write (write_slice (HEAD_LENGTH + 8) (be_enc 8 (unat (sic_data_version sid (as_server_info nd))))
             (write_slice HEAD_LENGTH (be_enc 8 (unat now)) v)) b))) of
        Inl e \<Rightarrow> (Inl e, [])
      | Inr buf \<Rightarrow> answer env buf)"

definition handle_connected :: "u32 \<Rightarrow> i64 \<Rightarrow> 'k Node \<Rightarrow> 'k Node" where
  "handle_connected sid now nd = nd\<lparr>as_server_info :=
     set_disconnected_time sid None (set_last_connected_time sid (Some now)
       (fst (set_server_connected sid True (as_server_info nd))))\<rparr>"

definition handle_disconnected :: "u32 \<Rightarrow> i64 \<Rightarrow> 'k Node \<Rightarrow> 'k Node" where
  "handle_disconnected sid now nd =
     (case set_server_connected sid False (as_server_info nd) of
        (c, was) \<Rightarrow> nd\<lparr>as_server_info := (if was then set_disconnected_time sid (Some now) c else c)\<rparr>)"

section \<open>Packets from peers\<close>

definition peer_ping :: "('key, 'k) inbound_env \<Rightarrow> 'key inbound_conf \<Rightarrow> nat \<Rightarrow> 'k \<Rightarrow> ipv4 \<Rightarrow> ipv4 \<Rightarrow> u8 \<Rightarrow> bytes
    \<Rightarrow> 'k Node \<Rightarrow> unit result \<times> 'k client_effect list \<times> 'k Node" where
  "peer_ping env conf inst k src dest m pl nd =
     (let nd = nd\<lparr>as_routes := add_route_if_absent inst src (Route_from_default_rt (ie_default_rtt env) k m) (as_routes nd)\<rparr>
      in case answer_sealed env conf Pong 1 dest src 8 pl of (res, effs) \<Rightarrow> (res, effs, nd))"

definition peer_pong :: "nat \<Rightarrow> i64 \<Rightarrow> 'k \<Rightarrow> ipv4 \<Rightarrow> u8 \<Rightarrow> bytes \<Rightarrow> 'k Node \<Rightarrow> 'k Node" where
  "peer_pong inst now k src m pl nd =
     (let time = word_of_nat (be_dec (take 8 pl)) :: i64 in
      if length pl < 8 \<or> \<not> sint time \<le> sint now then nd
      else nd\<lparr>as_routes := add_route inst src \<lparr>route_key = k, metric = m, rtt = ucast (now - time)\<rparr> (as_routes nd),
              as_loss := record_received src (as_loss nd)\<rparr>)"

text \<open>A punch packet that arrives over the virtual network itself is a loop.\<close>

definition punch_loop :: "('key, 'k) inbound_env \<Rightarrow> 'k \<Rightarrow> 'k Node \<Rightarrow> bool result" where
  "punch_loop env k nd =
     (case ie_key_ip env k of
        None \<Rightarrow> Inr False
      | Some ip \<Rightarrow> network_contains (ce_net_new env) (as_network nd) (as_subnets nd) ip)"

definition peer_punched :: "('key, 'k) inbound_env \<Rightarrow> nat \<Rightarrow> 'k \<Rightarrow> ipv4 \<Rightarrow> 'k Node \<Rightarrow> 'k Node" where
  "peer_punched env inst k src nd = nd\<lparr>as_routes := add_owner_route (ie_default_rtt env) inst src k (as_routes nd)\<rparr>"

definition peer_process :: "('key, 'k) inbound_env \<Rightarrow> 'key inbound_conf \<Rightarrow> nat \<Rightarrow> i64 \<Rightarrow> NetworkAddr \<Rightarrow> 'k
    \<Rightarrow> MsgType \<Rightarrow> ipv4 \<Rightarrow> ipv4 \<Rightarrow> u8 \<Rightarrow> TransmissionBytes \<Rightarrow> 'k Node
    \<Rightarrow> unit result \<times> 'k client_effect list \<times> 'k Node" where
  "peer_process env conf inst now net k t src dest m packet nd =
     (let pl = payload (tb_view packet) in
      if t = Turn \<or> t = Broadcast \<or> t = ExcludeBroadcast then enhanced_inbound env conf net t src packet nd
      else if t = Ping then peer_ping env conf inst k src dest m pl nd
      else if t = Pong then (Inr (), [], peer_pong inst now k src m pl nd)
      else if t = PunchReq
      then (case punch_loop env k nd of
              Inl e \<Rightarrow> (Inl e, [], nd)
            | Inr True \<Rightarrow> (Inr (), [], nd)
            | Inr False \<Rightarrow>
                (case answer_sealed env conf PunchRes 1 dest src 8 (be_enc 8 (unat now)) of
                   (res, effs) \<Rightarrow> (res, effs, peer_punched env inst k src nd)))
      else if t = PunchRes
      then (case punch_loop env k nd of
              Inl e \<Rightarrow> (Inl e, [], nd)
            | Inr True \<Rightarrow> (Inr (), [], nd)
            | Inr False \<Rightarrow> (Inr (), [], peer_punched env inst k src nd))
      else (Inr (), [], nd))"

text \<open>A packet for somebody else is passed on, as long as it has hops left.\<close>

definition relay :: "('key, 'k) inbound_env \<Rightarrow> ipv4 \<Rightarrow> TransmissionBytes \<Rightarrow> 'k Node \<Rightarrow> unit result \<times> 'k client_effect list" where
  "relay env dest packet nd =
     (if ttl (tb_view packet) = 0 then (Inr (), [])
      else (case get_by_id (as_routes nd) dest of
              None \<Rightarrow> (Inr (), [])
            | Some r \<Rightarrow>
                (case tb_into_bytes packet of
                   Inl e \<Rightarrow> (Inl e, [])
                 | Inr buf \<Rightarrow> send_or (ce_peer_takes env (route_key r) buf) IoOther (ToPeer (route_key r) buf))))"

definition peer_handle :: "('key, 'k) inbound_env \<Rightarrow> 'key inbound_conf \<Rightarrow> group_key list \<Rightarrow> nat \<Rightarrow> i64 \<Rightarrow> 'k
    \<Rightarrow> TransmissionBytes \<Rightarrow> 'k Node \<Rightarrow> unit result \<times> 'k client_effect list \<times> 'k Node" where
  "peer_handle env conf order inst now k buf nd =
     (case and_then (packet_new buf) (\<lambda>p. and_then (msg_type (tb_view p)) (\<lambda>m. Inr (m, p))) of
        Inl e \<Rightarrow> (Inl e, [], nd)
      | Inr (t, packet) \<Rightarrow>
          (let src = src_id (tb_view packet); dest = dest_id (tb_view packet); packet = tb_map decr_ttl packet;
               mx = max_ttl (tb_view packet); cur = ttl (tb_view packet)
           in if src = dest then (Inr (), [], nd)
              else if mx \<le> cur then (Inr (), [], nd)
              else case as_network nd of
                None \<Rightarrow> (Inl (Bail ''no own ip''), [], nd)
              | Some net \<Rightarrow>
                  if na_ip net \<noteq> dest \<and> dest \<noteq> BROADCAST \<and> dest \<noteq> UNSPECIFIED \<and> dest \<noteq> na_broadcast net
                  then (case relay env dest packet nd of (res, effs) \<Rightarrow> (res, effs, nd))
                  else if t = Quic then after_fec env order inst (enhanced_inbound env conf net t src) packet nd
                  else
                    (case decrypt_in_place (ce_unseal env) (cc_crypto conf) packet of
                       Inl e \<Rightarrow> (Inl e, [], nd)
                     | Inr packet \<Rightarrow>
                         after_fec env order inst
                           (after_decompress env conf (peer_process env conf inst now net k t src dest (mx - cur)))
                           packet nd)))"

definition tcp_disconnect :: "'k \<Rightarrow> 'k Node \<Rightarrow> 'k Node" where
  "tcp_disconnect k nd =
     (case get_id_by_route_key (as_routes nd) k of
        Some ip \<Rightarrow> nd\<lparr>as_routes := remove_route ip k (as_routes nd)\<rparr>
      | None \<Rightarrow> nd)"

end
