(* ===== verification/Tunnel.thy ===== *)
theory Tunnel
  imports ClientInbound FecDelivery
begin

text \<open>
  The two ends of the tunnel together: what \<open>ipv4_outbound\<close> of one client puts on a connection,
  \<open>server_handle\<close> and \<open>peer_handle\<close> of another client turn back into the IP packet, whatever combination of
  compression, FEC and sealing is on and whatever the hops in between did to the TTL.
\<close>

section \<open>The byte that hops change\<close>

definition with_ttl :: "u8 \<Rightarrow> bytes \<Rightarrow> bytes" where
  "with_ttl b = with_header (\<lambda>h. h\<lparr>ttl_byte := b\<rparr>)"

lemma with_ttl_header [simp]:
  "header (with_ttl b p) = (header p)\<lparr>ttl_byte := b\<rparr>" "payload (with_ttl b p) = payload p"
  "16 \<le> length p \<Longrightarrow> length (with_ttl b p) = length p"
  by (simp_all add: with_ttl_def)

lemma with_ttl_simps [simp]:
  "msg_type (with_ttl b p) = msg_type p" "seq (with_ttl b p) = seq p" "src_id (with_ttl b p) = src_id p"
  "dest_id (with_ttl b p) = dest_id p" "is_compressed (with_ttl b p) = is_compressed p"
  "is_gateway (with_ttl b p) = is_gateway p" "is_fec (with_ttl b p) = is_fec p"
  by (simp_all add: accessor_defs hdr_msg_type_def)

lemma with_ttl_twice [simp]: "16 \<le> length p \<Longrightarrow> with_ttl b (with_ttl c p) = with_ttl b p"
  by (rule packet_eqI) simp_all

lemma decr_ttl_with_ttl: "\<exists>b. decr_ttl p = with_ttl b p"
proof -
  have "\<exists>b. hdr_decr_ttl (header p) = (header p)\<lparr>ttl_byte := b\<rparr>"
    by (cases "hdr_curr_ttl (header p) = 0") (auto simp: hdr_decr_ttl_def Let_def intro: exI [of _ "ttl_byte (header p)"])
  then show ?thesis by (auto simp: decr_ttl_def with_ttl_def with_header_def)
qed

lemma flag_ttl_commute: "hdr_set_flag m c (h\<lparr>ttl_byte := b\<rparr>) = (hdr_set_flag m c h)\<lparr>ttl_byte := b\<rparr>"
  by (simp add: hdr_set_flag_def)

section \<open>Compression\<close>

text \<open>\<open>w\<close> is \<open>v\<close>, or \<open>v\<close> with its payload compressed and the flag set.\<close>

definition carries :: "(bytes \<Rightarrow> bytes option) \<Rightarrow> bytes \<Rightarrow> bytes \<Rightarrow> bool" where
  "carries lz_d w v \<longleftrightarrow> 16 \<le> length w \<and> 16 \<le> length v \<and> \<not> is_compressed v \<and>
     (if is_compressed w
      then lz_d (payload w) = Some (payload v) \<and> header w = hdr_set_flag COMPRESSED True (header v)
      else w = v)"

text \<open>What a hop or the nonce reads of a packet.\<close>

definition routing :: "bytes \<Rightarrow> u8 \<times> MsgType result \<times> u32 \<times> u32 \<times> u32 \<times> bool \<times> u8 \<times> u8" where
  "routing p = (type_byte (header p), msg_type p, seq p, src_id p, dest_id p, is_gateway p, ttl p, max_ttl p)"

lemma routing_header: "header p = header q \<Longrightarrow> routing p = routing q"
  by (simp add: routing_def accessor_defs)

lemma routing_flag:
  assumes "header p = hdr_set_flag m c (header q)" "m AND GATEWAY = 0"
  shows "routing p = routing q"
  using assms by (simp add: routing_def accessor_defs hdr_msg_type_def hdr_curr_ttl_def hdr_max_ttl_def flag_other)

lemma carries_routing:
  assumes "carries lz_d w v"
  shows "routing w = routing v" "is_fec w = is_fec v"
proof -
  have "w = v \<or> header w = hdr_set_flag COMPRESSED True (header v)"
    using assms by (auto simp: carries_def split: if_splits)
  then show "routing w = routing v" "is_fec w = is_fec v"
    using routing_flag [of w COMPRESSED True v] by (auto simp: is_fec_def flag_other)
qed

lemma compress_carries:
  assumes "lz_ok lz_c lz_d" "tb_ok t" "16 \<le> length (tb_view t)" "\<not> is_compressed (tb_view t)"
    and "pc_compress al lz_c self t reserve = Inr q"
  shows "tb_ok q \<and> carries lz_d (tb_view q) (tb_view t) \<and> (is_compressed (tb_view q) \<longrightarrow> self \<noteq> None) \<and>
    length (tb_view q) \<le> length (tb_view t)"
proof (cases self)
  case None
  then show ?thesis using assms by (simp add: pc_compress_def carries_def)
next
  case (Some c)
  let ?v = "tb_view t" and ?z = "lz_c (payload (tb_view t))"
  have "lz4_compress al lz_c c t reserve = Inr q" using assms(5) Some by (simp add: pc_compress_def)
  then consider "q = t" | "tb_ok q" "length ?z < length (payload ?v)"
      "tb_view q = set_compressed_flag True (take 16 ?v @ ?z)"
    using lz4_compress_cases [OF assms(2,3), of al lz_c c reserve] by auto
  then show ?thesis
  proof cases
    case 1
    then show ?thesis using assms(2-4) by (simp add: carries_def)
  next
    case 2
    have "header (tb_view q) = hdr_set_flag COMPRESSED True (header ?v)"
      using 2(3) assms(3) by (simp add: set_compressed_flag_def)
    moreover have "payload (tb_view q) = ?z" "length (tb_view q) = 16 + length ?z" "is_compressed (tb_view q)"
      using 2(3) assms(3) by simp_all
    moreover have "lz_d ?z = Some (payload ?v)" using assms(1) by (simp add: lz_ok_def)
    ultimately show ?thesis
      using 2(1,2) assms(3,4) Some by (simp add: carries_def length_payload)
  qed
qed

lemma decompress_carried:
  assumes "carries lz_d w v" "is_compressed w \<longrightarrow> self \<noteq> None" "tb_ok r" "tb_view r = with_ttl b w"
  shows "\<exists>r'. pc_decompress al lz_d self r = Inr r' \<and> tb_ok r' \<and> tb_view r' = with_ttl b v"
proof (cases "is_compressed w")
  case False
  then have "w = v" using assms(1) by (simp add: carries_def)
  then show ?thesis
    using False assms(3,4) by (simp add: pc_decompress_def lz4_decompress_plain split: option.split)
next
  case True
  then obtain c where c: "self = Some c" using assms(2) by auto
  have w: "16 \<le> length w" "16 \<le> length v" "lz_d (payload w) = Some (payload v)"
    "header w = hdr_set_flag COMPRESSED True (header v)" "\<not> is_compressed v"
    using assms(1) True by (simp_all add: carries_def)
  obtain q where q: "lz4_decompress al lz_d r = Inr q" "tb_ok q"
    "tb_view q = set_compressed_flag False (take 16 (tb_view r) @ payload v)"
    using lz4_decompress_packed [of r lz_d "payload v" al] True w(1,3) assms(4) by auto
  have l: "16 \<le> length (tb_view r)" using w(1) assms(4) by simp
  have "tb_view q = with_ttl b v"
  proof (rule packet_eqI)
    show "header (tb_view q) = header (with_ttl b v)"
      using q(3) l w(4,5) assms(4) set_flag_clear [of "header v" COMPRESSED]
      by (simp add: set_compressed_flag_def flag_ttl_commute is_compressed_def)
  qed (use q(3) l w(2) in simp_all)
  then show ?thesis using q(1,2) c by (simp add: pc_decompress_def)
qed

section \<open>Error correction\<close>

text \<open>\<open>w\<close> is \<open>v\<close>, or \<open>v\<close> as shard \<open>i\<close> of a group.\<close>

definition wraps :: "(FecPacket \<Rightarrow> bytes) \<Rightarrow> FecEncoder option \<Rightarrow> bytes \<Rightarrow> bytes \<Rightarrow> bool" where
  "wraps enc encoder w v \<longleftrightarrow>
     (case encoder of
        None \<Rightarrow> w = v
      | Some e \<Rightarrow> (case next_slot e (dest_id v) of (gid, i) \<Rightarrow> w = fec_wrapped enc gid i v))"

lemma fec_wrap_wraps:
  assumes "tb_ok t" "16 \<le> length (tb_view t)" "length (payload (tb_view t)) \<le> 65535"
    and "fec_wrap env now t nd = (nd', r)"
  shows "\<exists>t'. r = Inr t' \<and> tb_ok t' \<and> wraps (ce_fec_enc env) (nd_fec_encoder nd) (tb_view t') (tb_view t)"
proof (cases "nd_fec_encoder nd")
  case None
  then show ?thesis using assms by (auto simp: fec_wrap_def wraps_def)
next
  case (Some e)
  obtain gid i where s: "next_slot e (dest_id (tb_view t)) = (gid, i)" by fastforce
  obtain e' where e: "fec_encode (ce_al env) (ce_fec_enc env) now t e = (e', r)"
    using assms(4) Some by (auto simp: fec_wrap_def split: prod.splits)
  show ?thesis using fec_encode_wraps [OF assms(1-3) e s] Some s by (auto simp: wraps_def)
qed

lemma wraps_fields:
  assumes "codec_ok enc dec" "16 \<le> length v" "wraps enc encoder w v"
  shows "routing w = routing v" "16 \<le> length w"
proof -
  have "routing w = routing v \<and> 16 \<le> length w"
  proof (cases encoder)
    case (Some e)
    then obtain gid i where w: "w = fec_wrapped enc gid i v"
      using assms(3) by (auto simp: wraps_def split: prod.splits)
    show ?thesis
      using fec_wrapped_fields(4,5) [OF assms(1,2), of gid i] routing_flag [of w FEC True v] unfolding w by simp
  qed (use assms in \<open>simp add: wraps_def\<close>)
  then show "routing w = routing v" "16 \<le> length w" by blast+
qed

text \<open>The receiver has not seen the slot of the packet, nor parity of its group.\<close>

definition slot_new :: "FecEncoder option \<Rightarrow> ipv4 \<Rightarrow> ipv4 \<Rightarrow> FecDecoder \<Rightarrow> bool" where
  "slot_new encoder src dest d \<longleftrightarrow>
     (case encoder of
        None \<Rightarrow> True
      | Some e \<Rightarrow> batch_wf e \<and> (case next_slot e dest of (gid, i) \<Rightarrow>
          \<forall>g. groups d (src, gid) = Some g \<longrightarrow> data_shards g = 0 \<and> \<not> delivered i g))"

lemma fec_receive_new:
  assumes "dec (payload p) = Some \<lparr>group_id = gid, packet_index = word_of_nat i, fec_payload = pl, parity_data = None\<rparr>"
    and "i < BATCH_SIZE" "plain_packet p pl = Inr v"
    and "\<And>g. groups d (src_id p, gid) = Some g \<Longrightarrow> data_shards g = 0 \<and> \<not> delivered i g"
  shows "snd (fec_receive dec rs order now p d) = Inr (Some [v])"
proof -
  have i: "unat (word_of_nat i :: u32) = i" using assms(2) by (simp add: unat_of_nat BATCH_SIZE_def)
  define g where "g = (case groups d (src_id p, gid) of Some g \<Rightarrow> g | None \<Rightarrow> FecGroup_default now)"
  have g: "data_shards g = 0" "\<not> delivered i g"
    using assms(4) by (auto simp: g_def FecGroup_default_def delivered_def is_done_def split: option.splits)
  then have "\<not> is_done g" "\<not> (i < length (received_shards g) \<and> received_shards g ! i \<noteq> None)"
    by (auto simp: delivered_def)
  moreover have "i \<le> MAX_NUM" using assms(2) by (simp add: BATCH_SIZE_def MAX_NUM_def)
  ultimately show ?thesis
    using assms(1,3) i g(1)
    by (simp add: fec_receive_def Let_def g_def [symmetric] finish_receive_def store_data_def try_decode_def is_done_def)
qed

lemma after_fec_unwraps:
  assumes "codec_ok enc (ce_fec_dec env)" "16 \<le> length v" "\<not> is_fec v" "wraps enc encoder w v"
    and "slot_new encoder (src_id v) (dest_id v) (nd_fec_decoder nd)" "tb_ok r" "tb_view r = with_ttl b w"
    and "\<And>t nd. tb_ok t \<Longrightarrow> tb_view t = with_ttl b v \<Longrightarrow> f t nd = (res, effs, g nd)"
  shows "\<exists>dec'. after_fec env order inst f r nd = (res, effs, g (nd\<lparr>nd_fec_decoder := dec'\<rparr>))"
proof (cases encoder)
  case None
  then show ?thesis
    using assms(3,4,7) assms(8) [OF assms(6), of nd]
    by (intro exI [of _ "nd_fec_decoder nd"]) (simp add: wraps_def after_fec_def)
next
  case (Some e)
  obtain gid i where s: "next_slot e (dest_id v) = (gid, i)" and w: "w = fec_wrapped enc gid i v"
    using assms(4) Some by (auto simp: wraps_def split: prod.splits)
  have n: "batch_wf e" "\<And>g. groups (nd_fec_decoder nd) (src_id v, gid) = Some g \<Longrightarrow> data_shards g = 0 \<and> \<not> delivered i g"
    using assms(5) Some s by (auto simp: slot_new_def)
  note fw = fec_wrapped_fields [OF assms(1,2), of gid i, folded w]
  have "plain_packet (with_ttl b w) (payload (with_ttl b v)) = Inr (with_ttl b v)"
    using plain_packet_unwraps [of "with_ttl b v" "with_ttl b w"] assms(2,3) fw(4,5)
    by (simp add: flag_ttl_commute)
  then have "snd (fec_receive (ce_fec_dec env) (ce_rs env) order inst (tb_view r) (nd_fec_decoder nd)) = Inr (Some [with_ttl b v])"
    using fec_receive_new [where dec = "ce_fec_dec env" and p = "tb_view r" and gid = gid and i = i and pl = "payload v"
        and v = "with_ttl b v" and d = "nd_fec_decoder nd"] next_slot_index [OF n(1) s] n(2) fw(1,3) assms(7) by simp
  then obtain dec' where "fec_receive (ce_fec_dec env) (ce_rs env) order inst (tb_view r) (nd_fec_decoder nd)
      = (dec', Inr (Some [with_ttl b v]))"
    by (metis prod.collapse)
  then have d: "fec_unwrap env order inst (tb_view r) nd = (nd\<lparr>nd_fec_decoder := dec'\<rparr>, Inr (Some [with_ttl b v]))"
    by (simp add: fec_unwrap_def)
  have "f (tb_from_slice (ce_al env) (with_ttl b v)) (nd\<lparr>nd_fec_decoder := dec'\<rparr>) = (res, effs, g (nd\<lparr>nd_fec_decoder := dec'\<rparr>))"
    by (rule assms(8)) (simp_all add: transmission_simps)
  then have "after_fec env order inst f r nd = (res, effs, g (nd\<lparr>nd_fec_decoder := dec'\<rparr>))"
    using d fw(2) assms(7) by (cases res) (simp_all add: after_fec_def)
  then show ?thesis by blast
qed

section \<open>Sealing\<close>

definition sealed :: "'key seal \<Rightarrow> 'key option \<Rightarrow> bytes \<Rightarrow> bytes \<Rightarrow> bool" where
  "sealed seal crypto q w \<longleftrightarrow>
     (case crypto of
        None \<Rightarrow> q = w
      | Some k \<Rightarrow> \<exists>n ct tag. make_nonce w = Inr n \<and> seal k n (payload w) = Some (ct, tag) \<and> q = take 16 w @ ct @ tag)"

lemma encrypt_sealed:
  assumes "aead_ok seal unseal" "tb_ok t" "16 \<le> length (tb_view t)" "encrypt_in_place al seal crypto t = Inr q"
  shows "tb_ok q \<and> sealed seal crypto (tb_view q) (tb_view t)"
proof (cases crypto)
  case None
  then show ?thesis using assms by (simp add: encrypt_in_place_def sealed_def)
next
  case (Some k)
  then show ?thesis using encrypt_Inr [OF assms(1-3) assms(4) [unfolded Some]] by (auto simp: sealed_def)
qed

lemma sealed_fields:
  assumes "16 \<le> length w" "sealed seal crypto q w"
  shows "header q = header w" "16 \<le> length q"
  using assms by (auto simp: sealed_def split: option.splits)

lemma decrypt_opens:
  assumes "aead_ok seal unseal" "16 \<le> length w" "sealed seal crypto q w" "tb_ok r" "tb_view r = with_ttl b q"
  shows "\<exists>r'. decrypt_in_place unseal crypto r = Inr r' \<and> tb_ok r' \<and> tb_view r' = with_ttl b w"
proof (cases crypto)
  case None
  then show ?thesis using assms by (simp add: sealed_def decrypt_in_place_def)
next
  case (Some k)
  then obtain n ct tag where n: "make_nonce w = Inr n" "seal k n (payload w) = Some (ct, tag)" "q = take 16 w @ ct @ tag"
    using assms(3) by (auto simp: sealed_def)
  have h: "take 16 (with_ttl b w) = header_bytes ((header w)\<lparr>ttl_byte := b\<rparr>)"
    by (simp add: with_ttl_def with_header_def)
  have v: "tb_view r = take 16 (with_ttl b w) @ ct @ tag"
    using assms(2,5) n(3) h by (simp add: with_ttl_def with_header_def)
  have "make_nonce (tb_view r) = make_nonce w"
    using assms(2,5) n(3) by (intro make_nonce_cong) (simp_all add: seq_def src_id_def dest_id_def)
  then obtain r' where "decrypt_in_place unseal (Some k) r = Inr r'" "tb_ok r'"
      "tb_view r' = take 16 (with_ttl b w) @ payload w"
    using decrypt_sealed [OF assms(1,4,2) _ n(2) v] n(1) assms(2) by auto
  then show ?thesis
    using Some assms(2) packet_split [of "with_ttl b w"] by simp
qed

section \<open>The frame a client sends\<close>

definition turn_packet :: "ipv4 \<Rightarrow> ipv4 \<Rightarrow> bytes \<Rightarrow> bytes" where
  "turn_packet src dest ip = set_dest_id dest (set_ttl 5 (set_src_id src (set_msg_type Turn (replicate 16 0 @ ip))))"

lemma turn_packet_fields [simp]:
  "length (turn_packet src dest ip) = 16 + length ip" "payload (turn_packet src dest ip) = ip"
  "msg_type (turn_packet src dest ip) = Inr Turn" "src_id (turn_packet src dest ip) = src"
  "dest_id (turn_packet src dest ip) = dest" "\<not> is_compressed (turn_packet src dest ip)"
  "\<not> is_gateway (turn_packet src dest ip)" "\<not> is_fec (turn_packet src dest ip)" "ttl (turn_packet src dest ip) = 5"
  "max_ttl (turn_packet src dest ip) = 5" "seq (turn_packet src dest ip) = 0" "type_byte (header (turn_packet src dest ip)) = 0x81"
proof -
  have h: "header (replicate 16 0 @ ip) = \<lparr>type_byte = 0, ttl_byte = 0, flags_byte = 0, reserved = 0, h_seq = 0, h_src_id = 0, h_dest_id = 0\<rparr>"
    by (rule header_upd_0_2(1))
  then have "flags_byte (header (replicate 16 0 @ ip)) = 0" by simp
  then show "\<not> is_compressed (turn_packet src dest ip)" "\<not> is_gateway (turn_packet src dest ip)"
      "\<not> is_fec (turn_packet src dest ip)"
    by (simp_all add: turn_packet_def) (simp_all add: is_compressed_def is_gateway_def is_fec_def)
  show "seq (turn_packet src dest ip) = 0" by (simp add: turn_packet_def seq_def [of "replicate 16 0 @ ip"] h)
  show "type_byte (header (turn_packet src dest ip)) = 0x81"
    using h by (simp add: turn_packet_def set_dest_id_def set_ttl_def set_src_id_def set_msg_type_def hdr_set_ttl_def hdr_set_msg_type_def)
qed (simp_all add: turn_packet_def, simp add: payload_def)

definition tunnel_frame :: "(bytes \<Rightarrow> bytes option) \<Rightarrow> (FecPacket \<Rightarrow> bytes) \<Rightarrow> 'key seal \<Rightarrow> 'key client_conf
    \<Rightarrow> FecEncoder option \<Rightarrow> ipv4 \<Rightarrow> ipv4 \<Rightarrow> bytes \<Rightarrow> bytes \<Rightarrow> bool" where
  "tunnel_frame lz_d enc seal conf encoder src dest ip frame \<longleftrightarrow>
     (\<exists>w w'. carries lz_d w (turn_packet src dest ip) \<and> (is_compressed w \<longrightarrow> cc_compression conf \<noteq> None) \<and>
        wraps enc encoder w' w \<and> sealed seal (cc_crypto conf) frame w')"

lemma tunnel_frame_fields:
  assumes "codec_ok enc dec" "tunnel_frame lz_d enc seal conf encoder src dest ip frame"
  shows "msg_type frame = Inr Turn" "src_id frame = src" "dest_id frame = dest" "\<not> is_gateway frame" "16 \<le> length frame"
    "ttl frame = 5" "max_ttl frame = 5" "seq frame = 0" "type_byte (header frame) = 0x81"
proof -
  obtain w w' where w: "carries lz_d w (turn_packet src dest ip)" "wraps enc encoder w' w" "sealed seal (cc_crypto conf) frame w'"
    using assms(2) by (auto simp: tunnel_frame_def)
  have l: "16 \<le> length w" using w(1) by (simp add: carries_def)
  note f = wraps_fields [OF assms(1) l w(2)]
  note h = sealed_fields [OF f(2) w(3)]
  have "routing frame = routing (turn_packet src dest ip)"
    using routing_header [OF h(1)] f(1) carries_routing(1) [OF w(1)] by simp
  then show "msg_type frame = Inr Turn" "src_id frame = src" "dest_id frame = dest" "\<not> is_gateway frame"
      "16 \<le> length frame" "ttl frame = 5" "max_ttl frame = 5" "seq frame = 0" "type_byte (header frame) = 0x81"
    using h(2) by (simp_all add: routing_def)
qed

lemma tb_map_ok:
  assumes "tb_ok t" "length (f (tb_view t)) = length (tb_view t)"
  shows "tb_ok (tb_map f t)" "tb_view (tb_map f t) = f (tb_view t)"
  using tb_write_ok [OF assms] by (simp_all add: tb_map_def)

lemma packet_new_ok [simp]: "tb_ok t \<Longrightarrow> 16 \<le> length (tb_view t) \<Longrightarrow> packet_new t = Inr t"
  by (simp add: packet_new_def NetPacket_new_def)

lemma frozen_ok: "tb_ok t \<Longrightarrow> frozen t = NetPacket_new (tb_view t)"
  by (simp add: frozen_def tb_into_bytes_view)

lemma interface_packet:
  assumes "bytes_codec_decode al ip = Inr (Some data)"
  shows "tb_view data = ip" "length ip \<le> 2032"
    "\<exists>t. and_then (tb_retreat_head HEAD_LENGTH data) packet_new = Inr t \<and> tb_ok t \<and> tb_view t = replicate 16 0 @ ip"
proof -
  have p: "tb_put ip (tb_new_offset al 16) = Inr data"
    using assms by (auto simp: bytes_codec_decode_def split: if_splits)
  note v = tb_put_view [OF tb_constructors_ok(4) p, unfolded DEFAULT_BUF_SIZE_def, simplified]
  show d: "tb_view data = ip" using v(2) by (simp add: tb_constructors_view)
  have data: "data = (tb_new_offset al 16)\<lparr>tb_buf := write_slice 16 ip (replicate 2048 0), tb_end := 16 + length ip\<rparr>"
    and l: "16 + length ip \<le> 2048"
    using p by (auto simp: tb_put_def tb_new_offset_def DEFAULT_BUF_SIZE_def split: if_splits)
  show "length ip \<le> 2032" using l by simp
  have r: "tb_retreat_head 16 data = Inr (data\<lparr>tb_start := 0\<rparr>)"
    using data by (simp add: tb_retreat_head_def tb_head_room_def tb_new_offset_def)
  have "take 16 (tb_buf data) = replicate 16 0"
    using data l by (simp add: tb_new_offset_def)
  then have "tb_view (data\<lparr>tb_start := 0\<rparr>) = replicate 16 0 @ ip" "tb_ok (data\<lparr>tb_start := 0\<rparr>)"
    using tb_retreat_view [OF v(1) r] d data by (simp_all add: tb_new_offset_def)
  then show "\<exists>t. and_then (tb_retreat_head HEAD_LENGTH data) packet_new = Inr t \<and> tb_ok t \<and> tb_view t = replicate 16 0 @ ip"
    using r by simp
qed


text \<open>The way a packet for \<open>dest\<close> takes: over the best route to the peer, else over the best server.\<close>

definition way :: "'key client_conf \<Rightarrow> ipv4 \<Rightarrow> 'k Node \<Rightarrow> (bytes \<Rightarrow> 'k client_effect) option" where
  "way conf dest nd =
     (case use_route conf (as_routes nd) dest of
        Some r \<Rightarrow> Some (ToPeer (route_key r))
      | None \<Rightarrow>
          if cc_use_channel conf \<noteq> P2p
          then map_option ToServer (find_ip_to_server (cc_servers conf) dest (as_server_info nd)) else None)"

fun takes :: "('key, 'k) client_env \<Rightarrow> 'k client_effect \<Rightarrow> bool" where
  "takes env (ToServer sid f) = ce_server_takes env sid f"
| "takes env (ToPeer k f) = ce_peer_takes env k f"
| "takes env _ = False"

definition seal_total :: "'key seal \<Rightarrow> bool" where
  "seal_total seal \<longleftrightarrow> (\<forall>k n pt. seal k n pt \<noteq> None)"

lemma encrypt_total:
  assumes "seal_total seal" "tb_ok t" "16 \<le> length (tb_view t)"
  shows "\<exists>q. encrypt_in_place al seal crypto t = Inr q"
proof (cases crypto)
  case (Some k)
  let ?e = "tb_view (tb_extend_end al 16 t)"
  have "length ?e = length (tb_view t) + 16" using tbuf.length_view_extend [OF assms(2)] .
  then have "make_nonce ?e \<noteq> Inl e" "16 \<le> length (payload ?e)" for e
    using assms(3) by (simp_all add: make_nonce_ok length_payload)
  moreover obtain n where "make_nonce ?e = Inr n" using calculation(1) by (cases "make_nonce ?e") auto
  moreover have "\<exists>x. seal k n p = Some x" for n p using assms(1) by (auto simp: seal_total_def)
  ultimately show ?thesis
    using Some by (fastforce simp: encrypt_in_place_def raw_encrypt_in_place_def Let_def split: option.split)
qed (simp add: encrypt_in_place_def)

lemma compress_total:
  "tb_ok t \<Longrightarrow> 16 \<le> length (tb_view t) \<Longrightarrow> \<exists>q. pc_compress al lz_c self t reserve = Inr q"
  using lz4_compress_cases [of t al lz_c _ reserve] by (auto simp: pc_compress_def split: option.split)

lemma fec_wrap_frame:
  "fec_wrap env now t nd = (nd', r) \<Longrightarrow> as_routes nd' = as_routes nd \<and> as_server_info nd' = as_server_info nd"
  by (auto simp: fec_wrap_def split: option.splits prod.splits)

lemma find_ip_to_server_in:
  assumes "find_ip_to_server ids ip c = Some sid"
  shows "sid \<in> set ids"
proof -
  define f where "f = (\<lambda>sid. case server_node_map c sid of
         None \<Rightarrow> None
       | Some n \<Rightarrow>
           if \<not> sn_connected n then None
           else (case sn_client_map n ip of
                   None \<Rightarrow> None
                 | Some client \<Rightarrow> if \<not> csi_online client then None else Some (sid, rtt_or_max n)))"
  have "fst y = x" if "f x = Some y" for x y
    using that by (auto simp: f_def split: option.splits if_splits)
  then have sub: "fst ` set (List.map_filter f xs) \<subseteq> set xs" for xs
    by (induction xs) (auto simp: map_filter_simps split: option.splits)
  obtain r where "min_by_key (List.map_filter f ids) = Some (sid, r)"
    using assms by (auto simp: find_ip_to_server_def f_def)
  then have "(sid, r) \<in> set (List.map_filter f ids)" using min_by_key_Some by blast
  then have "fst (sid, r) \<in> fst ` set (List.map_filter f ids)" by (rule imageI)
  then show ?thesis using sub by auto
qed

lemma send_encrypted_way:
  assumes "way conf dest nd = Some mk" "\<And>f. takes env (mk f)"
    and "encrypt_in_place (ce_al env) (ce_seal env) (cc_crypto conf) t = Inr q" "tb_ok q" "16 \<le> length (tb_view q)"
  shows "send_encrypted_packet env conf dest t nd = (Inr (), [mk (tb_view q)])"
proof (cases "use_route conf (as_routes nd) dest")
  case None
  then obtain sid where s: "cc_use_channel conf \<noteq> P2p" "find_ip_to_server (cc_servers conf) dest (as_server_info nd) = Some sid"
    "mk = ToServer sid"
    using assms(1) by (auto simp: way_def split: if_splits)
  have "sid \<in> set (cc_servers conf)"
    using find_ip_to_server_in [OF s(2)] .
  then show ?thesis
    using None s assms(2-5)
    by (simp add: send_encrypted_packet_def frozen_ok NetPacket_new_def server_send_raw_def send_channel_def send_or_def)
next
  case (Some r)
  then show ?thesis
    using assms by (auto simp: way_def send_encrypted_packet_def frozen_ok NetPacket_new_def p2p_send_raw_to_def send_or_def)
qed

lemma ipv4_outbound_sends:
  assumes "lz_ok (ce_lz_c env) lz_d" "aead_ok (ce_seal env) unseal" "seal_total (ce_seal env)" "codec_ok (ce_fec_enc env) dec"
    and "bytes_codec_decode (ce_al env) ip = Inr (Some data)" "ipv4_new (ce_pnet env) ip"
    and "overlay_dest env net (ip_destination (ce_pnet env) ip) nd = Inr (Some dest)"
    and "way conf dest nd = Some mk" "\<And>f. takes env (mk f)"
  shows "\<exists>frame nd'. ipv4_outbound env conf now net data nd = (Inr (), [mk frame], nd') \<and>
    tunnel_frame lz_d (ce_fec_enc env) (ce_seal env) conf (nd_fec_encoder nd) (na_ip net) dest ip frame"
proof -
  note d = interface_packet [OF assms(5)]
  obtain t where t: "and_then (tb_retreat_head HEAD_LENGTH data) packet_new = Inr t" "tb_ok t" "tb_view t = replicate 16 0 @ ip"
    using d(3) by blast
  let ?t1 = "tb_map (\<lambda>v. set_ttl 5 (set_src_id (na_ip net) (set_msg_type Turn v))) t"
  have t1: "tb_ok ?t1" "tb_view ?t1 = set_ttl 5 (set_src_id (na_ip net) (set_msg_type Turn (replicate 16 0 @ ip)))"
    using tb_map_ok [OF t(2), of "\<lambda>v. set_ttl 5 (set_src_id (na_ip net) (set_msg_type Turn v))"] t(3) by simp_all
  have v: "tb_ok (tb_map (set_dest_id dest) ?t1)" "tb_view (tb_map (set_dest_id dest) ?t1) = turn_packet (na_ip net) dest ip"
    using tb_map_ok [OF t1(1), of "set_dest_id dest"] t1(2) by (simp_all add: turn_packet_def)
  obtain t2 where c: "pc_compress (ce_al env) (ce_lz_c env) (cc_compression conf) (tb_map (set_dest_id dest) ?t1)
      (encrypt_reserve (cc_crypto conf)) = Inr t2"
    using compress_total [OF v(1)] v(2) by fastforce
  have w: "tb_ok t2" "carries lz_d (tb_view t2) (turn_packet (na_ip net) dest ip)"
    "is_compressed (tb_view t2) \<longrightarrow> cc_compression conf \<noteq> None" "length (tb_view t2) \<le> 16 + length ip"
    using compress_carries [OF assms(1) v(1) _ _ c] v(2) by simp_all
  have l2: "16 \<le> length (tb_view t2)" using w(2) by (simp add: carries_def)
  have pl: "length (payload (tb_view t2)) \<le> 65535" using w(4) d(2) length_payload [of "tb_view t2"] by simp
  obtain nd1 r where f: "fec_wrap env now t2 nd = (nd1, r)" by fastforce
  obtain t3 where t3: "r = Inr t3" "tb_ok t3" "wraps (ce_fec_enc env) (nd_fec_encoder nd) (tb_view t3) (tb_view t2)"
    using fec_wrap_wraps [OF w(1) l2 pl f] by auto
  have l3: "16 \<le> length (tb_view t3)" using wraps_fields(2) [OF assms(4) l2 t3(3)] .
  obtain t4 where t4: "encrypt_in_place (ce_al env) (ce_seal env) (cc_crypto conf) t3 = Inr t4"
    using encrypt_total [OF assms(3) t3(2) l3] by blast
  note s = encrypt_sealed [OF assms(2) t3(2) l3 t4]
  have "way conf dest nd1 = Some mk" using fec_wrap_frame [OF f] assms(8) by (auto simp: way_def split: option.splits if_splits)
  then have "send_encrypted_packet env conf dest t3 nd1 = (Inr (), [mk (tb_view t4)])"
    using send_encrypted_way [where mk = mk, OF _ assms(9) t4] s sealed_fields(2) [OF l3] by blast
  moreover have "tunnel_frame lz_d (ce_fec_enc env) (ce_seal env) conf (nd_fec_encoder nd) (na_ip net) dest ip (tb_view t4)"
    using w(2,3) t3(3) s by (auto simp: tunnel_frame_def)
  moreover obtain a where "tb_retreat_head 16 data = Inr a" "packet_new a = Inr t" using t(1) by auto
  ultimately show ?thesis
    using d(1) assms(6,7) c f t3(1) by (intro exI [of _ "tb_view t4"]) (simp add: ipv4_outbound_def Let_def)
qed

section \<open>The frame at its destination\<close>

text \<open>What the receiver keeps of a delivered packet besides the state of its FEC decoder.\<close>

definition received :: "ipv4 \<Rightarrow> bytes \<Rightarrow> 'k Node \<Rightarrow> 'k Node" where
  "received src ip nd = nd\<lparr>as_traffic := record_rx src (word_of_nat (16 + length ip)) (as_traffic nd)\<rparr>"

lemma enhanced_inbound_delivers:
  assumes "tb_ok t" "tb_view t = with_ttl b (turn_packet src dest ip)"
  shows "enhanced_inbound env conf net m src t nd =
    (fst (deliver env conf net m src ip), snd (deliver env conf net m src ip), received src ip nd)"
proof -
  have l: "length (tb_view t) = 16 + length ip" using assms(2) by simp
  obtain t' where t': "tb_advance_head 16 t = Inr t'"
    using assms(1) l by (cases "tb_advance_head 16 t") (auto simp: tb_advance_head_def)
  have "drop 16 (tb_view t) = payload (with_ttl b (turn_packet src dest ip))"
    by (simp only: assms(2) payload_def HEAD_LENGTH_eq)
  then have "tb_view t' = ip" using tb_advance_view(2) [OF assms(1) t'] by simp
  then show ?thesis using t' l by (simp add: enhanced_inbound_def received_def split: prod.split)
qed

lemma open_frame:
  assumes "lz_ok lz_c (ce_lz_d env)" "aead_ok seal (ce_unseal env)" "codec_ok enc (ce_fec_dec env)"
    and "cc_crypto conf = cc_crypto conf1" "cc_compression conf1 \<noteq> None \<longrightarrow> cc_compression conf \<noteq> None"
    and "tunnel_frame (ce_lz_d env) enc seal conf1 encoder src dest ip frame"
    and "slot_new encoder src dest (nd_fec_decoder nd)" "tb_ok r" "tb_view r = with_ttl b frame"
    and "\<And>t nd. tb_ok t \<Longrightarrow> tb_view t = with_ttl b (turn_packet src dest ip) \<Longrightarrow> f t nd = (res, effs, g nd)"
  shows "\<exists>r' dec'. decrypt_in_place (ce_unseal env) (cc_crypto conf) r = Inr r' \<and>
    after_fec env order inst (after_decompress env conf f) r' nd = (res, effs, g (nd\<lparr>nd_fec_decoder := dec'\<rparr>))"
proof -
  obtain w w' where w: "carries (ce_lz_d env) w (turn_packet src dest ip)" "is_compressed w \<longrightarrow> cc_compression conf1 \<noteq> None"
    "wraps enc encoder w' w" "sealed seal (cc_crypto conf1) frame w'"
    using assms(6) by (auto simp: tunnel_frame_def)
  have l: "16 \<le> length w" using w(1) by (simp add: carries_def)
  have l': "16 \<le> length w'" using wraps_fields(2) [OF assms(3) l w(3)] .
  obtain r' where r': "decrypt_in_place (ce_unseal env) (cc_crypto conf) r = Inr r'" "tb_ok r'" "tb_view r' = with_ttl b w'"
    using decrypt_opens [OF assms(2) l' w(4) assms(8,9)] assms(4) by auto
  have "src_id w = src" "dest_id w = dest" "\<not> is_fec w"
    using carries_routing [OF w(1)] by (simp_all add: routing_def)
  moreover have "after_decompress env conf f t nd = (res, effs, g nd)"
    if t: "tb_ok t" "tb_view t = with_ttl b w" for t nd
  proof -
    obtain t' where "pc_decompress (ce_al env) (ce_lz_d env) (cc_compression conf) t = Inr t'" "tb_ok t'"
        "tb_view t' = with_ttl b (turn_packet src dest ip)"
      using decompress_carried [OF w(1) _ t, of "cc_compression conf"] w(2) assms(5) by blast
    then show ?thesis using assms(10) by (simp add: after_decompress_def)
  qed
  ultimately have "\<exists>dec'. after_fec env order inst (after_decompress env conf f) r' nd = (res, effs, g (nd\<lparr>nd_fec_decoder := dec'\<rparr>))"
    using after_fec_unwraps [OF assms(3) l _ w(3) _ r'(2,3)] assms(7) by simp
  then show ?thesis using r'(1) by blast
qed

lemma hops_with_ttl: "16 \<le> length p \<Longrightarrow> \<exists>b. (decr_ttl ^^ n) p = with_ttl b p"
proof (induction n)
  case 0
  then show ?case using with_header_id [of p] by (intro exI [of _ "ttl_byte (header p)"]) (simp add: with_ttl_def with_header_def)
next
  case (Suc n)
  then obtain b where b: "(decr_ttl ^^ n) p = with_ttl b p" by blast
  obtain c where "decr_ttl ((decr_ttl ^^ n) p) = with_ttl c ((decr_ttl ^^ n) p)" using decr_ttl_with_ttl by blast
  then show ?case using b Suc.prems by auto
qed

lemma server_handle_delivers:
  assumes "lz_ok lz_c (ce_lz_d env)" "aead_ok seal (ce_unseal env)" "codec_ok enc (ce_fec_dec env)"
    and "cc_crypto conf = cc_crypto conf1" "cc_compression conf1 \<noteq> None \<longrightarrow> cc_compression conf \<noteq> None"
    and "tunnel_frame (ce_lz_d env) enc seal conf1 encoder src (na_ip net) ip frame"
    and "slot_new encoder src (na_ip net) (nd_fec_decoder nd)" "tb_ok r" "tb_view r = with_ttl b frame"
  shows "\<exists>dec'. server_handle env conf sids ips order inst now sid net r nd =
    (fst (deliver env conf net Turn src ip), snd (deliver env conf net Turn src ip), received src ip (nd\<lparr>nd_fec_decoder := dec'\<rparr>))"
proof -
  note f = tunnel_frame_fields [OF assms(3,6)]
  let ?D = "deliver env conf net Turn src ip"
  have p: "server_process env conf now net Turn src (na_ip net) t nd = (fst ?D, snd ?D, received src ip nd)"
    if "tb_ok t" "tb_view t = with_ttl b (turn_packet src (na_ip net) ip)" for t nd
    using enhanced_inbound_delivers [OF that] by (simp add: server_process_def)
  have "\<exists>r' dec'. decrypt_in_place (ce_unseal env) (cc_crypto conf) r = Inr r' \<and>
    after_fec env order inst (after_decompress env conf (server_process env conf now net Turn src (na_ip net))) r' nd =
      (fst ?D, snd ?D, received src ip (nd\<lparr>nd_fec_decoder := dec'\<rparr>))"
    by (rule open_frame [where g = "received src ip", OF assms(1-9)]) (rule p)
  then obtain r' dec' where "decrypt_in_place (ce_unseal env) (cc_crypto conf) r = Inr r'"
    "after_fec env order inst (after_decompress env conf (server_process env conf now net Turn src (na_ip net))) r' nd =
      (fst ?D, snd ?D, received src ip (nd\<lparr>nd_fec_decoder := dec'\<rparr>))"
    by blast
  then show ?thesis
    using f assms(8,9) by (intro exI [of _ dec']) (simp add: server_handle_def handle_client_data_def Let_def)
qed

lemma peer_handle_delivers:
  assumes "lz_ok lz_c (ce_lz_d env)" "aead_ok seal (ce_unseal env)" "codec_ok enc (ce_fec_dec env)"
    and "cc_crypto conf = cc_crypto conf1" "cc_compression conf1 \<noteq> None \<longrightarrow> cc_compression conf \<noteq> None"
    and "tunnel_frame (ce_lz_d env) enc seal conf1 encoder src (na_ip net) ip frame"
    and "slot_new encoder src (na_ip net) (nd_fec_decoder nd)" "tb_ok r" "tb_view r = (decr_ttl ^^ n) frame"
    and "src \<noteq> na_ip net" "as_network nd = Some net"
  shows "\<exists>dec'. peer_handle env conf order inst now k r nd =
    (fst (deliver env conf net Turn src ip), snd (deliver env conf net Turn src ip), received src ip (nd\<lparr>nd_fec_decoder := dec'\<rparr>))"
proof -
  note f = tunnel_frame_fields [OF assms(3,6)]
  note h = hop_count [of "Suc n" frame, unfolded funpow.simps comp_def]
  let ?D = "deliver env conf net Turn src ip"
  let ?r = "tb_map decr_ttl r" and ?m = "max_ttl (decr_ttl ((decr_ttl ^^ n) frame)) - ttl (decr_ttl ((decr_ttl ^^ n) frame))"
  have l: "16 \<le> length (tb_view r)" using hops_with_ttl [OF f(5), of n] f(5) assms(9) by auto
  have r: "tb_ok ?r" "tb_view ?r = decr_ttl ((decr_ttl ^^ n) frame)"
    using tb_map_ok [OF assms(8), of decr_ttl] l assms(9) by simp_all
  obtain b where b: "tb_view ?r = with_ttl b frame" using hops_with_ttl [OF f(5), of "Suc n"] r(2) by auto
  have p: "peer_process env conf inst now net k Turn src (na_ip net) ?m t nd = (fst ?D, snd ?D, received src ip nd)"
    if "tb_ok t" "tb_view t = with_ttl b (turn_packet src (na_ip net) ip)" for t nd
    using enhanced_inbound_delivers [OF that] by (simp add: peer_process_def Let_def)
  have "\<exists>r' dec'. decrypt_in_place (ce_unseal env) (cc_crypto conf) ?r = Inr r' \<and>
    after_fec env order inst (after_decompress env conf (peer_process env conf inst now net k Turn src (na_ip net) ?m)) r' nd =
      (fst ?D, snd ?D, received src ip (nd\<lparr>nd_fec_decoder := dec'\<rparr>))"
    by (rule open_frame [where g = "received src ip", OF assms(1-7) r(1) b]) (rule p)
  then obtain r' dec' where "decrypt_in_place (ce_unseal env) (cc_crypto conf) ?r = Inr r'"
    "after_fec env order inst (after_decompress env conf (peer_process env conf inst now net k Turn src (na_ip net) ?m)) r' nd =
      (fst ?D, snd ?D, received src ip (nd\<lparr>nd_fec_decoder := dec'\<rparr>))"
    by blast
  moreover have "\<not> max_ttl (decr_ttl ((decr_ttl ^^ n) frame)) \<le> ttl (decr_ttl ((decr_ttl ^^ n) frame))"
    using h f(6,7) by (simp add: word_le_nat_alt)
  moreover have "packet_new r = Inr r" "msg_type (tb_view r) = Inr Turn" "src_id (tb_view r) = src" "dest_id (tb_view r) = na_ip net"
    using hops_with_ttl [OF f(5), of n] f assms(8,9) l by auto
  ultimately show ?thesis
    using r assms(10,11) by (intro exI [of _ dec']) (simp add: peer_handle_def Let_def)
qed

section \<open>Properties\<close>

text \<open>C19 The tunnel is transparent: an IP packet from the interface of one client, for an address that is reached
  through another client and with a way there that accepts frames, is sent in exactly one frame; and after any
  number of hops, from a server or from a peer, the other client hands exactly the bytes of that IP packet, with
  the sender's address as source, to \<open>deliver\<close>. The clients share the key, the sender compresses only if the
  receiver decompresses, and with FEC the slot of the packet is new to the receiver.\<close>

theorem tunnel_transparent:
  assumes "lz_ok (ce_lz_c env1) (ce_lz_d env2)" "aead_ok (ce_seal env1) (ce_unseal env2)" "seal_total (ce_seal env1)"
    and "codec_ok (ce_fec_enc env1) (ce_fec_dec env2)"
    and "cc_crypto conf2 = cc_crypto conf1" "cc_compression conf1 \<noteq> None \<longrightarrow> cc_compression conf2 \<noteq> None"
    and "bytes_codec_decode (ce_al env1) ip = Inr (Some data)" "ipv4_new (ce_pnet env1) ip"
    and "overlay_dest env1 net1 (ip_destination (ce_pnet env1) ip) nd1 = Inr (Some (na_ip net2))"
    and "way conf1 (na_ip net2) nd1 = Some mk" "\<And>f. takes env1 (mk f)"
    and "as_network nd2 = Some net2" "na_ip net1 \<noteq> na_ip net2"
    and "slot_new (nd_fec_encoder nd1) (na_ip net1) (na_ip net2) (nd_fec_decoder nd2)"
  defines "D \<equiv> deliver env2 conf2 net2 Turn (na_ip net1) ip"
  shows "\<exists>frame nd1'. ipv4_outbound env1 conf1 now net1 data nd1 = (Inr (), [mk frame], nd1') \<and>
    (\<forall>n r. tb_ok r \<and> tb_view r = (decr_ttl ^^ n) frame \<longrightarrow>
      (\<exists>dec'. server_handle env2 conf2 sids ips order inst wall sid net2 r nd2 =
        (fst D, snd D, received (na_ip net1) ip (nd2\<lparr>nd_fec_decoder := dec'\<rparr>))) \<and>
      (\<exists>dec'. peer_handle env2 conf2 order inst wall k r nd2 =
        (fst D, snd D, received (na_ip net1) ip (nd2\<lparr>nd_fec_decoder := dec'\<rparr>))))"
proof -
  obtain frame nd1' where f: "tunnel_frame (ce_lz_d env2) (ce_fec_enc env1) (ce_seal env1) conf1 (nd_fec_encoder nd1)
      (na_ip net1) (na_ip net2) ip frame"
    and o: "ipv4_outbound env1 conf1 now net1 data nd1 = (Inr (), [mk frame], nd1')"
    using ipv4_outbound_sends [OF assms(1-4,7-11)] by blast
  have "(\<exists>dec'. server_handle env2 conf2 sids ips order inst wall sid net2 r nd2 =
        (fst D, snd D, received (na_ip net1) ip (nd2\<lparr>nd_fec_decoder := dec'\<rparr>))) \<and>
      (\<exists>dec'. peer_handle env2 conf2 order inst wall k r nd2 =
        (fst D, snd D, received (na_ip net1) ip (nd2\<lparr>nd_fec_decoder := dec'\<rparr>)))"
    if r: "tb_ok r" "tb_view r = (decr_ttl ^^ n) frame" for n r
  proof -
    obtain b where b: "tb_view r = with_ttl b frame"
      using hops_with_ttl [OF tunnel_frame_fields(5) [OF assms(4) f], of n] r(2) by auto
    show ?thesis
      using server_handle_delivers [OF assms(1,2,4-6) f assms(14) r(1) b]
        peer_handle_delivers [OF assms(1,2,4-6) f assms(14) r assms(13,12)] by (simp add: D_def)
  qed
  then show ?thesis using o by blast
qed

text \<open>What \<open>deliver\<close> does with a packet for the receiver's own network: it goes to the virtual interface.\<close>

lemma deliver_to_tun:
  assumes "ci_tun conf = InTun allowed" "na_network (ce_net_new env) net = Inr n" "ipv4_new (ce_pnet env) ip"
    and "ip \<noteq> []" "drop_bit 4 (hd ip) = 4" "net_contains n (ip_destination (ce_pnet env) ip)" "ce_tun_takes env ip"
  shows "deliver env conf net Turn src ip = (Inr (), [ToTun ip])"
  using assms
  by (cases "ci_nat conf") (auto simp: deliver_def deliver_turn_def outside_network_def tun_send_def accepts_local_def send_or_def Let_def)

section \<open>Two clients of one network\<close>

text \<open>The clients 10.26.0.7 and 10.26.0.8 with compression, FEC and encryption on; server 1 knows both.\<close>

definition demo_lan :: Ipv4Net where
  "demo_lan = \<lparr>net_network = 0x0A1A0000, net_broadcast = 0x0A1A00FF, net_prefix_len = 24,
     net_contains = (\<lambda>ip. drop_bit 8 ip = 0x0A1A00)\<rparr>"

definition demo_inbound_env :: "(u8, nat) inbound_env" where
  "demo_inbound_env = \<lparr>ce_al = (\<lambda>n. n), ce_net_new = (\<lambda>_ _. Some demo_lan), ce_pnet = demo_pnet, ce_lz_c = demo_c, ce_lz_d = demo_d,
     ce_seal = demo_seal, ce_unseal = demo_unseal, ce_fec_enc = plain_enc, ce_fec_dec = plain_dec, ce_rs = xor_reconstruct,
     ce_selective_enc = (\<lambda>_. []), ce_peer_takes = (\<lambda>_ _. True), ce_server_takes = (\<lambda>_ _. True), ce_stack_takes = (\<lambda>_. True),
     ce_tun_takes = (\<lambda>_. True), ce_tcp_connection = (\<lambda>_ _. False), ce_tcp_half_open = (\<lambda>_ _. False),
     ie_list_dec = (\<lambda>_. None), ie_punch_dec = (\<lambda>_. None), ie_punch_enc = (\<lambda>_. []), ie_rpc_dec = (\<lambda>_. True),
     ie_answer_takes = (\<lambda>_. True), ie_quic_takes = (\<lambda>_. True), ie_nat_takes = (\<lambda>_. True), ie_key_ip = (\<lambda>_. None),
     ie_default_rtt = 0\<rparr>"

definition demo_client_env :: "(u8, nat) client_env" where "demo_client_env = client_env.truncate demo_inbound_env"

definition demo_client_conf :: "u8 client_conf" where
  "demo_client_conf = \<lparr>cc_crypto = Some 9, cc_compression = Some \<lparr>min_size = 3\<rparr>, cc_use_channel = Auto, cc_p2p = True,
     cc_servers = [1], cc_open_quic = False\<rparr>"

definition demo_inbound_conf :: "u8 inbound_conf" where
  "demo_inbound_conf = client_conf.extend demo_client_conf
     \<lparr>ci_tun = InTun [], ci_nat = None, ci_puncher = False\<rparr>"

definition demo_addr :: "ipv4 \<Rightarrow> NetworkAddr" where
  "demo_addr ip = \<lparr>na_gateway = 0x0A1A0001, na_broadcast = 0x0A1A00FF, na_ip = ip, na_prefix_len = 24\<rparr>"

definition demo_node :: "ipv4 \<Rightarrow> nat Node" where
  "demo_node ip = AppState.extend (AppState_default\<lparr>as_network := Some (demo_addr ip),
     as_server_info := \<lparr>client_simple_list = [],
       server_node_map = [1 \<mapsto> ServerNodeInfo_default\<lparr>sn_connected := True,
         sn_client_map := [0x0A1A0008 \<mapsto> \<lparr>csi_ip = 0x0A1A0008, csi_online = True\<rparr>]\<rparr>]\<rparr>\<rparr>)
     \<lparr>nd_fec_encoder = Some FecEncoder_new, nd_fec_decoder = FecDecoder_new 0\<rparr>"

definition demo_ip_packet :: bytes where
  "demo_ip_packet = [0x45, 0, 0, 21, 0, 0, 0, 0, 64, 17, 0, 0, 10, 26, 0, 7, 10, 26, 0, 8, 42]"

definition demo_data :: TransmissionBytes where
  "demo_data = (tb_new_offset (\<lambda>n. n) 16)\<lparr>tb_buf := write_slice 16 demo_ip_packet (replicate 2048 0), tb_end := 37\<rparr>"

lemma demo_env_ok: "lz_ok (ce_lz_c demo_client_env) (ce_lz_d demo_inbound_env)" "aead_ok (ce_seal demo_client_env) (ce_unseal demo_inbound_env)"
  "codec_ok (ce_fec_enc demo_client_env) (ce_fec_dec demo_inbound_env)"
  by (simp_all add: demo_client_env_def demo_inbound_env_def client_env.defs demo_lz_ok demo_aead_ok plain_codec)

lemma demo_codec: "bytes_codec_decode (ce_al demo_client_env) demo_ip_packet = Inr (Some demo_data)"
  by (simp add: bytes_codec_decode_def demo_client_env_def demo_inbound_env_def client_env.defs demo_data_def tb_put_def
    tb_tail_room_def tb_new_offset_def DEFAULT_BUF_SIZE_def demo_ip_packet_def)

lemma demo_pnet_fields: "ipv4_new demo_pnet demo_ip_packet" "ip_destination demo_pnet demo_ip_packet = 0x0A1A0008"
  by (simp_all add: demo_pnet_def demo_ip_packet_def be_dec_def)

lemma demo_way: "way demo_client_conf 0x0A1A0008 (demo_node 0x0A1A0007) = Some (ToServer 1)"
  by (simp add: way_def demo_client_conf_def demo_node_def AppState.defs AppState_default_def use_route_def get_by_id_def
    RouteTable_new_def find_ip_to_server_def List.map_filter_def)

lemma demo_way': "way demo_client_conf (na_ip (demo_addr 0x0A1A0008)) (demo_node 0x0A1A0007) = Some (ToServer 1)"
  using demo_way by (simp add: demo_addr_def)

lemma demo_overlay: "overlay_dest demo_client_env (demo_addr 0x0A1A0007) (ip_destination (ce_pnet demo_client_env) demo_ip_packet)
    (demo_node 0x0A1A0007) = Inr (Some (na_ip (demo_addr 0x0A1A0008)))"
  by (simp add: overlay_dest_def na_network_def demo_client_env_def demo_inbound_env_def client_env.defs demo_pnet_fields
    demo_addr_def demo_lan_def ok_or_def)

lemma demo_slots: "slot_new (nd_fec_encoder (demo_node 0x0A1A0007)) x y (nd_fec_decoder (demo_node 0x0A1A0008))"
  by (simp add: slot_new_def demo_node_def AppState.defs FecEncoder_new_def batch_wf_def next_slot_def FecDecoder_new_def)

lemma demo_conf: "cc_crypto demo_inbound_conf = cc_crypto demo_client_conf" "cc_compression demo_inbound_conf \<noteq> None"
  "ci_tun demo_inbound_conf = InTun []" "ce_al demo_inbound_env = (\<lambda>n. n)"
  by (simp_all add: demo_inbound_conf_def client_conf.defs demo_client_conf_def demo_inbound_env_def)

lemma demo_takes: "seal_total (ce_seal demo_client_env)" "ipv4_new (ce_pnet demo_client_env) demo_ip_packet"
  "takes demo_client_env (ToServer 1 f)"
  by (simp_all add: seal_total_def demo_client_env_def demo_inbound_env_def client_env.defs demo_seal_def demo_pnet_fields)

lemma demo_deliver:
  "deliver demo_inbound_env demo_inbound_conf (demo_addr 0x0A1A0008) Turn src demo_ip_packet = (Inr (), [ToTun demo_ip_packet])"
  by (rule deliver_to_tun [where n = demo_lan and allowed = "[]"])
    (simp_all add: demo_inbound_conf_def client_conf.defs na_network_def demo_inbound_env_def ok_or_def demo_pnet_fields
      demo_lan_def, simp_all add: demo_ip_packet_def)

theorem tunnel_transparent_witness:
  "\<exists>frame nd1' nd2'. ipv4_outbound demo_client_env demo_client_conf 5 (demo_addr 0x0A1A0007) demo_data (demo_node 0x0A1A0007)
      = (Inr (), [ToServer 1 frame], nd1') \<and>
    server_handle demo_inbound_env demo_inbound_conf [1] [] [] 7 9 1 (demo_addr 0x0A1A0008)
      (tb_from_slice (\<lambda>n. n) (decr_ttl frame)) (demo_node 0x0A1A0008) = (Inr (), [ToTun demo_ip_packet], nd2')"
proof -
  let ?D = "deliver demo_inbound_env demo_inbound_conf (demo_addr 0x0A1A0008) Turn (na_ip (demo_addr 0x0A1A0007)) demo_ip_packet"
  have n: "as_network (demo_node 0x0A1A0008) = Some (demo_addr 0x0A1A0008)" "na_ip (demo_addr a) = a" for a
    by (simp_all add: demo_node_def AppState.defs demo_addr_def)
  have D: "?D = (Inr (), [ToTun demo_ip_packet])" by (rule demo_deliver)
  have w: "na_ip (demo_addr 0x0A1A0007) \<noteq> na_ip (demo_addr 0x0A1A0008)" by (simp add: n(2))
  note T = tunnel_transparent [where mk = "ToServer 1" and now = 5 and sids = "[1]" and ips = "[]" and order = "[]" and inst = 7
      and wall = 9 and sid = 1 and k = 0, OF demo_env_ok(1,2) demo_takes(1) demo_env_ok(3) demo_conf(1) impI [OF demo_conf(2)]
      demo_codec demo_takes(2) demo_overlay demo_way' demo_takes(3) n(1) w demo_slots]
  obtain frame nd1' where "ipv4_outbound demo_client_env demo_client_conf 5 (demo_addr 0x0A1A0007) demo_data (demo_node 0x0A1A0007)
      = (Inr (), [ToServer 1 frame], nd1')"
    and "\<And>n r. tb_ok r \<Longrightarrow> tb_view r = (decr_ttl ^^ n) frame \<Longrightarrow> \<exists>nd2'. server_handle demo_inbound_env demo_inbound_conf [1] [] [] 7 9 1
      (demo_addr 0x0A1A0008) r (demo_node 0x0A1A0008) = (fst ?D, snd ?D, nd2')"
    using T by metis
  moreover have "tb_ok (tb_from_slice (\<lambda>n. n) (decr_ttl frame))" "tb_view (tb_from_slice (\<lambda>n. n) (decr_ttl frame)) = (decr_ttl ^^ 1) frame"
    by (simp_all add: transmission_simps)
  ultimately show ?thesis using D by (metis fst_conv snd_conv)
qed

end
