(* ===== verification/PeerServer.thy ===== *)
theory PeerServer
  imports Database RegistryProps NetPacket
begin

text \<open>
  Servers as peers, \<open>vnts/src/server/peer_server.rs\<close>: a server tells its peers which clients it has and
  with what latency, keeps for every address the routes over its peers, and forwards packets over the
  best one.

  An \<open>Arc<PeerServerInfo>\<close> is an address of \<open>peer_heap\<close>, so that \<open>Arc::ptr_eq\<close> is equality of addresses and a
  route sees the current latency of its peer. Parameters: \<open>enc\<close> and \<open>dec\<close> are the generated protobuf codec
  of \<open>ServerMessage\<close> (\<open>None\<close> is a decoding error), \<open>sha\<close> and \<open>hx\<close> the crates \<open>sha2\<close> and \<open>hex\<close>, \<open>nets\<close> the
  networks of the provider, \<open>dg\<close> whether the QUIC connection takes a datagram. What a handler sends is the
  list of effects it returns. \<open>u32\<close> sums wrap, as in a release build. Transport set-up (QUIC, TLS, the
  reconnection timer) is not modelled.
\<close>

section \<open>Messages\<close>

type_synonym client_latency = "u32 \<times> u32"

datatype ServerMessage =
    AuthReq string
  | AuthRes bool string
  | PingReq u64
  | PingRes u64 u64
  | ForwardData string bytes
  | ClientInfoReq "string list"
  | ClientInfoRes "(string \<times> client_latency list) list"

datatype effect =
    SendStream nat bytes
  | SendDatagram nat bytes
  | TrySend nat bytes

section \<open>Peers and routes\<close>

definition DEFAULT_CLIENT_LATENCY_MS :: u32 where "DEFAULT_CLIENT_LATENCY_MS = 10"
definition DEFAULT_SERVER_LATENCY_MS :: u32 where "DEFAULT_SERVER_LATENCY_MS = 10"
definition MAX_ROUTES_PER_IP :: nat where "MAX_ROUTES_PER_IP = 5"

record PeerServerInfo =
  pi_addr :: string
  pi_latency_ms :: u32
  pi_sender :: "nat option"
  pi_connection :: "nat option"
  pi_connected :: bool
  pi_is_outbound :: bool

definition PeerServerInfo_new :: "string \<Rightarrow> bool \<Rightarrow> PeerServerInfo" where
  "PeerServerInfo_new addr outbound = \<lparr>pi_addr = addr, pi_latency_ms = DEFAULT_SERVER_LATENCY_MS,
     pi_sender = None, pi_connection = None, pi_connected = False, pi_is_outbound = outbound\<rparr>"

definition set_connected :: "nat \<Rightarrow> nat \<Rightarrow> PeerServerInfo \<Rightarrow> PeerServerInfo" where
  "set_connected sender connection p =
     p\<lparr>pi_sender := Some sender, pi_connection := Some connection, pi_connected := True\<rparr>"

definition set_disconnected :: "PeerServerInfo \<Rightarrow> PeerServerInfo" where
  "set_disconnected p = p\<lparr>pi_sender := None, pi_connection := None, pi_connected := False\<rparr>"

definition update_latency :: "u32 \<Rightarrow> PeerServerInfo \<Rightarrow> PeerServerInfo" where
  "update_latency l p = p\<lparr>pi_latency_ms := l\<rparr>"

definition peer_send :: "bytes \<Rightarrow> PeerServerInfo \<Rightarrow> effect list result" where
  "peer_send data p =
     (case pi_sender p of Some s \<Rightarrow> Inr [SendStream s data] | None \<Rightarrow> Inl (Bail ''Not connected''))"

definition peer_send_datagram :: "(nat \<Rightarrow> bytes \<Rightarrow> bool) \<Rightarrow> bytes \<Rightarrow> PeerServerInfo \<Rightarrow> effect list result" where
  "peer_send_datagram dg data p =
     (case pi_connection p of
        Some c \<Rightarrow> if dg c data then Inr [SendDatagram c data] else Inl IoOther
      | None \<Rightarrow> Inl (Bail ''Not connected''))"

record IpRouteInfo =
  peer_info :: nat
  client_latency_ms :: u32

record PeerServerManager =
  token_hash :: string
  peer_heap :: "nat \<Rightarrow> PeerServerInfo"
  peer_fresh :: nat
  mgr_peers :: "nat list"
  ip_to_routes :: "string \<rightharpoonup> (ipv4 \<rightharpoonup> IpRouteInfo list)"
  outbound_tasks :: "string list"

definition PeerServerManager_new :: "(bytes \<Rightarrow> bytes) \<Rightarrow> (bytes \<Rightarrow> string) \<Rightarrow> string \<Rightarrow> (nat \<Rightarrow> PeerServerInfo)
    \<Rightarrow> PeerServerManager" where
  "PeerServerManager_new sha hx token heap = \<lparr>token_hash = hx (sha (map of_char token)), peer_heap = heap,
     peer_fresh = 0, mgr_peers = [], ip_to_routes = Map.empty, outbound_tasks = []\<rparr>"

definition total_latency :: "(nat \<Rightarrow> PeerServerInfo) \<Rightarrow> IpRouteInfo \<Rightarrow> u32" where
  "total_latency heap r = pi_latency_ms (heap (peer_info r)) + client_latency_ms r + 2"

section \<open>Connections\<close>

text \<open>\<open>handle_peer_connection\<close> from the first frame on: the new peer, or the error and the answer.\<close>

definition add_peer :: "string \<Rightarrow> bool \<Rightarrow> nat \<Rightarrow> nat \<Rightarrow> PeerServerManager \<Rightarrow> nat \<times> PeerServerManager" where
  "add_peer addr outbound tx connection m =
     (let p = peer_fresh m in
      (p, m\<lparr>peer_heap := (peer_heap m)(p := set_connected tx connection (PeerServerInfo_new addr outbound)),
           peer_fresh := p + 1, mgr_peers := mgr_peers m @ [p]\<rparr>))"

definition handle_peer_connection :: "(ServerMessage \<Rightarrow> bytes) \<Rightarrow> (bytes \<Rightarrow> ServerMessage option option) \<Rightarrow> string
    \<Rightarrow> nat \<Rightarrow> nat \<Rightarrow> bytes \<Rightarrow> PeerServerManager \<Rightarrow> nat result \<times> bytes list \<times> PeerServerManager" where
  "handle_peer_connection enc dec addr tx connection first m =
     (case dec first of
        None \<Rightarrow> (Inl InvalidData, [], m)
      | Some msg \<Rightarrow>
          (case msg of
             Some (AuthReq h) \<Rightarrow>
               if h \<noteq> token_hash m then (Inl (Bail ''Invalid token from peer''), [enc (AuthRes False ''Invalid token'')], m)
               else (case add_peer addr False tx connection m of
                       (p, m') \<Rightarrow> (Inr p, [enc (AuthRes True ''OK'')], m'))
           | _ \<Rightarrow> (Inl (Bail ''expected auth request''), [], m)))"

text \<open>\<open>connect_to_peer_once\<close>: the request, and what the answer does.\<close>

definition auth_request :: "(ServerMessage \<Rightarrow> bytes) \<Rightarrow> PeerServerManager \<Rightarrow> bytes" where
  "auth_request enc m = enc (AuthReq (token_hash m))"

definition connect_answered :: "(bytes \<Rightarrow> ServerMessage option option) \<Rightarrow> string \<Rightarrow> nat \<Rightarrow> nat \<Rightarrow> bytes
    \<Rightarrow> PeerServerManager \<Rightarrow> nat result \<times> PeerServerManager" where
  "connect_answered dec addr tx connection answer m =
     (case dec answer of
        None \<Rightarrow> (Inl InvalidData, m)
      | Some msg \<Rightarrow>
          (case msg of
             Some (AuthRes success message) \<Rightarrow>
               if \<not> success then (Inl (Bail ''auth failed''), m)
               else (case add_peer addr True tx connection m of (p, m') \<Rightarrow> (Inr p, m'))
           | _ \<Rightarrow> (Inl (Bail ''expected auth response''), m)))"

section \<open>The client list of a peer\<close>

fun set_existing :: "nat \<Rightarrow> u32 \<Rightarrow> IpRouteInfo list \<Rightarrow> IpRouteInfo list option" where
  "set_existing p l [] = None"
| "set_existing p l (r # rs) =
     (if peer_info r = p then Some (r\<lparr>client_latency_ms := l\<rparr> # rs)
      else map_option ((#) r) (set_existing p l rs))"

definition update_routes :: "(nat \<Rightarrow> PeerServerInfo) \<Rightarrow> nat \<Rightarrow> u32 \<Rightarrow> IpRouteInfo list option \<Rightarrow> IpRouteInfo list" where
  "update_routes heap p l entry =
     (let route = \<lparr>peer_info = p, client_latency_ms = l\<rparr> in
      case entry of
        None \<Rightarrow> [route]
      | Some routes \<Rightarrow>
          take MAX_ROUTES_PER_IP (sort_key (total_latency heap)
            (case set_existing p l routes of Some rs \<Rightarrow> rs | None \<Rightarrow> routes @ [route])))"

fun sync_clients :: "(nat \<Rightarrow> PeerServerInfo) \<Rightarrow> nat \<Rightarrow> client_latency list \<Rightarrow> (ipv4 \<rightharpoonup> IpRouteInfo list)
    \<Rightarrow> (ipv4 \<rightharpoonup> IpRouteInfo list)" where
  "sync_clients heap p [] ips = ips"
| "sync_clients heap p ((ip, l) # cs) ips =
     sync_clients heap p cs (ips(ip \<mapsto> update_routes heap p l (ips ip)))"

text \<open>\<open>retain\<close> with the inner \<open>retain\<close>: the routes over a peer are removed at the addresses \<open>q\<close> selects, and
  addresses without routes are dropped.\<close>

definition retain_routes :: "nat \<Rightarrow> (ipv4 \<Rightarrow> bool) \<Rightarrow> (ipv4 \<rightharpoonup> IpRouteInfo list) \<Rightarrow> (ipv4 \<rightharpoonup> IpRouteInfo list)" where
  "retain_routes p q ips = (\<lambda>ip. case ips ip of
     None \<Rightarrow> None
   | Some routes \<Rightarrow>
       (let routes = if q ip then filter (\<lambda>r. peer_info r \<noteq> p) routes else routes
        in if routes = [] then None else Some routes))"

fun handle_client_info_response :: "nat \<Rightarrow> (string \<times> client_latency list) list \<Rightarrow> string list \<Rightarrow> PeerServerManager
    \<Rightarrow> string list \<times> PeerServerManager" where
  "handle_client_info_response p [] codes m = (codes, m)"
| "handle_client_info_response p ((code, clients) # ns) codes m =
     (let ips = (case ip_to_routes m code of Some ips \<Rightarrow> ips | None \<Rightarrow> Map.empty);
          ips = sync_clients (peer_heap m) p clients ips;
          ips = retain_routes p (\<lambda>ip. ip \<notin> fst ` set clients) ips
      in handle_client_info_response p ns (List.insert code codes)
           (m\<lparr>ip_to_routes := (ip_to_routes m)(code \<mapsto> ips)\<rparr>))"

definition cleanup_routes :: "nat \<Rightarrow> string list \<Rightarrow> PeerServerManager \<Rightarrow> PeerServerManager" where
  "cleanup_routes p codes m =
     m\<lparr>ip_to_routes := (\<lambda>code. if code \<in> set codes
         then map_option (retain_routes p (\<lambda>_. True)) (ip_to_routes m code) else ip_to_routes m code)\<rparr>"

text \<open>The end of \<open>run_peer_communication_loop\<close>.\<close>

definition peer_closed :: "nat \<Rightarrow> string list \<Rightarrow> PeerServerManager \<Rightarrow> PeerServerManager" where
  "peer_closed p codes m =
     (let m = m\<lparr>peer_heap := (peer_heap m)(p := set_disconnected (peer_heap m p))\<rparr>;
          m = cleanup_routes p codes m
      in m\<lparr>mgr_peers := filter (\<lambda>x. x \<noteq> p) (mgr_peers m)\<rparr>)"

section \<open>Requests\<close>

definition pull_client_info_from_peer :: "(ServerMessage \<Rightarrow> bytes) \<Rightarrow> string list \<Rightarrow> nat \<Rightarrow> PeerServerManager
    \<Rightarrow> effect list result" where
  "pull_client_info_from_peer enc codes p m =
     (if codes = [] then Inr [] else peer_send (enc (ClientInfoReq codes)) (peer_heap m p))"

definition ping_peer :: "(ServerMessage \<Rightarrow> bytes) \<Rightarrow> u64 \<Rightarrow> nat \<Rightarrow> PeerServerManager \<Rightarrow> effect list result" where
  "ping_peer enc now p m = peer_send (enc (PingReq now)) (peer_heap m p)"

text \<open>\<open>order\<close> lists the addresses of a network's channels.\<close>

definition client_infos :: "ipv4 list \<Rightarrow> NetworkState \<Rightarrow> client_latency list" where
  "client_infos order st =
     map (\<lambda>ip. (ip, case get_device_entry_by_ip ip st of
                      Some e \<Rightarrow> (case de_latency_ms e of Some l \<Rightarrow> l | None \<Rightarrow> DEFAULT_CLIENT_LATENCY_MS)
                    | None \<Rightarrow> DEFAULT_CLIENT_LATENCY_MS))
       (filter (\<lambda>ip. sender_map st ip \<noteq> None) order)"

definition handle_client_info_request :: "(string \<Rightarrow> ipv4 list) \<Rightarrow> (string \<Rightarrow> NetworkState option) \<Rightarrow> string list
    \<Rightarrow> (string \<times> client_latency list) list" where
  "handle_client_info_request order nets codes =
     map (\<lambda>code. (code, case nets code of Some st \<Rightarrow> client_infos (order code) st | None \<Rightarrow> [])) codes"

definition handle_ping_response :: "u64 \<Rightarrow> nat \<Rightarrow> u64 \<Rightarrow> PeerServerManager \<Rightarrow> PeerServerManager" where
  "handle_ping_response now p request_timestamp m =
     (let rtt = (if request_timestamp \<le> now then now - request_timestamp else 0);
          latency = ucast (rtt div 2) :: u32
      in m\<lparr>peer_heap := (peer_heap m)(p := update_latency latency (peer_heap m p))\<rparr>)"

definition handle_forward_data :: "(string \<Rightarrow> NetworkState option) \<Rightarrow> string \<Rightarrow> bytes \<Rightarrow> effect list" where
  "handle_forward_data nets code data =
     (case nets code of
        None \<Rightarrow> []
      | Some st \<Rightarrow>
          (case NetPacket_new data of
             Inl _ \<Rightarrow> []
           | Inr packet \<Rightarrow>
               (case sender_map st (dest_id packet) of Some s \<Rightarrow> [TrySend s packet] | None \<Rightarrow> [])))"

definition handle_peer_message :: "(ServerMessage \<Rightarrow> bytes) \<Rightarrow> (bytes \<Rightarrow> ServerMessage option option)
    \<Rightarrow> (string \<Rightarrow> ipv4 list) \<Rightarrow> (string \<Rightarrow> NetworkState option) \<Rightarrow> u64 \<Rightarrow> nat \<Rightarrow> bytes \<Rightarrow> string list \<Rightarrow> PeerServerManager
    \<Rightarrow> effect list result \<times> string list \<times> PeerServerManager" where
  "handle_peer_message enc dec order nets now p data codes m =
     (case dec data of
        None \<Rightarrow> (Inl InvalidData, codes, m)
      | Some msg \<Rightarrow>
          (case msg of
             Some (PingReq t) \<Rightarrow> (peer_send (enc (PingRes t now)) (peer_heap m p), codes, m)
           | Some (PingRes t _) \<Rightarrow> (Inr [], codes, handle_ping_response now p t m)
           | Some (ForwardData code d) \<Rightarrow> (Inr (handle_forward_data nets code d), codes, m)
           | Some (ClientInfoReq cs) \<Rightarrow>
               (peer_send (enc (ClientInfoRes (handle_client_info_request order nets cs))) (peer_heap m p), codes, m)
           | Some (ClientInfoRes res) \<Rightarrow>
               (case handle_client_info_response p res codes m of (codes, m) \<Rightarrow> (Inr [], codes, m))
           | _ \<Rightarrow> (Inr [], codes, m)))"

section \<open>Forwarding\<close>

fun scan_routes :: "(nat \<Rightarrow> PeerServerInfo) \<Rightarrow> (nat \<times> u32) option \<Rightarrow> IpRouteInfo list \<Rightarrow> (nat \<times> u32) option" where
  "scan_routes heap best [] = best"
| "scan_routes heap best (r # rs) =
     (if \<not> pi_connected (heap (peer_info r)) then scan_routes heap best rs
      else
        (let lat = total_latency heap r in
         scan_routes heap
           (case best of
              None \<Rightarrow> Some (peer_info r, lat)
            | Some (_, current_best) \<Rightarrow> if lat < current_best then Some (peer_info r, lat) else best) rs))"

definition local_latency :: "(string \<Rightarrow> NetworkState option) \<Rightarrow> string \<Rightarrow> ipv4 \<Rightarrow> u32 option" where
  "local_latency nets code ip =
     (case nets code of
        None \<Rightarrow> None
      | Some st \<Rightarrow> (case get_device_entry_by_ip ip st of None \<Rightarrow> None | Some e \<Rightarrow> de_latency_ms e))"

definition find_best_route :: "(string \<Rightarrow> NetworkState option) \<Rightarrow> string \<Rightarrow> ipv4 \<Rightarrow> PeerServerManager
    \<Rightarrow> (nat \<times> u32 \<times> u32 option) option" where
  "find_best_route nets code ip m =
     (case ip_to_routes m code of
        None \<Rightarrow> None
      | Some ips \<Rightarrow>
          (case ips ip of
             None \<Rightarrow> None
           | Some routes \<Rightarrow>
               (case scan_routes (peer_heap m) None routes of
                  None \<Rightarrow> None
                | Some (p, best) \<Rightarrow> Some (p, best, local_latency nets code ip))))"

definition forward_to_peer :: "(ServerMessage \<Rightarrow> bytes) \<Rightarrow> (nat \<Rightarrow> bytes \<Rightarrow> bool) \<Rightarrow> nat \<Rightarrow> string \<Rightarrow> bytes
    \<Rightarrow> PeerServerManager \<Rightarrow> bool \<times> effect list" where
  "forward_to_peer enc dg p code data m =
     (case peer_send_datagram dg (enc (ForwardData code data)) (peer_heap m p) of
        Inl _ \<Rightarrow> (False, [])
      | Inr effs \<Rightarrow> (True, effs))"

definition forward_with_best_route :: "(ServerMessage \<Rightarrow> bytes) \<Rightarrow> (nat \<Rightarrow> bytes \<Rightarrow> bool)
    \<Rightarrow> (string \<Rightarrow> NetworkState option) \<Rightarrow> string \<Rightarrow> ipv4 \<Rightarrow> bytes \<Rightarrow> PeerServerManager \<Rightarrow> bool \<times> effect list" where
  "forward_with_best_route enc dg nets code ip data m =
     (let local_has_client = (case nets code of Some st \<Rightarrow> sender_map st ip \<noteq> None | None \<Rightarrow> False) in
      case find_best_route nets code ip m of
        None \<Rightarrow> (False, [])
      | Some (p, remote, local) \<Rightarrow>
          (let should_forward =
             (case local of
                Some l \<Rightarrow> remote < l
              | None \<Rightarrow> if local_has_client then remote < DEFAULT_CLIENT_LATENCY_MS else True)
           in if should_forward then forward_to_peer enc dg p code data m else (False, [])))"

section \<open>Administration of peers\<close>

definition load_and_start_outbound_peers :: "bool \<Rightarrow> Db option \<Rightarrow> PeerServerManager \<Rightarrow> unit result \<times> PeerServerManager" where
  "load_and_start_outbound_peers io pool m =
     (case fst (load_all_peer_servers io pool) of
        Inl e \<Rightarrow> (Inl e, m)
      | Inr rs \<Rightarrow> (Inr (), m\<lparr>outbound_tasks := fold (\<lambda>r ts. List.insert (pr_server_addr r) ts) rs (outbound_tasks m)\<rparr>))"

definition add_outbound_peer :: "bool \<Rightarrow> i64 \<Rightarrow> string \<Rightarrow> Db option \<Rightarrow> PeerServerManager
    \<Rightarrow> unit result \<times> Db option \<times> PeerServerManager" where
  "add_outbound_peer io now addr pool m =
     (if addr \<in> set (outbound_tasks m) then (Inl (Bail ''server exists''), pool, m)
      else
        (case save_peer_server io \<lparr>pr_server_addr = addr, pr_source = PeerManual, pr_created_at = now\<rparr> pool of
           (Inl e, pool) \<Rightarrow> (Inl e, pool, m)
         | (Inr _, pool) \<Rightarrow> (Inr (), pool, m\<lparr>outbound_tasks := List.insert addr (outbound_tasks m)\<rparr>)))"

definition remove_outbound_peer :: "bool \<Rightarrow> string \<Rightarrow> Db option \<Rightarrow> PeerServerManager
    \<Rightarrow> unit result \<times> Db option \<times> PeerServerManager" where
  "remove_outbound_peer io addr pool m =
     (let gone = filter (\<lambda>p. pi_addr (peer_heap m p) = addr \<and> pi_is_outbound (peer_heap m p)) (mgr_peers m);
          m = m\<lparr>outbound_tasks := removeAll addr (outbound_tasks m),
                peer_heap := (\<lambda>p. if p \<in> set gone then set_disconnected (peer_heap m p) else peer_heap m p),
                mgr_peers := filter (\<lambda>p. p \<notin> set gone) (mgr_peers m)\<rparr>
      in case delete_peer_server io addr pool of
           (Inl e, pool) \<Rightarrow> (Inl e, pool, m)
         | (Inr _, pool) \<Rightarrow> (Inr (), pool, m))"

definition get_remote_devices :: "(string \<Rightarrow> ipv4 list) \<Rightarrow> string \<Rightarrow> PeerServerManager \<Rightarrow> (ipv4 \<times> string \<times> u32) list" where
  "get_remote_devices order code m =
     (case ip_to_routes m code of
        None \<Rightarrow> []
      | Some ips \<Rightarrow>
          concat (map (\<lambda>ip. case ips ip of
             None \<Rightarrow> []
           | Some routes \<Rightarrow> map (\<lambda>r. (ip, pi_addr (peer_heap m (peer_info r)), total_latency (peer_heap m) r)) routes)
           (order code)))"

end
