(* ===== verification/ServerHandler.thy ===== *)
theory ServerHandler
  imports PeerServer ControlService ControlMessage IpPacket
begin

text \<open>
  One client connection on the server, \<open>vnts/src/server/control_server/handler.rs\<close>: registration and its
  confirmation, packets for the gateway, and forwarding of packets between the clients of a network.

  A handler changes its own session and the control service, and sends; what it sends is the list of effects
  it returns, in order. The channel of the connection is \<open>ch_sender\<close>, \<open>None\<close> when the weak reference cannot be
  upgraded. The parameters are collected in \<open>handler_env\<close>: the generated protobuf code, the accessors of the
  crate \<open>pnet_packet\<close> on IPv4 and ICMP headers, the text of an error, and whether the connection still
  reads its channel. A panic aborts the server in a release build (\<open>panic = 'abort'\<close>).
\<close>

section \<open>Parameters\<close>

record ClientInfo =
  cli_name :: string
  cli_version :: string
  cli_ip :: ipv4
  cli_key_sign :: "string option"
  cli_online :: bool
  cli_last_connected_time :: i64
  cli_id :: string

text \<open>A decoded \<open>RpcMessageRequest\<close> is its id and whether it asks for the client list.\<close>

record handler_env =
  decode_request :: "bytes \<Rightarrow> RequestPayload option option"
  encode_response :: "ResponsePayload option \<Rightarrow> bytes"
  decode_selective :: "bytes \<Rightarrow> ProtoSelectiveBroadcast option"
  encode_simple_list :: "ProtoClientSimpleInfoList \<Rightarrow> bytes"
  decode_rpc :: "bytes \<Rightarrow> (u64 \<times> bool) option"
  encode_rpc :: "u64 \<Rightarrow> ClientInfo list \<Rightarrow> bytes"
  encode_peer :: "ServerMessage \<Rightarrow> bytes"
  takes_datagram :: "nat \<Rightarrow> bytes \<Rightarrow> bool"
  error_text :: "rust_error \<Rightarrow> string"
  server_version :: string
  pnet_packet :: pnet
  alive :: bool

section \<open>The connection\<close>

record ControlHandler =
  ch_sender :: "nat option"
  ch_session :: "Session option"

definition ControlHandler_new :: "nat option \<Rightarrow> ControlHandler" where
  "ControlHandler_new sender = \<lparr>ch_sender = sender, ch_session = None\<rparr>"

text \<open>\<open>sender.send(..).await?\<close>\<close>

definition send_await :: "handler_env \<Rightarrow> nat \<Rightarrow> bytes \<Rightarrow> unit result \<times> effect list" where
  "send_await env s data = (if alive env then (Inr (), [SendStream s data]) else (Inl IoOther, []))"

definition handle_reg :: "handler_env \<Rightarrow> (bytes \<Rightarrow> bytes) \<Rightarrow> (bytes \<Rightarrow> string) \<Rightarrow> bool \<Rightarrow> nat \<Rightarrow> u64 \<Rightarrow> bytes
    \<Rightarrow> ControlHandler \<Rightarrow> ControlService \<Rightarrow> unit result \<times> effect list \<times> ControlHandler \<times> ControlService" where
  "handle_reg env sha hx io now rid buf h cs =
     (if ch_session h \<noteq> None then (Inl (Bail ''Session is already active''), [], h, cs)
      else case RequestMessage_from_slice (decode_request env) buf of
        Inl e \<Rightarrow> (Inl e, [], h, cs)
      | Inr ReqConfirmReg \<Rightarrow> (Inl (Bail ''Expected registration request''), [], h, cs)
      | Inr (ReqReg reg) \<Rightarrow>
          (case ch_sender h of
             None \<Rightarrow> (Inl (Bail ''Sender is already dropped''), [], h, cs)
           | Some sender \<Rightarrow>
               (case register sha hx io now rid sender reg cs of
                  (Inl e, cs) \<Rightarrow>
                    (case send_await env sender
                       (ResponseMessage_encode (encode_response env) (ResError 400 (error_text env e))) of
                       (res, effs) \<Rightarrow> (res, effs, h, cs))
                | (Inr session, cs) \<Rightarrow>
                    (let st = ns_store cs (se_network_state session) in
                     case send_await env sender
                       (ResponseMessage_encode (encode_response env) (ResReg
                          \<lparr>rs_ip = se_ip session, rs_prefix_len = net_prefix_len (ns_net st),
                           rs_gateway = ns_gateway st, rs_server_version = server_version env\<rparr>)) of
                       (res, effs) \<Rightarrow> (res, effs, h\<lparr>ch_session := Some session\<rparr>, cs)))))"

definition handle_confirm_reg :: "handler_env \<Rightarrow> bool \<Rightarrow> ControlHandler \<Rightarrow> ControlService
    \<Rightarrow> unit result \<times> effect list \<times> ControlHandler \<times> ControlService" where
  "handle_confirm_reg env io h cs =
     (case ch_session h of
        None \<Rightarrow> (Inl (Bail ''Session is not active''), [], h, cs)
      | Some session \<Rightarrow>
          (case ch_sender h of
             None \<Rightarrow> (Inl (Bail ''Sender is already dropped''), [], h, cs)
           | Some sender \<Rightarrow>
               if se_status session \<noteq> PendingConfirmation
               then (Inl (Bail ''Session is not in pending confirmation state''), [], h, cs)
               else
                 (case confirm_registration io (se_network_code session) (se_device_id session)
                    (ns_store cs (se_network_state session)) (db_pool cs) of
                    (Inl e, pool) \<Rightarrow>
                      (case send_await env sender
                         (ResponseMessage_encode (encode_response env) (ResError 500 (error_text env e))) of
                         (res, effs) \<Rightarrow> (res, effs, h, cs\<lparr>db_pool := pool\<rparr>))
                  | (Inr _, pool) \<Rightarrow>
                      (case send_await env sender
                         (ResponseMessage_encode (encode_response env) (ResConfirmReg True)) of
                         (res, effs) \<Rightarrow>
                           (res, effs, h\<lparr>ch_session := Some (session\<lparr>se_status := Confirmed\<rparr>)\<rparr>,
                            cs\<lparr>db_pool := pool\<rparr>)))))"

text \<open>The end of a connection drops the handler and with it the session.\<close>

definition handler_dropped :: "nat \<Rightarrow> ControlHandler \<Rightarrow> ControlService \<Rightarrow> ControlService" where
  "handler_dropped now h cs = (case ch_session h of Some se \<Rightarrow> drop_session now se cs | None \<Rightarrow> cs)"

section \<open>Answers of the gateway\<close>

definition rpc_packet :: "bytes \<Rightarrow> bytes result" where
  "rpc_packet response =
     and_then (NetPacket_new (replicate (HEAD_LENGTH + length response) 0)) (\<lambda>p.
       set_payload response (set_ttl 1 (set_gateway_flag True (set_msg_type RpcRes p))))"

definition client_info_list :: "string list \<Rightarrow> ipv4 \<Rightarrow> NetworkState \<Rightarrow> ClientInfo list" where
  "client_info_list order exclude_ip st =
     (let s = lease_state st in
      List.map_filter (\<lambda>k. case device_map s k of
          None \<Rightarrow> None
        | Some e \<Rightarrow>
            (case de_ip e of
               None \<Rightarrow> None
             | Some ip \<Rightarrow>
                 if ip = exclude_ip then None
                 else Some \<lparr>cli_name = de_device_name e, cli_version = de_device_version e, cli_ip = ip,
                   cli_key_sign = de_key_sign e, cli_online = de_is_connected e,
                   cli_last_connected_time = system_time_to_i64 (de_last_connect_time e), cli_id = de_device_id e\<rparr>))
        order)"

definition handle_rpc :: "handler_env \<Rightarrow> string list \<Rightarrow> Session \<Rightarrow> nat \<Rightarrow> bytes \<Rightarrow> ControlService
    \<Rightarrow> unit result \<times> effect list" where
  "handle_rpc env order session sender packet cs =
     (case decode_rpc env (payload packet) of
        None \<Rightarrow> (Inl InvalidData, [])
      | Some (req_id, client_list) \<Rightarrow>
          if \<not> client_list then (Inr (), [])
          else
            (case rpc_packet (encode_rpc env req_id
                    (client_info_list order (se_ip session) (ns_store cs (se_network_state session)))) of
               Inl e \<Rightarrow> (Inl e, [])
             | Inr reply \<Rightarrow> (Inr (), [TrySend sender reply])))"

definition push_client_ips :: "handler_env \<Rightarrow> ClientSimpleInfoList \<Rightarrow> bytes option" where
  "push_client_ips env l =
     (let data = ClientSimpleInfoList_encode (encode_simple_list env) l in
      case NetPacket_new (replicate (HEAD_LENGTH + length data) 0) of
        Inl _ \<Rightarrow> None
      | Inr p \<Rightarrow>
          (case set_payload data (set_gateway_flag True (set_ttl 1 (set_msg_type PushClientIps p))) of
             Inl _ \<Rightarrow> None | Inr reply \<Rightarrow> Some reply))"

text \<open>The answer to a ping of the gateway: \<open>copy_from_slice(&payload[..total_len])\<close> and
  \<open>&mut reply_ip_buf[ip_header_len..]\<close> panic when the lengths of the IP header are out of range.\<close>

definition icmp_reply :: "pnet \<Rightarrow> nat \<Rightarrow> bytes \<Rightarrow> bytes" where
  "icmp_reply pn hl ip =
     (let icmp = set_icmp_code pn 0 (set_icmp_type pn 0 (drop hl ip)) in
      take hl ip @ set_icmp_checksum pn (icmp_checksum pn icmp) icmp)"

definition handle_icmp_ping :: "pnet \<Rightarrow> bytes \<Rightarrow> bytes option result" where
  "handle_icmp_ping pn packet =
     (let ip = payload packet in
      if \<not> ipv4_new pn ip then Inr None
      else if next_level_protocol pn ip \<noteq> 1 then Inr None
      else if \<not> echo_request_new pn (ipv4_payload pn ip) then Inr None
      else if icmp_type pn (ipv4_payload pn ip) \<noteq> 8 then Inr None
      else
        (let hl = unat (header_length pn ip) * 4; tl = unat (total_length pn ip) in
         if length ip < tl then Inl Panic
         else
           (let reply = take tl ip in
            if \<not> ipv4_new pn reply then Inr None
            else
              (let reply = set_destination pn (ip_source pn ip) (set_source pn (ip_destination pn ip) reply);
                   reply = set_ipv4_checksum pn (ipv4_checksum pn reply) reply
               in if tl < hl then Inl Panic
                  else if \<not> icmp_new pn (drop hl reply) then Inr None
                  else
                    (let reply = icmp_reply pn hl reply in
                     case and_then (NetPacket_new (replicate (HEAD_LENGTH + length reply) 0)) (\<lambda>p.
                         set_payload reply (set_seq (seq packet) (set_ttl 1
                           (set_gateway_flag True (set_msg_type Turn p))))) of
                       Inl _ \<Rightarrow> Inr None | Inr b \<Rightarrow> Inr (Some b))))))"

definition pong_latency :: "u64 \<Rightarrow> bytes \<Rightarrow> u32" where
  "pong_latency now p =
     (let request_timestamp = word_of_nat (be_dec p) :: u64;
          rtt = (if request_timestamp \<le> now then now - request_timestamp else 0)
      in ucast (rtt div 2))"

text \<open>The \<open>match\<close> on the message type of a live packet for the gateway.\<close>

fun answer_gateway :: "handler_env \<Rightarrow> string list \<Rightarrow> u64 \<Rightarrow> nat \<Rightarrow> Session \<Rightarrow> MsgType \<Rightarrow> bytes \<Rightarrow> ControlService
    \<Rightarrow> unit result \<times> effect list \<times> ControlService" where
  "answer_gateway env order now sender session Turn packet cs =
     (case handle_icmp_ping (pnet_packet env) packet of
        Inl e \<Rightarrow> (Inl e, [], cs)
      | Inr (Some reply) \<Rightarrow> (Inr (), [TrySend sender reply], cs)
      | Inr None \<Rightarrow> (Inr (), [], cs))"
| "answer_gateway env order now sender session PingTurn packet cs =
     (if length (payload packet) = 8
      then (Inr (), [TrySend sender (set_msg_type PongTurn packet)], cs)
      else if length (payload packet) \<noteq> 16 then (Inr (), [], cs)
      else
        (case changed_client_simple_list order (se_ip session)
            (word_of_nat (be_dec (drop 8 (payload packet)))) (ns_store cs (se_network_state session)) of
           Some l \<Rightarrow>
             (case push_client_ips env (l\<lparr>csl_time := word_of_nat (be_dec (take 8 (payload packet)))\<rparr>) of
                Some reply \<Rightarrow> (Inr (), [TrySend sender reply], cs)
              | None \<Rightarrow> (Inr (), [TrySend sender (set_msg_type PongTurn packet)], cs))
         | None \<Rightarrow> (Inr (), [TrySend sender (set_msg_type PongTurn packet)], cs)))"
| "answer_gateway env order now sender session Pong packet cs =
     (if length (payload packet) = 8
      then (Inr (), [],
        (case network_states cs (se_network_code session) of
           Some a \<Rightarrow> cs\<lparr>ns_store := (ns_store cs)(a := update_client_latency (se_ip session)
              (pong_latency now (payload packet)) (ns_store cs a))\<rparr>
         | None \<Rightarrow> cs))
      else (Inr (), [], cs))"
| "answer_gateway env order now sender session RpcReq packet cs =
     (case handle_rpc env order session sender packet cs of (res, effs) \<Rightarrow> (res, effs, cs))"
| "answer_gateway env order now sender session _ packet cs = (Inr (), [], cs)"

definition handle_gateway :: "handler_env \<Rightarrow> string list \<Rightarrow> u64 \<Rightarrow> bytes \<Rightarrow> ControlHandler \<Rightarrow> ControlService
    \<Rightarrow> unit result \<times> effect list \<times> ControlService" where
  "handle_gateway env order now buf h cs =
     (case ch_session h of
        None \<Rightarrow> (Inl (Bail ''Session is not active''), [], cs)
      | Some session \<Rightarrow>
          (case and_then (NetPacket_new buf) (\<lambda>packet. and_then (msg_type packet) (\<lambda>t.
                  and_then (ok_or (Bail ''Sender is already dropped'') (ch_sender h)) (\<lambda>sender.
                    Inr (packet, t, sender)))) of
             Inl e \<Rightarrow> (Inl e, [], cs)
           | Inr (packet, t, sender) \<Rightarrow>
               if ttl packet = 0 then (Inr (), [], cs)
               else answer_gateway env order now sender session t packet cs))"

section \<open>Forwarding\<close>

text \<open>The server's \<open>decr_ttl\<close> refuses the last hop; the rest of \<open>ip_packet_protocol.rs\<close> is the client's.\<close>

definition server_decr_ttl :: "bytes \<Rightarrow> bytes option" where
  "server_decr_ttl p = (if ttl p \<le> 1 then None else Some (decr_ttl p))"

text \<open>\<open>ips\<close> lists the addresses of the network's channels in the order of the map.\<close>

definition channels :: "ipv4 list \<Rightarrow> (ipv4 \<Rightarrow> bool) \<Rightarrow> NetworkState \<Rightarrow> nat list" where
  "channels ips keep st = List.map_filter (\<lambda>ip. if keep ip then sender_map st ip else None) ips"

definition deliver_local :: "ipv4 \<Rightarrow> bytes \<Rightarrow> NetworkState \<Rightarrow> NetworkState \<times> effect list" where
  "deliver_local dest data st =
     (case sender_map st dest of
        Some sender \<Rightarrow> (record_rx_traffic dest (length data) st, [TrySend sender data])
      | None \<Rightarrow> (st, []))"

definition provider_nets :: "ControlService \<Rightarrow> string \<Rightarrow> NetworkState option" where
  "provider_nets cs code = map_option (ns_store cs) (network_states cs code)"

definition forward_unicast :: "handler_env \<Rightarrow> PeerServerManager option \<Rightarrow> Session \<Rightarrow> bytes \<Rightarrow> ControlService
    \<Rightarrow> effect list \<times> ControlService" where
  "forward_unicast env mgr session packet cs =
     (let dest = dest_id packet; a = se_network_state session in
      case server_decr_ttl packet of
        None \<Rightarrow> ([], cs)
      | Some data \<Rightarrow>
          (let (forwarded, effs) =
             (case mgr of
                Some m \<Rightarrow> forward_with_best_route (encode_peer env) (takes_datagram env) (provider_nets cs)
                            (se_network_code session) dest data m
              | None \<Rightarrow> (False, []))
           in if forwarded then (effs, cs)
              else (case deliver_local dest data (ns_store cs a) of
                      (st, effs') \<Rightarrow> (effs @ effs', cs\<lparr>ns_store := (ns_store cs)(a := st)\<rparr>))))"

definition broadcast :: "ipv4 list \<Rightarrow> Session \<Rightarrow> bytes \<Rightarrow> ControlService \<Rightarrow> effect list" where
  "broadcast ips session packet cs =
     (case server_decr_ttl packet of
        None \<Rightarrow> []
      | Some data \<Rightarrow>
          map (\<lambda>s. TrySend s data)
            (channels ips (\<lambda>ip. ip \<noteq> src_id packet) (ns_store cs (se_network_state session))))"

definition selective_broadcast :: "handler_env \<Rightarrow> bool \<Rightarrow> ipv4 list \<Rightarrow> Session \<Rightarrow> bytes \<Rightarrow> ControlService
    \<Rightarrow> effect list result" where
  "selective_broadcast env target ips session packet cs =
     and_then (SelectiveBroadcast_from_slice (decode_selective env) (payload packet)) (\<lambda>b.
     and_then (NetPacket_new (sb_data b)) (\<lambda>inner.
       case server_decr_ttl inner of
         None \<Rightarrow> Inr []
       | Some data \<Rightarrow>
           Inr (map (\<lambda>s. TrySend s data)
             (channels ips (\<lambda>ip. (ip \<in> set (sb_ips b)) = target \<and> ip \<noteq> src_id packet)
               (ns_store cs (se_network_state session))))))"

definition is_unicast :: "MsgType \<Rightarrow> bool" where
  "is_unicast t \<longleftrightarrow> t = Turn \<or> t = Ping \<or> t = Pong \<or> t = PunchStart1 \<or> t = PunchStart2 \<or> t = Quic"

definition route_packet :: "handler_env \<Rightarrow> PeerServerManager option \<Rightarrow> ipv4 list \<Rightarrow> Session \<Rightarrow> MsgType \<Rightarrow> bytes
    \<Rightarrow> ControlService \<Rightarrow> unit result \<times> effect list \<times> ControlService" where
  "route_packet env mgr ips session t packet cs =
     (if is_unicast t then (case forward_unicast env mgr session packet cs of (effs, cs) \<Rightarrow> (Inr (), effs, cs))
      else if t = Broadcast then (Inr (), broadcast ips session packet cs, cs)
      else if t = ExcludeBroadcast \<or> t = TargetBroadcast
      then (case selective_broadcast env (t = TargetBroadcast) ips session packet cs of
              Inl e \<Rightarrow> (Inl e, [], cs) | Inr effs \<Rightarrow> (Inr (), effs, cs))
      else (Inr (), [], cs))"

definition handle_data :: "handler_env \<Rightarrow> PeerServerManager option \<Rightarrow> bool \<Rightarrow> string list \<Rightarrow> ipv4 list \<Rightarrow> u64 \<Rightarrow> bytes
    \<Rightarrow> ControlHandler \<Rightarrow> ControlService \<Rightarrow> unit result \<times> effect list \<times> ControlHandler \<times> ControlService" where
  "handle_data env mgr io order ips now buf h cs =
     (case ch_session h of
        None \<Rightarrow> (Inl (Bail ''Session is not active''), [], h, cs)
      | Some session \<Rightarrow>
          if se_status session = PendingConfirmation
          then
            (case RequestMessage_from_slice (decode_request env) buf of
               Inr ReqConfirmReg \<Rightarrow> handle_confirm_reg env io h cs
             | _ \<Rightarrow> (Inr (), [], h, cs))
          else
            (case NetPacket_new buf of
               Inl e \<Rightarrow> (Inl e, [], h, cs)
             | Inr packet \<Rightarrow>
                 (case msg_type packet of
                    Inl e \<Rightarrow> (Inl e, [], h, cs)
                  | Inr t \<Rightarrow>
                      if is_gateway packet
                      then (case handle_gateway env order now buf h cs of (res, effs, cs) \<Rightarrow> (res, effs, h, cs))
                      else
                        (let a = se_network_state session;
                             cs = cs\<lparr>ns_store := (ns_store cs)(a :=
                                    record_tx_traffic (src_id packet) (length buf) (ns_store cs a))\<rparr>
                         in case route_packet env mgr ips session t packet cs of
                              (res, effs, cs) \<Rightarrow> (res, effs, h, cs)))))"

end
