(* ===== verification/PeerProps.thy ===== *)
theory PeerProps
  imports PeerServer
begin

text \<open>
  Properties of the peer servers: the route chosen is the fastest one over a connected peer, routes never
  outlive the connection they were learned over, and when a packet is forwarded and when it is lost.
\<close>

section \<open>The route tables\<close>

lemma set_existing_None: "set_existing p l rs = None \<longleftrightarrow> p \<notin> peer_info ` set rs"
  by (induction rs) auto

lemma set_existing_peers: "set_existing p l rs = Some rs' \<Longrightarrow> map peer_info rs' = map peer_info rs"
  by (induction rs arbitrary: rs') (auto split: if_splits)

lemma set_existing_mem:
  "set_existing p l rs = Some rs' \<Longrightarrow> distinct (map peer_info rs) \<Longrightarrow>
   r \<in> set rs' \<longleftrightarrow> (if peer_info r = p then client_latency_ms r = l else r \<in> set rs)"
proof (induction rs arbitrary: rs')
  case (Cons x rs)
  show ?case
  proof (cases "peer_info x = p")
    case True
    then have rs': "rs' = x\<lparr>client_latency_ms := l\<rparr> # rs" using Cons.prems(1) by simp
    have "p \<notin> peer_info ` set rs" using Cons.prems(2) True by auto
    then have "r \<notin> set rs" if "peer_info r = p" using that by blast
    then show ?thesis using True unfolding rs' by (cases "peer_info r = p") (auto intro: IpRouteInfo.equality)
  next
    case False
    then obtain ys where "set_existing p l rs = Some ys" "rs' = x # ys" using Cons.prems(1) by auto
    then show ?thesis using Cons.IH [of ys] Cons.prems(2) False by auto
  qed
qed simp

definition routes_ok :: "IpRouteInfo list \<Rightarrow> bool" where
  "routes_ok rs \<longleftrightarrow> rs \<noteq> [] \<and> distinct (map peer_info rs) \<and> length rs \<le> MAX_ROUTES_PER_IP"

lemma update_routes_ok:
  assumes "\<And>rs. entry = Some rs \<Longrightarrow> routes_ok rs"
  shows "routes_ok (update_routes heap p l entry)"
    "r \<in> set (update_routes heap p l entry) \<Longrightarrow>
       (peer_info r = p \<and> client_latency_ms r = l) \<or> (\<exists>rs. entry = Some rs \<and> r \<in> set rs \<and> peer_info r \<noteq> p)"
proof -
  define new where "new = \<lparr>peer_info = p, client_latency_ms = l\<rparr>"
  have "routes_ok (update_routes heap p l entry) \<and> (r \<in> set (update_routes heap p l entry) \<longrightarrow>
       (peer_info r = p \<and> client_latency_ms r = l) \<or> (\<exists>rs. entry = Some rs \<and> r \<in> set rs \<and> peer_info r \<noteq> p))"
  proof (cases entry)
    case None
    then show ?thesis by (simp add: update_routes_def routes_ok_def MAX_ROUTES_PER_IP_def)
  next
    case (Some rs)
    define ys where "ys = (case set_existing p l rs of Some ys \<Rightarrow> ys | None \<Rightarrow> rs @ [new])"
    have ok: "distinct (map peer_info rs)" using assms [OF Some] by (simp add: routes_ok_def)
    have u: "update_routes heap p l entry = take MAX_ROUTES_PER_IP (sort_key (total_latency heap) ys)"
      unfolding update_routes_def ys_def new_def Let_def using Some by simp
    have d: "distinct (map peer_info ys) \<and> ys \<noteq> []"
      using ok assms [OF Some] set_existing_None [of p l rs] set_existing_peers [of p l rs]
      by (auto simp: ys_def new_def routes_ok_def split: option.splits)
    then have "distinct (map peer_info (sort_key (total_latency heap) ys))" by (simp add: distinct_map)
    then have "distinct (map peer_info (update_routes heap p l entry))" unfolding u by (simp flip: take_map)
    moreover have "update_routes heap p l entry \<noteq> []"
      using d unfolding u by (simp add: MAX_ROUTES_PER_IP_def) (metis length_0_conv length_sort)
    moreover have "(peer_info r = p \<and> client_latency_ms r = l) \<or> (r \<in> set rs \<and> peer_info r \<noteq> p)"
      if "r \<in> set (update_routes heap p l entry)"
    proof -
      have "r \<in> set ys" using that unfolding u by (auto dest: in_set_takeD)
      then show ?thesis
        using set_existing_mem [OF _ ok, of p l _ r] set_existing_None [of p l rs]
        by (auto simp: ys_def new_def split: option.splits if_splits)
    qed
    moreover have "length (update_routes heap p l entry) \<le> MAX_ROUTES_PER_IP" unfolding u by simp
    ultimately show ?thesis using Some by (auto simp: routes_ok_def)
  qed
  then show "routes_ok (update_routes heap p l entry)"
    "r \<in> set (update_routes heap p l entry) \<Longrightarrow>
       (peer_info r = p \<and> client_latency_ms r = l) \<or> (\<exists>rs. entry = Some rs \<and> r \<in> set rs \<and> peer_info r \<noteq> p)" by blast+
qed

text \<open>All routes of a network.\<close>

definition ips_ok :: "(ipv4 \<rightharpoonup> IpRouteInfo list) \<Rightarrow> bool" where
  "ips_ok ips \<longleftrightarrow> (\<forall>ip rs. ips ip = Some rs \<longrightarrow> routes_ok rs)"

definition route_at :: "(ipv4 \<rightharpoonup> IpRouteInfo list) \<Rightarrow> ipv4 \<Rightarrow> IpRouteInfo \<Rightarrow> bool" where
  "route_at ips ip r \<longleftrightarrow> (\<exists>rs. ips ip = Some rs \<and> r \<in> set rs)"

lemma sync_clients_ok: "ips_ok ips \<Longrightarrow> ips_ok (sync_clients heap p cs ips)"
proof (induction cs arbitrary: ips)
  case (Cons c cs)
  obtain ip l where c: "c = (ip, l)" by (cases c)
  have "ips_ok (ips(ip \<mapsto> update_routes heap p l (ips ip)))"
    using Cons.prems update_routes_ok(1) [of "ips ip"] by (auto simp: ips_ok_def)
  then show ?case using Cons.IH c by simp
qed simp

lemma sync_clients_routes:
  "ips_ok ips \<Longrightarrow> route_at (sync_clients heap p cs ips) ip r \<Longrightarrow>
   (peer_info r = p \<and> (ip \<in> fst ` set cs \<longrightarrow> (ip, client_latency_ms r) \<in> set cs) \<and>
      (ip \<notin> fst ` set cs \<longrightarrow> route_at ips ip r)) \<or> (peer_info r \<noteq> p \<and> route_at ips ip r)"
proof (induction cs arbitrary: ips)
  case (Cons c cs)
  obtain i l where c: "c = (i, l)" by (cases c)
  define ips1 where "ips1 = ips(i \<mapsto> update_routes heap p l (ips i))"
  have ok: "ips_ok ips1"
    using Cons.prems(1) update_routes_ok(1) [of "ips i"] by (auto simp: ips_ok_def ips1_def)
  have new: "(peer_info r = p \<and> (ip = i \<longrightarrow> client_latency_ms r = l) \<and> (ip \<noteq> i \<longrightarrow> route_at ips ip r)) \<or>
      (peer_info r \<noteq> p \<and> route_at ips ip r)" if "route_at ips1 ip r"
    using that update_routes_ok(2) [of "ips i" r heap p l] Cons.prems(1)
    by (auto simp: route_at_def ips_ok_def ips1_def split: if_splits)
  have "route_at (sync_clients heap p cs ips1) ip r" using Cons.prems(2) c by (simp add: ips1_def)
  from Cons.IH [OF ok this] new show ?case using c by auto
qed simp

lemma retain_routes_Some:
  "retain_routes p q ips ip = Some rs \<longleftrightarrow>
    (\<exists>rs0. ips ip = Some rs0 \<and> rs = (if q ip then filter (\<lambda>r. peer_info r \<noteq> p) rs0 else rs0) \<and> rs \<noteq> [])"
  by (auto simp: retain_routes_def Let_def split: option.splits)

lemma retain_routes_ok: "ips_ok ips \<Longrightarrow> ips_ok (retain_routes p q ips)"
  by (auto simp: ips_ok_def retain_routes_Some routes_ok_def distinct_map_filter
      intro: le_trans [OF length_filter_le])

lemma retain_routes_at [simp]:
  "route_at (retain_routes p q ips) ip r \<longleftrightarrow> route_at ips ip r \<and> (q ip \<longrightarrow> peer_info r \<noteq> p)"
  by (cases "ips ip") (auto simp: route_at_def retain_routes_def Let_def filter_empty_conv)

section \<open>Routes and connections\<close>

definition has_route :: "PeerServerManager \<Rightarrow> string \<Rightarrow> ipv4 \<Rightarrow> IpRouteInfo \<Rightarrow> bool" where
  "has_route m code ip r \<longleftrightarrow> (\<exists>ips. ip_to_routes m code = Some ips \<and> route_at ips ip r)"

definition tables_ok :: "PeerServerManager \<Rightarrow> bool" where
  "tables_ok m \<longleftrightarrow> (\<forall>code ips. ip_to_routes m code = Some ips \<longrightarrow> ips_ok ips)"

lemma response_heap [simp]:
  "peer_heap (snd (handle_client_info_response p ns codes m)) = peer_heap m"
  "mgr_peers (snd (handle_client_info_response p ns codes m)) = mgr_peers m"
  "peer_fresh (snd (handle_client_info_response p ns codes m)) = peer_fresh m"
  by (induction p ns codes m rule: handle_client_info_response.induct) (simp_all add: Let_def)

lemma response_codes:
  "set (fst (handle_client_info_response p ns codes m)) = set codes \<union> fst ` set ns"
  by (induction p ns codes m rule: handle_client_info_response.induct) (auto simp: Let_def)

lemma response_ok: "tables_ok m \<Longrightarrow> tables_ok (snd (handle_client_info_response p ns codes m))"
proof (induction p ns codes m rule: handle_client_info_response.induct)
  case (2 p code clients ns codes m)
  define ips where "ips = (case ip_to_routes m code of Some ips \<Rightarrow> ips | None \<Rightarrow> Map.empty)"
  have "ips_ok ips" using 2(2) by (auto simp: ips_def tables_ok_def ips_ok_def split: option.split)
  then have "tables_ok (m\<lparr>ip_to_routes := (ip_to_routes m)(code \<mapsto>
      retain_routes p (\<lambda>ip. ip \<notin> fst ` set clients) (sync_clients (peer_heap m) p clients ips))\<rparr>)"
    using 2(2) by (auto simp: tables_ok_def intro: retain_routes_ok sync_clients_ok)
  then show ?case using 2(1) [OF ips_def refl refl] by (simp add: Let_def flip: ips_def)
qed simp

text \<open>A client list changes routes over its sender only (and drops, of the others, those beyond the limit);
  its sender's routes in a listed network are for the listed addresses.\<close>

lemma response_routes:
  "tables_ok m \<Longrightarrow> has_route (snd (handle_client_info_response p ns codes m)) code ip r \<Longrightarrow>
   (peer_info r \<noteq> p \<and> has_route m code ip r) \<or>
   (peer_info r = p \<and> code \<notin> fst ` set ns \<and> has_route m code ip r) \<or>
   (peer_info r = p \<and> (\<exists>clients. (code, clients) \<in> set ns \<and> (ip, client_latency_ms r) \<in> set clients))"
proof (induction p ns codes m rule: handle_client_info_response.induct)
  case (2 p c clients ns codes m)
  define ips where "ips = (case ip_to_routes m c of Some ips \<Rightarrow> ips | None \<Rightarrow> Map.empty)"
  let ?m = "m\<lparr>ip_to_routes := (ip_to_routes m)(c \<mapsto>
      retain_routes p (\<lambda>ip. ip \<notin> fst ` set clients) (sync_clients (peer_heap m) p clients ips))\<rparr>"
  have ok: "ips_ok ips" using 2(2) by (auto simp: ips_def tables_ok_def ips_ok_def split: option.split)
  have tok: "tables_ok ?m"
    using 2(2) ok by (auto simp: tables_ok_def intro: retain_routes_ok sync_clients_ok)
  have at: "has_route m c ip r" if "route_at ips ip r"
    using that by (auto simp: ips_def has_route_def route_at_def split: option.splits)
  have step: "(peer_info r \<noteq> p \<and> has_route m code ip r) \<or> (peer_info r = p \<and> code \<noteq> c \<and> has_route m code ip r) \<or>
      (peer_info r = p \<and> code = c \<and> (ip, client_latency_ms r) \<in> set clients)" if h: "has_route ?m code ip r"
  proof (cases "code = c")
    case True
    then have "route_at (sync_clients (peer_heap m) p clients ips) ip r" "ip \<notin> fst ` set clients \<longrightarrow> peer_info r \<noteq> p"
      using h by (auto simp: has_route_def)
    then show ?thesis using sync_clients_routes [OF ok, of "peer_heap m" p clients ip r] at True by auto
  next
    case False
    then show ?thesis using h by (auto simp: has_route_def)
  qed
  have "has_route (snd (handle_client_info_response p ns (List.insert c codes) ?m)) code ip r"
    using 2(3) by (simp add: Let_def flip: ips_def)
  from 2(1) [OF ips_def refl refl tok this] step show ?case by auto
qed simp

text \<open>The life of a manager: connections in both directions, frames of open connections, and their ends.\<close>

datatype peer_event =
    Accepted string nat nat bytes
  | Dialed string nat nat bytes
  | Received "string \<Rightarrow> ipv4 list" "string \<Rightarrow> NetworkState option" u64 nat bytes
  | Closed nat

record PeerLife =
  manager :: PeerServerManager
  codes_of :: "nat \<Rightarrow> string list"
  opened :: "nat list"

fun peer_step :: "(ServerMessage \<Rightarrow> bytes) \<Rightarrow> (bytes \<Rightarrow> ServerMessage option option) \<Rightarrow> peer_event \<Rightarrow> PeerLife \<Rightarrow> PeerLife" where
  "peer_step enc dec (Accepted addr tx conn first) x =
     (case handle_peer_connection enc dec addr tx conn first (manager x) of
        (Inr p, _, m) \<Rightarrow> \<lparr>manager = m, codes_of = (codes_of x)(p := []), opened = p # opened x\<rparr>
      | (Inl _, _, m) \<Rightarrow> x\<lparr>manager := m\<rparr>)"
| "peer_step enc dec (Dialed addr tx conn answer) x =
     (case connect_answered dec addr tx conn answer (manager x) of
        (Inr p, m) \<Rightarrow> \<lparr>manager = m, codes_of = (codes_of x)(p := []), opened = p # opened x\<rparr>
      | (Inl _, m) \<Rightarrow> x\<lparr>manager := m\<rparr>)"
| "peer_step enc dec (Received order nets now p data) x =
     (if p \<in> set (opened x)
      then (case handle_peer_message enc dec order nets now p data (codes_of x p) (manager x) of
              (_, codes, m) \<Rightarrow> x\<lparr>manager := m, codes_of := (codes_of x)(p := codes)\<rparr>)
      else x)"
| "peer_step enc dec (Closed p) x =
     (if p \<in> set (opened x)
      then x\<lparr>manager := peer_closed p (codes_of x p) (manager x), opened := removeAll p (opened x)\<rparr>
      else x)"

definition life_ok :: "PeerLife \<Rightarrow> bool" where
  "life_ok x \<longleftrightarrow> tables_ok (manager x) \<and>
     (\<forall>p \<in> set (opened x). p < peer_fresh (manager x) \<and> pi_connected (peer_heap (manager x) p) \<and>
        pi_connection (peer_heap (manager x) p) \<noteq> None \<and> pi_sender (peer_heap (manager x) p) \<noteq> None) \<and>
     (\<forall>code ip r. has_route (manager x) code ip r \<longrightarrow>
        peer_info r \<in> set (opened x) \<and> code \<in> set (codes_of x (peer_info r)))"

lemma add_peer_life:
  assumes "life_ok x" "add_peer addr outbound tx conn (manager x) = (p, m)"
  shows "life_ok \<lparr>manager = m, codes_of = (codes_of x)(p := []), opened = p # opened x\<rparr>"
proof -
  have m: "m = (manager x)\<lparr>peer_heap := (peer_heap (manager x))(p := set_connected tx conn (PeerServerInfo_new addr outbound)),
      peer_fresh := p + 1, mgr_peers := mgr_peers (manager x) @ [p]\<rparr>" and p: "p = peer_fresh (manager x)"
    using assms(2) by (auto simp: add_peer_def Let_def)
  have routes: "has_route m code ip r = has_route (manager x) code ip r" for code ip r by (simp add: m has_route_def)
  have old: "q \<noteq> p" if "q \<in> set (opened x)" for q using assms(1) that p by (auto simp: life_ok_def)
  show ?thesis
    using assms(1) old unfolding life_ok_def
    by (auto simp: routes, auto simp: m tables_ok_def set_connected_def p)
qed

lemma message_life:
  assumes "life_ok x" "p \<in> set (opened x)"
    and "handle_peer_message enc dec order nets now p data (codes_of x p) (manager x) = (res, codes, m)"
  shows "life_ok (x\<lparr>manager := m, codes_of := (codes_of x)(p := codes)\<rparr>)"
proof -
  let ?m = "manager x"
  consider ns where "handle_client_info_response p ns (codes_of x p) ?m = (codes, m)"
    | t where "codes = codes_of x p" "m = handle_ping_response now p t ?m"
    | "codes = codes_of x p" "m = ?m"
    using assms(3) by (auto simp: handle_peer_message_def split: option.splits ServerMessage.splits prod.splits)
  then show ?thesis
  proof cases
    case 1
    then have c: "set codes = set (codes_of x p) \<union> fst ` set ns" and m: "m = snd (handle_client_info_response p ns (codes_of x p) ?m)"
      using response_codes [of p ns "codes_of x p" ?m] by simp_all
    have "peer_info r \<in> set (opened x) \<and> code \<in> set (((codes_of x)(p := codes)) (peer_info r))"
      if "has_route m code ip r" for code ip r
      using response_routes [of ?m p ns "codes_of x p" code ip r] that assms(1,2) c unfolding m life_ok_def
      by (auto simp: rev_image_eqI)
    then show ?thesis
      using assms(1) response_ok [of ?m p ns "codes_of x p"] unfolding life_ok_def m by simp
  next
    case 2
    then show ?thesis using assms(1)
      by (auto simp: life_ok_def handle_ping_response_def tables_ok_def has_route_def update_latency_def Let_def)
  next
    case 3
    then show ?thesis using assms(1) by simp
  qed
qed

lemma cleanup_has_route:
  "has_route (cleanup_routes p codes m) code ip r \<longleftrightarrow> has_route m code ip r \<and> \<not> (code \<in> set codes \<and> peer_info r = p)"
  by (auto simp: has_route_def cleanup_routes_def)

lemma closed_life:
  assumes "life_ok x" "p \<in> set (opened x)"
  shows "life_ok (x\<lparr>manager := peer_closed p (codes_of x p) (manager x), opened := removeAll p (opened x)\<rparr>)"
proof -
  let ?m = "(manager x)\<lparr>peer_heap := (peer_heap (manager x))(p := set_disconnected (peer_heap (manager x) p))\<rparr>"
  let ?c = "peer_closed p (codes_of x p) (manager x)"
  have route: "has_route ?c code ip r \<longleftrightarrow>
      has_route (manager x) code ip r \<and> \<not> (code \<in> set (codes_of x p) \<and> peer_info r = p)" for code ip r
    using cleanup_has_route [of p "codes_of x p" ?m code ip r]
    by (simp add: peer_closed_def Let_def has_route_def)
  have "tables_ok ?c"
    using assms(1) by (auto simp: life_ok_def tables_ok_def peer_closed_def cleanup_routes_def Let_def
      split: if_splits intro: retain_routes_ok)
  then show ?thesis
    using assms unfolding life_ok_def
    by (auto simp: route, auto simp: peer_closed_def cleanup_routes_def Let_def)
qed

lemma peer_step_life: "life_ok x \<Longrightarrow> life_ok (peer_step enc dec ev x)"
proof (cases ev)
  case (Accepted addr tx conn first)
  assume "life_ok x"
  then show ?thesis using Accepted add_peer_life [of x addr False tx conn]
    by (auto simp: handle_peer_connection_def split: option.splits ServerMessage.splits prod.splits)
next
  case (Dialed addr tx conn answer)
  assume "life_ok x"
  then show ?thesis using Dialed add_peer_life [of x addr True tx conn]
    by (auto simp: connect_answered_def split: option.splits ServerMessage.splits prod.splits)
next
  case (Received order nets now p data)
  assume "life_ok x"
  then show ?thesis using Received message_life by (simp split: prod.split)
next
  case (Closed p)
  assume "life_ok x"
  then show ?thesis using Closed closed_life by simp
qed

definition life_start :: "PeerServerManager \<Rightarrow> PeerLife" where
  "life_start m = \<lparr>manager = m, codes_of = (\<lambda>_. []), opened = []\<rparr>"

lemma life_run_ok:
  "life_ok (fold (peer_step enc dec) evs (life_start (PeerServerManager_new sha hx token heap)))"
proof -
  have start: "life_ok (life_start (PeerServerManager_new sha hx token heap))"
    by (simp add: life_ok_def life_start_def PeerServerManager_new_def tables_ok_def has_route_def)
  have "life_ok (fold (peer_step enc dec) evs x)" if "life_ok x" for x
    using that by (induction evs arbitrary: x) (simp_all add: peer_step_life)
  then show ?thesis using start .
qed


text \<open>A concrete peer: it authenticates, lists two clients, one of them twice, and lists one of them later.\<close>

definition demo_dec :: "bytes \<Rightarrow> ServerMessage option option" where
  "demo_dec d =
     (if d = [1] then Some (Some (AuthReq ''h''))
      else if d = [2] then Some (Some (ClientInfoRes [(''n'', [(5, 3), (6, 4), (5, 1)])]))
      else if d = [3] then Some (Some (ClientInfoRes [(''n'', [(5, 2)])]))
      else None)"

definition demo_life :: "peer_event list \<Rightarrow> PeerLife" where
  "demo_life evs = fold (peer_step (\<lambda>_. []) demo_dec) evs
     (life_start (PeerServerManager_new (\<lambda>b. b) (\<lambda>_. ''h'') ''t'' (\<lambda>_. PeerServerInfo_new [] False)))"

lemma demo_life_run:
  "ip_to_routes (manager (demo_life [Accepted ''p'' 8 9 [1], Received (\<lambda>_. []) (\<lambda>_. None) 0 0 [2]])) ''n'' =
     Some [5 \<mapsto> [\<lparr>peer_info = 0, client_latency_ms = 1\<rparr>], 6 \<mapsto> [\<lparr>peer_info = 0, client_latency_ms = 4\<rparr>]]"
  "pi_connected (peer_heap (manager (demo_life [Accepted ''p'' 8 9 [1], Received (\<lambda>_. []) (\<lambda>_. None) 0 0 [2]])) 0)"
  "pi_connection (peer_heap (manager (demo_life [Accepted ''p'' 8 9 [1], Received (\<lambda>_. []) (\<lambda>_. None) 0 0 [2]])) 0) = Some 9"
  "pi_latency_ms (peer_heap (manager (demo_life [Accepted ''p'' 8 9 [1], Received (\<lambda>_. []) (\<lambda>_. None) 0 0 [2]])) 0) = 10"
  by (simp_all add: demo_life_def life_start_def PeerServerManager_new_def handle_peer_connection_def demo_dec_def
    add_peer_def Let_def handle_peer_message_def update_routes_def retain_routes_def set_connected_def
    PeerServerInfo_new_def MAX_ROUTES_PER_IP_def DEFAULT_SERVER_LATENCY_MS_def fun_eq_iff)


section \<open>The best route\<close>

lemma scan_routes_spec:
  "scan_routes heap best rs = (let cs = filter (\<lambda>r. pi_connected (heap (peer_info r))) rs in
     case cs of [] \<Rightarrow> best | _ \<Rightarrow> scan_routes heap best cs)"
proof -
  have "scan_routes heap best rs = scan_routes heap best (filter (\<lambda>r. pi_connected (heap (peer_info r))) rs)" for best
    by (induction rs arbitrary: best) (auto simp: Let_def)
  then show ?thesis by (auto simp: Let_def split: list.split)
qed

lemma scan_routes_best:
  "scan_routes heap best rs = res \<Longrightarrow>
   (res = best \<or> (\<exists>r \<in> set rs. pi_connected (heap (peer_info r)) \<and> res = Some (peer_info r, total_latency heap r))) \<and>
   (\<forall>q b. best = Some (q, b) \<longrightarrow> (\<exists>p t. res = Some (p, t) \<and> t \<le> b)) \<and>
   (\<forall>r \<in> set rs. pi_connected (heap (peer_info r)) \<longrightarrow> (\<exists>p t. res = Some (p, t) \<and> t \<le> total_latency heap r))"
proof (induction rs arbitrary: best)
  case (Cons r rs)
  show ?case
  proof (cases "pi_connected (heap (peer_info r))")
    case False
    then show ?thesis using Cons.IH [of best] Cons.prems by auto
  next
    case True
    define best' where "best' = (case best of None \<Rightarrow> Some (peer_info r, total_latency heap r)
      | Some (_, b) \<Rightarrow> if total_latency heap r < b then Some (peer_info r, total_latency heap r) else best)"
    have "scan_routes heap best' rs = res" using Cons.prems True by (simp add: best'_def Let_def)
    note ih = Cons.IH [OF this]
    obtain q b where b: "best' = Some (q, b)" "b \<le> total_latency heap r" "best' = best \<or> best' = Some (peer_info r, total_latency heap r)"
      "\<And>q' b'. best = Some (q', b') \<Longrightarrow> b \<le> b'"
    proof (cases best)
      case None
      then show ?thesis using that [of "peer_info r" "total_latency heap r"] by (simp add: best'_def)
    next
      case (Some pb)
      obtain q b where pb: "pb = (q, b)" by (cases pb)
      show ?thesis
      proof (cases "total_latency heap r < b")
        case True
        then show ?thesis using that [of "peer_info r" "total_latency heap r"] Some pb by (simp add: best'_def less_imp_le)
      next
        case False
        then show ?thesis using that [of q b] Some pb leI [OF False] by (simp add: best'_def)
      qed
    qed
    obtain p t where t: "res = Some (p, t)" "t \<le> b" using ih b(1) by blast
    show ?thesis using ih True b(2-4) t by (auto intro: order_trans)
  qed
qed simp

lemma best_route_spec:
  "case find_best_route nets code ip m of
     None \<Rightarrow> \<not> (\<exists>r. has_route m code ip r \<and> pi_connected (peer_heap m (peer_info r)))
   | Some (p, t, l) \<Rightarrow> l = local_latency nets code ip \<and>
       (\<exists>r. has_route m code ip r \<and> pi_connected (peer_heap m (peer_info r)) \<and> p = peer_info r \<and>
          t = total_latency (peer_heap m) r) \<and>
       (\<forall>r. has_route m code ip r \<longrightarrow> pi_connected (peer_heap m (peer_info r)) \<longrightarrow> t \<le> total_latency (peer_heap m) r)"
proof (cases "\<exists>ips routes. ip_to_routes m code = Some ips \<and> ips ip = Some routes")
  case True
  then obtain ips routes where r: "ip_to_routes m code = Some ips" "ips ip = Some routes" by blast
  have route: "has_route m code ip x \<longleftrightarrow> x \<in> set routes" for x by (simp add: has_route_def route_at_def r)
  note spec = scan_routes_best [of "peer_heap m" None routes "scan_routes (peer_heap m) None routes", OF refl]
  show ?thesis
  proof (cases "scan_routes (peer_heap m) None routes")
    case None
    then show ?thesis using spec by (simp add: find_best_route_def r route)
  next
    case (Some pt)
    obtain p t where "pt = (p, t)" by (cases pt)
    then show ?thesis using spec Some by (auto simp: find_best_route_def r route)
  qed
next
  case False
  then have "find_best_route nets code ip m = None" "\<not> has_route m code ip r" for r
    by (auto simp: find_best_route_def has_route_def route_at_def split: option.splits)
  then show ?thesis by simp
qed

text \<open>C40 The best route: \<open>find_best_route\<close> answers exactly when the address is known over a connected peer, and
  the answer is a connected peer with a route to the address whose total latency is the least of all such
  routes, whatever order the list is in.\<close>

theorem best_route_fastest:
  "case find_best_route nets code ip m of
     None \<Rightarrow> \<not> (\<exists>r. has_route m code ip r \<and> pi_connected (peer_heap m (peer_info r)))
   | Some (p, t, l) \<Rightarrow> l = local_latency nets code ip \<and>
       (\<exists>r. has_route m code ip r \<and> pi_connected (peer_heap m (peer_info r)) \<and> p = peer_info r \<and>
          t = total_latency (peer_heap m) r) \<and>
       (\<forall>r. has_route m code ip r \<longrightarrow> pi_connected (peer_heap m (peer_info r)) \<longrightarrow> t \<le> total_latency (peer_heap m) r)"
  by (rule best_route_spec)

abbreviation demo_manager :: PeerServerManager where
  "demo_manager \<equiv> manager (demo_life [Accepted ''p'' 8 9 [1], Received (\<lambda>_. []) (\<lambda>_. None) 0 0 [2]])"

lemma demo_best: "find_best_route (\<lambda>_. None) ''n'' 5 demo_manager = Some (0, 13, None)"
  by (simp add: find_best_route_def demo_life_run total_latency_def local_latency_def)

theorem best_route_fastest_witness:
  "\<exists>r. has_route demo_manager ''n'' 5 r \<and> pi_connected (peer_heap demo_manager (peer_info r)) \<and>
    13 = total_latency (peer_heap demo_manager) r"
  using best_route_fastest [where nets = "\<lambda>_. None" and code = "''n''" and ip = 5 and m = demo_manager]
  unfolding demo_best by auto

section \<open>Forwarding\<close>

lemma forward_cases:
  "forward_with_best_route enc dg nets code ip data m = (ok, effs) \<Longrightarrow>
   (ok \<and> (\<exists>p t l c. find_best_route nets code ip m = Some (p, t, l) \<and> pi_connection (peer_heap m p) = Some c \<and>
       effs = [SendDatagram c (enc (ForwardData code data))] \<and>
       (case local_latency nets code ip of Some l \<Rightarrow> t < l
        | None \<Rightarrow> (\<forall>st. nets code = Some st \<longrightarrow> sender_map st ip \<noteq> None \<longrightarrow> t < DEFAULT_CLIENT_LATENCY_MS)))) \<or>
   (\<not> ok \<and> effs = [])"
proof -
  assume f: "forward_with_best_route enc dg nets code ip data m = (ok, effs)"
  show ?thesis
  proof (cases "find_best_route nets code ip m")
    case None
    then show ?thesis using f by (simp add: forward_with_best_route_def)
  next
    case (Some ptl)
    obtain p t l where ptl: "ptl = (p, t, l)" by (cases ptl)
    have l: "l = local_latency nets code ip"
      using Some ptl by (auto simp: find_best_route_def split: option.splits)
    show ?thesis
      using f Some ptl l
      by (auto simp: forward_with_best_route_def forward_to_peer_def peer_send_datagram_def Let_def
        split: option.splits if_splits sum.splits)
  qed
qed

text \<open>A packet is forwarded once or not at all: \<open>forward_with_best_route\<close> either sends exactly one datagram, to
  the connected peer on the fastest known route, and only when that route beats the local path (the known
  latency of the client here, or the default one when it is connected without a measured latency), or it
  sends nothing and reports that, so that the caller's local delivery never duplicates a forwarded packet.\<close>

theorem forward_once:
  assumes "forward_with_best_route enc dg nets code ip data m = (ok, effs)"
  shows "(ok \<longrightarrow> (\<exists>r c. has_route m code ip r \<and> pi_connected (peer_heap m (peer_info r)) \<and>
      pi_connection (peer_heap m (peer_info r)) = Some c \<and> effs = [SendDatagram c (enc (ForwardData code data))] \<and>
      (\<forall>r'. has_route m code ip r' \<longrightarrow> pi_connected (peer_heap m (peer_info r')) \<longrightarrow>
         total_latency (peer_heap m) r \<le> total_latency (peer_heap m) r') \<and>
      (case local_latency nets code ip of Some l \<Rightarrow> total_latency (peer_heap m) r < l
       | None \<Rightarrow> (\<forall>st. nets code = Some st \<longrightarrow> sender_map st ip \<noteq> None \<longrightarrow>
           total_latency (peer_heap m) r < DEFAULT_CLIENT_LATENCY_MS)))) \<and>
    (\<not> ok \<longrightarrow> effs = [])"
proof (cases ok)
  case True
  then obtain p t l c where b: "find_best_route nets code ip m = Some (p, t, l)" "pi_connection (peer_heap m p) = Some c"
      "effs = [SendDatagram c (enc (ForwardData code data))]"
      "case local_latency nets code ip of Some l \<Rightarrow> t < l
        | None \<Rightarrow> (\<forall>st. nets code = Some st \<longrightarrow> sender_map st ip \<noteq> None \<longrightarrow> t < DEFAULT_CLIENT_LATENCY_MS)"
    using forward_cases [OF assms] by blast
  show ?thesis using best_route_spec [where nets = nets and code = code and ip = ip and m = m] b True by auto
next
  case False
  then show ?thesis using forward_cases [OF assms] by blast
qed

theorem forward_once_witness:
  "forward_with_best_route (\<lambda>_. [7]) (\<lambda>_ _. True) (\<lambda>_. None) ''n'' 5 [1, 2] demo_manager = (True, [SendDatagram 9 [7]]) \<and>
    (\<exists>r. has_route demo_manager ''n'' 5 r \<and> pi_connected (peer_heap demo_manager (peer_info r)))"
proof -
  have f: "forward_with_best_route (\<lambda>_. [7]) (\<lambda>_ _. True) (\<lambda>_. None) ''n'' 5 [1, 2] demo_manager = (True, [SendDatagram 9 [7]])"
    by (simp add: forward_with_best_route_def demo_best forward_to_peer_def peer_send_datagram_def demo_life_run)
  then show ?thesis using forward_once [OF f] by blast
qed

text \<open>A stale latency hides a reachable client: the latency of a device is kept when it disconnects, and
  \<open>find_best_route\<close> still reads it. When a client has moved to another server, every packet for it is
  refused by \<open>forward_with_best_route\<close> as long as the remote route is not faster than the client used to be
  here, and there is no local channel either: the packet is lost although a connected peer has the client.\<close>

theorem stale_latency_blackhole:
  assumes "ns_inv st" "nets code = Some st"
    and "device_ip_map (lease_state st) ip = Some k" "device_map (lease_state st) k = Some e"
    and "de_ip e = Some ip" "\<not> de_is_connected e" "de_latency_ms e = Some l"
    and "\<forall>r. has_route m code ip r \<longrightarrow> l \<le> total_latency (peer_heap m) r"
  shows "forward_with_best_route enc dg nets code ip data m = (False, []) \<and> sender_map st ip = None"
proof
  have l: "local_latency nets code ip = Some l"
    using assms(2-4,7) by (simp add: local_latency_def get_device_entry_by_ip_def)
  show "forward_with_best_route enc dg nets code ip data m = (False, [])"
  proof (cases "find_best_route nets code ip m")
    case None
    then show ?thesis by (simp add: forward_with_best_route_def)
  next
    case (Some ptl)
    obtain p t l' where ptl: "ptl = (p, t, l')" by (cases ptl)
    have "l' = Some l" "l \<le> t" using best_route_spec [where nets = nets and code = code and ip = ip and m = m] Some ptl l assms(8) by auto
    then show ?thesis using Some ptl by (auto simp: forward_with_best_route_def Let_def)
  qed
  have "\<not> online_at (lease_state st) ip e'" for e'
    using holder_unique(2) [OF ns_invD(2) [OF assms(1)] _ _ assms(4,5)] assms(6) by (auto simp: online_at_def)
  then show "sender_map st ip = None" using ns_invD(3) [OF assms(1), of ip] by auto
qed

definition demo_moved :: NetworkState where
  "demo_moved = ns_run [Register 5 (demo_request ''a'' (Some 0x0A1A0007) False) 77 3, Latency 0x0A1A0007 4,
     Offline 9 ''a'' 0x0A1A0007 77] demo_start"

definition demo_dec_moved :: "bytes \<Rightarrow> ServerMessage option option" where
  "demo_dec_moved d = (if d = [1] then Some (Some (AuthReq ''h''))
     else Some (Some (ClientInfoRes [(''default'', [(0x0A1A0007, 3)])])))"

definition demo_manager_moved :: PeerServerManager where
  "demo_manager_moved = manager (fold (peer_step (\<lambda>_. []) demo_dec_moved)
     [Accepted ''p'' 8 9 [1], Received (\<lambda>_. []) (\<lambda>_. None) 0 0 [2]]
     (life_start (PeerServerManager_new (\<lambda>b. b) (\<lambda>_. ''h'') ''t'' (\<lambda>_. PeerServerInfo_new [] False))))"

theorem stale_latency_blackhole_witness:
  "(\<exists>r. has_route demo_manager_moved ''default'' 0x0A1A0007 r \<and>
      pi_connected (peer_heap demo_manager_moved (peer_info r))) \<and>
    forward_with_best_route (\<lambda>_. [7]) (\<lambda>_ _. True) [''default'' \<mapsto> demo_moved] ''default'' 0x0A1A0007 [1, 2]
      demo_manager_moved = (False, []) \<and> sender_map demo_moved 0x0A1A0007 = None"
proof -
  have r: "ip_to_routes demo_manager_moved = [''default'' \<mapsto> [0x0A1A0007 \<mapsto> [\<lparr>peer_info = 0, client_latency_ms = 3\<rparr>]]]"
    "pi_connected (peer_heap demo_manager_moved 0)" "pi_latency_ms (peer_heap demo_manager_moved 0) = 10"
    by (simp_all add: demo_manager_moved_def life_start_def PeerServerManager_new_def handle_peer_connection_def
      demo_dec_moved_def add_peer_def Let_def handle_peer_message_def update_routes_def retain_routes_def set_connected_def
      PeerServerInfo_new_def MAX_ROUTES_PER_IP_def DEFAULT_SERVER_LATENCY_MS_def fun_eq_iff)
  have has: "has_route demo_manager_moved ''default'' 0x0A1A0007 x \<longleftrightarrow> x = \<lparr>peer_info = 0, client_latency_ms = 3\<rparr>" for x
    by (simp add: has_route_def route_at_def r)
  have inv: "ns_inv demo_moved" unfolding demo_moved_def by (rule ns_run_inv [OF demo_start_inv])
  have "\<exists>e. device_ip_map (lease_state demo_moved) 0x0A1A0007 = Some ''a'' \<and>
      device_map (lease_state demo_moved) ''a'' = Some e \<and> de_ip e = Some 0x0A1A0007 \<and> \<not> de_is_connected e \<and>
      de_latency_ms e = Some 4"
    by (simp add: demo_moved_def ns_run_def allocate_ip_and_get_entry_def allocate_ip_def place_def
      check_requested_def Let_def demo_start_def new_from_db_def demo_request_def demo_net_def add_device_def
      new_entry_def update_client_latency_def offline_ip_def offline_inner_def drop_ip_def)
  then show ?thesis
    using stale_latency_blackhole [OF inv, of "[''default'' \<mapsto> demo_moved]" "''default''" "0x0A1A0007" "''a''" _ 4
      demo_manager_moved "\<lambda>_. [7]" "\<lambda>_ _. True" "[1, 2]"] has r by (auto simp: total_latency_def)
qed

text \<open>Removing an outbound peer leaves its routes: the task that would run \<open>cleanup_routes\<close> is stopped before,
  and \<open>remove_outbound_peer\<close> does not touch the tables, so the addresses learned from the removed peer are
  still listed as remote devices (they are skipped when forwarding, the peer being disconnected).\<close>

theorem removed_peer_routes_remain:
  assumes "remove_outbound_peer io addr pool m = (res, pool', m')"
  shows "ip_to_routes m' = ip_to_routes m \<and>
    (\<forall>p. p \<in> set (mgr_peers m) \<longrightarrow> pi_addr (peer_heap m p) = addr \<longrightarrow> pi_is_outbound (peer_heap m p) \<longrightarrow>
       p \<notin> set (mgr_peers m') \<and> \<not> pi_connected (peer_heap m' p))"
  using assms by (auto simp: remove_outbound_peer_def Let_def set_disconnected_def split: prod.splits sum.splits)

theorem removed_peer_routes_remain_witness:
  "\<exists>res pool' m'. remove_outbound_peer True ''p'' None demo_manager = (res, pool', m') \<and>
    ip_to_routes m' ''n'' \<noteq> None"
proof -
  obtain res pool' m' where r: "remove_outbound_peer True ''p'' None demo_manager = (res, pool', m')"
    by (cases "remove_outbound_peer True ''p'' None demo_manager")
  show ?thesis using removed_peer_routes_remain [OF r] demo_life_run(1) r by auto
qed

end
