(* ===== verification/HandlerProps.thy ===== *)
theory HandlerProps
  imports ServerHandler PeerProps ServiceSafety
begin

text \<open>
  Properties of one client connection: the states of a session, where packets go and how often, hop counts,
  the answers of the gateway, and the two faults found.
\<close>

named_theorems handler_simps \<open>unfolding one operation of the connection\<close>

lemmas [handler_simps] = handle_reg_def handle_confirm_reg_def handle_data_def handle_gateway_def send_await_def
  route_packet_def Let_def

section \<open>Hop counts\<close>

lemma server_decr_ttl_Some:
  "server_decr_ttl p = Some q \<longleftrightarrow> 1 < ttl p \<and> q = decr_ttl p"
  by (auto simp: server_decr_ttl_def)

lemma ttl_decr: "ttl p \<noteq> 0 \<Longrightarrow> ttl (decr_ttl p) = ttl p - 1 \<and> max_ttl (decr_ttl p) = max_ttl p"
  by (simp add: ttl_def max_ttl_def decr_ttl_def hdr_decr_ttl_parts)

lemma unat_ttl_decr: "1 < ttl p \<Longrightarrow> unat (ttl (decr_ttl p)) = unat (ttl p) - 1"
proof -
  assume "1 < ttl p"
  then have "ttl p \<noteq> 0" by auto
  then show ?thesis by (simp add: ttl_decr unat_minus_one)
qed

fun server_hops :: "nat \<Rightarrow> bytes \<Rightarrow> bytes option" where
  "server_hops 0 p = Some p"
| "server_hops (Suc n) p = (case server_decr_ttl p of None \<Rightarrow> None | Some q \<Rightarrow> server_hops n q)"

lemma server_hops_Some:
  "server_hops n p = Some q \<Longrightarrow> 16 \<le> length p \<Longrightarrow>
    (n = 0 \<or> n < unat (ttl p)) \<and> unat (ttl q) = unat (ttl p) - n \<and> payload q = payload p \<and> length q = length p \<and>
    max_ttl q = max_ttl p \<and> msg_type q = msg_type p \<and> src_id q = src_id p \<and> dest_id q = dest_id p \<and> seq q = seq p"
proof (induction n arbitrary: p)
  case 0
  then show ?case by simp
next
  case (Suc n)
  then have d: "1 < ttl p" "server_hops n (decr_ttl p) = Some q"
    by (auto simp: server_decr_ttl_def split: if_splits)
  have "1 < unat (ttl p)" "ttl p \<noteq> 0" using d(1) by (auto simp: word_less_nat_alt)
  then show ?case using Suc.IH [OF d(2)] Suc.prems(2) unat_ttl_decr [OF d(1)] ttl_decr [of p] by auto
qed

lemma server_hops_defined: "n < unat (ttl p) \<Longrightarrow> server_hops n p \<noteq> None"
proof (induction n arbitrary: p)
  case (Suc n)
  then have "1 < ttl p" by (simp add: word_less_nat_alt)
  then show ?case using Suc by (simp add: server_decr_ttl_def unat_ttl_decr leD)
qed simp

section \<open>Who receives what\<close>

text \<open>An effect stays within a session: its own channel, a channel of its network, or a datagram that names
  its network.\<close>

fun within :: "(ServerMessage \<Rightarrow> bytes) \<Rightarrow> nat option \<Rightarrow> Session \<Rightarrow> NetworkState \<Rightarrow> effect \<Rightarrow> bool" where
  "within enc own se st (SendStream s data) \<longleftrightarrow> own = Some s"
| "within enc own se st (TrySend s data) \<longleftrightarrow> own = Some s \<or> (\<exists>ip. sender_map st ip = Some s)"
| "within enc own se st (SendDatagram c d) \<longleftrightarrow> (\<exists>data. d = enc (ForwardData (se_network_code se) data))"

lemma traffic_frame [simp]:
  "sender_map (record_tx_traffic ip n st) = sender_map st" "sender_map (record_rx_traffic ip n st) = sender_map st"
  "lease_state (record_tx_traffic ip n st) = lease_state st" "lease_state (record_rx_traffic ip n st) = lease_state st"
  by (simp_all add: record_tx_traffic_def record_rx_traffic_def split: option.split)

lemma channels_set: "s \<in> set (channels ips keep st) \<longleftrightarrow> (\<exists>ip \<in> set ips. keep ip \<and> sender_map st ip = Some s)"
  by (force simp: channels_def List.map_filter_def split: if_splits)

lemma deliver_local_cases:
  "deliver_local dest data st = (st', effs) \<Longrightarrow>
    (\<exists>s. sender_map st dest = Some s \<and> st' = record_rx_traffic dest (length data) st \<and> effs = [TrySend s data]) \<or>
    (sender_map st dest = None \<and> st' = st \<and> effs = [])"
  by (auto simp: deliver_local_def split: option.splits)

lemma forward_unicast_spec:
  assumes "forward_unicast env mgr se packet cs = (effs, cs')"
  shows "(server_decr_ttl packet = None \<and> effs = [] \<and> cs' = cs) \<or>
    (\<exists>data m p t l c. server_decr_ttl packet = Some data \<and> mgr = Some m \<and>
       find_best_route (provider_nets cs) (se_network_code se) (dest_id packet) m = Some (p, t, l) \<and>
       pi_connection (peer_heap m p) = Some c \<and>
       effs = [SendDatagram c (encode_peer env (ForwardData (se_network_code se) data))] \<and> cs' = cs) \<or>
    (\<exists>data st. server_decr_ttl packet = Some data \<and>
       deliver_local (dest_id packet) data (ns_store cs (se_network_state se)) = (st, effs) \<and>
       cs' = cs\<lparr>ns_store := (ns_store cs)(se_network_state se := st)\<rparr>)"
proof (cases "server_decr_ttl packet")
  case None
  then show ?thesis using assms by (simp add: forward_unicast_def Let_def)
next
  case (Some data)
  obtain fw fe where f: "(case mgr of
       Some m \<Rightarrow> forward_with_best_route (encode_peer env) (takes_datagram env) (provider_nets cs)
                   (se_network_code se) (dest_id packet) data m
     | None \<Rightarrow> (False, [])) = (fw, fe)" by fastforce
  obtain st le where d: "deliver_local (dest_id packet) data (ns_store cs (se_network_state se)) = (st, le)" by fastforce
  have r: "(effs, cs') = (if fw then (fe, cs) else (fe @ le, cs\<lparr>ns_store := (ns_store cs)(se_network_state se := st)\<rparr>))"
    using assms Some f d by (cases fw) (simp_all add: forward_unicast_def Let_def)
  show ?thesis
  proof (cases mgr)
    case None
    then show ?thesis using f r Some d by auto
  next
    case m: (Some m)
    show ?thesis using forward_cases [of "encode_peer env" "takes_datagram env" "provider_nets cs" "se_network_code se"
        "dest_id packet" data m fw fe] f m r Some d by auto
  qed
qed

lemma forward_unicast_within:
  assumes "forward_unicast env mgr se packet cs = (effs, cs')"
  shows "list_all (within (encode_peer env) own se (ns_store cs (se_network_state se))) effs"
  using forward_unicast_spec [OF assms] by (auto simp: deliver_local_def split: option.splits)

lemma channels_within:
  "list_all (within enc own se st) (map (\<lambda>s. TrySend s data) (channels ips keep st))"
  unfolding list_all_iff by (auto simp: channels_set)

lemma handle_rpc_cases:
  "handle_rpc env order se sender packet cs = (res, effs) \<Longrightarrow> effs = [] \<or> (\<exists>data. effs = [TrySend sender data])"
  by (auto simp: handle_rpc_def split: option.splits prod.splits if_splits sum.splits)

lemma answer_cases:
  assumes "answer_gateway env order now sender se t packet cs = (res, effs, cs')"
  shows "cs' = cs \<and> (effs = [] \<or> (\<exists>data. effs = [TrySend sender data])) \<or>
    effs = [] \<and> (\<exists>a ms. network_states cs (se_network_code se) = Some a \<and>
      cs' = cs\<lparr>ns_store := (ns_store cs)(a := update_client_latency (se_ip se) ms (ns_store cs a))\<rparr>)"
proof (cases "t = RpcReq")
  case True
  then show ?thesis using assms by (auto split: prod.splits dest!: handle_rpc_cases)
next
  case False
  then show ?thesis using assms by (cases t) (auto split: option.splits sum.splits if_splits)
qed

lemma handle_gateway_cases:
  assumes "handle_gateway env order now buf h cs = (res, effs, cs')"
  shows "effs = [] \<and> cs' = cs \<or>
    (\<exists>se t sender. ch_session h = Some se \<and> ch_sender h = Some sender \<and> msg_type buf = Inr t \<and> 16 \<le> length buf \<and>
       ttl buf \<noteq> 0 \<and> answer_gateway env order now sender se t buf cs = (res, effs, cs'))"
  using assms by (auto simp: handle_gateway_def and_then_eq_Inr split: option.splits sum.splits if_splits)

lemma gateway_cases:
  assumes "handle_gateway env order now buf h cs = (res, effs, cs')"
  shows "cs' = cs \<and> (effs = [] \<or> (\<exists>s data. ch_sender h = Some s \<and> effs = [TrySend s data])) \<or>
    effs = [] \<and> (\<exists>se a ms. ch_session h = Some se \<and> network_states cs (se_network_code se) = Some a \<and>
      cs' = cs\<lparr>ns_store := (ns_store cs)(a := update_client_latency (se_ip se) ms (ns_store cs a))\<rparr>)"
  using handle_gateway_cases [OF assms] by (blast dest: answer_cases)

lemma gateway_within:
  assumes "handle_gateway env order now buf h cs = (res, effs, cs')"
  shows "list_all (within enc (ch_sender h) se st) effs"
  using gateway_cases [OF assms] by auto

lemma route_packet_within:
  assumes "route_packet env mgr ips se t packet cs = (res, effs, cs')"
  shows "list_all (within (encode_peer env) own se (ns_store cs (se_network_state se))) effs"
  using assms forward_unicast_within [of env mgr se packet cs]
  by (auto simp: route_packet_def broadcast_def selective_broadcast_def channels_within and_then_eq_Inl
      split: if_splits prod.splits sum.splits option.splits)

lemma selective_broadcast_Inr:
  assumes "selective_broadcast env target ips se packet cs = Inr effs"
  shows "list_all (within enc own se (ns_store cs (se_network_state se))) effs"
  using assms by (auto simp: selective_broadcast_def channels_within split: option.splits)

lemma route_packet_frame:
  assumes "route_packet env mgr ips se t packet cs = (res, effs, cs')"
  shows "\<exists>st. cs' = cs\<lparr>ns_store := (ns_store cs)(se_network_state se := st)\<rparr> \<and>
    (st = ns_store cs (se_network_state se) \<or>
     (\<exists>n. st = record_rx_traffic (dest_id packet) n (ns_store cs (se_network_state se))))" (is "?P cs'")
proof -
  have same: "?P cs" by (rule exI [of _ "ns_store cs (se_network_state se)"]) simp
  show ?thesis
  proof (cases "is_unicast t")
    case True
    then have f: "forward_unicast env mgr se packet cs = (effs, cs')" using assms by (auto simp: route_packet_def split: prod.splits)
    consider "cs' = cs" | data st where "deliver_local (dest_id packet) data (ns_store cs (se_network_state se)) = (st, effs)"
        "cs' = cs\<lparr>ns_store := (ns_store cs)(se_network_state se := st)\<rparr>"
      using forward_unicast_spec [OF f] by blast
    then show ?thesis
    proof cases
      case 1
      show ?thesis unfolding 1 by (rule same)
    next
      case 2
      then show ?thesis using deliver_local_cases [OF 2(1)] by blast
    qed
  next
    case False
    then have "cs' = cs" using assms by (auto simp: route_packet_def split: if_splits sum.splits)
    show ?thesis unfolding \<open>cs' = cs\<close> by (rule same)
  qed
qed

text \<open>The store after a frame of a confirmed session.\<close>

lemma gateway_frame:
  assumes "handle_gateway env order now buf h cs = (res, effs, cs')" "ch_session h = Some se"
  shows "cs' = cs \<or> (\<exists>a ms. network_states cs (se_network_code se) = Some a \<and>
    cs' = cs\<lparr>ns_store := (ns_store cs)(a := update_client_latency (se_ip se) ms (ns_store cs a))\<rparr>)"
  using gateway_cases [OF assms(1)] assms(2) by auto

lemma handle_data_confirmed:
  assumes "handle_data env mgr io order ips now buf h cs = (res, effs, h', cs')"
    and "ch_session h = Some se" "se_status se = Confirmed"
  shows "h' = h \<and> ((\<exists>e. res = Inl e) \<and> effs = [] \<and> cs' = cs \<or>
    is_gateway buf \<and> handle_gateway env order now buf h cs = (res, effs, cs') \<or>
    (\<exists>t. 16 \<le> length buf \<and> msg_type buf = Inr t \<and> \<not> is_gateway buf \<and>
       route_packet env mgr ips se t buf (cs\<lparr>ns_store := (ns_store cs)(se_network_state se :=
         record_tx_traffic (src_id buf) (length buf) (ns_store cs (se_network_state se)))\<rparr>) = (res, effs, cs')))"
  using assms by (auto simp: handle_data_def Let_def NetPacket_new_def split: sum.splits prod.splits if_splits)

lemma handle_data_pending:
  assumes "handle_data env mgr io order ips now buf h cs = (res, effs, h', cs')"
    and "ch_session h = Some se" "se_status se = PendingConfirmation"
  shows "RequestMessage_from_slice (decode_request env) buf = Inr ReqConfirmReg \<and>
      handle_confirm_reg env io h cs = (res, effs, h', cs') \<or>
    RequestMessage_from_slice (decode_request env) buf \<noteq> Inr ReqConfirmReg \<and> res = Inr () \<and> effs = [] \<and> h' = h \<and> cs' = cs"
  using assms by (auto simp: handle_data_def split: sum.splits RequestMessage.splits)

lemma confirm_within:
  assumes "handle_confirm_reg env io h cs = (res, effs, h', cs')"
  shows "list_all (within enc (ch_sender h) se st) effs" "\<exists>p. cs' = cs\<lparr>db_pool := p\<rparr>"
proof -
  show "list_all (within enc (ch_sender h) se st) effs"
    using assms by (auto simp: handle_confirm_reg_def send_await_def split: option.splits sum.splits if_splits prod.splits)
  show "\<exists>p. cs' = cs\<lparr>db_pool := p\<rparr>"
    using assms by (auto simp: handle_confirm_reg_def send_await_def only_pool split: option.splits sum.splits if_splits prod.splits)
qed

text \<open>C14 Traffic stays inside a network: whatever frame a connection receives, everything the server sends in
  answer goes to the connection itself, to a channel of the network the session registered in, or to a peer
  server in a datagram that names this network. The frame changes no lease and no channel of any network
  but the latency of the session's own address, and no state but the session's and the one in use for its
  network.\<close>

theorem traffic_stays_in_network:
  assumes "handle_data env mgr io order ips now buf h cs = (res, effs, h', cs')" "ch_session h = Some se"
  shows "list_all (within (encode_peer env) (ch_sender h) se (ns_store cs (se_network_state se))) effs \<and>
    (\<forall>a. a \<noteq> se_network_state se \<longrightarrow> network_states cs (se_network_code se) \<noteq> Some a \<longrightarrow> ns_store cs' a = ns_store cs a) \<and>
    (\<forall>a. sender_map (ns_store cs' a) = sender_map (ns_store cs a) \<and>
       (lease_state (ns_store cs' a) = lease_state (ns_store cs a) \<or>
        (\<exists>ms. lease_state (ns_store cs' a) = lease_state (update_client_latency (se_ip se) ms (ns_store cs a))))) \<and>
    network_states cs' = network_states cs \<and> db_nets cs' = db_nets cs"
proof (cases "se_status se")
  case PendingConfirmation
  note p = handle_data_pending [OF assms PendingConfirmation]
  have "list_all (within (encode_peer env) (ch_sender h) se (ns_store cs (se_network_state se))) effs"
    using p confirm_within(1) by auto
  moreover have "\<exists>p. cs' = cs\<lparr>db_pool := p\<rparr>" using p confirm_within(2) by (metis ControlService.surjective ControlService.update_convs(7))
  ultimately show ?thesis by auto
next
  case Confirmed
  define cs1 where "cs1 = cs\<lparr>ns_store := (ns_store cs)(se_network_state se :=
    record_tx_traffic (src_id buf) (length buf) (ns_store cs (se_network_state se)))\<rparr>"
  consider (err) "effs = []" "cs' = cs"
    | (gw) "handle_gateway env order now buf h cs = (res, effs, cs')"
    | (route) t where "route_packet env mgr ips se t buf cs1 = (res, effs, cs')"
    using handle_data_confirmed [OF assms Confirmed] unfolding cs1_def by blast
  then show ?thesis
  proof cases
    case err
    then show ?thesis by simp
  next
    case gw
    have f: "sender_map (update_client_latency ip ms st) = sender_map st" for ip ms st
      by (simp add: update_client_latency_def Let_def split: option.split)
    consider "cs' = cs" | a ms where "network_states cs (se_network_code se) = Some a"
        "cs' = cs\<lparr>ns_store := (ns_store cs)(a := update_client_latency (se_ip se) ms (ns_store cs a))\<rparr>"
      using gateway_frame [OF gw assms(2)] by blast
    then show ?thesis
    proof cases
      case 2
      have "lease_state (ns_store cs' b) = lease_state (ns_store cs b) \<or>
          (\<exists>ms. lease_state (ns_store cs' b) = lease_state (update_client_latency (se_ip se) ms (ns_store cs b)))" for b
      proof (cases "b = a")
        case True
        then show ?thesis using 2 by (intro disjI2 exI [of _ ms]) simp
      qed (use 2 in simp)
      then show ?thesis using 2 gateway_within [OF gw] f by auto
    qed (use gateway_within [OF gw] in simp)
  next
    case route
    have eff: "list_all (within (encode_peer env) (ch_sender h) se (ns_store cs1 (se_network_state se))) effs"
      by (rule route_packet_within [OF route])
    have "within enc own se (ns_store cs1 (se_network_state se)) = within enc own se (ns_store cs (se_network_state se))" for enc own
    proof
      fix eff
      show "within enc own se (ns_store cs1 (se_network_state se)) eff = within enc own se (ns_store cs (se_network_state se)) eff"
        by (cases eff) (simp_all add: cs1_def)
    qed
    then show ?thesis using eff route_packet_frame [OF route] by (auto simp: cs1_def)
  qed
qed

section \<open>One copy, or one for each receiver\<close>

lemma channels_eq: "channels ips keep st = map (\<lambda>ip. the (sender_map st ip)) (filter (\<lambda>ip. keep ip \<and> sender_map st ip \<noteq> None) ips)"
  by (induction ips) (auto simp: channels_def map_filter_simps split: option.split)

lemma has_best_route:
  "find_best_route nets code ip m = Some (p, t, l) \<Longrightarrow> \<exists>r. has_route m code ip r \<and> pi_connected (peer_heap m (peer_info r)) \<and> p = peer_info r"
  using best_route_spec [where nets = nets and code = code and ip = ip and m = m] by auto

text \<open>The frame of a confirmed session that is not for the gateway.\<close>

lemma handle_data_routes:
  assumes "ch_session h = Some se" "se_status se = Confirmed" "16 \<le> length buf" "msg_type buf = Inr t" "\<not> is_gateway buf"
    and "handle_data env mgr io order ips now buf h cs = (res, effs, h', cs')"
  shows "h' = h \<and> route_packet env mgr ips se t buf (cs\<lparr>ns_store := (ns_store cs)(se_network_state se :=
         record_tx_traffic (src_id buf) (length buf) (ns_store cs (se_network_state se)))\<rparr>) = (res, effs, cs')"
  using assms by (auto simp: handle_data_def Let_def NetPacket_new_def split: prod.splits)

text \<open>A packet for one client is passed on once or not at all: a frame of a registered session that is
  addressed to a client is dropped when its remaining TTL is at most one; otherwise it is sent at most once,
  either to the channel of the destination in the session's network or, as one datagram, to a connected peer
  server that reported the destination, and it is sent for certain when the destination is connected here.
  Nothing but the TTL, lowered by one, differs from the packet received.\<close>

theorem unicast_once:
  assumes "ch_session h = Some se" "se_status se = Confirmed" "16 \<le> length buf" "msg_type buf = Inr t" "\<not> is_gateway buf"
    and "is_unicast t"
    and "handle_data env mgr io order ips now buf h cs = (res, effs, h', cs')"
  defines "st \<equiv> ns_store cs (se_network_state se)"
  shows "h' = h \<and> res = Inr () \<and> length effs \<le> 1 \<and> (ttl buf \<le> 1 \<longrightarrow> effs = []) \<and>
    (1 < ttl buf \<longrightarrow> sender_map st (dest_id buf) \<noteq> None \<longrightarrow> length effs = 1) \<and>
    list_all (\<lambda>eff. \<exists>q. q = decr_ttl buf \<and>
      unat (ttl q) + 1 = unat (ttl buf) \<and> 0 < unat (ttl q) \<and> max_ttl q = max_ttl buf \<and> payload q = payload buf \<and>
      msg_type q = msg_type buf \<and> seq q = seq buf \<and> src_id q = src_id buf \<and> dest_id q = dest_id buf \<and>
      ((\<exists>s. sender_map st (dest_id buf) = Some s \<and> eff = TrySend s q) \<or>
       (\<exists>m r c. mgr = Some m \<and> has_route m (se_network_code se) (dest_id buf) r \<and>
          pi_connected (peer_heap m (peer_info r)) \<and> pi_connection (peer_heap m (peer_info r)) = Some c \<and>
          eff = SendDatagram c (encode_peer env (ForwardData (se_network_code se) q))))) effs"
proof -
  define cs1 where "cs1 = cs\<lparr>ns_store := (ns_store cs)(se_network_state se := record_tx_traffic (src_id buf) (length buf) st)\<rparr>"
  have r: "h' = h" "route_packet env mgr ips se t buf cs1 = (res, effs, cs')"
    using handle_data_routes [OF assms(1-5,7)] by (simp_all add: cs1_def st_def)
  then have f: "res = Inr ()" "forward_unicast env mgr se buf cs1 = (effs, cs')"
    using assms(6) by (auto simp: route_packet_def split: prod.splits)
  have sm: "sender_map (ns_store cs1 (se_network_state se)) = sender_map st" by (simp add: cs1_def)
  consider (low) "ttl buf \<le> 1" "effs = []"
    | (peer) m p x l c where "1 < ttl buf" "mgr = Some m"
        "find_best_route (provider_nets cs1) (se_network_code se) (dest_id buf) m = Some (p, x, l)"
        "pi_connection (peer_heap m p) = Some c"
        "effs = [SendDatagram c (encode_peer env (ForwardData (se_network_code se) (decr_ttl buf)))]"
    | (local) st' where "1 < ttl buf" "deliver_local (dest_id buf) (decr_ttl buf) (ns_store cs1 (se_network_state se)) = (st', effs)"
    using forward_unicast_spec [OF f(2)] by (auto simp: server_decr_ttl_def split: if_splits)
  then show ?thesis
  proof cases
    case low
    then show ?thesis using f(1) r(1) by (simp add: leD)
  next
    case peer
    then have "ttl buf \<noteq> 0" "1 < unat (ttl buf)" by (auto simp: word_less_nat_alt)
    then show ?thesis using f(1) r(1) peer unat_ttl_decr [OF peer(1)] ttl_decr [of buf] has_best_route [OF peer(3)] by auto
  next
    case local
    then have "ttl buf \<noteq> 0" "1 < unat (ttl buf)" by (auto simp: word_less_nat_alt)
    then show ?thesis using f(1) r(1) local unat_ttl_decr [OF local(1)] ttl_decr [of buf] deliver_local_cases [OF local(2)] sm by auto
  qed
qed

text \<open>C36 A broadcast reaches every other client once: a frame of a registered session for everybody, for
  everybody but a list, or for a list of clients is sent, one hop older, to exactly those connected addresses
  of the session's network that it selects and that are not its claimed source, one copy each; with a TTL of
  at most one nothing is sent. The frame inside a selective broadcast is what is passed on.\<close>

theorem broadcast_exact:
  assumes "ch_session h = Some se" "se_status se = Confirmed" "16 \<le> length buf" "msg_type buf = Inr t" "\<not> is_gateway buf"
    and "t = Broadcast \<or> t = ExcludeBroadcast \<or> t = TargetBroadcast"
    and "handle_data env mgr io order ips now buf h cs = (Inr (), effs, h', cs')"
    and "distinct ips" "set ips = dom (sender_map (ns_store cs (se_network_state se)))"
  shows "\<exists>frame addressed receivers.
    (if t = Broadcast then frame = buf \<and> addressed = UNIV
     else \<exists>b. SelectiveBroadcast_from_slice (decode_selective env) (payload buf) = Inr b \<and> frame = sb_data b \<and>
       addressed = (if t = TargetBroadcast then set (sb_ips b) else - set (sb_ips b))) \<and>
    16 \<le> length frame \<and> distinct receivers \<and>
    set receivers = (if ttl frame \<le> 1 then {}
      else {ip \<in> addressed. ip \<noteq> src_id buf \<and> sender_map (ns_store cs (se_network_state se)) ip \<noteq> None}) \<and>
    effs = map (\<lambda>ip. TrySend (the (sender_map (ns_store cs (se_network_state se)) ip)) (decr_ttl frame)) receivers"
proof -
  let ?st = "ns_store cs (se_network_state se)"
  define cs1 where "cs1 = cs\<lparr>ns_store := (ns_store cs)(se_network_state se := record_tx_traffic (src_id buf) (length buf) ?st)\<rparr>"
  have sm: "sender_map (ns_store cs1 (se_network_state se)) = sender_map ?st" by (simp add: cs1_def)
  have r: "route_packet env mgr ips se t buf cs1 = (Inr (), effs, cs')"
    using handle_data_routes [OF assms(1-5,7)] by (simp add: cs1_def)
  have sent: "\<exists>receivers. distinct receivers \<and>
      set receivers = (if ttl frame \<le> 1 then {} else {ip. keep ip \<and> ip \<noteq> src_id buf \<and> sender_map ?st ip \<noteq> None}) \<and>
      effs = map (\<lambda>ip. TrySend (the (sender_map ?st ip)) (decr_ttl frame)) receivers"
    if "effs = (case server_decr_ttl frame of None \<Rightarrow> [] | Some data \<Rightarrow> map (\<lambda>s. TrySend s data)
      (channels ips (\<lambda>ip. keep ip \<and> ip \<noteq> src_id buf) (ns_store cs1 (se_network_state se))))" for frame keep
  proof (cases "ttl frame \<le> 1")
    case True
    then show ?thesis using that by (simp add: server_decr_ttl_def)
  next
    case False
    then have "effs = map (\<lambda>ip. TrySend (the (sender_map ?st ip)) (decr_ttl frame))
        (filter (\<lambda>ip. (keep ip \<and> ip \<noteq> src_id buf) \<and> sender_map ?st ip \<noteq> None) ips)"
      using that by (simp add: server_decr_ttl_def channels_eq sm comp_def)
    then show ?thesis using False assms(8,9)
      by (intro exI [of _ "filter (\<lambda>ip. (keep ip \<and> ip \<noteq> src_id buf) \<and> sender_map ?st ip \<noteq> None) ips"]) auto
  qed
  show ?thesis
  proof (cases "t = Broadcast")
    case True
    then have "effs = broadcast ips se buf cs1" using r by (auto simp: route_packet_def is_unicast_def)
    then have e: "effs = (case server_decr_ttl buf of None \<Rightarrow> [] | Some data \<Rightarrow> map (\<lambda>s. TrySend s data)
        (channels ips (\<lambda>ip. True \<and> ip \<noteq> src_id buf) (ns_store cs1 (se_network_state se))))"
      by (simp add: broadcast_def split: option.split)
    obtain R where R: "distinct R" "effs = map (\<lambda>ip. TrySend (the (sender_map ?st ip)) (decr_ttl buf)) R"
      "set R = (if ttl buf \<le> 1 then {} else {ip. ip \<noteq> src_id buf \<and> sender_map ?st ip \<noteq> None})"
      using sent [OF e] unfolding simp_thms by blast
    then show ?thesis using True assms(3) by (intro exI [of _ buf] exI [of _ UNIV] exI [of _ R]) simp
  next
    case False
    then have "selective_broadcast env (t = TargetBroadcast) ips se buf cs1 = Inr effs"
      using r assms(6) by (auto simp: route_packet_def is_unicast_def split: sum.splits)
    then obtain b where b: "SelectiveBroadcast_from_slice (decode_selective env) (payload buf) = Inr b" "16 \<le> length (sb_data b)"
      "effs = (case server_decr_ttl (sb_data b) of None \<Rightarrow> [] | Some data \<Rightarrow> map (\<lambda>s. TrySend s data)
        (channels ips (\<lambda>ip. (ip \<in> set (sb_ips b)) = (t = TargetBroadcast) \<and> ip \<noteq> src_id buf) (ns_store cs1 (se_network_state se))))"
      by (auto simp: selective_broadcast_def split: option.splits)
    obtain R where R: "distinct R" "effs = map (\<lambda>ip. TrySend (the (sender_map ?st ip)) (decr_ttl (sb_data b))) R"
      "set R = (if ttl (sb_data b) \<le> 1 then {} else {ip. (ip \<in> set (sb_ips b)) = (t = TargetBroadcast) \<and> ip \<noteq> src_id buf \<and> sender_map ?st ip \<noteq> None})"
      using sent [OF b(3)] by blast
    show ?thesis using False b(1,2) R
      by (intro exI [of _ "sb_data b"] exI [of _ "if t = TargetBroadcast then set (sb_ips b) else - set (sb_ips b)"] exI [of _ R]) auto
  qed
qed

section \<open>A network of two clients\<close>

definition demo_env :: handler_env where
  "demo_env = \<lparr>decode_request = \<lambda>b. if b = [1] then Some (Some PConfirmReg)
       else if b = [2] then Some (Some (PReg (RegRequestMsg_to (demo_signed Normal ''a'' (Some 0x0A1A0007)))))
       else if b = [3] then Some (Some (PReg (RegRequestMsg_to (demo_signed Normal ''b'' (Some 0x0A1A0008))))) else None,
     encode_response = \<lambda>_. [9],
     decode_selective = \<lambda>_. None, encode_simple_list = \<lambda>_. [8], decode_rpc = \<lambda>_. None, encode_rpc = \<lambda>_ _. [],
     encode_peer = \<lambda>_. [7], takes_datagram = \<lambda>_ _. True, error_text = \<lambda>_. ''e'', server_version = ''2'',
     pnet_packet = demo_pnet, alive = True\<rparr>"

definition demo_two :: NetworkState where
  "demo_two = ns_run [Register 5 (demo_request ''a'' (Some 0x0A1A0007) False) 77 3,
     Register 6 (demo_request ''b'' (Some 0x0A1A0008) False) 78 4] demo_start"

definition demo_cs :: ControlService where
  "demo_cs = demo_service\<lparr>network_states := [''default'' \<mapsto> 0], ns_store := (\<lambda>_. demo_two), ns_fresh := 1\<rparr>"

definition demo_session :: "RegistrationStatus \<Rightarrow> Session" where
  "demo_session status = \<lparr>se_network_code = ''default'', se_device_id = ''a'', se_ip = 0x0A1A0007, se_random_id = 77,
     se_network_state = 0, se_status = status\<rparr>"

definition demo_handler :: "RegistrationStatus \<Rightarrow> ControlHandler" where
  "demo_handler status = \<lparr>ch_sender = Some 3, ch_session = Some (demo_session status)\<rparr>"

lemma demo_two_eq:
  "sender_map demo_two = [0x0A1A0007 \<mapsto> 3, 0x0A1A0008 \<mapsto> 4]"
  "\<exists>e. device_map (lease_state demo_two) ''a'' = Some e \<and> de_device_id e = ''a'' \<and> de_ip e = Some 0x0A1A0007 \<and> de_random_id e = 77 \<and>
     de_stats e = 0"
  "traffic_stats_map demo_two = [0x0A1A0007 \<mapsto> 0, 0x0A1A0008 \<mapsto> 1]"
  by (simp_all add: demo_two_def ns_run_def allocate_ip_and_get_entry_def allocate_ip_def place_def check_requested_def
    Let_def demo_start_def new_from_db_def demo_request_def demo_net_def add_device_def new_entry_def)

definition demo_frame :: "u8 \<Rightarrow> u8 \<Rightarrow> bytes" where
  "demo_frame t hops = [t, hops, 0, 0, 0, 0, 0, 1, 10, 26, 0, 7, 10, 26, 0, 8, 42]"

lemma demo_frame_fields:
  "length (demo_frame t hops) = 17" "msg_type (demo_frame 1 hops) = Inr Turn" "msg_type (demo_frame 2 hops) = Inr Broadcast"
  "\<not> is_gateway (demo_frame t hops)" "src_id (demo_frame t hops) = 0x0A1A0007" "dest_id (demo_frame t hops) = 0x0A1A0008"
  "ttl (demo_frame t 0x55) = 5"
  by (simp_all add: demo_frame_def accessor_defs header_def hdr_msg_type_def MsgType_try_from_def hdr_curr_ttl_def be_dec_def GATEWAY_def)

lemma five_hops [simp]: "\<not> (5 :: u8) \<le> 1" "1 < (5 :: u8)"
  by (simp_all add: word_le_nat_alt word_less_nat_alt)

lemma demo_within:
  "handle_data demo_env None True [] [0x0A1A0007, 0x0A1A0008] 9 (demo_frame 1 0x55) (demo_handler Confirmed) demo_cs
    = (Inr (), [TrySend 4 (decr_ttl (demo_frame 1 0x55))], demo_handler Confirmed,
       snd (snd (snd (handle_data demo_env None True [] [0x0A1A0007, 0x0A1A0008] 9 (demo_frame 1 0x55) (demo_handler Confirmed) demo_cs))))"
  by (simp add: handle_data_def demo_handler_def demo_session_def NetPacket_new_def demo_frame_fields Let_def route_packet_def
    is_unicast_def forward_unicast_def server_decr_ttl_def deliver_local_def demo_cs_def demo_two_eq)

theorem traffic_stays_in_network_witness:
  "list_all (within (encode_peer demo_env) (ch_sender (demo_handler Confirmed)) (demo_session Confirmed) (ns_store demo_cs 0))
    [TrySend 4 (decr_ttl (demo_frame 1 0x55))]"
  using traffic_stays_in_network [OF demo_within, of "demo_session Confirmed"]
  by (simp add: demo_handler_def demo_session_def)

theorem unicast_once_witness:
  "unat (ttl (decr_ttl (demo_frame 1 0x55))) = 4 \<and> payload (decr_ttl (demo_frame 1 0x55)) = [42]"
  using unicast_once [OF _ _ _ _ _ _ demo_within, of "demo_session Confirmed" Turn]
  by (simp add: demo_handler_def demo_session_def demo_frame_fields is_unicast_def) (simp add: demo_frame_def payload_def)

lemma demo_broadcast:
  "handle_data demo_env None True [] [0x0A1A0007, 0x0A1A0008] 9 (demo_frame 2 0x55) (demo_handler Confirmed) demo_cs
    = (Inr (), [TrySend 4 (decr_ttl (demo_frame 2 0x55))], demo_handler Confirmed,
       snd (snd (snd (handle_data demo_env None True [] [0x0A1A0007, 0x0A1A0008] 9 (demo_frame 2 0x55) (demo_handler Confirmed) demo_cs))))"
  by (simp add: handle_data_def demo_handler_def demo_session_def NetPacket_new_def demo_frame_fields Let_def route_packet_def
    is_unicast_def broadcast_def server_decr_ttl_def channels_eq demo_cs_def demo_two_eq)

theorem broadcast_exact_witness:
  "\<exists>receivers. set receivers = {0x0A1A0008} \<and>
    [TrySend 4 (decr_ttl (demo_frame 2 0x55))] = map (\<lambda>ip. TrySend (the (sender_map demo_two ip)) (decr_ttl (demo_frame 2 0x55))) receivers"
proof -
  have two: "distinct [0x0A1A0007, 0x0A1A0008 :: ipv4]" "set [0x0A1A0007, 0x0A1A0008] = dom (sender_map demo_two)"
    by (auto simp: demo_two_eq)
  have one: "{ip \<in> UNIV. ip \<noteq> 0x0A1A0007 \<and> sender_map demo_two ip \<noteq> None} = {0x0A1A0008}" by (auto simp: demo_two_eq)
  have h: "ch_session (demo_handler Confirmed) = Some (demo_session Confirmed)" "se_status (demo_session Confirmed) = Confirmed"
    "ns_store demo_cs (se_network_state (demo_session Confirmed)) = demo_two"
    by (simp_all add: demo_handler_def demo_session_def demo_cs_def)
  have p: "16 \<le> length (demo_frame 2 0x55)" "\<not> ttl (demo_frame 2 0x55) \<le> 1" by (simp_all add: demo_frame_fields)
  obtain R where R: "set R = {ip \<in> UNIV. ip \<noteq> src_id (demo_frame 2 0x55) \<and> sender_map demo_two ip \<noteq> None}"
      "[TrySend 4 (decr_ttl (demo_frame 2 0x55))] = map (\<lambda>ip. TrySend (the (sender_map demo_two ip)) (decr_ttl (demo_frame 2 0x55))) R"
    using broadcast_exact [OF h(1,2) p(1) demo_frame_fields(3,4) _ demo_broadcast two(1)] two(2) p(2)
    unfolding h(3) by (metis (no_types, lifting))
  then show ?thesis using one by (intro exI [of _ R]) (simp add: demo_frame_fields)
qed

section \<open>Two faults\<close>

text \<open>A client can stop the server: a ping of the gateway whose IPv4 header announces more bytes than the
  packet has, or fewer than the header itself takes, makes the handler slice out of range. The panic is
  not caught; in a release build it aborts the server and with it every network.\<close>

theorem icmp_ping_panics:
  assumes "ch_session h = Some se" "se_status se = Confirmed" "ch_sender h = Some s" "16 \<le> length buf"
    and "msg_type buf = Inr Turn" "is_gateway buf" "ttl buf \<noteq> 0"
    and "ipv4_new (pnet_packet env) (payload buf)" "next_level_protocol (pnet_packet env) (payload buf) = 1"
    and "echo_request_new (pnet_packet env) (ipv4_payload (pnet_packet env) (payload buf))"
    and "icmp_type (pnet_packet env) (ipv4_payload (pnet_packet env) (payload buf)) = 8"
    and "length (payload buf) < unat (total_length (pnet_packet env) (payload buf)) \<or>
      unat (total_length (pnet_packet env) (payload buf)) < unat (header_length (pnet_packet env) (payload buf)) * 4 \<and>
      ipv4_new (pnet_packet env) (take (unat (total_length (pnet_packet env) (payload buf))) (payload buf))"
  shows "fst (handle_data env mgr io order ips now buf h cs) = Inl Panic"
proof -
  have "handle_icmp_ping (pnet_packet env) buf = Inl Panic"
    using assms(8-12) by (auto simp: handle_icmp_ping_def Let_def)
  then show ?thesis using assms(1-7) by (simp add: handle_data_def handle_gateway_def NetPacket_new_def)
qed

text \<open>An echo request of 28 bytes that announces 1000.\<close>

definition demo_ping :: bytes where
  "demo_ping = [1, 0x55, 0x40, 0] @ replicate 12 0 @ [0x45, 0, 3, 232] @ replicate 5 0 @ [1] @ replicate 10 0 @ [8] @ replicate 7 0"

theorem icmp_ping_panics_witness:
  "fst (handle_data demo_env None True [] [] 9 demo_ping (demo_handler Confirmed) demo_cs) = Inl Panic"
proof -
  have f: "length demo_ping = 44" "msg_type demo_ping = Inr Turn" "is_gateway demo_ping" "ttl demo_ping \<noteq> 0" by code_simp+
  have p: "ipv4_new demo_pnet (payload demo_ping)" "next_level_protocol demo_pnet (payload demo_ping) = 1"
    "echo_request_new demo_pnet (ipv4_payload demo_pnet (payload demo_ping))"
    "icmp_type demo_pnet (ipv4_payload demo_pnet (payload demo_ping)) = 8"
    "length (payload demo_ping) < unat (total_length demo_pnet (payload demo_ping))" by code_simp+
  show ?thesis
    by (rule icmp_ping_panics [of _ "demo_session Confirmed" 3])
      (use f p in \<open>simp_all add: demo_handler_def demo_session_def demo_env_def\<close>)
qed

text \<open>The source of a packet is not checked: a registered client may write any source address into its
  packets. The server forwards them with that source to the destination and books the bytes to the device
  that holds the address, not to the session the packet came from.\<close>

theorem source_is_not_checked:
  assumes "ch_session h = Some se" "se_status se = Confirmed" "16 \<le> length buf" "msg_type buf = Inr t" "\<not> is_gateway buf"
    and "is_unicast t" "1 < ttl buf"
    and "sender_map (ns_store cs (se_network_state se)) (dest_id buf) = Some s"
    and "traffic_stats_map (ns_store cs (se_network_state se)) (src_id buf) = Some c"
    and "handle_data env None io order ips now buf h cs = (res, effs, h', cs')"
  shows "effs = [TrySend s (decr_ttl buf)] \<and> src_id (decr_ttl buf) = src_id buf \<and>
    tx_total (stats_heap (ns_store cs' (se_network_state se)) c) =
      tx_total (stats_heap (ns_store cs (se_network_state se)) c) + word_of_nat (length buf) \<and>
    (\<forall>c'. c' \<noteq> c \<longrightarrow> tx_total (stats_heap (ns_store cs' (se_network_state se)) c') =
      tx_total (stats_heap (ns_store cs (se_network_state se)) c'))"
proof -
  have "server_decr_ttl buf = Some (decr_ttl buf)" using assms(7) by (simp add: server_decr_ttl_Some)
  then show ?thesis using handle_data_routes [OF assms(1-5,10)] assms(6,8,9)
    by (auto simp: route_packet_def forward_unicast_def deliver_local_def record_tx_traffic_def record_rx_traffic_def Let_def
      split: prod.splits option.splits)
qed

text \<open>Device \<open>a\<close> sends in the name of \<open>b\<close>.\<close>

definition demo_spoofed :: bytes where
  "demo_spoofed = set_src_id 0x0A1A0008 (set_dest_id 0x0A1A0007 (demo_frame 1 0x55))"

theorem source_is_not_checked_witness:
  "\<exists>res effs h' cs'. handle_data demo_env None True [] [] 9 demo_spoofed (demo_handler Confirmed) demo_cs = (res, effs, h', cs') \<and>
    effs = [TrySend 3 (decr_ttl demo_spoofed)] \<and>
    tx_total (stats_heap (ns_store cs' 0) 1) = tx_total (stats_heap demo_two 1) + 17 \<and>
    tx_total (stats_heap (ns_store cs' 0) 0) = tx_total (stats_heap demo_two 0)"
proof -
  obtain res effs h' and cs' :: ControlService
    where r: "handle_data demo_env None True [] [] 9 demo_spoofed (demo_handler Confirmed) demo_cs = (res, effs, h', cs')"
    by (cases "handle_data demo_env None True [] [] 9 demo_spoofed (demo_handler Confirmed) demo_cs") auto
  show ?thesis
    using source_is_not_checked [of "demo_handler Confirmed" "demo_session Confirmed" demo_spoofed Turn demo_cs 3 1, OF _ _ _ _ _ _ _ _ _ r] r
    by (auto simp: demo_handler_def demo_session_def demo_spoofed_def demo_frame_fields is_unicast_def demo_cs_def demo_two_eq)
qed

end
