(* ===== verification/ServerRun.thy ===== *)
theory ServerRun
  imports HandlerProps "HOL-Library.Multiset"
begin

text \<open>
  The server with its connections: a step is a new connection, its first frame, a further frame, its end, or
  a background or administration step of the control service. The runs of the connections are runs of the
  service (\<open>connections_refine_service\<close>), and a live session receives what is addressed to it
  (\<open>packets_reach_their_addressee\<close>).
\<close>

section \<open>Runs\<close>

text \<open>The random id of a new session is drawn afresh: it differs from those of the sessions that exist.\<close>

definition sessions_of :: "ControlHandler list \<Rightarrow> Session multiset" where
  "sessions_of hs = mset (List.map_filter ch_session hs)"

inductive server_step :: "handler_env \<Rightarrow> (bytes \<Rightarrow> bytes) \<Rightarrow> (bytes \<Rightarrow> string) \<Rightarrow> (ipv4 \<Rightarrow> u8 \<Rightarrow> Ipv4Net option)
    \<Rightarrow> ControlService \<times> ControlHandler list \<Rightarrow> ControlService \<times> ControlHandler list \<Rightarrow> bool"
  for env sha hx net_new where
  accepted: "server_step env sha hx net_new (cs, hs) (cs, ControlHandler_new (Some s) # hs)"
| first: "i < length hs \<Longrightarrow> handle_reg env sha hx io now rid buf (hs ! i) cs = (res, effs, h', cs') \<Longrightarrow>
    (\<And>r. RequestMessage_from_slice (decode_request env) buf = Inr (ReqReg r) \<Longrightarrow> loadable io (rq_network_code r) cs) \<Longrightarrow>
    rid \<notin> se_random_id ` set_mset (sessions_of hs) \<Longrightarrow>
    server_step env sha hx net_new (cs, hs) (cs', hs[i := h'])"
| frame: "i < length hs \<Longrightarrow> handle_data env mgr io order ips now buf (hs ! i) cs = (res, effs, h', cs') \<Longrightarrow>
    server_step env sha hx net_new (cs, hs) (cs', hs[i := h'])"
| closed: "i < length hs \<Longrightarrow>
    server_step env sha hx net_new (cs, hs) (handler_dropped now (hs ! i) cs, take i hs @ drop (Suc i) hs)"
| background: "service_step sha hx net_new (cs, []) (cs', []) \<Longrightarrow> server_step env sha hx net_new (cs, hs) (cs', hs)"

section \<open>Sessions of a list of connections\<close>

lemma sessions_of_simps [simp]:
  "sessions_of [] = {#}"
  "sessions_of (h # hs) = (case ch_session h of Some se \<Rightarrow> {#se#} | None \<Rightarrow> {#}) + sessions_of hs"
  "sessions_of (xs @ ys) = sessions_of xs + sessions_of ys"
  by (simp_all add: sessions_of_def List.map_filter_def split: option.split)

lemma sessions_split: "i < length hs \<Longrightarrow> sessions_of hs =
    sessions_of (take i hs @ drop (Suc i) hs) + (case ch_session (hs ! i) of Some se \<Rightarrow> {#se#} | None \<Rightarrow> {#})"
  by (subst id_take_nth_drop [of i hs]) simp_all

lemma sessions_update: "i < length hs \<Longrightarrow> sessions_of (hs[i := h']) =
    sessions_of (take i hs @ drop (Suc i) hs) + (case ch_session h' of Some se \<Rightarrow> {#se#} | None \<Rightarrow> {#})"
  by (simp add: upd_conv_take_nth_drop)

lemma sessions_same: "i < length hs \<Longrightarrow> ch_session h' = ch_session (hs ! i) \<Longrightarrow> sessions_of (hs[i := h']) = sessions_of hs"
  by (simp add: sessions_update sessions_split)

lemma session_member: "i < length hs \<Longrightarrow> ch_session (hs ! i) = Some se \<Longrightarrow> se \<in># sessions_of hs"
  by (simp add: sessions_split)

section \<open>One operation of a connection\<close>

lemma handle_reg_cases:
  assumes "handle_reg env sha hx io now rid buf h cs = (res, effs, h', cs')"
  shows "(h' = h \<and> cs' = cs) \<or>
    ch_session h = None \<and> (\<exists>r s. RequestMessage_from_slice (decode_request env) buf = Inr (ReqReg r) \<and> ch_sender h = Some s \<and>
      ((\<exists>e. register sha hx io now rid s r cs = (Inl e, cs') \<and> h' = h) \<or>
       (\<exists>se. register sha hx io now rid s r cs = (Inr se, cs') \<and> h' = h\<lparr>ch_session := Some se\<rparr>)))"
  using assms by (auto simp: handle_reg_def Let_def split: if_splits sum.splits RequestMessage.splits option.splits prod.splits)

lemma handle_confirm_cases:
  assumes "handle_confirm_reg env io h cs = (res, effs, h', cs')"
  shows "(h' = h \<and> cs' = cs) \<or>
    (\<exists>se p. ch_session h = Some se \<and> se_status se = PendingConfirmation \<and>
      confirm_registration io (se_network_code se) (se_device_id se) (ns_store cs (se_network_state se)) (db_pool cs) = (Inr (), p) \<and>
      h' = h\<lparr>ch_session := Some (se\<lparr>se_status := Confirmed\<rparr>)\<rparr> \<and> cs' = cs\<lparr>db_pool := p\<rparr>)"
proof -
  have same: "p = db_pool cs" if "confirm_registration io c k st (db_pool cs) = (Inl e, p)" for c k st e p
    using that by (auto simp: confirm_registration_def save_or_update_device_def with_pool_def split: option.splits if_splits)
  show ?thesis
    using assms same by (auto simp: handle_confirm_reg_def split: option.splits sum.splits if_splits prod.splits)
qed

text \<open>What a frame does to the service.\<close>

lemma handle_data_steps:
  assumes "handle_data env mgr io order ips now buf h cs = (res, effs, h', cs')"
  shows "(h' = h \<and> cs' = cs) \<or>
    (\<exists>se. ch_session h = Some se \<and>
      ((\<exists>p. se_status se = PendingConfirmation \<and>
         confirm_registration io (se_network_code se) (se_device_id se) (ns_store cs (se_network_state se)) (db_pool cs) = (Inr (), p) \<and>
         h' = h\<lparr>ch_session := Some (se\<lparr>se_status := Confirmed\<rparr>)\<rparr> \<and> cs' = cs\<lparr>db_pool := p\<rparr>) \<or>
       h' = h \<and> (\<exists>evs a. (a = se_network_state se \<or> network_states cs (se_network_code se) = Some a) \<and>
         list_all session_event evs \<and> cs' = cs\<lparr>ns_store := (ns_store cs)(a := fold ns_step evs (ns_store cs a))\<rparr>)))"
proof (cases "ch_session h")
  case None
  then show ?thesis using assms by (simp add: handle_data_def)
next
  case (Some se)
  show ?thesis
  proof (cases "se_status se")
    case PendingConfirmation
    show ?thesis
      using handle_data_pending [OF assms Some PendingConfirmation] Some
      by (auto dest: handle_confirm_cases)
  next
    case Confirmed
    let ?a = "se_network_state se" and ?tx = "Tx (src_id buf) (length buf)"
    consider (err) "h' = h" "cs' = cs"
      | (gw) "h' = h" "handle_gateway env order now buf h cs = (res, effs, cs')"
      | (route) t where "h' = h"
          "route_packet env mgr ips se t buf (cs\<lparr>ns_store := (ns_store cs)(?a := ns_step ?tx (ns_store cs ?a))\<rparr>) = (res, effs, cs')"
      using handle_data_confirmed [OF assms Some Confirmed] by auto
    then show ?thesis
    proof cases
      case err
      then show ?thesis by simp
    next
      case gw
      consider "cs' = cs" | a ms where "network_states cs (se_network_code se) = Some a"
          "cs' = cs\<lparr>ns_store := (ns_store cs)(a := ns_step (Latency (se_ip se) ms) (ns_store cs a))\<rparr>"
        using gateway_frame [OF gw(2) Some] by auto
      then show ?thesis
      proof cases
        case 2
        then show ?thesis using gw(1) Some
          by (intro disjI2 exI [of _ se] conjI exI [of _ "[Latency (se_ip se) ms]"] exI [of _ a]) simp_all
      qed (use gw in simp)
    next
      case route
      obtain st where st: "cs' = cs\<lparr>ns_store := (ns_store cs)(?a := st)\<rparr>"
        "st = ns_step ?tx (ns_store cs ?a) \<or> (\<exists>n. st = ns_step (Rx (dest_id buf) n) (ns_step ?tx (ns_store cs ?a)))"
        using route_packet_frame [OF route(2)] by auto
      then obtain evs where "st = fold ns_step evs (ns_store cs ?a)" "list_all session_event evs"
      proof (elim disjE exE)
        assume "st = ns_step ?tx (ns_store cs ?a)"
        then show ?thesis using that [of "[?tx]"] by simp
      next
        fix n assume "st = ns_step (Rx (dest_id buf) n) (ns_step ?tx (ns_store cs ?a))"
        then show ?thesis using that [of "[?tx, Rx (dest_id buf) n]"] by simp
      qed
      then have "list_all session_event evs \<and> cs' = cs\<lparr>ns_store := (ns_store cs)(?a := fold ns_step evs (ns_store cs ?a))\<rparr>"
        using st(1) by simp
      then show ?thesis using route(1) Some by blast
    qed
  qed
qed


section \<open>Refinement\<close>

lemma service_step_frame:
  assumes "service_step sha hx net_new (cs, []) (cs', [])"
  shows "service_step sha hx net_new (cs, ss) (cs', ss)"
  using assms by (cases rule: service_step.cases) (auto intro: service_step.intros)

lemma used_steps:
  assumes "se \<in> set ss" "a = se_network_state se \<or> network_states cs (se_network_code se) = Some a" "list_all session_event evs"
  shows "(service_step sha hx net_new)\<^sup>*\<^sup>* (cs, ss) (cs\<lparr>ns_store := (ns_store cs)(a := fold ns_step evs (ns_store cs a))\<rparr>, ss)"
  using assms(2,3)
proof (induction evs arbitrary: cs)
  case (Cons ev evs)
  let ?cs = "cs\<lparr>ns_store := (ns_store cs)(a := ns_step ev (ns_store cs a))\<rparr>"
  have "service_step sha hx net_new (cs, ss) (?cs, ss)"
    by (rule service_step.used [OF assms(1)]) (use Cons.prems in simp_all)
  moreover have "(service_step sha hx net_new)\<^sup>*\<^sup>* (?cs, ss)
      (?cs\<lparr>ns_store := (ns_store ?cs)(a := fold ns_step evs (ns_store ?cs a))\<rparr>, ss)"
    by (rule Cons.IH) (use Cons.prems in simp_all)
  ultimately have "(service_step sha hx net_new)\<^sup>*\<^sup>* (cs, ss)
      (?cs\<lparr>ns_store := (ns_store ?cs)(a := fold ns_step evs (ns_store ?cs a))\<rparr>, ss)"
    by (rule converse_rtranclp_into_rtranclp)
  moreover have "?cs\<lparr>ns_store := (ns_store ?cs)(a := fold ns_step evs (ns_store ?cs a))\<rparr> =
      cs\<lparr>ns_store := (ns_store cs)(a := fold ns_step (ev # evs) (ns_store cs a))\<rparr>" by simp
  ultimately show ?case by (simp only:)
qed simp

lemma server_step_simulated:
  assumes "server_step env sha hx net_new (cs, hs) (cs', hs')" "mset ss = sessions_of hs"
  shows "\<exists>ss'. mset ss' = sessions_of hs' \<and> (service_step sha hx net_new)\<^sup>*\<^sup>* (cs, ss) (cs', ss')"
  using assms(1)
proof (cases rule: server_step.cases)
  case (accepted s)
  then show ?thesis using assms(2) by (auto simp: ControlHandler_new_def)
next
  case (first i io now rid buf res effs h')
  consider "h' = hs ! i" "cs' = cs"
    | r s e where "RequestMessage_from_slice (decode_request env) buf = Inr (ReqReg r)" "h' = hs ! i"
        "register sha hx io now rid s r cs = (Inl e, cs')"
    | r s se where "RequestMessage_from_slice (decode_request env) buf = Inr (ReqReg r)" "ch_session (hs ! i) = None"
        "register sha hx io now rid s r cs = (Inr se, cs')" "h' = (hs ! i)\<lparr>ch_session := Some se\<rparr>"
    using handle_reg_cases [OF first(3)] by blast
  then show ?thesis
  proof cases
    case 1
    then show ?thesis using first assms(2) by auto
  next
    case 2
    then have "service_step sha hx net_new (cs, ss) (cs', ss)" using first(4) by (auto intro: service_step.refused)
    then show ?thesis using 2 first assms(2) by auto
  next
    case 3
    then have "service_step sha hx net_new (cs, ss) (cs', se # ss)" using first(4) by (auto intro: service_step.registered)
    moreover have "mset (se # ss) = sessions_of hs'"
      using 3 first assms(2) sessions_split [of i hs] by (simp add: sessions_update)
    ultimately show ?thesis by blast
  qed
next
  case (frame i mgr io order ips now buf res effs h')
  note mem = session_member [OF frame(2)]
  consider "h' = hs ! i" "cs' = cs"
    | se p where "ch_session (hs ! i) = Some se" "se_status se = PendingConfirmation"
        "confirm_registration io (se_network_code se) (se_device_id se) (ns_store cs (se_network_state se)) (db_pool cs) = (Inr (), p)"
        "h' = (hs ! i)\<lparr>ch_session := Some (se\<lparr>se_status := Confirmed\<rparr>)\<rparr>" "cs' = cs\<lparr>db_pool := p\<rparr>"
    | se evs a where "ch_session (hs ! i) = Some se" "h' = hs ! i" "list_all session_event evs"
        "a = se_network_state se \<or> network_states cs (se_network_code se) = Some a"
        "cs' = cs\<lparr>ns_store := (ns_store cs)(a := fold ns_step evs (ns_store cs a))\<rparr>"
    using handle_data_steps [OF frame(3)] by blast
  then show ?thesis
  proof cases
    case 1
    then show ?thesis using frame assms(2) by auto
  next
    case 2
    have in_ss: "se \<in> set ss" using mem [OF 2(1)] assms(2) by (metis set_mset_mset)
    have "service_step sha hx net_new (cs, ss) (cs', se\<lparr>se_status := Confirmed\<rparr> # remove1 se ss)"
      unfolding 2(5) by (rule service_step.confirmed [OF in_ss 2(2,3)])
    moreover have "mset (se\<lparr>se_status := Confirmed\<rparr> # remove1 se ss) = sessions_of hs'"
      using 2(1,4) frame assms(2) sessions_split [of i hs] by (simp add: sessions_update)
    ultimately show ?thesis by blast
  next
    case 3
    have "se \<in> set ss" using mem [OF 3(1)] assms(2) by (metis set_mset_mset)
    then have "(service_step sha hx net_new)\<^sup>*\<^sup>* (cs, ss) (cs', ss)" unfolding 3(5) by (rule used_steps [OF _ 3(4,3)])
    then show ?thesis using 3(2) frame assms(2) by auto
  qed
next
  case (closed i now)
  show ?thesis
  proof (cases "ch_session (hs ! i)")
    case None
    then show ?thesis using closed assms(2) sessions_split [of i hs] by (auto simp: handler_dropped_def)
  next
    case (Some se)
    have "se \<in> set ss" using session_member [OF closed(3) Some] assms(2) by (metis set_mset_mset)
    then have "service_step sha hx net_new (cs, ss) (cs', remove1 se ss)"
      using closed Some by (auto simp: handler_dropped_def intro: service_step.dropped)
    moreover have "mset (remove1 se ss) = sessions_of hs'" using closed Some assms(2) sessions_split [of i hs] by simp
    ultimately show ?thesis by blast
  qed
next
  case background
  then show ?thesis using assms(2) by (auto intro: service_step_frame)
qed

lemma server_run_simulated:
  assumes "(server_step env sha hx net_new)\<^sup>*\<^sup>* (cs, []) (cs', hs)"
  shows "\<exists>ss. mset ss = sessions_of hs \<and> (service_step sha hx net_new)\<^sup>*\<^sup>* (cs, []) (cs', ss)"
  using assms
proof (induction "(cs', hs)" arbitrary: cs' hs rule: rtranclp_induct)
  case base
  show ?case by (intro exI [of _ "[]"]) simp
next
  case (step y)
  obtain cs1 hs1 where y: "y = (cs1, hs1)" by (cases y)
  obtain ss where ss: "mset ss = sessions_of hs1" "(service_step sha hx net_new)\<^sup>*\<^sup>* (cs, []) (cs1, ss)" using step(3) [OF y] by blast
  show ?case using server_step_simulated [OF step(2) [unfolded y] ss(1)] ss(2) by (meson rtranclp_trans)
qed

section \<open>Channels of live sessions\<close>

text \<open>Events that do not act for the session \<open>rid\<close>.\<close>

fun foreign :: "u64 \<Rightarrow> ns_event \<Rightarrow> bool" where
  "foreign rid (Register _ _ rid' _) \<longleftrightarrow> rid' \<noteq> rid"
| "foreign rid (Offline _ _ _ rid') \<longleftrightarrow> rid' \<noteq> rid"
| "foreign rid (ReleasePre _ _ rid') \<longleftrightarrow> rid' \<noteq> rid"
| "foreign rid _ \<longleftrightarrow> True"

definition link :: "NetworkState \<Rightarrow> string \<Rightarrow> u64 \<Rightarrow> ipv4 \<Rightarrow> nat \<Rightarrow> bool" where
  "link st k rid ip c \<longleftrightarrow> (ns_session st k = Some (rid, ip) \<longrightarrow> sender_map st ip = Some c)"

lemma link_step:
  assumes "ns_inv st" "link st k rid ip c" "foreign rid ev"
  shows "link (ns_step ev st) k rid ip c"
proof (cases ev)
  case (Register now r rid' s)
  show ?thesis
  proof (cases "allocate_ip_and_get_entry now r rid' s st")
    case (Inr x)
    obtain st' ip' old entry where x: "x = (st', ip', old, entry)" by (cases x)
    have a: "ns_acquire (r, now) rid' s st = Inr (st', ip')" using Inr x by (simp add: ns_acquire_def)
    have st': "ns_step ev st = st'" using Register Inr x by simp
    show ?thesis
    proof (cases "rq_device_id r = k")
      case True
      then show ?thesis using ns_acquire_laws(2) [OF assms(1) a] assms(3) Register st' by (simp add: link_def)
    next
      case False
      have d: "device_map (lease_state st') k = device_map (lease_state st) k"
        using register_grants [OF assms(1) Inr [unfolded x]] False by auto
      then have "ns_session st' k = ns_session st k" by (simp add: ns_session_def)
      then show ?thesis using ns_acquire_laws(3) [OF assms(1) a, of k] False assms(2) st' by (auto simp: link_def)
    qed
  qed (use Register assms(2) in simp)
next
  case (Offline now k' ip' rid')
  consider "ns_step ev st = st" | e e' where "ns_session st k' = Some (rid', ip')" "device_map (lease_state st) k' = Some e"
      "device_map (lease_state (ns_step ev st)) = (device_map (lease_state st))(k' \<mapsto> e')"
      "sender_map (ns_step ev st) = (sender_map st)(ip' := None)" "de_random_id e' = rid'"
    using offline_cases [of now k' ip' rid' st] Offline
    by (auto simp: offline_ip_def offline_inner_def ns_session_Some Let_def drop_ip_def split: option.splits if_splits)
  then show ?thesis
  proof cases
    case 2
    show ?thesis
    proof (cases "k = k'")
      case True
      then show ?thesis using 2 assms(3) Offline by (auto simp: link_def ns_session_Some)
    next
      case False
      then have s: "ns_session (ns_step ev st) k = ns_session st k" using 2(3) by (simp add: ns_session_def)
      then show ?thesis using session_address_unique [OF assms(1), of k rid ip k' rid'] 2(1,4) False assms(2)
        by (auto simp: link_def)
    qed
  qed (use assms(2) in simp)
next
  case (ReleasePre k' ip' rid')
  consider "ns_step ev st = st" | "ns_session st k' = Some (rid', ip')"
      "device_map (lease_state (ns_step ev st)) = (device_map (lease_state st))(k' := None)"
      "sender_map (ns_step ev st) = (sender_map st)(ip' := None)"
    using release_cases [of k' ip' rid' st] ReleasePre by auto
  then show ?thesis
  proof cases
    case 2
    show ?thesis
    proof (cases "k = k'")
      case True
      then show ?thesis using 2 by (auto simp: link_def ns_session_Some)
    next
      case False
      then have s: "ns_session (ns_step ev st) k = ns_session st k" using 2(2) by (simp add: ns_session_def)
      then show ?thesis using session_address_unique [OF assms(1), of k rid ip k' rid'] 2(1,3) False assms(2)
        by (auto simp: link_def)
    qed
  qed (use assms(2) in simp)
next
  case (Expire order now)
  then show ?thesis using assms(2)
    by (auto simp: link_def ns_session_Some ns_remove_devices_def remove_devices_map split: if_splits)
next
  case (Forget k')
  have "ns_session (ns_step ev st) k = Some (rid, ip) \<Longrightarrow> k \<noteq> k' \<and> ns_session st k = Some (rid, ip)"
    using Forget by (auto simp: remove_device_from_memory_def Let_def ns_session_def drop_ip_def split: option.splits if_splits)
  moreover have "sender_map (ns_step ev st) ip = sender_map st ip" if "k \<noteq> k'" "ns_session st k = Some (rid, ip)"
    using Forget that session_address_unique [OF assms(1) that(2), of k']
    by (auto simp: remove_device_from_memory_def Let_def ns_session_def drop_ip_def split: option.splits)
  ultimately show ?thesis using assms(2) by (auto simp: link_def)
next
  case (Latency x ms)
  have "ns_session (ns_step ev st) k = ns_session st k" "sender_map (ns_step ev st) = sender_map st"
    using Latency by (auto simp: update_client_latency_def Let_def ns_session_def split: option.splits)
  then show ?thesis using assms(2) by (simp add: link_def)
next
  case (Tx x n)
  then show ?thesis using assms(2) by (simp add: link_def ns_session_def)
next
  case (Rx x n)
  then show ?thesis using assms(2) by (simp add: link_def ns_session_def)
next
  case (Touch now)
  then show ?thesis using assms(2) by (simp add: link_def ns_session_def update_time_def)
qed

lemma link_run:
  "ns_inv st \<Longrightarrow> link st k rid ip c \<Longrightarrow> list_all (foreign rid) evs \<Longrightarrow> link (fold ns_step evs st) k rid ip c"
  by (induction evs arbitrary: st) (simp_all add: link_step ns_step_inv)

text \<open>The network states that exist change by events foreign to a session.\<close>

definition foreign_steps :: "u64 \<Rightarrow> ControlService \<Rightarrow> ControlService \<Rightarrow> bool" where
  "foreign_steps rid cs cs' \<longleftrightarrow> (\<forall>a < ns_fresh cs. \<exists>evs. list_all (foreign rid) evs \<and> ns_store cs' a = fold ns_step evs (ns_store cs a))"

lemma foreign_same: "ns_store cs' = ns_store cs \<Longrightarrow> foreign_steps rid cs cs'"
  unfolding foreign_steps_def by (metis fold_simps(1) list.pred_inject(1))

lemma foreign_one:
  assumes "list_all (foreign rid) evs" "ns_store cs' = (ns_store cs)(a := fold ns_step evs (ns_store cs a))"
  shows "foreign_steps rid cs cs'"
  unfolding foreign_steps_def
proof (intro allI impI)
  fix b
  show "\<exists>evs. list_all (foreign rid) evs \<and> ns_store cs' b = fold ns_step evs (ns_store cs b)"
    using assms by (cases "b = a") (auto intro: exI [of _ "[]"])
qed

lemma foreign_get_or_create:
  assumes "get_or_create_network_state io now code config cs = (a, cs')"
  shows "foreign_steps rid cs cs'"
proof (cases "network_states cs code")
  case (Some b)
  then show ?thesis using assms by (intro foreign_one [of _ "[Touch now]" _ _ b]) (auto simp: get_or_create_network_state_def)
next
  case None
  then have "ns_store cs' b = ns_store cs b" if "b < ns_fresh cs" for b
    using assms that by (auto simp: get_or_create_network_state_def Let_def)
  then show ?thesis unfolding foreign_steps_def by (metis fold_simps(1) list.pred_inject(1))
qed

lemma foreign_register:
  assumes "register sha hx io now rid' s r cs = (res, cs')" "rid' \<noteq> rid"
  shows "foreign_steps rid cs cs'"
proof (cases "admit sha hx r cs")
  case (Inr config)
  obtain a cs1 where g: "get_or_create_network_state io now (rq_network_code r) config cs = (a, cs1)"
    by (cases "get_or_create_network_state io now (rq_network_code r) config cs")
  note f = foreign_get_or_create [OF g, of rid]
  show ?thesis
  proof (cases "allocate_ip_and_get_entry now r rid' s (ns_store cs1 a)")
    case (Inl e)
    then show ?thesis using assms(1) Inr g f by (simp add: register_def)
  next
    case al: (Inr x)
    then have st: "ns_store cs' = (ns_store cs1)(a := ns_step (Register now r rid' s) (ns_store cs1 a))"
      using assms(1) Inr g by (cases x) (auto simp: register_def)
    show ?thesis unfolding foreign_steps_def
    proof (intro allI impI)
      fix b assume "b < ns_fresh cs"
      then obtain evs where evs: "list_all (foreign rid) evs" "ns_store cs1 b = fold ns_step evs (ns_store cs b)"
        using f by (auto simp: foreign_steps_def)
      show "\<exists>evs. list_all (foreign rid) evs \<and> ns_store cs' b = fold ns_step evs (ns_store cs b)"
      proof (cases "b = a")
        case True
        then show ?thesis using evs st assms(2) by (intro exI [of _ "evs @ [Register now r rid' s]"]) simp
      next
        case False
        then show ?thesis using evs st by auto
      qed
    qed
  qed
qed (use assms(1) in \<open>simp add: register_def foreign_same\<close>)

lemma foreign_drop:
  assumes "se_random_id se \<noteq> rid"
  shows "foreign_steps rid cs (drop_session now se cs)"
proof (cases "se_status se")
  case Confirmed
  then show ?thesis using assms
    by (intro foreign_one [of _ "[Offline now (se_device_id se) (se_ip se) (se_random_id se)]" _ _ "se_network_state se"])
      (auto simp: drop_session_def Let_def split: prod.split)
next
  case PendingConfirmation
  then show ?thesis using assms
    by (intro foreign_one [of _ "[ReleasePre (se_device_id se) (se_ip se) (se_random_id se)]" _ _ "se_network_state se"])
      (simp_all add: drop_session_def Let_def)
qed

lemma foreign_session_events: "list_all session_event evs \<Longrightarrow> list_all (foreign rid) evs"
proof (induction evs)
  case (Cons ev evs)
  then show ?case by (cases ev) auto
qed simp

lemma foreign_refused:
  assumes "register sha hx io now rid' s r cs = (Inl e, cs')"
  shows "foreign_steps rid cs cs'"
proof (cases "admit sha hx r cs")
  case (Inr config)
  obtain a cs1 where g: "get_or_create_network_state io now (rq_network_code r) config cs = (a, cs1)"
    by (cases "get_or_create_network_state io now (rq_network_code r) config cs")
  then have "cs' = cs1" using assms Inr by (auto simp: register_def split: sum.splits)
  then show ?thesis using foreign_get_or_create [OF g] by simp
qed (use assms in \<open>simp add: register_def foreign_same\<close>)

lemma foreign_admin:
  "add_network net_new io created code gw nm l s cs = (res, cs') \<Longrightarrow> foreign_steps rid cs cs'"
  "update_network net_new io io' code gw nm lease s cs = (res, cs') \<Longrightarrow> foreign_steps rid cs cs'"
  "delete_network io io' code cs = (res, cs') \<Longrightarrow> foreign_steps rid cs cs'"
  "delete_device io code k cs = (res, cs') \<Longrightarrow> foreign_steps rid cs cs'"
proof -
  show "foreign_steps rid cs cs'" if "add_network net_new io created code gw nm l s cs = (res, cs')"
    using that by (intro foreign_same) (auto simp: add_network_def Let_def split: sum.splits prod.splits if_splits)
  show "foreign_steps rid cs cs'" if "update_network net_new io io' code gw nm lease s cs = (res, cs')"
    using that by (intro foreign_same) (auto simp: update_network_def split: sum.splits prod.splits if_splits)
  show "foreign_steps rid cs cs'" if "delete_network io io' code cs = (res, cs')"
    using that by (intro foreign_same) (auto simp: delete_network_def split: sum.splits prod.splits if_splits)
  show "foreign_steps rid cs cs'" if d: "delete_device io code k cs = (res, cs')"
  proof (cases "network_states cs code")
    case None
    then show ?thesis using d
      by (intro foreign_same) (auto simp: delete_device_def split: sum.splits prod.splits)
  next
    case (Some a)
    show ?thesis
    proof (cases "is_device_online k (ns_store cs a)")
      case True
      then show ?thesis using d Some by (intro foreign_same) (simp add: delete_device_def)
    next
      case False
      then show ?thesis using d Some
        by (intro foreign_one [of _ "[Forget k]" _ _ a]) (auto simp: delete_device_def Let_def split: sum.splits prod.splits)
    qed
  qed
qed

lemma foreign_background:
  assumes "service_step sha hx net_new (cs, []) (cs', [])"
  shows "foreign_steps rid cs cs'"
  using assms
proof (cases rule: service_step.cases)
  case (expiry code a ios now order)
  then show ?thesis
    by (intro foreign_one [of _ "if ns_collect_expired order now (ns_store cs a) = [] then [] else [Expire order now]" _ _ a])
      (auto simp: release_expired_ips_def Let_def)
qed (auto simp: run_spawned_def release_network_store intro: foreign_refused foreign_admin foreign_same)

text \<open>Every connection knows its channel, a live session is reached over the channel of its connection, and
  the random ids of the sessions differ.\<close>

definition linked :: "ControlService \<Rightarrow> nat \<Rightarrow> Session \<Rightarrow> bool" where
  "linked cs c se \<longleftrightarrow> link (ns_store cs (se_network_state se)) (se_device_id se) (se_random_id se) (se_ip se) c"

definition links_ok :: "ControlService \<times> ControlHandler list \<Rightarrow> bool" where
  "links_ok x \<longleftrightarrow>
     (\<forall>h \<in> set (snd x). \<exists>c. ch_sender h = Some c \<and> (\<forall>se. ch_session h = Some se \<longrightarrow> linked (fst x) c se)) \<and>
     (\<forall>rid. count (image_mset se_random_id (sessions_of (snd x))) rid \<le> 1)"

lemma linked_foreign:
  assumes "svc_inv cs" "se_network_state se < ns_fresh cs" "foreign_steps (se_random_id se) cs cs'" "linked cs c se"
  shows "linked cs' c se"
  using assms link_run [OF svc_invD(1) [OF assms(1,2)], of "se_device_id se" "se_random_id se" "se_ip se" c]
  by (auto simp: foreign_steps_def linked_def)

lemma linked_all:
  assumes "links_ok (cs, hs)" "service_ok (cs, ss)" "mset ss = sessions_of hs"
    and "\<And>h se. h \<in> set hs' \<Longrightarrow> ch_session h = Some se \<Longrightarrow> foreign_steps (se_random_id se) cs cs'"
    and "set hs' \<subseteq> set hs" "h \<in> set hs'"
  shows "\<exists>c. ch_sender h = Some c \<and> (\<forall>se. ch_session h = Some se \<longrightarrow> linked cs' c se)"
proof -
  have h: "h \<in> set hs" using assms(5,6) by blast
  obtain c where c: "ch_sender h = Some c" "\<And>se. ch_session h = Some se \<Longrightarrow> linked cs c se"
    using assms(1) h by (auto simp: links_ok_def)
  have "linked cs' c se" if se: "ch_session h = Some se" for se
  proof -
    obtain i where i: "i < length hs" "hs ! i = h" using h by (auto simp: in_set_conv_nth)
    have "se \<in> set ss" using session_member [OF i(1)] i(2) se assms(3) by (metis set_mset_mset)
    then have "se_network_state se < ns_fresh cs" "svc_inv cs" using assms(2) by (auto simp: service_ok_def)
    then show ?thesis using linked_foreign [OF _ _ assms(4) [OF assms(6) se] c(2) [OF se]] by blast
  qed
  then show ?thesis using c(1) by blast
qed

lemma distinct_ids:
  assumes "\<forall>rid. count (image_mset se_random_id (sessions_of hs)) rid \<le> 1" "i < length hs" "ch_session (hs ! i) = Some se"
    and "h \<in> set (take i hs @ drop (Suc i) hs)" "ch_session h = Some se'"
  shows "se_random_id se' \<noteq> se_random_id se"
proof
  assume eq: "se_random_id se' = se_random_id se"
  let ?rest = "take i hs @ drop (Suc i) hs"
  obtain j where j: "j < length ?rest" "?rest ! j = h" using assms(4) unfolding in_set_conv_nth by blast
  have "se' \<in># sessions_of ?rest" using session_member [OF j(1)] j(2) assms(5) by blast
  then obtain M where "sessions_of ?rest = add_mset se' M" by (meson multi_member_split)
  then have "sessions_of hs = add_mset se' (add_mset se M)" using sessions_split [OF assms(2)] assms(3) by simp
  then have "count (image_mset se_random_id (sessions_of hs)) (se_random_id se) \<ge> 2" using eq by simp
  then show False using assms(1) by (metis Suc_1 not_less_eq_eq)
qed


lemma in_update: "h \<in> set (hs[i := h']) \<Longrightarrow> i < length hs \<Longrightarrow> h = h' \<or> h \<in> set (take i hs @ drop (Suc i) hs)"
  by (auto simp: upd_conv_take_nth_drop)

lemma take_drop_sub: "set (take i hs @ drop (Suc i) hs) \<subseteq> set hs"
  by (auto dest: in_set_takeD in_set_dropD)

lemma links_ok_confirmed:
  assumes "links_ok (cs, hs)" "i < length hs" "ch_session (hs ! i) = Some se" "ns_store cs' = ns_store cs"
  shows "links_ok (cs', hs[i := (hs ! i)\<lparr>ch_session := Some (se\<lparr>se_status := Confirmed\<rparr>)\<rparr>])"
proof -
  let ?h = "(hs ! i)\<lparr>ch_session := Some (se\<lparr>se_status := Confirmed\<rparr>)\<rparr>"
  have l: "linked cs' c x = linked cs c x" for c x by (simp add: assms(4) linked_def)
  obtain c where c: "ch_sender (hs ! i) = Some c" "linked cs c se"
    using assms(1,3) nth_mem [OF assms(2)] unfolding links_ok_def fst_conv snd_conv by blast
  have "\<exists>c. ch_sender h = Some c \<and> (\<forall>x. ch_session h = Some x \<longrightarrow> linked cs' c x)"
    if "h \<in> insert ?h (set hs)" for h
  proof (cases "h = ?h")
    case True
    then show ?thesis using c by (simp add: l) (simp add: linked_def)
  next
    case False
    then have "h \<in> set hs" using that by simp
    then show ?thesis using assms(1) by (simp add: links_ok_def l)
  qed
  moreover have "set (hs[i := ?h]) \<subseteq> insert ?h (set hs)" by (rule set_update_subset_insert)
  moreover have "image_mset se_random_id (sessions_of (hs[i := ?h])) = image_mset se_random_id (sessions_of hs)"
    using assms(2,3) sessions_split [of i hs] by (simp add: sessions_update)
  ultimately show ?thesis using assms(1) unfolding links_ok_def fst_conv snd_conv by (metis (no_types, lifting) subsetD)
qed

lemma links_ok_step:
  assumes "server_step env sha hx net_new (cs, hs) (cs', hs')" "links_ok (cs, hs)" "service_ok (cs, ss)" "mset ss = sessions_of hs"
  shows "links_ok (cs', hs')"
  using assms(1)
proof (cases rule: server_step.cases)
  case (accepted s)
  then show ?thesis using assms(2) by (auto simp: links_ok_def ControlHandler_new_def)
next
  case (first i io now rid buf res effs h')
  let ?rest = "take i hs @ drop (Suc i) hs"
  have ids: "\<forall>rid. count (image_mset se_random_id (sessions_of hs)) rid \<le> 1" using assms(2) by (simp add: links_ok_def)
  consider "h' = hs ! i" "cs' = cs"
    | r s e where "h' = hs ! i" "register sha hx io now rid s r cs = (Inl e, cs')"
    | r s se where "RequestMessage_from_slice (decode_request env) buf = Inr (ReqReg r)" "ch_session (hs ! i) = None"
        "ch_sender (hs ! i) = Some s" "register sha hx io now rid s r cs = (Inr se, cs')" "h' = (hs ! i)\<lparr>ch_session := Some se\<rparr>"
    using handle_reg_cases [OF first(3)] by blast
  then show ?thesis
  proof cases
    case 1
    then show ?thesis using first assms(2) by simp
  next
    case 2
    then have "foreign_steps x cs cs'" for x by (intro foreign_refused)
    then show ?thesis using 2 first ids linked_all [OF assms(2-4), of hs cs'] by (simp add: links_ok_def)
  next
    case 3
    have fresh: "se_random_id x \<noteq> rid" if "h \<in> set hs" "ch_session h = Some x" for h x
      using that first(5) session_member by (metis image_eqI in_set_conv_nth)
    have f: "foreign_steps (se_random_id x) cs cs'" if "h \<in> set ?rest" "ch_session h = Some x" for h x
      using foreign_register [OF 3(4)] fresh [OF _ that(2)] that(1) take_drop_sub [of i hs] by (metis subsetD)
    have inv: "svc_inv cs" using assms(3) by (simp add: service_ok_def)
    have se: "se_random_id se = rid" "session_live cs' se" "sender_map (ns_store cs' (se_network_state se)) (se_ip se) = Some s"
      using register_spec [OF inv first(4) [OF 3(1)] 3(4)] by simp_all
    have "\<exists>c. ch_sender h = Some c \<and> (\<forall>x. ch_session h = Some x \<longrightarrow> linked cs' c x)" if mem: "h \<in> set hs'" for h
    proof -
      consider "h = h'" | "h \<in> set ?rest" using in_update [of h hs i h'] mem first(1,2) by auto
      then show ?thesis
      proof cases
        case 1
        then show ?thesis using 3(3,5) se by (simp add: linked_def link_def)
      next
        case 2
        show ?thesis by (rule linked_all [OF assms(2-4) _ take_drop_sub 2]) (rule f)
      qed
    qed
    moreover have "sessions_of hs' = add_mset se (sessions_of hs)"
      using 3 first sessions_split [of i hs] by (simp add: sessions_update)
    moreover have "count (image_mset se_random_id (sessions_of hs)) rid = 0"
      using first(5) by (metis count_inI set_image_mset)
    ultimately show ?thesis using ids se(1) by (simp add: links_ok_def)
  qed
next
  case (frame i mgr io order ips now buf res effs h')
  let ?rest = "take i hs @ drop (Suc i) hs"
  have ids: "\<forall>rid. count (image_mset se_random_id (sessions_of hs)) rid \<le> 1" using assms(2) by (simp add: links_ok_def)
  consider "h' = hs ! i" "cs' = cs"
    | se p where "ch_session (hs ! i) = Some se" "h' = (hs ! i)\<lparr>ch_session := Some (se\<lparr>se_status := Confirmed\<rparr>)\<rparr>" "cs' = cs\<lparr>db_pool := p\<rparr>"
    | evs a where "h' = hs ! i" "list_all session_event evs"
        "cs' = cs\<lparr>ns_store := (ns_store cs)(a := fold ns_step evs (ns_store cs a))\<rparr>"
    using handle_data_steps [OF frame(3)] by blast
  then show ?thesis
  proof cases
    case 1
    then show ?thesis using frame assms(2) by simp
  next
    case 2
    then show ?thesis using links_ok_confirmed [OF assms(2) frame(2) 2(1), of cs'] frame(1) by simp
  next
    case 3
    have f: "foreign_steps x cs cs'" for x
      by (rule foreign_one [of _ evs _ _ a]) (use 3 foreign_session_events in simp_all)
    have "hs' = hs" using 3(1) frame by simp
    then show ?thesis using f ids linked_all [OF assms(2-4), of hs cs'] by (simp add: links_ok_def)
  qed
next
  case (closed i now)
  let ?rest = "take i hs @ drop (Suc i) hs"
  have ids: "\<forall>rid. count (image_mset se_random_id (sessions_of hs)) rid \<le> 1" using assms(2) by (simp add: links_ok_def)
  have f: "foreign_steps (se_random_id x) cs cs'" if "h \<in> set ?rest" "ch_session h = Some x" for h x
  proof (cases "ch_session (hs ! i)")
    case None
    then show ?thesis using closed by (simp add: handler_dropped_def foreign_same)
  next
    case (Some se)
    show ?thesis using closed(1) Some foreign_drop [of se "se_random_id x" cs now] distinct_ids [OF ids closed(3) Some that]
      by (simp add: handler_dropped_def)
  qed
  have "\<exists>c. ch_sender h = Some c \<and> (\<forall>x. ch_session h = Some x \<longrightarrow> linked cs' c x)" if "h \<in> set ?rest" for h
    by (rule linked_all [OF assms(2-4) _ take_drop_sub that]) (rule f)
  moreover have "count (image_mset se_random_id (sessions_of ?rest)) x \<le> 1" for x
  proof -
    have "count (image_mset se_random_id (sessions_of ?rest)) x \<le> count (image_mset se_random_id (sessions_of hs)) x"
      unfolding sessions_split [OF closed(3)] image_mset_union count_union by simp
    then show ?thesis using ids by (meson le_trans)
  qed
  ultimately show ?thesis using closed(2) by (simp add: links_ok_def)
next
  case background
  then have "foreign_steps x cs cs'" for x by (intro foreign_background)
  then show ?thesis using background assms(2) linked_all [OF assms(2-4), of hs cs'] by (simp add: links_ok_def)
qed

lemma server_run_ok:
  assumes "ipnet_ok net_new" "service_ok (cs, [])" "(server_step env sha hx net_new)\<^sup>*\<^sup>* (cs, []) (cs', hs)"
  shows "links_ok (cs', hs) \<and> (\<exists>ss. mset ss = sessions_of hs \<and> service_ok (cs', ss))"
  using assms(3)
proof (induction "(cs', hs)" arbitrary: cs' hs rule: rtranclp_induct)
  case base
  then show ?case using assms(2) by (auto simp: links_ok_def intro: exI [of _ "[]"])
next
  case (step y)
  obtain cs1 hs1 where y: "y = (cs1, hs1)" by (cases y)
  obtain ss where ss: "links_ok (cs1, hs1)" "mset ss = sessions_of hs1" "service_ok (cs1, ss)" using step(3) [OF y] by blast
  obtain ss' where "mset ss' = sessions_of hs" "(service_step sha hx net_new)\<^sup>*\<^sup>* (cs1, ss) (cs', ss')"
    using server_step_simulated [OF step(2) [unfolded y] ss(2)] by blast
  then show ?case using links_ok_step [OF step(2) [unfolded y] ss(1,3,2)] service_run_ok [OF assms(1) _ ss(3)] by blast
qed


section \<open>Properties\<close>


lemma no_route_no_answer:
  assumes "\<And>r. \<not> has_route m code ip r"
  shows "find_best_route nets code ip m = None"
  using best_route_spec [where nets = nets and code = code and ip = ip and m = m] assms by (auto split: option.splits)

lemma frame_reaches_session:
  assumes "ipnet_ok net_new" "\<forall>(code, net) \<in> set (custom_nets cfg). net_proper net"
    and "(server_step env sha hx net_new)\<^sup>*\<^sup>* (ControlService_new net_new io1 io2 iow t0 cfg lease store pool, []) (cs, hs)"
    and "i < length hs" "j < length hs" "ch_session (hs ! i) = Some a" "ch_session (hs ! j) = Some b"
    and "se_status a = Confirmed" "session_live cs b" "se_network_state b = se_network_state a"
    and "16 \<le> length buf" "msg_type buf = Inr t" "is_unicast t" "\<not> is_gateway buf" "1 < ttl buf" "dest_id buf = se_ip b"
    and "\<forall>m r. mgr = Some m \<longrightarrow> \<not> has_route m (se_network_code a) (se_ip b) r"
    and "handle_data env mgr io order ips now buf (hs ! i) cs = (res, effs, h', cs')"
  shows "\<exists>c. ch_sender (hs ! j) = Some c \<and> effs = [TrySend c (decr_ttl buf)]"
proof -
  have "links_ok (cs, hs)" using server_run_ok [OF assms(1) new_service_ok [OF assms(1,2)] assms(3)] by blast
  then obtain c where c: "ch_sender (hs ! j) = Some c" "linked cs c b"
    using nth_mem [OF assms(5)] assms(7) unfolding links_ok_def fst_conv snd_conv by blast
  then have s: "sender_map (ns_store cs (se_network_state a)) (dest_id buf) = Some c"
    using assms(9,10,16) by (simp add: linked_def link_def session_live_def)
  define cs1 where "cs1 = cs\<lparr>ns_store := (ns_store cs)(se_network_state a :=
    record_tx_traffic (src_id buf) (length buf) (ns_store cs (se_network_state a)))\<rparr>"
  have "route_packet env mgr ips a t buf cs1 = (res, effs, cs')"
    using handle_data_routes [OF assms(6,8,11,12,14,18)] by (simp add: cs1_def)
  then have f: "forward_unicast env mgr a buf cs1 = (effs, cs')"
    using assms(13) by (auto simp: route_packet_def split: prod.splits)
  have "find_best_route nets (se_network_code a) (dest_id buf) m = None" if "mgr = Some m" for m nets
    using no_route_no_answer assms(16,17) that by metis
  moreover have "server_decr_ttl buf = Some (decr_ttl buf)" using assms(15) by (simp add: server_decr_ttl_Some)
  ultimately obtain st where "deliver_local (dest_id buf) (decr_ttl buf) (ns_store cs1 (se_network_state a)) = (st, effs)"
    using forward_unicast_spec [OF f] by auto
  then show ?thesis using c(1) s by (simp add: deliver_local_def cs1_def)
qed


section \<open>Two clients register and one writes to the other\<close>

lemma demo_two_register:
  "\<exists>a b cs1 cs2. register demo_sha demo_hex True 5 77 3 (demo_signed Normal ''a'' (Some 0x0A1A0007)) demo_service = (Inr a, cs1) \<and>
    register demo_sha demo_hex True 6 78 4 (demo_signed Normal ''b'' (Some 0x0A1A0008)) cs1 = (Inr b, cs2) \<and>
    network_states cs1 ''default'' \<noteq> None \<and>
    se_network_code a = ''default'' \<and> se_status a = Confirmed \<and> se_ip b = 0x0A1A0008 \<and> se_random_id a = 77 \<and>
    se_network_state a = se_network_state b"
  by (simp add: register_def demo_service_eq admit_def reg_check_def validate_registration_def demo_secret_good demo_key
    demo_signed_def network_config_def get_or_create_network_state_def load_all_devices_def new_from_db_def
    allocate_ip_and_get_entry_def allocate_ip_def place_def check_requested_def demo_net_def add_device_def new_entry_def
    update_time_def MAX_NETWORK_CODE_LEN_def MAX_DEVICE_ID_LEN_def MAX_NAME_LEN_def MAX_VERSION_LEN_def Let_def)

lemma demo_decodes:
  "RequestMessage_from_slice (decode_request demo_env) [2] = Inr (ReqReg (demo_signed Normal ''a'' (Some 0x0A1A0007)))"
  "RequestMessage_from_slice (decode_request demo_env) [3] = Inr (ReqReg (demo_signed Normal ''b'' (Some 0x0A1A0008)))"
  by (simp_all add: RequestMessage_from_slice_def demo_env_def)

text \<open>A frame that decodes to an admitted request starts a session.\<close>

lemma handle_reg_registers:
  assumes "ch_session h = None" "ch_sender h = Some s" "RequestMessage_from_slice (decode_request env) buf = Inr (ReqReg r)"
    and "register sha hx io now rid s r cs = (Inr se, cs')"
  shows "\<exists>res effs. handle_reg env sha hx io now rid buf h cs = (res, effs, h\<lparr>ch_session := Some se\<rparr>, cs')"
  using assms by (auto simp: handle_reg_def Let_def split: prod.split)

lemma demo_server_run:
  "\<exists>a b cs. (server_step demo_env demo_sha demo_hex demo_net_new)\<^sup>*\<^sup>* (demo_service, [])
      (cs, [\<lparr>ch_sender = Some 4, ch_session = Some b\<rparr>, \<lparr>ch_sender = Some 3, ch_session = Some a\<rparr>]) \<and>
    session_live cs b \<and> se_network_code a = ''default'' \<and> se_status a = Confirmed \<and> se_ip b = 0x0A1A0008 \<and>
    se_network_state b = se_network_state a"
proof -
  obtain a b cs1 cs2 where r: "register demo_sha demo_hex True 5 77 3 (demo_signed Normal ''a'' (Some 0x0A1A0007)) demo_service = (Inr a, cs1)"
      "register demo_sha demo_hex True 6 78 4 (demo_signed Normal ''b'' (Some 0x0A1A0008)) cs1 = (Inr b, cs2)"
      "network_states cs1 ''default'' \<noteq> None"
      "se_network_code a = ''default''" "se_status a = Confirmed" "se_ip b = 0x0A1A0008" "se_random_id a = 77"
      "se_network_state a = se_network_state b"
    using demo_two_register by blast
  have code: "rq_network_code (demo_signed md k ip) = ''default''" for md k ip by (simp add: demo_signed_def)
  have l1: "loadable True ''default'' demo_service"
    by (simp add: loadable_def demo_service_eq load_all_devices_def records_ok_def)
  have l2: "loadable True ''default'' cs1" using r(3) by (auto simp: loadable_def)
  let ?S = "server_step demo_env demo_sha demo_hex demo_net_new" and ?n = "\<lambda>s. ControlHandler_new (Some s)"
  let ?ha = "\<lparr>ch_sender = Some 3, ch_session = Some a\<rparr>" and ?hb = "\<lparr>ch_sender = Some 4, ch_session = Some b\<rparr>"
  have 1: "?S (demo_service, []) (demo_service, [?n 3])" by (rule server_step.accepted)
  obtain res effs where a: "handle_reg demo_env demo_sha demo_hex True 5 77 [2] (?n 3) demo_service = (res, effs, ?ha, cs1)"
    using handle_reg_registers [of "?n 3" 3, OF _ _ demo_decodes(1) r(1)] by (auto simp: ControlHandler_new_def)
  have 2: "?S (demo_service, [?n 3]) (cs1, [?ha])"
    using server_step.first [of 0 "[?n 3]", simplified, OF a] l1 by (simp add: demo_decodes code ControlHandler_new_def)
  have 3: "?S (cs1, [?ha]) (cs1, [?n 4, ?ha])" by (rule server_step.accepted)
  obtain res' effs' where b: "handle_reg demo_env demo_sha demo_hex True 6 78 [3] (?n 4) cs1 = (res', effs', ?hb, cs2)"
    using handle_reg_registers [of "?n 4" 4, OF _ _ demo_decodes(2) r(2)] by (auto simp: ControlHandler_new_def)
  have 4: "?S (cs1, [?n 4, ?ha]) (cs2, [?hb, ?ha])"
    using server_step.first [of 0 "[?n 4, ?ha]", simplified, OF b] l2 r(7) by (simp add: demo_decodes code ControlHandler_new_def)
  have inv: "svc_inv cs1" using register_inv_service [OF demo_service_inv _ r(1)] l1 by (simp add: code)
  have "session_live cs2 b" using registration_live [OF inv _ r(2)] l2 by (simp add: code)
  moreover have "?S\<^sup>*\<^sup>* (demo_service, []) (cs2, [?hb, ?ha])" using 1 2 3 4 by (meson converse_rtranclp_into_rtranclp rtranclp.rtrancl_refl)
  ultimately show ?thesis using r by metis
qed



end
