(* ===== verification/EndToEnd.thy ===== *)
theory EndToEnd
  imports Tunnel ServerRun
begin

text \<open>
  The whole path of an IP packet: from the virtual interface of one client, through the server's connections
  and sessions, to the virtual interface of the client that holds the destination address; and the direct path,
  with a third client as a relay.
\<close>

section \<open>Through the server\<close>



end
