(* ===== verification/ClientSafety.thy ===== *)
theory ClientSafety
  imports Tunnel
begin

text \<open>
  What a client lets through and what it lets out: only frames that were opened with the key reach the host
  (\<open>only_opened_reaches_host\<close>), a frame for somebody else is passed on unopened, fewer times than its TTL
  (\<open>relay_bounded\<close>), and every frame to one client is sealed under one nonce (\<open>nonce_repeats\<close>).
\<close>

section \<open>Effects of the handlers\<close>

fun to_host :: "'k client_effect \<Rightarrow> bool" where
  "to_host (ToTun _) = True"
| "to_host (ToNatStack _) = True"
| "to_host _ = False"

fun to_peer :: "'k client_effect \<Rightarrow> bool" where
  "to_peer (ToPeer _ _) = True"
| "to_peer _ = False"

text \<open>No effect of the list is one of \<open>P\<close>.\<close>

definition quiet :: "('k client_effect \<Rightarrow> bool) \<Rightarrow> 'k client_effect list \<Rightarrow> bool" where
  "quiet P effs \<longleftrightarrow> (\<forall>e \<in> set effs. \<not> P e)"

lemma quiet_simps [simp]: "quiet P []" "quiet P (e # es) \<longleftrightarrow> \<not> P e \<and> quiet P es" "quiet P (xs @ ys) \<longleftrightarrow> quiet P xs \<and> quiet P ys"
  by (auto simp: quiet_def)

lemma answer_quiet: "answer env d = (res, effs) \<Longrightarrow> quiet to_peer effs \<and> quiet to_host effs"
  by (auto simp: answer_def send_or_def split: if_splits)

lemma answer_sealed_quiet:
  "answer_sealed env conf t hops src dest n pl = (res, effs) \<Longrightarrow> quiet to_peer effs \<and> quiet to_host effs"
  by (auto simp: answer_sealed_def dest: answer_quiet split: sum.splits)

lemma tun_quiet: "enhanced_tun_inbound env tun net data = (res, effs) \<Longrightarrow> quiet to_peer effs"
  by (cases tun) (auto simp: tun_send_def internal_nat_send_def send_or_def split: sum.splits if_splits)

lemma deliver_quiet: "deliver env conf net t src data = (res, effs) \<Longrightarrow> quiet to_peer effs"
  by (auto simp: deliver_def deliver_turn_def internal_nat_send_def send_or_def
    split: if_splits option.splits sum.splits bool.splits dest: tun_quiet)

lemma enhanced_inbound_quiet: "enhanced_inbound env conf net t src p nd = (res, effs, nd') \<Longrightarrow> quiet to_peer effs"
  by (auto simp: enhanced_inbound_def Let_def split: sum.splits prod.splits dest: deliver_quiet)

lemma peer_process_quiet:
  "peer_process env conf inst now net k t src dest m p nd = (res, effs, nd') \<Longrightarrow> quiet to_peer effs"
  by (auto simp: peer_process_def peer_ping_def Let_def split: if_splits sum.splits prod.splits bool.splits
    dest: enhanced_inbound_quiet answer_sealed_quiet)

lemma process_all_quiet:
  assumes "\<And>p nd res effs nd'. f p nd = (res, effs, nd') \<Longrightarrow> quiet P effs"
  shows "process_all f ps nd = (res, effs, nd') \<Longrightarrow> quiet P effs"
  by (induction ps arbitrary: nd res effs nd') (auto split: prod.splits sum.splits dest: assms)

lemma after_fec_quiet:
  assumes "\<And>p nd res effs nd'. f p nd = (res, effs, nd') \<Longrightarrow> quiet P effs"
    and "after_fec env order inst f p nd = (res, effs, nd')"
  shows "quiet P effs"
  using assms(2) process_all_quiet [where f = "\<lambda>p. f (tb_from_slice (ce_al env) p)" and P = P] assms(1)
  by (auto simp: after_fec_def split: if_splits prod.splits sum.splits option.splits)

lemma after_decompress_quiet:
  assumes "\<And>p nd res effs nd'. f p nd = (res, effs, nd') \<Longrightarrow> quiet P effs"
    and "after_decompress env conf f p nd = (res, effs, nd')"
  shows "quiet P effs"
  using assms by (auto simp: after_decompress_def split: sum.splits)

section \<open>Relaying\<close>

lemma packet_new_Inr: "packet_new r = Inr p \<Longrightarrow> tb_ok r \<Longrightarrow> p = r \<and> 16 \<le> length (tb_view r)"
  by (auto simp: packet_new_def)

text \<open>The three ways a frame from a peer can have an effect.\<close>

lemma peer_handle_cases:
  assumes "tb_ok r" "peer_handle env conf order inst now k r nd = (res, effs, nd')" "effs \<noteq> []"
  obtains (relayed) "16 \<le> length (tb_view r)" "\<not> max_ttl (decr_ttl (tb_view r)) \<le> ttl (decr_ttl (tb_view r))"
      "relay env (dest_id (tb_view r)) (tb_map decr_ttl r) nd = (res, effs)" "nd' = nd"
    | (quic) net src where "after_fec env order inst (enhanced_inbound env conf net Quic src) (tb_map decr_ttl r) nd = (res, effs, nd')"
    | (opened) net t src dest m r' where "16 \<le> length (tb_view r)"
      "decrypt_in_place (ce_unseal env) (cc_crypto conf) (tb_map decr_ttl r) = Inr r'"
      "after_fec env order inst (after_decompress env conf (peer_process env conf inst now net k t src dest m)) r' nd = (res, effs, nd')"
proof -
  obtain t where t: "packet_new r = Inr r" "msg_type (tb_view r) = Inr t" "16 \<le> length (tb_view r)"
    using assms packet_new_Inr by (fastforce simp: peer_handle_def split: sum.splits)
  let ?q = "tb_map decr_ttl r"
  have v: "tb_view ?q = decr_ttl (tb_view r)" using tb_map_ok [OF assms(1), of decr_ttl] t(3) by simp
  obtain net where net: "as_network nd = Some net" "\<not> max_ttl (tb_view ?q) \<le> ttl (tb_view ?q)"
    using assms(2,3) t(1,2) by (auto simp: peer_handle_def Let_def split: if_splits option.splits)
  let ?dest = "dest_id (tb_view r)" and ?src = "src_id (tb_view r)"
  consider "relay env ?dest ?q nd = (res, effs)" "nd' = nd"
    | "after_fec env order inst (enhanced_inbound env conf net Quic ?src) ?q nd = (res, effs, nd')"
    | r' where "decrypt_in_place (ce_unseal env) (cc_crypto conf) ?q = Inr r'"
      "after_fec env order inst (after_decompress env conf (peer_process env conf inst now net k t ?src ?dest
         (max_ttl (tb_view ?q) - ttl (tb_view ?q)))) r' nd = (res, effs, nd')"
    using assms(2,3) t(1,2) net v by (auto simp: peer_handle_def Let_def split: if_splits prod.splits sum.splits)
  then show ?thesis using relayed quic opened t(3) net(2) v by cases auto
qed

lemma fec_inbound_quiet: "after_fec env order inst (enhanced_inbound env' conf net t src) p nd = (res, effs, nd') \<Longrightarrow> quiet to_peer effs"
  by (erule after_fec_quiet [rotated]) (rule enhanced_inbound_quiet)

lemma fec_process_quiet:
  "after_fec env order inst (after_decompress env conf (peer_process env conf i now net k t src dest m)) p nd = (res, effs, nd')
    \<Longrightarrow> quiet to_peer effs"
  by (erule after_fec_quiet [rotated], erule after_decompress_quiet [rotated]) (rule peer_process_quiet)

lemma peer_handle_relays:
  assumes "tb_ok r" "peer_handle env conf order inst now k r nd = (res, effs, nd')" "ToPeer k' q \<in> set effs"
  shows "effs = [ToPeer k' q] \<and> nd' = nd \<and> q = decr_ttl (tb_view r) \<and> ttl q \<noteq> 0 \<and> ttl q < max_ttl q \<and>
    (\<exists>rt. get_by_id (as_routes nd) (dest_id (tb_view r)) = Some rt \<and> route_key rt = k')"
proof -
  have n: "\<not> quiet to_peer effs" "effs \<noteq> []" using assms(3) by (force simp: quiet_def)+
  show ?thesis
  proof (cases rule: peer_handle_cases [OF assms(1,2) n(2), case_names relayed quic opened])
    case relayed
    have "tb_ok (tb_map decr_ttl r)" "tb_view (tb_map decr_ttl r) = decr_ttl (tb_view r)"
      using tb_map_ok [OF assms(1), of decr_ttl] relayed(1) by simp_all
    then show ?thesis
      using assms(3) relayed by (auto simp: relay_def tb_into_bytes_view send_or_def split: if_splits option.splits)
  next
    case quic
    then show ?thesis using n(1) fec_inbound_quiet by blast
  next
    case opened
    then show ?thesis using n(1) fec_process_quiet [OF opened(3)] by blast
  qed
qed

lemma peer_handle_passes_on:
  assumes "tb_ok r" "tb_view r = p" "16 \<le> length p" "msg_type p = Inr t" "src_id p \<noteq> dest_id p" "as_network nd = Some net"
    and "dest_id p \<notin> {na_ip net, na_broadcast net, BROADCAST, UNSPECIFIED}" "1 < unat (ttl p)" "ttl p \<le> max_ttl p"
    and "get_by_id (as_routes nd) (dest_id p) = Some rt" "\<And>f. ce_peer_takes env (route_key rt) f"
  shows "peer_handle env conf order inst now k r nd = (Inr (), [ToPeer (route_key rt) (decr_ttl p)], nd)"
proof -
  have q: "tb_ok (tb_map decr_ttl r)" "tb_view (tb_map decr_ttl r) = decr_ttl p"
    using tb_map_ok [OF assms(1), of decr_ttl] assms(2,3) by simp_all
  have t: "unat (ttl (decr_ttl p)) = unat (ttl p) - 1" "max_ttl (decr_ttl p) = max_ttl p" using hop_count [of 1 p] by simp_all
  have "ttl (decr_ttl p) \<noteq> 0" using t(1) assms(8) by (auto simp: unat_eq_0)
  moreover have "\<not> max_ttl (decr_ttl p) \<le> ttl (decr_ttl p)"
    using t assms(8,9) by (simp add: word_le_nat_alt)
  ultimately show ?thesis
    using assms q by (auto simp: peer_handle_def Let_def relay_def tb_into_bytes_view send_or_def split: option.splits)
qed

type_synonym ('key, 'k) hop = "('key, 'k) inbound_env \<times> 'key inbound_conf \<times> 'k Node"

text \<open>The frame \<open>q\<close> comes out of the last of the clients that pass \<open>p\<close> on to one another.\<close>

fun relayed_by :: "('key, 'k) hop list \<Rightarrow> bytes \<Rightarrow> bytes \<Rightarrow> bool" where
  "relayed_by [] p q \<longleftrightarrow> p = q"
| "relayed_by ((env, conf, nd) # hops) p q \<longleftrightarrow>
     (\<exists>order inst now k r res effs nd' k' p'. tb_ok r \<and> tb_view r = p \<and>
        peer_handle env conf order inst now k r nd = (res, effs, nd') \<and> ToPeer k' p' \<in> set effs \<and> relayed_by hops p' q)"

text \<open>C22 Relaying ends: a frame that a chain of clients passes on comes out with nothing changed but its TTL,
  lowered by one per client, and the chain is shorter than the TTL it started with, so at most fourteen clients
  ever pass a frame on, whatever cycles their routes form.\<close>

theorem relay_bounded:
  assumes "relayed_by hops p q"
  shows "q = (decr_ttl ^^ length hops) p \<and> (hops = [] \<or> length hops < unat (ttl p)) \<and> length hops \<le> 14"
proof -
  have t: "unat (ttl p) < 16" for p using hop_count [of 0 p] by simp
  have "q = (decr_ttl ^^ length hops) p \<and> (hops = [] \<or> length hops < unat (ttl p))"
    using assms
  proof (induction hops arbitrary: p)
    case (Cons h hops)
    obtain env conf nd where h: "h = (env, conf, nd)" by (cases h)
    obtain order inst now k r res effs nd' k' p' where r: "tb_ok r" "tb_view r = p"
      "peer_handle env conf order inst now k r nd = (res, effs, nd')" "ToPeer k' p' \<in> set effs" "relayed_by hops p' q"
      using Cons.prems unfolding h relayed_by.simps by blast
    have p': "p' = decr_ttl p" "ttl p' \<noteq> 0" using peer_handle_relays [OF r(1,3,4)] r(2) by blast+
    have "unat (ttl p') = unat (ttl p) - 1" using hop_count [of 1 p] p'(1) by simp
    moreover have "0 < unat (ttl p')" using p'(2) by (simp add: unat_gt_0)
    ultimately show ?case using Cons.IH [OF r(5)] p'(1) by (auto simp: funpow_swap1)
  qed simp
  then show ?thesis using t [of p] by auto
qed

section \<open>What reaches the host\<close>

definition opened :: "('key, 'k) inbound_env \<Rightarrow> 'key inbound_conf \<Rightarrow> bytes \<Rightarrow> bool" where
  "opened env conf frame \<longleftrightarrow>
     (\<forall>k. cc_crypto conf = Some k \<longrightarrow> (\<exists>n pt. make_nonce frame = Inr n \<and> ce_unseal env k n (payload frame) = Some pt))"

definition echo_reply :: "pnet \<Rightarrow> bytes \<Rightarrow> bool" where
  "echo_reply pn d \<longleftrightarrow> ipv4_new pn d \<and> next_level_protocol pn d = 1 \<and> icmp_new pn (ipv4_payload pn d) \<and>
     icmp_type pn (ipv4_payload pn d) = 0"

lemma decrypt_opened: "decrypt_in_place (ce_unseal env) (cc_crypto conf) r = Inr r' \<Longrightarrow> opened env conf (tb_view r)"
  by (auto simp: opened_def decrypt_in_place_def raw_decrypt_in_place_def Let_def split: option.splits)

lemma opened_decr_ttl: "16 \<le> length p \<Longrightarrow> opened env conf (decr_ttl p) = opened env conf p"
  using make_nonce_cong [of "decr_ttl p" p] by (simp add: opened_def)

lemma quic_quiet: "enhanced_inbound env conf net Quic src p nd = (res, effs, nd') \<Longrightarrow> quiet to_host effs"
  by (auto simp: enhanced_inbound_def deliver_def send_or_def Let_def split: sum.splits prod.splits if_splits)

lemma fec_quic_quiet: "after_fec env order inst (enhanced_inbound env' conf net Quic src) p nd = (res, effs, nd') \<Longrightarrow> quiet to_host effs"
  by (erule after_fec_quiet [rotated]) (rule quic_quiet)

lemma peer_handle_opened:
  assumes "tb_ok r" "peer_handle env conf order inst now k r nd = (res, effs, nd')" "\<not> quiet to_host effs"
  shows "opened env conf (tb_view r)"
proof -
  have n: "effs \<noteq> []" using assms(3) by auto
  show ?thesis
  proof (cases rule: peer_handle_cases [OF assms(1,2) n, case_names relayed quic opened])
    case relayed
    then show ?thesis using assms(3) by (auto simp: relay_def send_or_def split: if_splits option.splits sum.splits)
  next
    case quic
    then show ?thesis using assms(3) fec_quic_quiet by blast
  next
    case (opened net t src dest m r')
    have "tb_view (tb_map decr_ttl r) = decr_ttl (tb_view r)"
      using tb_map_ok [OF assms(1), of decr_ttl] opened(1) by simp
    then show ?thesis using decrypt_opened [OF opened(2)] opened_decr_ttl [OF opened(1)] by metis
  qed
qed

lemma deliver_to_host: "deliver env conf net t src d = (res, effs) \<Longrightarrow> e \<in> set effs \<Longrightarrow> to_host e \<Longrightarrow> e \<in> {ToTun d, ToNatStack d}"
  by (cases "ci_tun conf")
    (auto simp: deliver_def deliver_turn_def internal_nat_send_def tun_send_def send_or_def
      split: if_splits option.splits sum.splits bool.splits)

lemma handle_server_turn_to_host:
  assumes "tb_ok p" "handle_server_turn env conf net src p nd = (res, effs, nd')" "e \<in> set effs" "to_host e"
  shows "\<exists>d. e \<in> {ToTun d, ToNatStack d} \<and> echo_reply (ce_pnet env) d"
proof -
  let ?d = "payload (tb_view p)"
  have e: "echo_reply (ce_pnet env) ?d" "enhanced_inbound env conf net Turn src p nd = (res, effs, nd')"
    using assms(2,3) by (auto simp: handle_server_turn_def echo_reply_def Let_def split: if_splits)
  obtain t where t: "tb_advance_head 16 p = Inr t" and d: "deliver env conf net Turn src (tb_view t) = (res, effs)"
    using e(2) assms(3) by (auto simp: enhanced_inbound_def Let_def split: sum.splits prod.splits)
  have "tb_view t = ?d" using tb_advance_view(2) [OF assms(1) t] by (simp add: payload_def)
  then show ?thesis using deliver_to_host [OF d assms(3,4)] e(1) by auto
qed

lemma decompress_ok: "pc_decompress al lz_d self p = Inr q \<Longrightarrow> tb_ok p \<Longrightarrow> 16 \<le> length (tb_view p) \<Longrightarrow> tb_ok q"
  using lz4_decompress_packed [of p lz_d _ al]
  by (cases "is_compressed (tb_view p)")
    (auto simp: pc_decompress_def lz4_decompress_plain lz4_decompress_def Let_def split: option.splits)


text \<open>A frame from a server: what it tells the gateway flag, else the frame is opened before anything is delivered.\<close>

lemma handle_client_data_opened:
  assumes "tb_ok r" "handle_client_data env conf order inst now net r nd = (res, effs, nd')" "\<not> quiet to_host effs"
  shows "opened env conf (tb_view r)"
proof -
  obtain t where t: "packet_new r = Inr r" "msg_type (tb_view r) = Inr t"
    using assms packet_new_Inr by (fastforce simp: handle_client_data_def split: sum.splits)
  then obtain r' where "decrypt_in_place (ce_unseal env) (cc_crypto conf) r = Inr r'"
    using assms(2,3) by (auto simp: handle_client_data_def Let_def split: if_splits sum.splits dest: fec_quic_quiet)
  then show ?thesis by (rule decrypt_opened)
qed

lemma handle_server_data_to_host:
  assumes "tb_ok r" "handle_server_data env conf sids ips sid now net r nd = (res, effs, nd')" "e \<in> set effs" "to_host e"
  shows "\<exists>d. e \<in> {ToTun d, ToNatStack d} \<and> echo_reply (ce_pnet env) d"
proof -
  obtain m p where p: "packet_new r = Inr r" "msg_type (tb_view r) = Inr m" "16 \<le> length (tb_view r)"
    "pc_decompress (ce_al env) (ce_lz_d env) (cc_compression conf) r = Inr p"
    using assms packet_new_Inr by (fastforce simp: handle_server_data_def split: sum.splits)
  have n: "\<not> quiet to_host effs" using assms(3,4) by (force simp: quiet_def)
  have "m = Turn"
    using assms(2,3) n p(1,2,4)
    by (auto simp: handle_server_data_def Let_def split: if_splits sum.splits prod.splits dest: answer_quiet)
  then have "handle_server_turn env conf net (src_id (tb_view r)) p nd = (res, effs, nd')"
    using assms(2) p by (simp add: handle_server_data_def Let_def)
  then show ?thesis using handle_server_turn_to_host [OF decompress_ok [OF p(4) assms(1) p(3)] _ assms(3,4)] by blast
qed


section \<open>Nonces\<close>

lemma make_nonce_header:
  assumes "16 \<le> length p"
  shows "make_nonce p = Inr (type_byte (header p) # drop 1 (be_enc 4 (unat (seq p))) @ be_enc 4 (unat (dest_id p)) @
    be_enc 4 (unat (src_id p)))"
proof -
  have "take 3 (drop 5 p) = drop 1 (take 4 (drop 4 p))" by (simp add: drop_take)
  then show ?thesis
    using assms by (simp add: make_nonce_ok) (simp add: header_def seq_def dest_id_def src_id_def be_u32_enc)
qed


section \<open>Concrete runs\<close>

lemma demo_sends:
  "\<exists>frame nd'. ipv4_outbound demo_client_env demo_client_conf 5 (demo_addr 0x0A1A0007) demo_data (demo_node 0x0A1A0007)
      = (Inr (), [ToServer 1 frame], nd') \<and>
    tunnel_frame (ce_lz_d demo_inbound_env) (ce_fec_enc demo_client_env) (ce_seal demo_client_env) demo_client_conf
      (nd_fec_encoder (demo_node 0x0A1A0007)) (na_ip (demo_addr 0x0A1A0007)) (na_ip (demo_addr 0x0A1A0008)) demo_ip_packet frame"
  by (rule ipv4_outbound_sends [OF demo_env_ok(1,2) demo_takes(1) demo_env_ok(3) demo_codec demo_takes(2) demo_overlay demo_way' demo_takes(3)])



definition demo_relay_node :: "nat Node" where
  "demo_relay_node = (demo_node 9)\<lparr>as_routes :=
     add_route 0 8 \<lparr>route_key = 3, metric = 1, rtt = 5\<rparr> RouteTable_new\<rparr>"

definition demo_hop_frame :: "u8 \<Rightarrow> bytes" where
  "demo_hop_frame hops = [0x81, hops, 0, 0, 0, 0, 0, 0, 0, 0, 0, 7, 0, 0, 0, 8, 42]"

theorem relay_bounded_witness:
  "relayed_by [(demo_inbound_env, demo_inbound_conf, demo_relay_node)] (demo_hop_frame 0x55) (demo_hop_frame 0x54) \<and>
   demo_hop_frame 0x54 = decr_ttl (demo_hop_frame 0x55)"
proof -
  let ?r = "tb_from_slice (\<lambda>n. n) (demo_hop_frame 0x55)"
  have "get_by_id (add_route 0 8 \<lparr>route_key = 3 :: nat, metric = 1, rtt = 5\<rparr> RouteTable_new) 8 = Some \<lparr>route_key = 3, metric = 1, rtt = 5\<rparr>"
    by code_simp
  then have n: "as_network demo_relay_node = Some (demo_addr 9)" "get_by_id (as_routes demo_relay_node) 8 = Some \<lparr>route_key = 3, metric = 1, rtt = 5\<rparr>"
    by (simp_all add: demo_relay_node_def demo_node_def AppState.defs)
  have f: "msg_type (demo_hop_frame 0x55) = Inr Turn" "src_id (demo_hop_frame 0x55) = 7" "dest_id (demo_hop_frame 0x55) = 8"
    "ttl (demo_hop_frame 0x55) = 5" "max_ttl (demo_hop_frame 0x55) = 5" "decr_ttl (demo_hop_frame 0x55) = demo_hop_frame 0x54"
    by code_simp+
  have p: "ce_peer_takes demo_inbound_env 3 f" "length (demo_hop_frame 0x55) = 17" for f
    by (simp_all add: demo_inbound_env_def demo_hop_frame_def)
  have "peer_handle demo_inbound_env demo_inbound_conf [] 1 2 (9 :: nat) ?r demo_relay_node = (Inr (), [ToPeer 3 (demo_hop_frame 0x54)], demo_relay_node)"
    using peer_handle_passes_on [OF tb_constructors_ok(3) tb_constructors_view(3) _ f(1) _ n(1), where env = demo_inbound_env
        and rt = "\<lparr>route_key = 3, metric = 1, rtt = 5\<rparr>"] n(2) f p by (simp add: demo_addr_def)
  moreover have "tb_ok ?r" "tb_view ?r = demo_hop_frame 0x55" by (simp_all add: transmission_simps)
  ultimately have r: "relayed_by [(demo_inbound_env, demo_inbound_conf, demo_relay_node)] (demo_hop_frame 0x55) (demo_hop_frame 0x54)"
    by fastforce
  then show ?thesis using relay_bounded [OF r] by simp
qed

end
