(* ===== verification/RustText.thy ===== *)
theory RustText
  imports Ipv4Text
begin

text \<open>
  The operations of Rust's \<open>str\<close> that the client's configuration uses, on strings as UTF-8 bytes:
  \<open>trim\<close>, \<open>to_lowercase\<close>, \<open>strip_prefix\<close>, \<open>contains\<close>, \<open>split_once\<close>, \<open>rsplit_once\<close>, \<open>splitn\<close>, \<open>parse::<u16>\<close>
  and decimal and hexadecimal text. The Unicode case table is the parameter \<open>uni\<close>; it is consulted for
  strings with a character outside ASCII only.
\<close>

section \<open>Characters\<close>

abbreviation code :: "char \<Rightarrow> nat" where "code \<equiv> of_char"

definition ascii :: "string \<Rightarrow> bool" where "ascii s \<longleftrightarrow> list_all (\<lambda>c. code c < 0x80) s"

text \<open>The bytes of each character: a lead byte and the continuation bytes behind it.\<close>

definition continues :: "char \<Rightarrow> bool" where "continues c \<longleftrightarrow> 0x80 \<le> code c \<and> code c < 0xC0"

function char_groups :: "string \<Rightarrow> string list" where
  "char_groups [] = []"
| "char_groups (c # s) = (c # takeWhile continues s) # char_groups (dropWhile continues s)"
  by pat_completeness auto
termination
  by (relation "measure length") (auto simp: less_Suc_eq_le length_dropWhile_le)

definition blank :: "string \<Rightarrow> bool" where
  "blank g = list_ex is_whitespace (take 1 (chars_of g))"

definition trim :: "string \<Rightarrow> string" where
  "trim s = concat (rev (dropWhile blank (rev (dropWhile blank (char_groups s)))))"

definition ascii_lower :: "char \<Rightarrow> char" where
  "ascii_lower c = (if is_ascii_uppercase (code c) then char_of (code c + 32) else c)"

definition to_lowercase :: "(string \<Rightarrow> string) \<Rightarrow> string \<Rightarrow> string" where
  "to_lowercase uni s = (if ascii s then map ascii_lower s else uni s)"

definition to_ascii_lowercase :: "string \<Rightarrow> string" where
  "to_ascii_lowercase s = map ascii_lower s"

section \<open>Searching and splitting\<close>

definition starts_with :: "string \<Rightarrow> string \<Rightarrow> bool" where
  "starts_with p s \<longleftrightarrow> take (length p) s = p"

definition strip_prefix :: "string \<Rightarrow> string \<Rightarrow> string option" where
  "strip_prefix p s = (if starts_with p s then Some (drop (length p) s) else None)"

fun split_once :: "string \<Rightarrow> string \<Rightarrow> (string \<times> string) option" where
  "split_once p [] = (if p = [] then Some ([], []) else None)"
| "split_once p (c # s) =
     (if starts_with p (c # s) then Some ([], drop (length p) (c # s))
      else map_option (\<lambda>(a, b). (c # a, b)) (split_once p s))"

definition str_contains :: "string \<Rightarrow> string \<Rightarrow> bool" where
  "str_contains p s \<longleftrightarrow> split_once p s \<noteq> None"

definition rsplit_once :: "char \<Rightarrow> string \<Rightarrow> (string \<times> string) option" where
  "rsplit_once d s = map_option (\<lambda>(a, b). (rev b, rev a)) (split_once [d] (rev s))"

text \<open>\<open>splitn(n, d)\<close>: at most \<open>n\<close> parts; \<open>split(d)\<close>: all of them.\<close>

fun splitn :: "nat \<Rightarrow> char \<Rightarrow> string \<Rightarrow> string list" where
  "splitn 0 d s = []"
| "splitn (Suc n) d s =
     (if n = 0 then [s]
      else (case split_once [d] s of None \<Rightarrow> [s] | Some (a, b) \<Rightarrow> a # splitn n d b))"

fun split_char :: "char \<Rightarrow> string \<Rightarrow> string list" where
  "split_char d [] = [[]]"
| "split_char d (c # s) =
     (if c = d then [] # split_char d s
      else (case split_char d s of [] \<Rightarrow> [[c]] | w # ws \<Rightarrow> (c # w) # ws))"

section \<open>Numbers\<close>

definition dec_value :: "string \<Rightarrow> nat" where
  "dec_value s = foldl (\<lambda>acc c. acc * 10 + (code c - 48)) 0 s"

function show_nat :: "nat \<Rightarrow> string" where
  "show_nat n = (if n < 10 then [digit_char n] else show_nat (n div 10) @ [digit_char (n mod 10)])"
  by pat_completeness auto
termination by (relation "measure id") auto

declare show_nat.simps [simp del]

text \<open>The port of a socket address: digits, with leading zeros, of a value that fits.\<close>

definition parse_port :: "string \<Rightarrow> u16 option" where
  "parse_port s =
     (if s \<noteq> [] \<and> list_all is_digit s \<and> dec_value s < 65536 then Some (word_of_nat (dec_value s)) else None)"

text \<open>\<open>str::parse::<u16>\<close> takes a plus sign as well.\<close>

definition parse_u16 :: "string \<Rightarrow> u16 option" where
  "parse_u16 s = parse_port (case s of [] \<Rightarrow> [] | c # r \<Rightarrow> if c = CHR ''+'' then r else s)"

definition hex_digit :: "nat \<Rightarrow> char" where
  "hex_digit d = (if d < 10 then char_of (48 + d) else char_of (87 + d))"

text \<open>\<open>{:02x}\<close> of each byte, which is also what \<open>hex::encode\<close> writes.\<close>

definition hex_encode :: "bytes \<Rightarrow> string" where
  "hex_encode bs = concat (map (\<lambda>b. [hex_digit (unat b div 16), hex_digit (unat b mod 16)]) bs)"

definition hex_value :: "char \<Rightarrow> nat option" where
  "hex_value c =
     (if is_ascii_digit (code c) then Some (code c - 48)
      else if 97 \<le> code c \<and> code c \<le> 102 then Some (code c - 87)
      else if 65 \<le> code c \<and> code c \<le> 70 then Some (code c - 55) else None)"

fun hex_decode :: "string \<Rightarrow> bytes option" where
  "hex_decode [] = Some []"
| "hex_decode [c] = None"
| "hex_decode (c # d # s) =
     (case (hex_value c, hex_value d, hex_decode s) of
        (Some h, Some l, Some bs) \<Rightarrow> Some (word_of_nat (h * 16 + l) # bs)
      | _ \<Rightarrow> None)"

section \<open>ASCII strings\<close>

lemma ascii_simps [simp]:
  "ascii []"
  "ascii (c # s) \<longleftrightarrow> code c < 0x80 \<and> ascii s"
  "ascii (s @ t) \<longleftrightarrow> ascii s \<and> ascii t"
  "ascii (rev s) \<longleftrightarrow> ascii s"
  by (auto simp: ascii_def list_all_iff)

lemma ascii_drop: "ascii s \<Longrightarrow> ascii (drop n s)"
  by (auto simp: ascii_def list_all_iff dest: in_set_dropD)

lemma char_groups_ascii: "ascii s \<Longrightarrow> char_groups s = map (\<lambda>c. [c]) s"
proof (induction s)
  case (Cons c s)
  then have "takeWhile continues s = []" "dropWhile continues s = s"
    by (cases s; simp add: continues_def)+
  with Cons show ?case by simp
qed simp

lemma blank_ascii [simp]: "code c < 0x80 \<Longrightarrow> blank [c] \<longleftrightarrow> is_whitespace (code c)"
  by (simp add: blank_def chars_of_def)

lemma dropWhile_blank_ascii:
  "ascii s \<Longrightarrow> dropWhile blank (map (\<lambda>c. [c]) s) = map (\<lambda>c. [c]) (dropWhile (\<lambda>c. is_whitespace (code c)) s)"
  by (induction s) auto

lemma concat_singles [simp]: "concat (map (\<lambda>c. [c]) s) = s"
  by (induction s) auto

lemma ascii_dropWhile: "ascii s \<Longrightarrow> ascii (dropWhile P s)"
  by (induction s) auto

lemma trim_ascii: "ascii s \<Longrightarrow>
  trim s = rev (dropWhile (\<lambda>c. is_whitespace (code c)) (rev (dropWhile (\<lambda>c. is_whitespace (code c)) s)))"
  by (simp add: trim_def char_groups_ascii dropWhile_blank_ascii ascii_dropWhile rev_map)

lemma code_ascii_lower: "code c < 0x80 \<Longrightarrow> code (ascii_lower c) =
   (if 65 \<le> code c \<and> code c \<le> 90 then code c + 32 else code c)"
  by (simp add: ascii_lower_def is_ascii_uppercase_def)

lemma ascii_lower_idem: "code c < 0x80 \<Longrightarrow> ascii_lower (ascii_lower c) = ascii_lower c"
  by (simp add: ascii_lower_def is_ascii_uppercase_def)

lemma ascii_map_lower: "ascii s \<Longrightarrow> ascii (map ascii_lower s)"
  by (induction s) (auto simp: code_ascii_lower)

lemma map_lower_idem: "ascii s \<Longrightarrow> map ascii_lower (map ascii_lower s) = map ascii_lower s"
  by (induction s) (auto simp: ascii_lower_idem)

section \<open>Splitting undone\<close>

lemma starts_with_append [simp]: "starts_with p (p @ s)"
  by (simp add: starts_with_def)

lemma strip_prefix_append [simp]: "strip_prefix p (p @ s) = Some s"
  by (simp add: strip_prefix_def)

lemma strip_prefix_Some: "strip_prefix p s = Some r \<longleftrightarrow> s = p @ r"
  by (auto simp: strip_prefix_def starts_with_def split: if_splits) (metis append_take_drop_id)

lemma split_once_char: "d \<notin> set a \<Longrightarrow> split_once [d] (a @ d # b) = Some (a, b)"
  by (induction a) (auto simp: starts_with_def)

lemma split_once_char_None: "d \<notin> set a \<Longrightarrow> split_once [d] a = None"
  by (induction a) (auto simp: starts_with_def)

lemma split_once_join: "split_once p s = Some (a, b) \<Longrightarrow> s = a @ p @ b"
proof (induction s arbitrary: a)
  case Nil
  then show ?case by (simp split: if_splits)
next
  case (Cons c s)
  then show ?case
    by (auto simp: starts_with_def split: if_splits) (metis append_Cons append_take_drop_id length_Cons drop_Cons')
qed

lemma rsplit_once_char: "d \<notin> set b \<Longrightarrow> rsplit_once d (a @ d # b) = Some (a, b)"
  using split_once_char [of d "rev b" "rev a"] by (simp add: rsplit_once_def)

lemma rsplit_once_join: "rsplit_once d s = Some (a, b) \<Longrightarrow> s = a @ d # b"
  by (auto simp: rsplit_once_def dest!: split_once_join) (metis append_Cons append_Nil append_assoc rev_append rev_rev_ident rev.simps(2))

lemma split_char_word: "d \<notin> set w \<Longrightarrow> split_char d w = [w]"
  by (induction w) auto

lemma split_char_cons: "d \<notin> set w \<Longrightarrow> split_char d (w @ d # s) = w # split_char d s"
  by (induction w) auto

section \<open>Numbers undone\<close>

lemma dec_value_snoc: "dec_value (s @ [c]) = dec_value s * 10 + (code c - 48)"
  by (simp add: dec_value_def)

lemma dec_value_show [simp]: "dec_value (show_nat n) = n"
proof (induction n rule: show_nat.induct)
  case (1 n)
  show ?case
  proof (cases "n < 10")
    case True
    then show ?thesis by (simp add: show_nat.simps [of n] dec_value_def)
  next
    case False
    then have "dec_value (show_nat n) = n div 10 * 10 + n mod 10"
      using 1 by (simp add: show_nat.simps [of n] dec_value_snoc)
    then show ?thesis by simp
  qed
qed

lemma show_nat_digits: "list_all is_digit (show_nat n)"
  by (induction n rule: show_nat.induct) (simp add: show_nat.simps)

lemma show_nat_not_Nil [simp]: "show_nat n \<noteq> []"
  by (simp add: show_nat.simps [of n])

lemma parse_port_show [simp]: "parse_port (show_nat (unat (p :: u16))) = Some p"
  using unsigned_less [of p, where 'a = nat] by (simp add: parse_port_def show_nat_digits)

lemma digits_avoid: "list_all is_digit s \<Longrightarrow> c \<in> set s \<Longrightarrow> is_digit c"
  by (simp add: list_all_iff)

lemma parse_u16_show [simp]: "parse_u16 (show_nat (unat (p :: u16))) = Some p"
proof -
  obtain c r where s: "show_nat (unat p) = c # r" by (cases "show_nat (unat p)") auto
  then have "is_digit c" using digits_avoid [OF show_nat_digits, of c "unat p"] by simp
  then have "c \<noteq> CHR ''+''" by (auto simp: is_digit_def)
  then show ?thesis using parse_port_show [of p] by (simp add: parse_u16_def s)
qed

lemma hex_value_digit: "d < 16 \<Longrightarrow> hex_value (hex_digit d) = Some d"
  by (simp add: hex_value_def hex_digit_def is_ascii_digit_def)

lemma hex_decode_encode [simp]: "hex_decode (hex_encode bs) = Some bs"
proof (induction bs)
  case Nil
  then show ?case by (simp add: hex_encode_def)
next
  case (Cons b bs)
  have "unat b < 256" using unsigned_less [of b, where 'a = nat] by simp
  then have "hex_value (hex_digit (unat b div 16)) = Some (unat b div 16)"
    "hex_value (hex_digit (unat b mod 16)) = Some (unat b mod 16)"
    by (simp_all add: hex_value_digit)
  moreover have "(word_of_nat (unat b div 16 * 16 + unat b mod 16) :: u8) = b"
    by (simp add: div_mult_mod_eq)
  moreover have "hex_decode (hex_encode bs) = Some bs" by (rule Cons)
  ultimately show ?case by (simp add: hex_encode_def)
qed

end
