(* ===== verification/ClientConfig.thy ===== *)
theory ClientConfig
  imports RustText SubnetRoute ClientOutbound
begin

text \<open>
  The configuration of a client: server addresses (\<open>vnt/vnt-core/src/tunnel_core/server/transport/config.rs\<close>),
  the certificate mode and its verifiers (\<open>tls/verifier.rs\<close>), port mappings (\<open>port_mapping/mod.rs\<close>), the text
  of subnet routes (\<open>nat/mod.rs\<close>), \<open>Config\<close> with its check (\<open>context/config.rs\<close>) and the merge of command line
  and file (\<open>vnt/src/args_config.rs\<close>).

  Parameters: \<open>uni\<close> the Unicode lower case of strings outside ASCII, \<open>v6p\<close> and \<open>v6s\<close> the text of an IPv6
  socket address, \<open>netp\<close> and \<open>nets\<close> the text of \<open>ipnet::Ipv4Net\<close>, \<open>sha\<close> SHA-256. Reading the command line
  (crate \<open>clap\<close>) and the file (crate \<open>toml\<close>) is outside: both arrive as records.
\<close>

section \<open>Server addresses\<close>

datatype ProtocolType = PtQuic | PtTlsTcp | PtWss | PtDynamic

record ProtocolAddress =
  pa_protocol :: ProtocolType
  pa_address :: string

definition ProtocolAddress_default :: ProtocolAddress where
  "ProtocolAddress_default = \<lparr>pa_protocol = PtTlsTcp, pa_address = ''127.0.0.1:29872''\<rparr>"

definition parse_server :: "(string \<Rightarrow> string) \<Rightarrow> string \<Rightarrow> (ProtocolType \<times> string) result" where
  "parse_server uni v =
     (let v = to_lowercase uni (trim v) in
      case strip_prefix ''quic://'' v of Some s \<Rightarrow> Inr (PtQuic, s) | None \<Rightarrow>
     (case strip_prefix ''tcp://'' v of Some s \<Rightarrow> Inr (PtTlsTcp, s) | None \<Rightarrow>
     (case strip_prefix ''wss://'' v of Some s \<Rightarrow> Inr (PtWss, s) | None \<Rightarrow>
     (case strip_prefix ''dynamic://'' v of Some s \<Rightarrow> Inr (PtDynamic, s) | None \<Rightarrow>
        if str_contains ''://'' v then Inl (Bail ''Unknown protocol in server address'')
        else Inr (PtTlsTcp, v)))))"

definition ProtocolAddress_from_str :: "(string \<Rightarrow> string) \<Rightarrow> string \<Rightarrow> ProtocolAddress result" where
  "ProtocolAddress_from_str uni s =
     and_then (parse_server uni s) (\<lambda>(t, a). Inr \<lparr>pa_protocol = t, pa_address = a\<rparr>)"

fun protocol_prefix :: "ProtocolType \<Rightarrow> string" where
  "protocol_prefix PtQuic = ''quic://''"
| "protocol_prefix PtTlsTcp = ''tcp://''"
| "protocol_prefix PtWss = ''wss://''"
| "protocol_prefix PtDynamic = ''dynamic://''"

definition ProtocolAddress_to_string :: "ProtocolAddress \<Rightarrow> string" where
  "ProtocolAddress_to_string a = protocol_prefix (pa_protocol a) @ pa_address a"

text \<open>A \<open>[v6]:port\<close> gives the part in brackets, a bare IPv6 address stays, a numeric (or empty) port is cut.\<close>

definition strip_port :: "string \<Rightarrow> string" where
  "strip_port addr =
     (case (case strip_prefix ''['' addr of None \<Rightarrow> None | Some s \<Rightarrow> split_once '']'' s) of
        Some (inner, _) \<Rightarrow> inner
      | None \<Rightarrow>
          if str_contains '':'' addr \<and> \<not> str_contains ''.'' addr \<and> 1 < length (filter (\<lambda>c. c = CHR '':'') addr) then addr
          else (case rsplit_once (CHR '':'') addr of
                  Some (host, port) \<Rightarrow> if list_all is_digit port then host else addr
                | None \<Rightarrow> addr))"

text \<open>The server that a TXT record names.\<close>

definition txt_target :: "(string \<Rightarrow> string) \<Rightarrow> string \<Rightarrow> ProtocolType \<times> string" where
  "txt_target uni x =
     (let x = to_lowercase uni x in
      case strip_prefix ''udp://'' x of Some v \<Rightarrow> (PtQuic, v) | None \<Rightarrow>
     (case strip_prefix ''quic://'' x of Some v \<Rightarrow> (PtQuic, v) | None \<Rightarrow>
     (case strip_prefix ''tcp://'' x of Some v \<Rightarrow> (PtTlsTcp, v) | None \<Rightarrow>
     (case strip_prefix ''ws://'' x of Some v \<Rightarrow> (PtTlsTcp, v) | None \<Rightarrow>
     (case strip_prefix ''wss://'' x of Some v \<Rightarrow> (PtTlsTcp, v) | None \<Rightarrow> (PtTlsTcp, x))))))"

section \<open>Certificates\<close>

datatype CertValidationMode = InsecureSkipVerification | VerifyFingerprint bytes | StandardCert

definition CertValidationMode_from_str :: "(string \<Rightarrow> string) \<Rightarrow> string \<Rightarrow> CertValidationMode result" where
  "CertValidationMode_from_str uni value =
     (let v = to_lowercase uni (trim value) in
      if v = ''skip'' then Inr InsecureSkipVerification
      else if v = ''standard'' then Inr StandardCert
      else (case strip_prefix ''finger:'' v of
              None \<Rightarrow> Inl (Bail ''Unknown certificate validation mode'')
            | Some h \<Rightarrow>
                (case hex_decode h of
                   None \<Rightarrow> Inl (Bail ''Invalid hex in fingerprint'')
                 | Some d \<Rightarrow> if length d \<noteq> 32 then Inl (Bail ''Fingerprint must be 32 bytes'')
                            else Inr (VerifyFingerprint d))))"

fun CertValidationMode_to_string :: "CertValidationMode \<Rightarrow> string" where
  "CertValidationMode_to_string InsecureSkipVerification = ''skip''"
| "CertValidationMode_to_string StandardCert = ''standard''"
| "CertValidationMode_to_string (VerifyFingerprint f) = ''finger:'' @ hex_encode f"

text \<open>A verifier of rustls: the check of the certificate and the check of the handshake signature that proves
  possession of its key. \<open>webpki\<close> is the verifier of the crate over the system's roots, if they load.\<close>

record verifier =
  verify_server_cert :: "bytes \<Rightarrow> string \<Rightarrow> bool"
  verify_handshake_signature :: "bytes \<Rightarrow> bytes \<Rightarrow> bytes \<Rightarrow> bool"

definition InsecureVerifier :: verifier where
  "InsecureVerifier = \<lparr>verify_server_cert = (\<lambda>cert name. True), verify_handshake_signature = (\<lambda>m cert sig. True)\<rparr>"

definition FingerprintVerifier :: "(bytes \<Rightarrow> bytes) \<Rightarrow> bytes \<Rightarrow> verifier" where
  "FingerprintVerifier sha expected =
     \<lparr>verify_server_cert = (\<lambda>cert name. sha cert = expected), verify_handshake_signature = (\<lambda>m cert sig. True)\<rparr>"

fun build_verifier :: "(bytes \<Rightarrow> bytes) \<Rightarrow> verifier result \<Rightarrow> CertValidationMode \<Rightarrow> verifier result" where
  "build_verifier sha webpki InsecureSkipVerification = Inr InsecureVerifier"
| "build_verifier sha webpki (VerifyFingerprint f) = Inr (FingerprintVerifier sha f)"
| "build_verifier sha webpki StandardCert = webpki"

section \<open>Socket addresses, port mappings and subnet routes as text\<close>

definition SocketAddr_from_str :: "(string \<Rightarrow> SocketAddr option) \<Rightarrow> string \<Rightarrow> SocketAddr option" where
  "SocketAddr_from_str v6p s =
     (case split_once '':'' s of
        None \<Rightarrow> v6p s
      | Some (a, b) \<Rightarrow>
          (case (parse_ipv4 a, parse_port b) of (Some ip, Some p) \<Rightarrow> Some (V4 ip p) | _ \<Rightarrow> v6p s))"

fun SocketAddr_to_string :: "(SocketAddr \<Rightarrow> string) \<Rightarrow> SocketAddr \<Rightarrow> string" where
  "SocketAddr_to_string v6s (V4 ip p) = ip_to_string ip @ '':'' @ show_nat (unat p)"
| "SocketAddr_to_string v6s (V6 ip p) = v6s (V6 ip p)"

text \<open>Of the protocol numbers only TCP (6) and UDP (17) have a name.\<close>

record PortMapping =
  pm_protocol :: u8
  pm_src_addr :: SocketAddr
  pm_virtual_target_ip :: ipv4
  pm_dst_host :: string
  pm_dst_port :: u16

definition protocol_to_str :: "u8 \<Rightarrow> string" where
  "protocol_to_str p = (if p = 6 then ''tcp'' else if p = 17 then ''udp'' else ''unknown'')"

definition str_to_protocol :: "string \<Rightarrow> u8 option" where
  "str_to_protocol s =
     (let s = to_ascii_lowercase s in if s = ''tcp'' then Some 6 else if s = ''udp'' then Some 17 else None)"

definition PortMapping_to_string :: "(SocketAddr \<Rightarrow> string) \<Rightarrow> PortMapping \<Rightarrow> string" where
  "PortMapping_to_string v6s m =
     protocol_to_str (pm_protocol m) @ ''://'' @ SocketAddr_to_string v6s (pm_src_addr m) @ ''-'' @
     ip_to_string (pm_virtual_target_ip m) @ ''-'' @ pm_dst_host m @ '':'' @ show_nat (unat (pm_dst_port m))"

definition PortMapping_from_str :: "(string \<Rightarrow> SocketAddr option) \<Rightarrow> string \<Rightarrow> PortMapping result" where
  "PortMapping_from_str v6p s =
     and_then (ok_or (Bail ''missing ://'') (split_once ''://'' s)) (\<lambda>(proto, rest).
     and_then (ok_or (Bail ''unknown protocol'') (str_to_protocol proto)) (\<lambda>protocol.
       (let parts = splitn 3 (CHR ''-'') rest in
        and_then (case parts of [] \<Rightarrow> Inl (Bail ''missing src_addr'')
          | a # _ \<Rightarrow> ok_or (Bail ''invalid src_addr'') (SocketAddr_from_str v6p a)) (\<lambda>src.
        and_then (case parts of _ # b # _ \<Rightarrow> ok_or (Bail ''invalid virtual_target_ip'') (parse_ipv4 b)
          | _ \<Rightarrow> Inl (Bail ''missing virtual_target_ip'')) (\<lambda>target.
        and_then (case parts of _ # _ # c # _ \<Rightarrow> Inr c | _ \<Rightarrow> Inl (Bail ''missing destination'')) (\<lambda>dst.
        and_then (ok_or (Bail ''missing dst port'') (rsplit_once (CHR '':'') dst)) (\<lambda>(host, port).
        and_then (ok_or (Bail ''invalid dst_port'') (parse_u16 port)) (\<lambda>p.
          if p = 0 then Inl (Bail ''invalid dst port: 0'')
          else Inr \<lparr>pm_protocol = protocol, pm_src_addr = src, pm_virtual_target_ip = target,
                    pm_dst_host = host, pm_dst_port = p\<rparr>))))))))"

definition NetInput_from_str :: "(string \<Rightarrow> Ipv4Net option) \<Rightarrow> string \<Rightarrow> NetInput result" where
  "NetInput_from_str netp s =
     (let parts = map trim (split_char (CHR '','') s) in
      if length parts \<noteq> 2 then Inl (Bail ''expected net,target_ip'')
      else
        and_then (ok_or (Bail ''bad net'') (netp (parts ! 0))) (\<lambda>net.
        and_then (ok_or (Bail ''bad target ip'') (parse_ipv4 (parts ! 1))) (\<lambda>ip.
          Inr \<lparr>ni_net = net, ni_target_ip = ip\<rparr>)))"

definition NetInput_to_string :: "(Ipv4Net \<Rightarrow> string) \<Rightarrow> NetInput \<Rightarrow> string" where
  "NetInput_to_string nets n = nets (ni_net n) @ '','' @ ip_to_string (ni_target_ip n)"

section \<open>The configuration\<close>

definition UseChannel_from_str :: "(string \<Rightarrow> string) \<Rightarrow> string \<Rightarrow> UseChannel result" where
  "UseChannel_from_str uni s =
     (let l = to_lowercase uni s in
      if l = ''auto'' then Inr Auto else if l = ''p2p'' then Inr P2p else if l = ''relay'' then Inr Relay
      else Inl (Bail ''invalid use_channel''))"

record Config =
  cf_server_addr :: "ProtocolAddress list"
  cf_cert_mode :: CertValidationMode
  cf_network_code :: string
  cf_device_id :: string
  cf_device_name :: string
  cf_tun_name :: "string option"
  cf_ip :: "ipv4 option"
  cf_password :: "string option"
  cf_no_punch :: bool
  cf_use_channel :: UseChannel
  cf_compress :: bool
  cf_rtx :: bool
  cf_fec :: bool
  cf_input :: "NetInput list"
  cf_output :: "Ipv4Net list"
  cf_no_nat :: bool
  cf_no_tun :: bool
  cf_mtu :: "u16 option"
  cf_port_mapping :: "PortMapping list"
  cf_allow_port_mapping :: bool
  cf_udp_stun :: "string list"
  cf_tcp_stun :: "string list"

definition CFG_MAX_NETWORK_CODE_LEN :: nat where "CFG_MAX_NETWORK_CODE_LEN = 32"
definition CFG_MAX_DEVICE_ID_LEN :: nat where "CFG_MAX_DEVICE_ID_LEN = 64"
definition CFG_MAX_NAME_LEN :: nat where "CFG_MAX_NAME_LEN = 128"
definition MAX_MTU :: u16 where "MAX_MTU = 1500"

text \<open>The loop over the addresses with the set of those seen so far.\<close>

fun all_new :: "string set \<Rightarrow> string list \<Rightarrow> bool" where
  "all_new seen [] = True"
| "all_new seen (a # as) = (if a \<in> seen then False else all_new (insert a seen) as)"

definition Config_check :: "Config \<Rightarrow> unit result" where
  "Config_check c =
     (if cf_server_addr c = [] then Inl (Bail ''server address is empty'')
      else if 1 < length (cf_server_addr c) \<and> \<not> all_new {} (map pa_address (cf_server_addr c))
      then Inl (Bail ''server addresses must differ'')
      else if CFG_MAX_NETWORK_CODE_LEN < length (cf_network_code c) then Inl (Bail ''network_code length exceeds'')
      else if CFG_MAX_DEVICE_ID_LEN < length (cf_device_id c) then Inl (Bail ''device_id length exceeds'')
      else if CFG_MAX_NAME_LEN < length (cf_device_name c) then Inl (Bail ''name length exceeds'')
      else (case cf_mtu c of
              Some m \<Rightarrow> if MAX_MTU < m then Inl (Bail ''MTU is too large'') else Inr ()
            | None \<Rightarrow> Inr ()))"

definition client_key_sign :: "(bytes \<Rightarrow> bytes) \<Rightarrow> string \<Rightarrow> string" where
  "client_key_sign sha s = hex_encode (take 16 (sha (map of_char (''KEY-BEGIN'' @ s @ ''KEY-END''))))"

definition Config_key_sign :: "(bytes \<Rightarrow> bytes) \<Rightarrow> Config \<Rightarrow> string option" where
  "Config_key_sign sha c = map_option (client_key_sign sha) (cf_password c)"

record ConnectRegConfig =
  cr_server_addr :: ProtocolAddress
  cr_cert_mode :: CertValidationMode
  cr_network_code :: string
  cr_device_id :: string
  cr_device_name :: string
  cr_ip :: "ipv4 option"
  cr_key_sign :: "string option"
  cr_ip_variable :: bool

text \<open>Indexing panics out of range.\<close>

definition Config_to_connect_config :: "(bytes \<Rightarrow> bytes) \<Rightarrow> nat \<Rightarrow> Config \<Rightarrow> ConnectRegConfig result" where
  "Config_to_connect_config sha i c =
     (if i < length (cf_server_addr c) then Inr
        \<lparr>cr_server_addr = cf_server_addr c ! i, cr_cert_mode = cf_cert_mode c, cr_network_code = cf_network_code c,
         cr_device_id = cf_device_id c, cr_device_name = cf_device_name c, cr_ip = cf_ip c,
         cr_key_sign = Config_key_sign sha c, cr_ip_variable = (cf_ip c = None)\<rparr>
      else Inl Panic)"

text \<open>\<open>ver\<close> is the version the package is built with.\<close>

definition reg_msg_request :: "string \<Rightarrow> u32 \<Rightarrow> RegistrationMode \<Rightarrow> ConnectRegConfig \<Rightarrow> RegRequestMsg" where
  "reg_msg_request ver sid mode c =
     \<lparr>rq_network_code = cr_network_code c, rq_device_id = cr_device_id c, rq_ip = cr_ip c,
      rq_name = cr_device_name c, rq_version = ver, rq_key_sign = cr_key_sign c,
      rq_ip_variable = cr_ip_variable c, rq_server_id = sid, rq_mode = mode\<rparr>"

section \<open>Command line and file\<close>

record FileConfig =
  fc_server :: "string list option"
  fc_network_code :: "string option"
  fc_ip :: "ipv4 option"
  fc_no_punch :: "bool option"
  fc_use_channel :: "string option"
  fc_rtx :: "bool option"
  fc_compress :: "bool option"
  fc_fec :: "bool option"
  fc_input :: "NetInput list option"
  fc_output :: "Ipv4Net list option"
  fc_no_nat :: "bool option"
  fc_no_tun :: "bool option"
  fc_mtu :: "u16 option"
  fc_ctrl_port :: "u16 option"
  fc_port_mapping :: "string list option"
  fc_allow_mapping :: "bool option"
  fc_device_id :: "string option"
  fc_device_name :: "string option"
  fc_tun_name :: "string option"
  fc_password :: "string option"
  fc_cert_mode :: "string option"
  fc_udp_stun :: "string list option"
  fc_tcp_stun :: "string list option"

record Args =
  ar_server :: "ProtocolAddress list"
  ar_network_code :: "string option"
  ar_token :: "string option"
  ar_ip :: "ipv4 option"
  ar_password :: "string option"
  ar_rtx :: bool
  ar_compress :: bool
  ar_fec :: bool
  ar_input :: "NetInput list"
  ar_output :: "Ipv4Net list"
  ar_device_name :: "string option"
  ar_device_id :: "string option"
  ar_no_punch :: bool
  ar_use_channel :: "string option"
  ar_cert_mode :: "CertValidationMode option"
  ar_tun_name :: "string option"
  ar_no_nat :: bool
  ar_no_tun :: bool
  ar_port_mapping :: "PortMapping list"
  ar_allow_mapping :: bool
  ar_mtu :: "u16 option"
  ar_ctrl_port :: "u16 option"

fun collect :: "('a \<Rightarrow> 'b result) \<Rightarrow> 'a list \<Rightarrow> 'b list result" where
  "collect f [] = Inr []"
| "collect f (x # xs) = and_then (f x) (\<lambda>y. and_then (collect f xs) (\<lambda>ys. Inr (y # ys)))"

definition or_default :: "'a \<Rightarrow> 'a option \<Rightarrow> 'a" where
  "or_default d x = (case x of Some v \<Rightarrow> v | None \<Rightarrow> d)"

definition or_else :: "'a option \<Rightarrow> 'a option \<Rightarrow> 'a option" where
  "or_else x y = (case x of Some v \<Rightarrow> Some v | None \<Rightarrow> y)"

definition ok :: "'a result \<Rightarrow> 'a option" where
  "ok r = (case r of Inr a \<Rightarrow> Some a | Inl _ \<Rightarrow> None)"

definition to_server_addr :: "(string \<Rightarrow> string) \<Rightarrow> FileConfig \<Rightarrow> ProtocolAddress list result" where
  "to_server_addr uni f =
     (case fc_server f of Some raw \<Rightarrow> collect (ProtocolAddress_from_str uni) raw | None \<Rightarrow> Inr [])"

definition to_port_mapping :: "(string \<Rightarrow> SocketAddr option) \<Rightarrow> FileConfig \<Rightarrow> PortMapping list result" where
  "to_port_mapping v6p f =
     (case fc_port_mapping f of Some raw \<Rightarrow> collect (PortMapping_from_str v6p) raw | None \<Rightarrow> Inr [])"

definition parse_compatible :: "Args \<Rightarrow> Args" where
  "parse_compatible a = (if ar_network_code a = None then a\<lparr>ar_network_code := ar_token a\<rparr> else a)"

definition with_stun_port :: "string \<Rightarrow> string" where
  "with_stun_port x = (if str_contains '':'' x then x else x @ '':3478'')"

text \<open>What the merge asks of the host: the device id it finds or makes, the host name, and the parameters of the
  text formats.\<close>

record host_env =
  he_uni :: "string \<Rightarrow> string"
  he_v6p :: "string \<Rightarrow> SocketAddr option"
  he_device_id :: "string result"
  he_hostname :: "string option"

definition device_id_of :: "host_env \<Rightarrow> string option \<Rightarrow> string result" where
  "device_id_of h x = (case x of Some d \<Rightarrow> Inr d | None \<Rightarrow> he_device_id h)"

definition default_hostname :: "host_env \<Rightarrow> string" where
  "default_hostname h = or_default [] (he_hostname h)"

definition file_cert_mode :: "host_env \<Rightarrow> FileConfig \<Rightarrow> CertValidationMode option" where
  "file_cert_mode h f = Option.bind (fc_cert_mode f) (\<lambda>s. ok (CertValidationMode_from_str (he_uni h) s))"

definition build_from_args_and_file :: "host_env \<Rightarrow> Args \<Rightarrow> FileConfig \<Rightarrow> (Config \<times> u16 option) result" where
  "build_from_args_and_file h a f =
     and_then (if ar_server a = [] then to_server_addr (he_uni h) f else Inr (ar_server a)) (\<lambda>server.
     and_then (if ar_port_mapping a = [] then to_port_mapping (he_v6p h) f else Inr (ar_port_mapping a)) (\<lambda>pm.
     and_then (ok_or (Bail ''network_code is required'') (or_else (ar_network_code a) (fc_network_code f))) (\<lambda>nc.
     and_then (device_id_of h (or_else (ar_device_id a) (fc_device_id f))) (\<lambda>dev.
       Inr (\<lparr>cf_server_addr = server,
             cf_cert_mode = or_default InsecureSkipVerification (or_else (ar_cert_mode a) (file_cert_mode h f)),
             cf_network_code = nc, cf_device_id = dev,
             cf_device_name = or_default (default_hostname h) (or_else (ar_device_name a) (fc_device_name f)),
             cf_tun_name = or_else (ar_tun_name a) (fc_tun_name f),
             cf_ip = or_else (ar_ip a) (fc_ip f),
             cf_password = or_else (ar_password a) (fc_password f),
             cf_no_punch = (ar_no_punch a \<or> or_default False (fc_no_punch f)),
             cf_use_channel = or_default Auto (ok (UseChannel_from_str (he_uni h)
               (or_default ''auto'' (or_else (ar_use_channel a) (fc_use_channel f))))),
             cf_compress = (ar_compress a \<or> or_default False (fc_compress f)),
             cf_rtx = (ar_rtx a \<or> or_default False (fc_rtx f)),
             cf_fec = (ar_fec a \<or> or_default False (fc_fec f)),
             cf_input = (if ar_input a = [] then or_default [] (fc_input f) else ar_input a),
             cf_output = (if ar_output a = [] then or_default [] (fc_output f) else ar_output a),
             cf_no_nat = (ar_no_nat a \<or> or_default False (fc_no_nat f)),
             cf_no_tun = (ar_no_tun a \<or> or_default False (fc_no_tun f)),
             cf_mtu = or_else (ar_mtu a) (fc_mtu f),
             cf_port_mapping = pm,
             cf_allow_port_mapping = (ar_allow_mapping a \<or> or_default False (fc_allow_mapping f)),
             cf_udp_stun = map with_stun_port (or_default [] (fc_udp_stun f)),
             cf_tcp_stun = map with_stun_port (or_default [] (fc_tcp_stun f))\<rparr>,
            or_else (ar_ctrl_port a) (fc_ctrl_port f))))))"

definition build_from_args_only :: "host_env \<Rightarrow> Args \<Rightarrow> (Config \<times> u16 option) result" where
  "build_from_args_only h a =
     and_then (device_id_of h (ar_device_id a)) (\<lambda>dev.
     and_then (ok_or (Bail ''network_code is required'') (ar_network_code a)) (\<lambda>nc.
       Inr (\<lparr>cf_server_addr = ar_server a,
             cf_cert_mode = or_default InsecureSkipVerification (ar_cert_mode a),
             cf_network_code = nc, cf_device_id = dev,
             cf_device_name = or_default (default_hostname h) (ar_device_name a),
             cf_tun_name = ar_tun_name a, cf_ip = ar_ip a, cf_password = ar_password a,
             cf_no_punch = ar_no_punch a,
             cf_use_channel = or_default Auto (Option.bind (ar_use_channel a) (\<lambda>s. ok (UseChannel_from_str (he_uni h) s))),
             cf_compress = ar_compress a, cf_rtx = ar_rtx a, cf_fec = ar_fec a, cf_input = ar_input a,
             cf_output = ar_output a, cf_no_nat = ar_no_nat a, cf_no_tun = ar_no_tun a, cf_mtu = ar_mtu a,
             cf_port_mapping = ar_port_mapping a, cf_allow_port_mapping = ar_allow_mapping a,
             cf_udp_stun = [], cf_tcp_stun = []\<rparr>,
            ar_ctrl_port a)))"

definition build_from_file_only :: "host_env \<Rightarrow> FileConfig \<Rightarrow> (Config \<times> u16 option) result" where
  "build_from_file_only h f =
     and_then (to_server_addr (he_uni h) f) (\<lambda>server.
     and_then (to_port_mapping (he_v6p h) f) (\<lambda>pm.
     and_then (device_id_of h (fc_device_id f)) (\<lambda>dev.
     and_then (ok_or (Bail ''network_code is required'') (fc_network_code f)) (\<lambda>nc.
       Inr (\<lparr>cf_server_addr = server,
             cf_cert_mode = or_default InsecureSkipVerification (file_cert_mode h f),
             cf_network_code = nc, cf_device_id = dev,
             cf_device_name = or_default (default_hostname h) (fc_device_name f),
             cf_tun_name = fc_tun_name f, cf_ip = fc_ip f, cf_password = fc_password f,
             cf_no_punch = or_default False (fc_no_punch f),
             cf_use_channel = or_default Auto (Option.bind (fc_use_channel f) (\<lambda>s. ok (UseChannel_from_str (he_uni h) s))),
             cf_compress = or_default False (fc_compress f), cf_rtx = or_default False (fc_rtx f),
             cf_fec = or_default False (fc_fec f), cf_input = or_default [] (fc_input f),
             cf_output = or_default [] (fc_output f), cf_no_nat = or_default False (fc_no_nat f),
             cf_no_tun = or_default False (fc_no_tun f), cf_mtu = fc_mtu f, cf_port_mapping = pm,
             cf_allow_port_mapping = or_default False (fc_allow_mapping f),
             cf_udp_stun = map with_stun_port (or_default [] (fc_udp_stun f)),
             cf_tcp_stun = map with_stun_port (or_default [] (fc_tcp_stun f))\<rparr>,
            fc_ctrl_port f)))))"

definition build_config :: "host_env \<Rightarrow> Args option \<Rightarrow> FileConfig option \<Rightarrow> (Config \<times> u16 option) result" where
  "build_config h a f =
     (case (a, f) of
        (Some a, Some f) \<Rightarrow> build_from_args_and_file h a f
      | (Some a, None) \<Rightarrow> build_from_args_only h a
      | (None, Some f) \<Rightarrow> build_from_file_only h f
      | (None, None) \<Rightarrow> Inl (Bail ''neither args nor config file provided''))"

end
