(* ===== verification/ServerLink.thy ===== *)
theory ServerLink
  imports ClientConfig ClientInbound
begin

text \<open>
  A client's connections to its servers, \<open>vnt/vnt-core/src/tunnel_core/server\<close>: the transports
  (\<open>transport/mod.rs\<close>, \<open>quic.rs\<close>, \<open>tcp.rs\<close>, \<open>wss.rs\<close>), resolution of a server's address (\<open>transport/config.rs\<close>,
  \<open>utils/dns_query.rs\<close>), registration with one server and with several (\<open>connection_manager.rs\<close>), and the task
  that keeps a connection and moves its data.

  The outside (name servers, TLS, sockets and whoever answers) is a world of type \<open>'w\<close> that the parameters
  of \<open>link_env\<close> read and change; \<open>'c\<close> is an established stream. A call under \<open>tokio::time::timeout\<close> gives
  \<open>None\<close> when the time elapses. The concurrent futures of \<open>join_all\<close> run one after another: they belong to
  different servers, and all of them are awaited before any result is looked at.
\<close>

section \<open>Name resolution\<close>

text \<open>\<open>query\<close> asks one name server (\<open>txt_dns\<close>), \<open>None\<close> being the error of an exhausted list without one.\<close>

fun txt_servers :: "(string \<Rightarrow> string list result) \<Rightarrow> rust_error option \<Rightarrow> string list \<Rightarrow> string list result" where
  "txt_servers query err [] = Inl (case err of Some e \<Rightarrow> e | None \<Rightarrow> IoOther)"
| "txt_servers query err (ns # rest) =
     (case query ns of
        Inl e \<Rightarrow> txt_servers query (Some e) rest
      | Inr addr \<Rightarrow> if addr \<noteq> [] then Inr addr else txt_servers query err rest)"

definition dns_query_txt :: "(string \<Rightarrow> string list result) \<Rightarrow> string list \<Rightarrow> string list result" where
  "dns_query_txt query name_servers =
     txt_servers query None (if name_servers = [] then [''223.5.5.5:53'', ''114.114.114.114:53''] else name_servers)"

section \<open>Transports\<close>

record ('w, 'c) link_env =
  le_uni :: "string \<Rightarrow> string"
  le_version :: string
  le_txt :: "string \<Rightarrow> 'w \<Rightarrow> string list result \<times> 'w"
  le_lookup :: "string \<Rightarrow> 'w \<Rightarrow> SocketAddr result \<times> 'w"
  le_open :: "ProtocolType \<Rightarrow> SocketAddr \<times> string \<times> CertValidationMode \<Rightarrow> 'w \<Rightarrow> 'c result option \<times> 'w"
  le_send :: "'c \<Rightarrow> bytes \<Rightarrow> 'w \<Rightarrow> unit result \<times> 'w"
  le_next :: "'c \<Rightarrow> 'w \<Rightarrow> bytes result option \<times> 'w"
  le_request :: "RequestPayload option \<Rightarrow> bytes"
  le_response :: "bytes \<Rightarrow> ResponsePayload option option"

record ConnectConfig =
  co_protocol :: ProtocolType
  co_server_addr :: SocketAddr
  co_server_domain :: string
  co_cert_mode :: CertValidationMode

datatype 'c TransportClient =
    TcQuic "'c option"
  | TcTlsTcp "'c option"
  | TcWss "'c option"
  | TcPending

definition transport_new :: "'c TransportClient" where "transport_new = TcPending"

definition transport_disconnect :: "'c TransportClient \<Rightarrow> 'c TransportClient" where
  "transport_disconnect t = TcPending"

text \<open>\<open>connect\<close> of one transport: refused while its stream is there.\<close>

definition stream_connect :: "('w, 'c) link_env \<Rightarrow> ProtocolType \<Rightarrow> ConnectConfig \<Rightarrow> 'c option \<Rightarrow> 'w
    \<Rightarrow> 'c result option \<times> 'w" where
  "stream_connect env p cfg framed w =
     (case framed of
        Some _ \<Rightarrow> (Some (Inl (Bail ''Already connected'')), w)
      | None \<Rightarrow> le_open env p (co_server_addr cfg, co_server_domain cfg, co_cert_mode cfg) w)"

definition opened_stream :: "('c option \<Rightarrow> 'c TransportClient) \<Rightarrow> 'c TransportClient \<Rightarrow> 'c result option \<times> 'w
    \<Rightarrow> unit result \<times> 'c TransportClient \<times> 'w" where
  "opened_stream mk t r =
     (case r of
        (None, w) \<Rightarrow> (Inl (Bail ''timeout''), t, w)
      | (Some (Inl e), w) \<Rightarrow> (Inl e, t, w)
      | (Some (Inr c), w) \<Rightarrow> (Inr (), mk (Some c), w))"

fun transport_connect_timeout :: "('w, 'c) link_env \<Rightarrow> ConnectConfig \<Rightarrow> 'c TransportClient \<Rightarrow> 'w
    \<Rightarrow> unit result \<times> 'c TransportClient \<times> 'w" where
  "transport_connect_timeout env cfg (TcQuic f) w = opened_stream TcQuic (TcQuic f) (stream_connect env PtQuic cfg f w)"
| "transport_connect_timeout env cfg (TcTlsTcp f) w = opened_stream TcTlsTcp (TcTlsTcp f) (stream_connect env PtTlsTcp cfg f w)"
| "transport_connect_timeout env cfg (TcWss f) w = opened_stream TcWss (TcWss f) (stream_connect env PtWss cfg f w)"
| "transport_connect_timeout env cfg TcPending w =
     (case co_protocol cfg of
        PtQuic \<Rightarrow> opened_stream TcQuic TcPending (stream_connect env PtQuic cfg None w)
      | PtTlsTcp \<Rightarrow> opened_stream TcTlsTcp TcPending (stream_connect env PtTlsTcp cfg None w)
      | PtWss \<Rightarrow> opened_stream TcWss TcPending (stream_connect env PtWss cfg None w)
      | PtDynamic \<Rightarrow> (Inl (Bail ''unreachable connect''), TcPending, w))"

fun transport_stream :: "'c TransportClient \<Rightarrow> 'c option" where
  "transport_stream (TcQuic f) = f"
| "transport_stream (TcTlsTcp f) = f"
| "transport_stream (TcWss f) = f"
| "transport_stream TcPending = None"

definition transport_send :: "('w, 'c) link_env \<Rightarrow> bytes \<Rightarrow> 'c TransportClient \<Rightarrow> 'w \<Rightarrow> unit result \<times> 'w" where
  "transport_send env buf t w =
     (case transport_stream t of None \<Rightarrow> (Inl (Bail ''Not connected''), w) | Some c \<Rightarrow> le_send env c buf w)"

definition transport_next_timeout :: "('w, 'c) link_env \<Rightarrow> 'c TransportClient \<Rightarrow> 'w \<Rightarrow> bytes result \<times> 'w" where
  "transport_next_timeout env t w =
     (case transport_stream t of
        None \<Rightarrow> (Inl (Bail ''Not connected''), w)
      | Some c \<Rightarrow> (case le_next env c w of
          (None, w) \<Rightarrow> (Inl (Bail ''timeout''), w) | (Some r, w) \<Rightarrow> (r, w)))"

section \<open>Registration\<close>

record 'c ServerTurnManager =
  sm_server_id :: u32
  sm_config :: ConnectRegConfig
  sm_transport :: "'c TransportClient"

definition ServerTurnManager_new :: "u32 \<Rightarrow> ConnectRegConfig \<Rightarrow> 'c ServerTurnManager" where
  "ServerTurnManager_new sid c = \<lparr>sm_server_id = sid, sm_config = c, sm_transport = transport_new\<rparr>"

definition sm_disconnect :: "'c ServerTurnManager \<Rightarrow> 'c ServerTurnManager" where
  "sm_disconnect m = m\<lparr>sm_transport := transport_disconnect (sm_transport m)\<rparr>"

definition set_ip :: "ipv4 \<Rightarrow> 'c ServerTurnManager \<Rightarrow> 'c ServerTurnManager" where
  "set_ip ip m = m\<lparr>sm_config := (sm_config m)\<lparr>cr_ip := Some ip\<rparr>\<rparr>"

text \<open>A \<open>dynamic://\<close> server is the one that the TXT record names; the list of records comes shuffled.\<close>

definition resolve_target :: "('w, 'c) link_env \<Rightarrow> ProtocolAddress \<Rightarrow> 'w \<Rightarrow> (ProtocolType \<times> string) result \<times> 'w" where
  "resolve_target env a w =
     (if pa_protocol a \<noteq> PtDynamic then (Inr (pa_protocol a, pa_address a), w)
      else (case le_txt env (pa_address a) w of
              (Inl e, w) \<Rightarrow> (Inl e, w)
            | (Inr [], w) \<Rightarrow> (Inl (Bail ''DNS query failed''), w)
            | (Inr (x # _), w) \<Rightarrow> (Inr (txt_target (le_uni env) x), w)))"

definition to_connect_config :: "('w, 'c) link_env \<Rightarrow> ConnectRegConfig \<Rightarrow> 'w \<Rightarrow> ConnectConfig result \<times> 'w" where
  "to_connect_config env c w =
     (case resolve_target env (cr_server_addr c) w of
        (Inl e, w) \<Rightarrow> (Inl e, w)
      | (Inr (p, domain), w) \<Rightarrow>
          (case le_lookup env domain w of
             (Inl e, w) \<Rightarrow> (Inl e, w)
           | (Inr addr, w) \<Rightarrow>
               (Inr \<lparr>co_protocol = p, co_server_addr = addr, co_server_domain = strip_port domain,
                     co_cert_mode = cr_cert_mode c\<rparr>, w)))"

text \<open>Send a request on the connection and wait for the answer.\<close>

definition exchange :: "('w, 'c) link_env \<Rightarrow> RequestMessage \<Rightarrow> 'c TransportClient \<Rightarrow> 'w \<Rightarrow> ResponseMessage result \<times> 'w" where
  "exchange env req t w =
     (case transport_send env (client_request_encode (le_request env) req) t w of
        (Inl e, w) \<Rightarrow> (Inl e, w)
      | (Inr _, w) \<Rightarrow>
          (case transport_next_timeout env t w of
             (Inl e, w) \<Rightarrow> (Inl e, w)
           | (Inr buf, w) \<Rightarrow> (ResponseMessage_from_slice (le_response env) buf, w)))"

definition reg_request :: "('w, 'c) link_env \<Rightarrow> RegistrationMode \<Rightarrow> 'c ServerTurnManager \<Rightarrow> RequestMessage" where
  "reg_request env mode m = ReqReg (reg_msg_request (le_version env) (sm_server_id m) mode (sm_config m))"

definition connect_and_reg :: "('w, 'c) link_env \<Rightarrow> RegistrationMode \<Rightarrow> 'c ServerTurnManager \<Rightarrow> 'w
    \<Rightarrow> ResponseMessage result \<times> 'c ServerTurnManager \<times> 'w" where
  "connect_and_reg env mode m w =
     (case to_connect_config env (sm_config m) w of
        (Inl e, w) \<Rightarrow> (Inl e, m, w)
      | (Inr cfg, w) \<Rightarrow>
          (case transport_connect_timeout env cfg (sm_transport m) w of
             (Inl e, t, w) \<Rightarrow> (Inl e, m\<lparr>sm_transport := t\<rparr>, w)
           | (Inr _, t, w) \<Rightarrow>
               (let m = m\<lparr>sm_transport := t\<rparr> in
                case exchange env (reg_request env mode m) t w of
                  (Inl e, w) \<Rightarrow> (Inl e, m, w)
                | (Inr response, w) \<Rightarrow>
                    (Inr response, (case response of ResReg _ \<Rightarrow> m | _ \<Rightarrow> sm_disconnect m), w))))"

definition send_confirm :: "('w, 'c) link_env \<Rightarrow> 'c ServerTurnManager \<Rightarrow> 'w \<Rightarrow> bool result \<times> 'w" where
  "send_confirm env m w =
     (case exchange env ReqConfirmReg (sm_transport m) w of
        (Inl e, w) \<Rightarrow> (Inl e, w)
      | (Inr (ResConfirmReg success), w) \<Rightarrow> (Inr success, w)
      | (Inr (ResError _ message), w) \<Rightarrow> (Inl (Bail (''Confirm failed: '' @ message)), w)
      | (Inr _, w) \<Rightarrow> (Inl (Bail ''Unexpected response''), w))"

fun reg_all :: "('w, 'c) link_env \<Rightarrow> RegistrationMode \<Rightarrow> 'c ServerTurnManager list \<Rightarrow> 'w
    \<Rightarrow> ResponseMessage result list \<times> 'c ServerTurnManager list \<times> 'w" where
  "reg_all env mode [] w = ([], [], w)"
| "reg_all env mode (m # ms) w =
     (case connect_and_reg env mode m w of (r, m, w) \<Rightarrow>
      case reg_all env mode ms w of (rs, ms, w) \<Rightarrow> (r # rs, m # ms, w))"

fun confirm_all :: "('w, 'c) link_env \<Rightarrow> 'c ServerTurnManager list \<Rightarrow> 'w \<Rightarrow> bool result list \<times> 'w" where
  "confirm_all env [] w = ([], w)"
| "confirm_all env (m # ms) w =
     (case send_confirm env m w of (r, w) \<Rightarrow> case confirm_all env ms w of (rs, w) \<Rightarrow> (r # rs, w))"

text \<open>The loops over the collected results bail at the first one that is not a grant.\<close>

fun check_grants :: "ResponseMessage result list \<Rightarrow> unit result" where
  "check_grants [] = Inr ()"
| "check_grants (Inr (ResReg _) # rs) = check_grants rs"
| "check_grants (Inr (ResError _ message) # rs) = Inl (Bail (''Server registration failed: '' @ message))"
| "check_grants (Inl e # rs) = Inl (Bail ''Server registration failed'')"
| "check_grants (Inr (ResConfirmReg _) # rs) = Inl (Bail ''Unexpected response from server'')"

fun check_confirms :: "bool result list \<Rightarrow> unit result" where
  "check_confirms [] = Inr ()"
| "check_confirms (Inr True # rs) = check_confirms rs"
| "check_confirms (Inr False # rs) = Inl (Bail ''Server confirmation failed'')"
| "check_confirms (Inl e # rs) = Inl (Bail ''Server confirmation failed'')"

definition coordinated_registration :: "('w, 'c) link_env \<Rightarrow> 'c ServerTurnManager list \<Rightarrow> 'w
    \<Rightarrow> RegResponseMsg result \<times> 'c ServerTurnManager list \<times> 'w" where
  "coordinated_registration env managers w =
     (case managers of
        [] \<Rightarrow> (Inl (Bail ''No servers to register''), managers, w)
      | m0 # others \<Rightarrow>
          (case connect_and_reg env PreRegister m0 w of
             (Inl e, m0, w) \<Rightarrow> (Inl e, m0 # others, w)
           | (Inr (ResError _ message), m0, w) \<Rightarrow>
               (Inl (Bail (''First server registration failed: '' @ message)), m0 # others, w)
           | (Inr (ResConfirmReg _), m0, w) \<Rightarrow> (Inl (Bail ''Unexpected response from first server''), m0 # others, w)
           | (Inr (ResReg reg), m0, w) \<Rightarrow>
               (case (if others = [] then ([], [], w)
                      else reg_all env PreRegister (map (set_ip (rs_ip reg)) others) w) of
                  (results, others, w) \<Rightarrow>
                    (case check_grants results of
                       Inl e \<Rightarrow> (Inl e, m0 # others, w)
                     | Inr _ \<Rightarrow>
                         (case confirm_all env (m0 # others) w of
                            (confirms, w) \<Rightarrow>
                              (case check_confirms confirms of
                                 Inl e \<Rightarrow> (Inl e, m0 # others, w)
                               | Inr _ \<Rightarrow> (Inr reg, m0 # others, w)))))))"

section \<open>The task of one server\<close>

text \<open>The answer to a reconnection: the task goes on, tries again later, or ends and stops the whole group.\<close>

datatype reconnect_outcome = Retry | Resumed | NetworkChanged

definition same_network :: "NetworkAddr \<Rightarrow> RegResponseMsg \<Rightarrow> bool" where
  "same_network net reg \<longleftrightarrow> rs_ip reg = na_ip net \<and> rs_prefix_len reg = na_prefix_len net \<and> rs_gateway reg = na_gateway net"

definition reconnect_round :: "('w, 'c) link_env \<Rightarrow> NetworkAddr \<Rightarrow> i64 \<Rightarrow> 'c ServerTurnManager \<Rightarrow> 'k Node \<Rightarrow> 'w
    \<Rightarrow> reconnect_outcome \<times> 'c ServerTurnManager \<times> 'k Node \<times> 'w" where
  "reconnect_round env net now m nd w =
     (let m = sm_disconnect m; nd = handle_disconnected (sm_server_id m) now nd in
      case connect_and_reg env Normal m w of
        (Inl e, m, w) \<Rightarrow> (Retry, m, nd, w)
      | (Inr (ResReg reg), m, w) \<Rightarrow>
          if \<not> same_network net reg then (NetworkChanged, m, nd, w)
          else (Resumed, m,
                (if rs_server_version reg \<noteq> []
                 then nd\<lparr>as_server_info := set_server_version (sm_server_id m) (rs_server_version reg) (as_server_info nd)\<rparr>
                 else nd), w)
      | (Inr (ResError _ _), m, w) \<Rightarrow> (NetworkChanged, m, nd, w)
      | (Inr (ResConfirmReg _), m, w) \<Rightarrow> (NetworkChanged, m, nd, w))"

definition task_end :: "i64 \<Rightarrow> 'c ServerTurnManager \<Rightarrow> 'k Node \<Rightarrow> 'c ServerTurnManager \<times> 'k Node" where
  "task_end now m nd = (sm_disconnect m, handle_disconnected (sm_server_id m) now nd)"

text \<open>What \<open>select!\<close> of the data loop can yield. \<open>next()\<close> always matches, so the \<open>else\<close> branch is never taken.\<close>

datatype loop_event =
    Outgoing bytes nat nat
  | Incoming "bytes result" nat i64
  | PingTick i64

text \<open>One round of \<open>data_handle_loop\<close> in the state \<open>time\<close>, the arrival of the last packet: the error with which the
  loop is left, or the new time. \<open>sends\<close> are the buffers written to the connection.\<close>

definition loop_step :: "('key, 'k) inbound_env \<Rightarrow> 'key inbound_conf \<Rightarrow> u32 list \<Rightarrow> ipv4 list \<Rightarrow> group_key list \<Rightarrow> u32
    \<Rightarrow> NetworkAddr \<Rightarrow> loop_event \<Rightarrow> i64 \<Rightarrow> 'k Node \<Rightarrow> i64 result \<times> 'k client_effect list \<times> 'k Node" where
  "loop_step env conf sids ips order sid net ev time nd =
     (case ev of
        Outgoing buf expired inst \<Rightarrow>
          if expired < inst then (Inr time, [], nd)
          else (case answer env buf of (res, effs) \<Rightarrow> (and_then res (\<lambda>_. Inr time), effs, nd))
      | Incoming rs inst now \<Rightarrow>
          (case rs of
             Inl e \<Rightarrow> (Inl e, [], nd)
           | Inr data \<Rightarrow>
               (case server_handle env conf sids ips order inst now sid net (tb_from_slice (ce_al env) data) nd of
                  (_, effs, nd) \<Rightarrow> (Inr now, effs, nd)))
      | PingTick now \<Rightarrow>
          if sint (time + 20000) < sint now then (Inl (Bail ''timeout''), [], nd)
          else (case handle_ping env sid now nd of (res, effs) \<Rightarrow> (and_then res (\<lambda>_. Inr time), effs, nd)))"

fun data_handle_loop :: "('key, 'k) inbound_env \<Rightarrow> 'key inbound_conf \<Rightarrow> u32 list \<Rightarrow> ipv4 list \<Rightarrow> group_key list \<Rightarrow> u32
    \<Rightarrow> NetworkAddr \<Rightarrow> loop_event list \<Rightarrow> i64 \<Rightarrow> 'k Node \<Rightarrow> i64 result \<times> 'k client_effect list \<times> 'k Node" where
  "data_handle_loop env conf sids ips order sid net [] time nd = (Inr time, [], nd)"
| "data_handle_loop env conf sids ips order sid net (ev # evs) time nd =
     (case loop_step env conf sids ips order sid net ev time nd of
        (Inl e, effs, nd) \<Rightarrow> (Inl e, effs, nd)
      | (Inr time, effs, nd) \<Rightarrow>
          (case data_handle_loop env conf sids ips order sid net evs time nd of
             (res, effs', nd) \<Rightarrow> (res, effs @ effs', nd)))"

text \<open>The task: \<open>Fresh\<close> and \<open>Lost\<close> are the top of its loop with and without a connection, \<open>Running\<close> the data loop,
  \<open>Finished\<close> the end, where the group of tasks is stopped.\<close>

datatype task_phase = Fresh | Running i64 | Lost | Finished

record ('c, 'k) server_task =
  tk_manager :: "'c ServerTurnManager"
  tk_node :: "'k Node"
  tk_phase :: task_phase
  tk_group_stopped :: bool

datatype task_input = Round i64 | Event loop_event

definition task_connected :: "i64 \<Rightarrow> ('c, 'k) server_task \<Rightarrow> ('c, 'k) server_task" where
  "task_connected now t = t\<lparr>tk_node := handle_connected (sm_server_id (tk_manager t)) now (tk_node t), tk_phase := Running now\<rparr>"

definition task_reconnect :: "('w, 'c) link_env \<Rightarrow> NetworkAddr \<Rightarrow> i64 \<Rightarrow> ('c, 'k) server_task \<Rightarrow> 'w
    \<Rightarrow> ('c, 'k) server_task \<times> 'w" where
  "task_reconnect env net now t w =
     (case reconnect_round env net now (tk_manager t) (tk_node t) w of
        (out, m, nd, w) \<Rightarrow>
          (let t = t\<lparr>tk_manager := m, tk_node := nd\<rparr> in
           case out of
             Retry \<Rightarrow> (t, w)
           | Resumed \<Rightarrow> (task_connected now t, w)
           | NetworkChanged \<Rightarrow>
               (case task_end now m nd of (m, nd) \<Rightarrow>
                 (t\<lparr>tk_manager := m, tk_node := nd, tk_phase := Finished, tk_group_stopped := True\<rparr>, w))))"

definition task_event :: "('key, 'k) inbound_env \<Rightarrow> 'key inbound_conf \<Rightarrow> u32 list \<Rightarrow> ipv4 list \<Rightarrow> group_key list
    \<Rightarrow> NetworkAddr \<Rightarrow> loop_event \<Rightarrow> i64 \<Rightarrow> ('c, 'k) server_task \<Rightarrow> ('c, 'k) server_task" where
  "task_event env conf sids ips order net ev time t =
     (case loop_step env conf sids ips order (sm_server_id (tk_manager t)) net ev time (tk_node t) of
        (Inl e, _, nd) \<Rightarrow> t\<lparr>tk_node := nd, tk_phase := Lost\<rparr>
      | (Inr time, _, nd) \<Rightarrow> t\<lparr>tk_node := nd, tk_phase := Running time\<rparr>)"

definition task_step :: "('key, 'k) inbound_env \<Rightarrow> 'key inbound_conf \<Rightarrow> u32 list \<Rightarrow> ipv4 list \<Rightarrow> group_key list
    \<Rightarrow> ('w, 'c) link_env \<Rightarrow> NetworkAddr \<Rightarrow> task_input \<Rightarrow> ('c, 'k) server_task \<times> 'w \<Rightarrow> ('c, 'k) server_task \<times> 'w" where
  "task_step env conf sids ips order lenv net inp s =
     (case s of (t, w) \<Rightarrow>
        (case (tk_phase t, inp) of
           (Fresh, Round now) \<Rightarrow> (task_connected now t, w)
         | (Lost, Round now) \<Rightarrow> task_reconnect lenv net now t w
         | (Running time, Event ev) \<Rightarrow> (task_event env conf sids ips order net ev time t, w)
         | _ \<Rightarrow> (t, w)))"

end
