(* ===== verification/ClientConfigProps.thy ===== *)
theory ClientConfigProps
  imports ClientConfig
begin

text \<open>
  What the client's configuration code guarantees: texts of server addresses, certificate modes, port
  mappings and subnet routes read back, the check characterised, the three ways of building a
  configuration compared, and what the verifiers accept.
\<close>

section \<open>Server addresses\<close>

definition trimmed :: "string \<Rightarrow> bool" where
  "trimmed s \<longleftrightarrow> s = [] \<or> \<not> is_whitespace (code (hd s)) \<and> \<not> is_whitespace (code (last s))"

definition strip_ends :: "('a \<Rightarrow> bool) \<Rightarrow> 'a list \<Rightarrow> 'a list" where
  "strip_ends P s = rev (dropWhile P (rev (dropWhile P s)))"

lemma dropWhile_id: "s = [] \<or> \<not> P (hd s) \<Longrightarrow> dropWhile P s = s"
  by (cases s) auto

lemma strip_ends_id: "s = [] \<or> \<not> P (hd s) \<and> \<not> P (last s) \<Longrightarrow> strip_ends P s = s"
  by (auto simp: strip_ends_def dropWhile_id hd_rev)

lemma strip_ends_ends: "strip_ends P s \<noteq> [] \<Longrightarrow> \<not> P (hd (strip_ends P s)) \<and> \<not> P (last (strip_ends P s))"
proof -
  define t where "t = dropWhile P s"
  assume n: "strip_ends P s \<noteq> []"
  then have n': "dropWhile P (rev t) \<noteq> []" by (simp add: strip_ends_def t_def)
  then have "t \<noteq> []" by auto
  then have t: "\<not> P (hd t)" unfolding t_def by (rule hd_dropWhile)
  have "strip_ends P s @ rev (takeWhile P (rev t)) = t"
    by (simp add: strip_ends_def t_def flip: rev_append)
  then have "hd (strip_ends P s) = hd t" using n by (metis hd_append2)
  moreover have "\<not> P (last (strip_ends P s))"
    using hd_dropWhile [OF n'] by (simp add: strip_ends_def last_rev t_def)
  ultimately show ?thesis using t by simp
qed

lemma trim_strip: "ascii s \<Longrightarrow> trim s = strip_ends (\<lambda>c. is_whitespace (code c)) s"
  by (simp add: trim_ascii strip_ends_def)

lemma trim_trimmed: "ascii s \<Longrightarrow> trimmed s \<Longrightarrow> trim s = s"
  by (simp add: trim_strip trimmed_def strip_ends_id)

lemma trimmed_trim: "ascii s \<Longrightarrow> trimmed (trim s)"
  using strip_ends_ends [of "\<lambda>c. is_whitespace (code c)" s] by (auto simp: trim_strip trimmed_def)

lemma ascii_trim: "ascii s \<Longrightarrow> ascii (trim s)"
  by (simp add: trim_ascii ascii_dropWhile)

lemma whitespace_lower: "code c < 0x80 \<Longrightarrow> is_whitespace (code (ascii_lower c)) \<longleftrightarrow> is_whitespace (code c)"
  by (auto simp: code_ascii_lower is_whitespace_def)

lemma trimmed_lower: "ascii s \<Longrightarrow> trimmed (map ascii_lower s) \<longleftrightarrow> trimmed s"
proof (cases "s = []")
  case False
  moreover assume "ascii s"
  then have "code (hd s) < 0x80" "code (last s) < 0x80" using False by (simp_all add: ascii_def list_all_iff)
  ultimately show ?thesis by (simp add: trimmed_def whitespace_lower hd_map last_map)
qed (simp add: trimmed_def)

text \<open>The text all readers work on: trimmed, in lower case.\<close>

definition normal :: "string \<Rightarrow> bool" where
  "normal s \<longleftrightarrow> ascii s \<and> trimmed s \<and> map ascii_lower s = s"

lemma normal_text: "ascii s \<Longrightarrow> normal (to_lowercase uni (trim s))"
  using map_lower_idem [OF ascii_trim, of s]
  by (simp add: normal_def to_lowercase_def ascii_trim ascii_map_lower trimmed_lower trimmed_trim)

lemma normal_fix: "normal s \<Longrightarrow> to_lowercase uni (trim s) = s"
  by (simp add: normal_def to_lowercase_def trim_trimmed)

lemma normal_tcp: "normal s \<Longrightarrow> normal (''tcp://'' @ s)"
  by (auto simp: normal_def trimmed_def is_whitespace_def ascii_lower_def is_ascii_uppercase_def)

lemma parse_server_cases:
  assumes "parse_server uni v = Inr (t, a)"
  shows "to_lowercase uni (trim v) = protocol_prefix t @ a \<or> t = PtTlsTcp \<and> a = to_lowercase uni (trim v)"
proof -
  define w where "w = to_lowercase uni (trim v)"
  note p = assms [unfolded parse_server_def, folded w_def, unfolded Let_def]
  note q = strip_prefix_Some [THEN iffD1, of _ w]
  have "w = protocol_prefix t @ a \<or> t = PtTlsTcp \<and> a = w"
    using p q [of "''quic://''"] q [of "''tcp://''"] q [of "''wss://''"] q [of "''dynamic://''"]
    by (simp split: option.splits if_splits)
  then show ?thesis by (simp add: w_def)
qed

lemma parse_server_normal:
  assumes "normal v" "parse_server uni v = Inr (t, a)"
  shows "parse_server uni (protocol_prefix t @ a) = Inr (t, a)"
  using parse_server_cases [OF assms(2)]
proof
  assume "to_lowercase uni (trim v) = protocol_prefix t @ a"
  then show ?thesis using assms(2) by (simp add: normal_fix [OF assms(1)])
next
  assume plain: "t = PtTlsTcp \<and> a = to_lowercase uni (trim v)"
  have "strip_prefix ''quic://'' (''tcp://'' @ v) = None"
    by (simp add: strip_prefix_def starts_with_def)
  then show ?thesis using normal_fix [OF normal_tcp [OF assms(1)], of uni] strip_prefix_append [of "''tcp://''" v]
    by (simp add: plain normal_fix [OF assms(1)] parse_server_def)
qed

text \<open>A server address that was read is printed in a form that reads back as the same address.\<close>

theorem server_address_reads_back:
  assumes "ascii s" "ProtocolAddress_from_str uni s = Inr a"
  shows "ProtocolAddress_from_str uni (ProtocolAddress_to_string a) = Inr a"
proof -
  define v where "v = to_lowercase uni (trim s)"
  have v: "normal v" unfolding v_def using assms(1) by (rule normal_text)
  have "to_lowercase uni (trim v) = to_lowercase uni (trim s)"
    using normal_fix [OF v, of uni] by (simp add: v_def)
  then have "parse_server uni v = parse_server uni s" by (simp only: parse_server_def)
  then obtain t b where p: "parse_server uni v = Inr (t, b)" and a: "a = \<lparr>pa_protocol = t, pa_address = b\<rparr>"
    using assms(2) by (auto simp: ProtocolAddress_from_str_def)
  show ?thesis
    using parse_server_normal [OF v p] by (simp add: a ProtocolAddress_from_str_def ProtocolAddress_to_string_def)
qed

lemma char_a: "char_of (97 :: nat) = CHR ''a''"
  by code_simp

lemma server_address_reads_back_witness:
  "ProtocolAddress_from_str (\<lambda>s. s) (ProtocolAddress_to_string \<lparr>pa_protocol = PtTlsTcp, pa_address = ''a.b:1''\<rparr>) =
     Inr \<lparr>pa_protocol = PtTlsTcp, pa_address = ''a.b:1''\<rparr>"
  by (rule server_address_reads_back [of "'' A.b:1 ''"])
    (simp_all add: ProtocolAddress_from_str_def parse_server_def trim_ascii is_whitespace_def to_lowercase_def
      ascii_lower_def is_ascii_uppercase_def strip_prefix_def starts_with_def str_contains_def char_a)

lemma strip_port_host: "CHR '':'' \<notin> set host \<Longrightarrow> CHR ''['' \<notin> set host \<Longrightarrow> list_all is_digit port \<Longrightarrow>
    strip_port (host @ '':'' @ port) = host"
proof -
  assume h: "CHR '':'' \<notin> set host" and b: "CHR ''['' \<notin> set host" and p: "list_all is_digit port"
  have c: "CHR '':'' \<notin> set port" using p by (auto simp: list_all_iff is_digit_def)
  have "strip_prefix ''['' (host @ '':'' @ port) = None"
    using b by (cases host) (auto simp: strip_prefix_def starts_with_def)
  moreover have "filter (\<lambda>c. c = CHR '':'') (host @ '':'' @ port) = '':''"
  proof -
    have "filter (\<lambda>c. c = CHR '':'') host = []" "filter (\<lambda>c. c = CHR '':'') port = []"
      using h c by (auto simp: filter_empty_conv)
    then show ?thesis by simp
  qed
  ultimately show ?thesis using rsplit_once_char [OF c, of host] p by (simp add: strip_port_def)
qed

section \<open>Certificate modes\<close>

lemma hex_digit_normal: "d < 16 \<Longrightarrow> code (hex_digit d) < 0x80 \<and> \<not> is_whitespace (code (hex_digit d)) \<and>
    ascii_lower (hex_digit d) = hex_digit d"
  by (auto simp: hex_digit_def is_whitespace_def ascii_lower_def is_ascii_uppercase_def)

lemma hex_encode_chars: "c \<in> set (hex_encode bs) \<Longrightarrow> \<exists>d < 16. c = hex_digit d"
proof -
  assume "c \<in> set (hex_encode bs)"
  then obtain b where c: "c = hex_digit (unat (b :: u8) div 16) \<or> c = hex_digit (unat b mod 16)"
    by (auto simp: hex_encode_def)
  have "unat b < 256" using unsigned_less [of b, where 'a = nat] by simp
  then have "unat b div 16 < 16" "unat b mod 16 < 16" by simp_all
  with c show ?thesis by blast
qed

lemma normal_hex: "normal (''finger:'' @ hex_encode bs)"
proof -
  have c: "code c < 0x80 \<and> \<not> is_whitespace (code c) \<and> ascii_lower c = c" if "c \<in> set (hex_encode bs)" for c
    using hex_encode_chars [OF that] hex_digit_normal by auto
  have "ascii (hex_encode bs)" using c by (simp add: ascii_def list_all_iff)
  moreover have "map ascii_lower (hex_encode bs) = hex_encode bs" using c by (simp add: map_idI)
  moreover have "trimmed (''finger:'' @ hex_encode bs)"
    using c last_in_set [of "hex_encode bs"] by (auto simp: trimmed_def is_whitespace_def)
  ultimately show ?thesis by (simp add: normal_def ascii_lower_def is_ascii_uppercase_def)
qed

lemma cert_mode_reads_back:
  assumes "\<And>f. m = VerifyFingerprint f \<Longrightarrow> length f = 32"
  shows "CertValidationMode_from_str uni (CertValidationMode_to_string m) = Inr m"
proof (cases m)
  case (VerifyFingerprint f)
  have "strip_prefix ''finger:'' (''finger:'' @ hex_encode f) = Some (hex_encode f)" by (rule strip_prefix_append)
  with VerifyFingerprint show ?thesis
    using assms normal_fix [OF normal_hex, of uni f] by (simp add: CertValidationMode_from_str_def)
next
  case InsecureSkipVerification
  have "normal ''skip''"
    by (simp add: normal_def trimmed_def is_whitespace_def ascii_lower_def is_ascii_uppercase_def)
  then show ?thesis by (simp add: InsecureSkipVerification CertValidationMode_from_str_def normal_fix)
next
  case StandardCert
  have "normal ''standard''"
    by (simp add: normal_def trimmed_def is_whitespace_def ascii_lower_def is_ascii_uppercase_def)
  then show ?thesis by (simp add: StandardCert CertValidationMode_from_str_def normal_fix)
qed

text \<open>The fingerprint mode accepts every handshake signature, hence every server that presents the pinned
  certificate, which is public; the signature that proves possession of its key is never checked.\<close>

theorem fingerprint_does_not_authenticate:
  "\<exists>v. build_verifier sha webpki (VerifyFingerprint (sha cert)) = Inr v \<and> verify_server_cert v cert name \<and>
    verify_handshake_signature v message cert forged"
  by (simp add: FingerprintVerifier_def)

lemma fingerprint_selects_certificate:
  "build_verifier sha webpki (VerifyFingerprint f) = Inr v \<Longrightarrow> verify_server_cert v cert name \<longleftrightarrow> sha cert = f"
  by (auto simp: FingerprintVerifier_def)

section \<open>Port mappings and subnet routes\<close>

text \<open>A mapping that was read has a protocol with a name and a port.\<close>

definition mapping_ok :: "PortMapping \<Rightarrow> bool" where
  "mapping_ok m \<longleftrightarrow> pm_protocol m \<in> {6, 17} \<and> pm_dst_port m \<noteq> 0"

lemma mapping_from_str_ok: "PortMapping_from_str v6p s = Inr m \<Longrightarrow> mapping_ok m"
  by (auto simp: PortMapping_from_str_def mapping_ok_def str_to_protocol_def Let_def split: if_splits)

lemma show_octet_avoid: "n < 256 \<Longrightarrow> c \<in> set (show_octet n) \<Longrightarrow> is_digit c"
  using show_octet_digits [of n] by (simp add: list_all_iff)

lemma ip_text_chars: "c \<in> set (ip_to_string ip) \<Longrightarrow> is_digit c \<or> c = CHR ''.''"
proof -
  assume c: "c \<in> set (ip_to_string ip)"
  obtain a b d e where o: "be_enc 4 (unat ip) = [a, b, d, e]"
    using list_of_four [OF length_be_enc] by blast
  have lt: "unat (x :: u8) < 256" for x using unsigned_less [of x, where 'a = nat] by simp
  show ?thesis using c show_octet_avoid [OF lt]
    by (auto simp: ip_to_string_def ip_octets_def o)
qed

lemma digit_not: "is_digit c \<Longrightarrow> c \<noteq> CHR '':'' \<and> c \<noteq> CHR ''-'' \<and> c \<noteq> CHR '',''"
  by (auto simp: is_digit_def)

lemma ip_text_avoids: "CHR '':'' \<notin> set (ip_to_string ip)" "CHR ''-'' \<notin> set (ip_to_string ip)"
    "CHR '','' \<notin> set (ip_to_string ip)"
  using ip_text_chars digit_not by fastforce+

lemma number_avoids: "CHR '':'' \<notin> set (show_nat n)" "CHR ''-'' \<notin> set (show_nat n)"
  using digits_avoid [OF show_nat_digits] digit_not by blast+

lemma SocketAddr_reads_back: "SocketAddr_from_str v6p (SocketAddr_to_string v6s (V4 ip p)) = Some (V4 ip p)"
  using split_once_char [OF ip_text_avoids(1), of ip "show_nat (unat p)"] by (simp add: SocketAddr_from_str_def)

text \<open>C32 A mapping with a name for its protocol, a port and an IPv4 source reads back from its text, whatever
  the host name.\<close>

theorem port_mapping_roundtrip:
  assumes "mapping_ok m" "pm_src_addr m = V4 ip p"
  shows "PortMapping_from_str v6p (PortMapping_to_string v6s m) = Inr m"
proof -
  define src where "src = SocketAddr_to_string v6s (V4 ip p)"
  define tgt where "tgt = ip_to_string (pm_virtual_target_ip m)"
  define dst where "dst = pm_dst_host m @ CHR '':'' # show_nat (unat (pm_dst_port m))"
  define proto where "proto = protocol_to_str (pm_protocol m)"
  have t: "PortMapping_to_string v6s m = proto @ ''://'' @ src @ CHR ''-'' # tgt @ CHR ''-'' # dst"
    by (simp add: PortMapping_to_string_def assms(2) proto_def src_def tgt_def dst_def)
  have pr: "str_to_protocol proto = Some (pm_protocol m)"
    "split_once ''://'' (proto @ ''://'' @ r) = Some (proto, r)" for r
    using assms(1) by (auto simp: proto_def mapping_ok_def protocol_to_str_def str_to_protocol_def Let_def
        to_ascii_lowercase_def ascii_lower_def is_ascii_uppercase_def starts_with_def)
  have s: "CHR ''-'' \<notin> set src" by (simp add: src_def ip_text_avoids number_avoids)
  have parts: "splitn 3 (CHR ''-'') (src @ CHR ''-'' # tgt @ CHR ''-'' # dst) = [src, tgt, dst]"
    using split_once_char [OF s] split_once_char [of "CHR ''-''" tgt dst]
    by (simp add: numeral_3_eq_3 tgt_def ip_text_avoids)
  have d: "rsplit_once (CHR '':'') dst = Some (pm_dst_host m, show_nat (unat (pm_dst_port m)))"
    unfolding dst_def by (rule rsplit_once_char) (rule number_avoids)
  have a: "SocketAddr_from_str v6p src = Some (V4 ip p)" unfolding src_def by (rule SocketAddr_reads_back)
  have "pm_dst_port m \<noteq> 0" using assms(1) by (simp add: mapping_ok_def)
  moreover have "m = \<lparr>pm_protocol = pm_protocol m, pm_src_addr = V4 ip p,
      pm_virtual_target_ip = pm_virtual_target_ip m, pm_dst_host = pm_dst_host m, pm_dst_port = pm_dst_port m\<rparr>"
    by (simp flip: assms(2))
  ultimately show ?thesis
    unfolding t PortMapping_from_str_def pr(2)
    by (simp add: pr(1) parts a d) (simp add: tgt_def)
qed

lemma port_mapping_roundtrip_witness:
  "PortMapping_from_str (\<lambda>_. None) (PortMapping_to_string (\<lambda>_. [])
      \<lparr>pm_protocol = 6, pm_src_addr = V4 0 81, pm_virtual_target_ip = 0x0A000002, pm_dst_host = ''a-b'', pm_dst_port = 80\<rparr>) =
    Inr \<lparr>pm_protocol = 6, pm_src_addr = V4 0 81, pm_virtual_target_ip = 0x0A000002, pm_dst_host = ''a-b'', pm_dst_port = 80\<rparr>"
  by (rule port_mapping_roundtrip [where ip = 0 and p = 81]) (simp_all add: mapping_ok_def)

lemma trim_ip: "trim (ip_to_string ip) = ip_to_string ip"
proof -
  have c: "code c < 0x80 \<and> \<not> is_whitespace (code c)" if "c \<in> set (ip_to_string ip)" for c
    using ip_text_chars [OF that] by (auto simp: is_digit_def is_whitespace_def)
  then have "ascii (ip_to_string ip)" "trimmed (ip_to_string ip)"
    by (auto simp: ascii_def list_all_iff trimmed_def)
  then show ?thesis by (rule trim_trimmed)
qed

lemma net_input_reads_back:
  assumes "netp (nets (ni_net n)) = Some (ni_net n)" "CHR '','' \<notin> set (nets (ni_net n))"
    "trim (nets (ni_net n)) = nets (ni_net n)"
  shows "NetInput_from_str netp (NetInput_to_string nets n) = Inr n"
  using assms split_char_cons [OF assms(2), of "ip_to_string (ni_target_ip n)"] split_char_word [OF ip_text_avoids(3)]
  by (simp add: NetInput_from_str_def NetInput_to_string_def trim_ip)

section \<open>The check\<close>

lemma all_new_iff: "all_new seen as \<longleftrightarrow> distinct as \<and> set as \<inter> seen = {}"
  by (induction as arbitrary: seen) auto

text \<open>What passes the check, exactly. The empty network code and the empty device id pass, which a server refuses.\<close>

theorem config_check_iff:
  "Config_check c = Inr () \<longleftrightarrow>
     cf_server_addr c \<noteq> [] \<and> distinct (map pa_address (cf_server_addr c)) \<and>
     length (cf_network_code c) \<le> 32 \<and> length (cf_device_id c) \<le> 64 \<and> length (cf_device_name c) \<le> 128 \<and>
     (cf_mtu c = None \<or> the (cf_mtu c) \<le> 1500)"
proof -
  have "cf_server_addr c \<noteq> [] \<Longrightarrow> \<not> 1 < length (cf_server_addr c) \<Longrightarrow> distinct (map pa_address (cf_server_addr c))"
    by (cases "cf_server_addr c") auto
  then show ?thesis
    by (auto simp: Config_check_def all_new_iff CFG_MAX_NETWORK_CODE_LEN_def CFG_MAX_DEVICE_ID_LEN_def
        CFG_MAX_NAME_LEN_def MAX_MTU_def not_less split: option.splits if_splits)
qed

section \<open>Command line and file\<close>

definition FileConfig_default :: FileConfig where
  "FileConfig_default =
     \<lparr>fc_server = None, fc_network_code = None, fc_ip = None, fc_no_punch = None, fc_use_channel = None, fc_rtx = None,
      fc_compress = None, fc_fec = None, fc_input = None, fc_output = None, fc_no_nat = None, fc_no_tun = None,
      fc_mtu = None, fc_ctrl_port = None, fc_port_mapping = None, fc_allow_mapping = None, fc_device_id = None,
      fc_device_name = None, fc_tun_name = None, fc_password = None, fc_cert_mode = None, fc_udp_stun = None,
      fc_tcp_stun = None\<rparr>"

text \<open>The command line on which nothing was given.\<close>

definition no_args :: Args where
  "no_args =
     \<lparr>ar_server = [], ar_network_code = None, ar_token = None, ar_ip = None, ar_password = None, ar_rtx = False,
      ar_compress = False, ar_fec = False, ar_input = [], ar_output = [], ar_device_name = None, ar_device_id = None,
      ar_no_punch = False, ar_use_channel = None, ar_cert_mode = None, ar_tun_name = None, ar_no_nat = False,
      ar_no_tun = False, ar_port_mapping = [], ar_allow_mapping = False, ar_mtu = None, ar_ctrl_port = None\<rparr>"

lemma or_default_simps [simp]:
  "or_default d None = d"
  "or_default d (Some x) = x"
  by (simp_all add: or_default_def)

lemma or_else_simps [simp]:
  "or_else None y = y"
  "or_else (Some z) y = Some z"
  "or_else y None = y"
  by (simp_all add: or_else_def split: option.split)

lemma ok_simps [simp]:
  "ok (Inl e) = None"
  "ok (Inr a) = Some a"
  by (simp_all add: ok_def)

lemma UseChannel_auto [simp]: "UseChannel_from_str uni ''auto'' = Inr Auto"
  by (simp add: UseChannel_from_str_def to_lowercase_def ascii_lower_def is_ascii_uppercase_def)

lemma use_channel_default:
  "or_default Auto (ok (UseChannel_from_str uni (or_default ''auto'' x))) =
   or_default Auto (Option.bind x (\<lambda>s. ok (UseChannel_from_str uni s)))"
  by (cases x) simp_all

text \<open>C31 The three builders agree where they overlap: a file alone counts as a file under an empty command line,
  a command line alone as one over an empty file. They fail together as well; only the error that is reported
  first may differ.\<close>

theorem config_builders_agree:
  "ok (build_from_file_only h f) = ok (build_from_args_and_file h no_args f) \<and>
   ok (build_from_args_only h a) = ok (build_from_args_and_file h a FileConfig_default)"
proof
  show "ok (build_from_file_only h f) = ok (build_from_args_and_file h no_args f)"
    by (cases "to_server_addr (he_uni h) f"; cases "to_port_mapping (he_v6p h) f"; cases "fc_network_code f";
        cases "device_id_of h (fc_device_id f)")
      (simp_all add: build_from_file_only_def build_from_args_and_file_def no_args_def use_channel_default)
  show "ok (build_from_args_only h a) = ok (build_from_args_and_file h a FileConfig_default)"
    by (cases "ar_network_code a"; cases "device_id_of h (ar_device_id a)")
      (simp_all add: build_from_args_only_def build_from_args_and_file_def FileConfig_default_def use_channel_default
        to_server_addr_def to_port_mapping_def file_cert_mode_def)
qed

text \<open>What the command line says wins, and a file cannot be switched off by it.\<close>

lemma command_line_wins:
  assumes "build_from_args_and_file h a f = Inr (c, port)"
  shows "ar_server a \<noteq> [] \<Longrightarrow> cf_server_addr c = ar_server a"
    "ar_network_code a = Some n \<Longrightarrow> cf_network_code c = n"
    "ar_password a = Some p \<Longrightarrow> cf_password c = Some p"
    "ar_cert_mode a = Some m \<Longrightarrow> cf_cert_mode c = m"
    "fc_no_punch f = Some True \<Longrightarrow> cf_no_punch c"
  using assms by (auto simp: build_from_args_and_file_def)

text \<open>A certificate mode in the file that does not parse is not reported: the client connects without
  verification.\<close>

theorem bad_cert_mode_disables_verification:
  assumes "fc_cert_mode f = Some s" "CertValidationMode_from_str (he_uni h) s = Inl e"
    "build_from_file_only h f = Inr (c, port)"
  shows "cf_cert_mode c = InsecureSkipVerification"
  using assms by (auto simp: build_from_file_only_def file_cert_mode_def)

lemma bad_cert_mode_disables_verification_witness:
  "map_option (cf_cert_mode \<circ> fst) (ok (build_from_file_only
     \<lparr>he_uni = (\<lambda>s. s), he_v6p = (\<lambda>_. None), he_device_id = Inr ''d'', he_hostname = None\<rparr>
     (FileConfig_default\<lparr>fc_network_code := Some ''n'', fc_cert_mode := Some ''fingr''\<rparr>))) = Some InsecureSkipVerification"
proof -
  define h where "h = \<lparr>he_uni = (\<lambda>s :: string. s), he_v6p = (\<lambda>_. None), he_device_id = Inr ''d'', he_hostname = None\<rparr>"
  define f where "f = FileConfig_default\<lparr>fc_network_code := Some ''n'', fc_cert_mode := Some ''fingr''\<rparr>"
  have "normal ''fingr''"
    by (simp add: normal_def trimmed_def is_whitespace_def ascii_lower_def is_ascii_uppercase_def)
  then have p: "CertValidationMode_from_str (he_uni h) ''fingr'' = Inl (Bail ''Unknown certificate validation mode'')"
    by (simp add: CertValidationMode_from_str_def normal_fix strip_prefix_def starts_with_def)
  have "\<exists>c port. build_from_file_only h f = Inr (c, port)"
    by (simp add: build_from_file_only_def to_server_addr_def to_port_mapping_def device_id_of_def f_def h_def
        FileConfig_default_def)
  then obtain c port where b: "build_from_file_only h f = Inr (c, port)" by blast
  have "cf_cert_mode c = InsecureSkipVerification"
    by (rule bad_cert_mode_disables_verification [OF _ p b]) (simp add: f_def)
  then show ?thesis using b by (simp flip: h_def f_def)
qed

end
