(* ===== verification/ServerLinkProps.thy ===== *)
theory ServerLinkProps
  imports ServerLink ClientConfigProps ServiceSafety Tunnel
begin

text \<open>
  What the client's connections guarantee: the transports stay coherent with the configured protocol, the
  coordinated registration is all or nothing, a silent server is noticed, the connection flag that routing
  reads is true while the data loop runs and false when the task has ended, and a checked configuration with
  the right password is admitted by the server.
\<close>

section \<open>Transports\<close>

text \<open>No transport without its stream is ever kept, so \<open>Not connected\<close> inside a transport cannot occur.\<close>

definition transport_ok :: "'c TransportClient \<Rightarrow> bool" where
  "transport_ok t \<longleftrightarrow> t = TcPending \<or> (\<exists>c. t = TcQuic (Some c) \<or> t = TcTlsTcp (Some c) \<or> t = TcWss (Some c))"

fun transport_protocol :: "'c TransportClient \<Rightarrow> ProtocolType option" where
  "transport_protocol (TcQuic f) = Some PtQuic"
| "transport_protocol (TcTlsTcp f) = Some PtTlsTcp"
| "transport_protocol (TcWss f) = Some PtWss"
| "transport_protocol TcPending = None"

lemma transport_ok_pending [simp]: "transport_ok TcPending" "transport_ok (transport_disconnect t)"
  by (simp_all add: transport_ok_def transport_disconnect_def)

lemma opened_cases:
  assumes "opened_stream mk t r = (res, t', w')"
  obtains e where "res = Inl e" "t' = t" "e = Bail ''timeout'' \<or> (\<exists>w. r = (Some (Inl e), w))"
  | c where "res = Inr ()" "t' = mk (Some c)"
  using assms by (auto simp: opened_stream_def split: option.splits sum.splits prod.splits)

lemma connect_pending:
  assumes "transport_connect_timeout env cfg TcPending w = (res, t', w')"
  shows "transport_ok t' \<and> (res = Inr () \<longrightarrow> transport_protocol t' = Some (co_protocol cfg)) \<and>
    (\<forall>e. res = Inl e \<longrightarrow> t' = TcPending)"
  using assms
  by (cases "co_protocol cfg") (auto simp: opened_stream_def transport_ok_def split: option.splits sum.splits prod.splits)

lemma sm_disconnect_pending [simp]: "sm_transport (sm_disconnect m) = TcPending"
  by (simp add: sm_disconnect_def transport_disconnect_def)

lemma sm_disconnect_server [simp]: "sm_server_id (sm_disconnect m) = sm_server_id m"
    "sm_config (sm_disconnect m) = sm_config m"
  by (simp_all add: sm_disconnect_def)

lemma resolve_target_static: "resolve_target env a w = (Inr (p, d), w') \<Longrightarrow> p \<noteq> PtDynamic"
  by (auto simp: resolve_target_def txt_target_def Let_def split: if_splits sum.splits list.splits option.splits prod.splits)

lemma to_connect_config_target:
  assumes "to_connect_config env c w = (Inr cfg, w')"
  obtains d w1 where "resolve_target env (cr_server_addr c) w = (Inr (co_protocol cfg, d), w1)"
  using assms by (auto simp: to_connect_config_def split: sum.splits prod.splits)

lemma to_connect_config_static: "to_connect_config env c w = (Inr cfg, w') \<Longrightarrow> co_protocol cfg \<noteq> PtDynamic"
  by (elim to_connect_config_target) (rule resolve_target_static)

lemma to_connect_config_protocol:
  assumes "to_connect_config env c w = (Inr cfg, w')" "pa_protocol (cr_server_addr c) \<noteq> PtDynamic"
  shows "co_protocol cfg = pa_protocol (cr_server_addr c)"
proof -
  obtain d w1 where "resolve_target env (cr_server_addr c) w = (Inr (co_protocol cfg, d), w1)"
    using to_connect_config_target [OF assms(1)] by blast
  with assms(2) show ?thesis by (simp add: resolve_target_def)
qed

text \<open>The result of \<open>connect_and_reg\<close> by the step it got to.\<close>

lemma connect_and_reg_cases:
  assumes "connect_and_reg env mode m w = (r, m', w')"
  obtains (unresolved) e where "to_connect_config env (sm_config m) w = (Inl e, w')" "r = Inl e" "m' = m"
  | (refused) cfg w1 e t where "to_connect_config env (sm_config m) w = (Inr cfg, w1)"
      "transport_connect_timeout env cfg (sm_transport m) w1 = (Inl e, t, w')" "r = Inl e"
      "m' = m\<lparr>sm_transport := t\<rparr>"
  | (broken) cfg w1 t w2 e where "to_connect_config env (sm_config m) w = (Inr cfg, w1)"
      "transport_connect_timeout env cfg (sm_transport m) w1 = (Inr (), t, w2)"
      "exchange env (reg_request env mode m) t w2 = (Inl e, w')" "r = Inl e" "m' = m\<lparr>sm_transport := t\<rparr>"
  | (answered) cfg w1 t w2 res where "to_connect_config env (sm_config m) w = (Inr cfg, w1)"
      "transport_connect_timeout env cfg (sm_transport m) w1 = (Inr (), t, w2)"
      "exchange env (reg_request env mode m) t w2 = (Inr res, w')" "r = Inr res"
      "m' = (case res of ResReg _ \<Rightarrow> m\<lparr>sm_transport := t\<rparr> | _ \<Rightarrow> sm_disconnect (m\<lparr>sm_transport := t\<rparr>))"
proof -
  obtain rc w1 where c: "to_connect_config env (sm_config m) w = (rc, w1)" by (metis prod.collapse)
  show thesis
  proof (cases rc)
    case (Inl e)
    with c assms show thesis by (intro unresolved) (auto simp: connect_and_reg_def)
  next
    case (Inr cfg)
    obtain rt t w2 where t: "transport_connect_timeout env cfg (sm_transport m) w1 = (rt, t, w2)"
      by (metis prod.collapse)
    show thesis
    proof (cases rt)
      case (Inl e)
      with c Inr t assms show thesis by (intro refused) (auto simp: connect_and_reg_def)
    next
      case (Inr u)
      obtain re w3 where x: "exchange env (reg_request env mode (m\<lparr>sm_transport := t\<rparr>)) t w2 = (re, w3)"
        by (metis prod.collapse)
      have q: "reg_request env mode (m\<lparr>sm_transport := t\<rparr>) = reg_request env mode m"
        by (simp add: reg_request_def)
      show thesis
      proof (cases re)
        case (Inl e)
        with c \<open>rc = Inr cfg\<close> Inr t x q assms show thesis
          by (intro broken) (auto simp: connect_and_reg_def)
      next
        case re: (Inr res)
        with c \<open>rc = Inr cfg\<close> Inr t x q assms show thesis
          by (intro answered [of cfg w1 t w2 res]) (auto simp: connect_and_reg_def Let_def)
      qed
    qed
  qed
qed

lemma connection_typed:
  assumes "connect_and_reg env mode m w = (r, m', w')" "sm_transport m = TcPending"
  shows "transport_ok (sm_transport m') \<and>
    (\<forall>reg. r = Inr (ResReg reg) \<longrightarrow> (\<exists>p d w1. resolve_target env (cr_server_addr (sm_config m)) w = (Inr (p, d), w1) \<and>
       p \<noteq> PtDynamic \<and> transport_protocol (sm_transport m') = Some p))"
  using assms(1)
proof (cases rule: connect_and_reg_cases)
  case (unresolved e)
  then show ?thesis by (simp add: assms(2))
next
  case (refused cfg w1 e t)
  then show ?thesis using connect_pending [of env cfg w1] by (simp add: assms(2))
next
  case (broken cfg w1 t w2 e)
  then show ?thesis using connect_pending [of env cfg w1] by (simp add: assms(2))
next
  case (answered cfg w1 t w2 res)
  then have t: "transport_ok t" "transport_protocol t = Some (co_protocol cfg)"
    using connect_pending [of env cfg w1] by (simp_all add: assms(2))
  show ?thesis
  proof (cases res)
    case (ResReg reg)
    obtain d w1' where rs: "resolve_target env (cr_server_addr (sm_config m)) w = (Inr (co_protocol cfg, d), w1')"
      using to_connect_config_target [OF answered(1)] by blast
    show ?thesis using t rs resolve_target_static [OF rs] answered ResReg by simp
  qed (use answered in simp_all)
qed

text \<open>C24 A manager that starts disconnected ends with a coherent transport; a grant leaves it connected by the
  protocol that its address (or the TXT record behind it) names, and the branch for an unresolved protocol is
  never reached.\<close>

theorem connection_well_typed:
  assumes "connect_and_reg env mode m w = (r, m', w')" "sm_transport m = TcPending"
  shows "transport_ok (sm_transport m') \<and>
    (\<forall>reg. r = Inr (ResReg reg) \<longrightarrow> (\<exists>p d w1. resolve_target env (cr_server_addr (sm_config m)) w = (Inr (p, d), w1) \<and>
       p \<noteq> PtDynamic \<and> transport_protocol (sm_transport m') = Some p))"
  by (rule connection_typed [OF assms])

section \<open>Coordinated registration\<close>

lemma check_grants_iff: "check_grants rs = Inr () \<longleftrightarrow> (\<exists>regs. rs = map (\<lambda>g. Inr (ResReg g)) regs)"
proof
  assume "check_grants rs = Inr ()"
  then show "\<exists>regs. rs = map (\<lambda>g. Inr (ResReg g)) regs"
  proof (induction rs rule: check_grants.induct)
    case (2 g rs)
    then obtain regs where rs: "rs = map (\<lambda>g. Inr (ResReg g)) regs" by auto
    show ?case by (rule exI [of _ "g # regs"]) (simp add: rs)
  qed simp_all
next
  assume "\<exists>regs. rs = map (\<lambda>g. Inr (ResReg g)) regs"
  then obtain regs where "rs = map (\<lambda>g. Inr (ResReg g)) regs" by blast
  then show "check_grants rs = Inr ()" by (induction regs arbitrary: rs) auto
qed

lemma check_confirms_iff: "check_confirms rs = Inr () \<longleftrightarrow> list_all (\<lambda>r. r = Inr True) rs"
  by (induction rs rule: check_confirms.induct) auto

lemma coordinated_iff:
  "coordinated_registration env (m0 # others) w = (Inr reg, ms, w') \<longleftrightarrow>
    (\<exists>m1 w1 regs others' w2 confirms.
       connect_and_reg env PreRegister m0 w = (Inr (ResReg reg), m1, w1) \<and>
       reg_all env PreRegister (map (set_ip (rs_ip reg)) others) w1 = (map (\<lambda>g. Inr (ResReg g)) regs, others', w2) \<and>
       ms = m1 # others' \<and>
       confirm_all env ms w2 = (confirms, w') \<and> list_all (\<lambda>r. r = Inr True) confirms)" (is "?l \<longleftrightarrow> ?r")
proof
  obtain r m1 w1 where c: "connect_and_reg env PreRegister m0 w = (r, m1, w1)" by (metis prod.collapse)
  assume l: ?l
  then obtain g where r: "r = Inr (ResReg g)"
    using c by (auto simp: coordinated_registration_def split: sum.splits ResponseMessage.splits)
  obtain rs others' w2 where a: "reg_all env PreRegister (map (set_ip (rs_ip g)) others) w1 = (rs, others', w2)"
    by (metis prod.collapse)
  have a': "(if others = [] then ([], [], w1) else reg_all env PreRegister (map (set_ip (rs_ip g)) others) w1) =
      (rs, others', w2)"
    using a by auto
  obtain cs w3 where f: "confirm_all env (m1 # others') w2 = (cs, w3)" by (metis prod.collapse)
  have "check_grants rs = Inr () \<and> check_confirms cs = Inr () \<and> g = reg \<and> ms = m1 # others' \<and> w' = w3"
    using l by (auto simp: coordinated_registration_def c r a' f simp del: confirm_all.simps split: sum.splits)
  then show ?r using c r a f by (auto simp: check_grants_iff check_confirms_iff simp del: confirm_all.simps)
next
  assume ?r
  then obtain m1 w1 regs others' w2 cs where
    c: "connect_and_reg env PreRegister m0 w = (Inr (ResReg reg), m1, w1)" and
    a: "reg_all env PreRegister (map (set_ip (rs_ip reg)) others) w1 = (map (\<lambda>g. Inr (ResReg g)) regs, others', w2)" and
    m: "ms = m1 # others'" and f: "confirm_all env ms w2 = (cs, w')" and ok: "check_confirms cs = Inr ()"
    by (auto simp: check_confirms_iff)
  have "(if others = [] then ([], [], w1) else reg_all env PreRegister (map (set_ip (rs_ip reg)) others) w1) =
      (map (\<lambda>g. Inr (ResReg g)) regs, others', w2)"
    using a by auto
  moreover have "check_grants (map (\<lambda>g. Inr (ResReg g)) regs) = Inr ()" by (auto simp: check_grants_iff)
  ultimately show ?l using ok f
    by (simp add: coordinated_registration_def c m del: confirm_all.simps)
qed

text \<open>C10 The registration with several servers succeeds exactly when the first grants an address, every other one
  asked for that address grants one, and all of them confirm; the answer of the first is the result.\<close>

theorem coordinated_all_or_nothing:
  "coordinated_registration env (m0 # others) w = (Inr reg, ms, w') \<longleftrightarrow>
    (\<exists>m1 w1 regs others' w2 confirms.
       connect_and_reg env PreRegister m0 w = (Inr (ResReg reg), m1, w1) \<and>
       reg_all env PreRegister (map (set_ip (rs_ip reg)) others) w1 = (map (\<lambda>g. Inr (ResReg g)) regs, others', w2) \<and>
       ms = m1 # others' \<and>
       confirm_all env ms w2 = (confirms, w') \<and> list_all (\<lambda>r. r = Inr True) confirms)"
  by (rule coordinated_iff)

text \<open>A world that answers from a script.\<close>

definition script_env :: "(bytes list, unit) link_env" where
  "script_env =
     \<lparr>le_uni = (\<lambda>s. s), le_version = ''2.0'', le_txt = (\<lambda>d w. (Inr [d], w)), le_lookup = (\<lambda>d w. (Inr (V4 1 29872), w)),
      le_open = (\<lambda>p a w. (Some (Inr ()), w)), le_send = (\<lambda>c b w. (Inr (), w)),
      le_next = (\<lambda>c w. case w of [] \<Rightarrow> (None, []) | b # w \<Rightarrow> (Some (Inr b), w)), le_request = (\<lambda>p. []),
      le_response = (\<lambda>b. Some (Some (case b of [] \<Rightarrow> PConfirmRes True
        | x # _ \<Rightarrow> PRegRes \<lparr>p_res_ip = ucast x, p_prefix_len = 24, p_gateway = 1, p_server_version = []\<rparr>)))\<rparr>"

definition script_manager :: "u32 \<Rightarrow> string \<Rightarrow> unit ServerTurnManager" where
  "script_manager sid addr = ServerTurnManager_new sid
     \<lparr>cr_server_addr = \<lparr>pa_protocol = PtTlsTcp, pa_address = addr\<rparr>, cr_cert_mode = StandardCert, cr_network_code = ''n'',
      cr_device_id = ''d'', cr_device_name = ''c'', cr_ip = None, cr_key_sign = None, cr_ip_variable = True\<rparr>"

text \<open>Whatever addresses the other servers grant, the client takes the first one for all of them: with no address
  configured the second request allows another address, and its grant is not compared.\<close>

theorem coordinated_registration_splits:
  "\<exists>ms w'. coordinated_registration script_env [script_manager 0 ''a'', script_manager 1 ''b''] [[2], [3], [], []] =
       (Inr \<lparr>rs_ip = 2, rs_prefix_len = 24, rs_gateway = 1, rs_server_version = []\<rparr>, ms, w') \<and>
     fst (connect_and_reg script_env PreRegister (set_ip 2 (script_manager 1 ''b'')) [[3], [], []]) =
       Inr (ResReg \<lparr>rs_ip = 3, rs_prefix_len = 24, rs_gateway = 1, rs_server_version = []\<rparr>) \<and>
     cr_ip_variable (sm_config (set_ip 2 (script_manager 1 ''b'')))"
  by (simp add: coordinated_registration_def connect_and_reg_def to_connect_config_def resolve_target_def script_env_def
      script_manager_def ServerTurnManager_new_def transport_new_def stream_connect_def opened_stream_def exchange_def
      transport_send_def transport_next_timeout_def ResponseMessage_from_slice_def RegResponseMsg_from_def set_ip_def
      send_confirm_def)

section \<open>The data loop\<close>

definition arrives :: "loop_event \<Rightarrow> bool" where
  "arrives ev = (case ev of Incoming (Inr _) _ _ \<Rightarrow> True | _ \<Rightarrow> False)"

lemma loop_step_silent: "\<not> arrives ev \<Longrightarrow> loop_step env conf sids ips order sid net ev time nd = (Inr t, effs, nd') \<Longrightarrow> t = time"
  by (cases ev) (auto simp: loop_step_def arrives_def split: if_splits prod.splits sum.splits)

text \<open>A server from which nothing came for twenty seconds is given up at the next tick, whatever else is sent
  meanwhile.\<close>

theorem silent_server_detected:
  assumes "\<forall>ev \<in> set evs. \<not> arrives ev" "sint (time + 20000) < sint now"
  shows "\<exists>e effs nd'. data_handle_loop env conf sids ips order sid net (evs @ [PingTick now]) time nd = (Inl e, effs, nd')"
  using assms
proof (induction evs arbitrary: nd)
  case Nil
  then show ?case by (simp add: loop_step_def)
next
  case (Cons ev evs)
  obtain r effs nd1 where s: "loop_step env conf sids ips order sid net ev time nd = (r, effs, nd1)"
    by (metis prod.collapse)
  show ?case
  proof (cases r)
    case (Inr t)
    then have "t = time" using loop_step_silent [of ev] s Cons.prems(1) by auto
    moreover obtain e effs' nd' where
      "data_handle_loop env conf sids ips order sid net (evs @ [PingTick now]) time nd1 = (Inl e, effs', nd')"
      using Cons.IH [of nd1] Cons.prems by auto
    ultimately show ?thesis using s Inr by simp
  qed (use s in simp)
qed

section \<open>The connection flag\<close>

text \<open>The flag that the choice of a server reads. Nothing that a packet does changes it.\<close>

definition up :: "'k Node \<Rightarrow> u32 \<Rightarrow> bool" where
  "up nd sid \<longleftrightarrow> is_server_connected sid (as_server_info nd)"

definition keeps :: "(TransmissionBytes \<Rightarrow> 'k Node \<Rightarrow> unit result \<times> 'k client_effect list \<times> 'k Node) \<Rightarrow> bool" where
  "keeps f \<longleftrightarrow> (\<forall>p nd. up (snd (snd (f p nd))) = up nd)"

lemma up_cong: "as_server_info nd' = as_server_info nd \<Longrightarrow> up nd' = up nd"
  by (simp add: up_def fun_eq_iff)

lemma up_set_rtt: "up (nd\<lparr>as_server_info := set_server_rtt sid r (as_server_info nd)\<rparr>) = up nd"
  by (auto simp: up_def is_server_connected_def set_server_rtt_def fun_eq_iff split: option.splits)

lemma up_update: "up (nd\<lparr>as_server_info := update_client_simple_list sids ips sid ip l now (as_server_info nd)\<rparr>) = up nd"
  by (auto simp: up_def is_server_connected_def update_client_simple_list_def Let_def node_or_default_def
      ServerNodeInfo_default_def fun_eq_iff split: option.splits)

lemma up_enhanced: "up (snd (snd (enhanced_inbound env conf net t src p nd))) = up nd"
  by (auto simp: enhanced_inbound_def Let_def up_def fun_eq_iff split: sum.splits prod.splits)

lemma keeps_enhanced: "keeps (enhanced_inbound env conf net t src)"
  by (simp add: keeps_def up_enhanced)

lemma up_process_all:
  "(\<And>p nd. up (snd (snd (f p nd))) = up nd) \<Longrightarrow> up (snd (snd (process_all f ps nd))) = up nd"
  by (induction ps arbitrary: nd) (auto split: prod.splits sum.splits, metis snd_conv, metis snd_conv)

lemma keeps_after_fec: "keeps f \<Longrightarrow> keeps (after_fec env order inst f)"
  unfolding keeps_def
proof (intro allI)
  fix p nd
  assume f: "\<forall>p nd. up (snd (snd (f p nd))) = up nd"
  obtain nd1 r where u: "fec_unwrap env order inst (tb_view p) nd = (nd1, r)" by (metis prod.collapse)
  then have k: "up nd1 = up nd" by (auto simp: fec_unwrap_def up_def split: prod.splits)
  show "up (snd (snd (after_fec env order inst f p nd))) = up nd"
  proof (cases "is_fec (tb_view p)")
    case True
    show ?thesis
    proof (cases r)
      case (Inr o')
      then show ?thesis using True u k f by (cases o') (simp_all add: after_fec_def up_process_all)
    qed (use True u k in \<open>simp add: after_fec_def\<close>)
  qed (use f in \<open>simp add: after_fec_def\<close>)
qed

lemma keeps_after_decompress: "keeps f \<Longrightarrow> keeps (after_decompress env conf f)"
  by (auto simp: keeps_def after_decompress_def split: sum.splits)

lemma up_punch1: "up (snd (snd (handle_punch_start1 env conf now src dest pl nd))) = up nd"
proof (cases "PunchInfo_from_slice (ie_punch_dec env) pl")
  case peer: (Inr peer)
  define nd1 where "nd1 = nd\<lparr>as_peer_map := update_nat_info src peer (as_peer_map nd)\<rparr>"
  have k: "up nd1 = up nd" by (rule up_cong) (simp add: nd1_def)
  show ?thesis
  proof (cases "get_punch_info (network_contains (ce_net_new env) (as_network nd) (as_subnets nd)) (as_nat_info nd)")
    case own: (Inr own)
    obtain r effs where p: "punch conf now src peer nd1 = (r, effs)" by (metis prod.collapse)
    show ?thesis
    proof (cases own)
      case None
      then show ?thesis by (simp add: handle_punch_start1_def peer own)
    next
      case (Some o')
      note d = handle_punch_start1_def peer own Some sum.case option.case Let_def nd1_def [symmetric] p prod.case
      show ?thesis
      proof (cases r)
        case (Inl e)
        show ?thesis by (simp only: d Inl snd_conv k)
      next
        case (Inr b)
        show ?thesis by (cases b) (simp_all only: d Inr bool.case split_beta fst_conv snd_conv sum.case k)
      qed
    qed
  qed (simp add: handle_punch_start1_def peer)
qed (simp add: handle_punch_start1_def)

lemma up_punch2: "up (snd (snd (handle_punch_start2 env conf now src pl nd))) = up nd"
  by (cases "PunchInfo_from_slice (ie_punch_dec env) pl")
    (auto simp: handle_punch_start2_def Let_def intro!: up_cong split: prod.split)

lemma keeps_server_process: "keeps (server_process env conf now net t src dest)"
  by (auto simp: keeps_def server_process_def up_enhanced up_punch1 up_punch2)

lemma up_client_data: "up (snd (snd (handle_client_data env conf order inst now net data nd))) = up nd"
proof -
  note k = keeps_after_fec [OF keeps_enhanced, unfolded keeps_def, rule_format]
    keeps_after_fec [OF keeps_after_decompress [OF keeps_server_process], unfolded keeps_def, rule_format]
  show ?thesis
    by (auto simp: handle_client_data_def k Let_def split: sum.splits prod.splits)
qed

lemma up_server_data: "up (snd (snd (handle_server_data env conf sids ips sid now net data nd))) = up nd"
  by (auto simp: handle_server_data_def handle_server_turn_def Let_def up_enhanced up_set_rtt up_update
      split: sum.splits prod.splits option.splits)

lemma up_server_handle: "up (snd (snd (server_handle env conf sids ips order inst now sid net data nd))) = up nd"
  by (auto simp: server_handle_def Let_def up_client_data up_server_data split: sum.splits)

lemma up_loop_step: "up (snd (snd (loop_step env conf sids ips order sid net ev time nd))) = up nd"
proof (cases ev)
  case (Incoming rs inst now)
  then show ?thesis
    using up_server_handle [of env conf sids ips order inst now sid net]
    by (cases rs) (simp_all add: loop_step_def split_beta)
qed (simp_all add: loop_step_def split_beta)

lemma up_connected: "up (handle_connected sid now nd) sid"
  by (simp add: up_def handle_connected_def is_server_connected_def set_disconnected_time_def set_last_connected_time_def
      set_server_connected_def node_or_default_def Let_def)

lemma up_disconnected: "\<not> up (handle_disconnected sid now nd) sid"
  by (simp add: up_def handle_disconnected_def is_server_connected_def set_disconnected_time_def
      set_server_connected_def node_or_default_def Let_def)

section \<open>The task of a server\<close>

definition task_ok :: "u32 \<Rightarrow> ('c, 'k) server_task \<Rightarrow> bool" where
  "task_ok sid t \<longleftrightarrow>
     sm_server_id (tk_manager t) = sid \<and> transport_ok (sm_transport (tk_manager t)) \<and>
     (case tk_phase t of
        Fresh \<Rightarrow> sm_transport (tk_manager t) \<noteq> TcPending \<and> \<not> tk_group_stopped t
      | Running time \<Rightarrow> sm_transport (tk_manager t) \<noteq> TcPending \<and> up (tk_node t) sid \<and> \<not> tk_group_stopped t
      | Lost \<Rightarrow> \<not> tk_group_stopped t
      | Finished \<Rightarrow> sm_transport (tk_manager t) = TcPending \<and> \<not> up (tk_node t) sid \<and> tk_group_stopped t)"

definition task_runs :: "('key, 'k) inbound_env \<Rightarrow> 'key inbound_conf \<Rightarrow> u32 list \<Rightarrow> ipv4 list \<Rightarrow> group_key list
    \<Rightarrow> ('w, 'c) link_env \<Rightarrow> NetworkAddr \<Rightarrow> task_input list \<Rightarrow> ('c, 'k) server_task \<times> 'w \<Rightarrow> ('c, 'k) server_task \<times> 'w" where
  "task_runs env conf sids ips order lenv net inps s = fold (task_step env conf sids ips order lenv net) inps s"

lemma connect_and_reg_server: "connect_and_reg env mode m w = (r, m', w') \<Longrightarrow> sm_server_id m' = sm_server_id m"
  by (erule connect_and_reg_cases) (auto split: ResponseMessage.splits)

lemma up_set_version: "up (nd\<lparr>as_server_info := set_server_version sid v (as_server_info nd)\<rparr>) = up nd"
  by (auto simp: up_def is_server_connected_def set_server_version_def fun_eq_iff split: option.splits)

lemma reconnect_round_ok:
  assumes "reconnect_round env net now m nd w = (out, m', nd', w')"
  shows "sm_server_id m' = sm_server_id m \<and> transport_ok (sm_transport m') \<and>
    (out = Resumed \<longrightarrow> sm_transport m' \<noteq> TcPending)"
proof -
  obtain r m1 w1 where c: "connect_and_reg env Normal (sm_disconnect m) w = (r, m1, w1)" by (metis prod.collapse)
  note t = connection_typed [OF c sm_disconnect_pending]
  have m: "m' = m1" "out = Resumed \<Longrightarrow> \<exists>reg. r = Inr (ResReg reg)"
    using assms by (auto simp: reconnect_round_def Let_def c split: sum.splits ResponseMessage.splits if_splits)
  have "sm_transport m1 \<noteq> TcPending" if res: "out = Resumed"
  proof -
    obtain reg where "r = Inr (ResReg reg)" using m(2) [OF res] by blast
    then obtain p where "transport_protocol (sm_transport m1) = Some p" using t by blast
    then show ?thesis by auto
  qed
  with t connect_and_reg_server [OF c] show ?thesis by (simp add: m(1))
qed

lemma task_reconnect_ok:
  assumes "task_ok sid t" "tk_phase t = Lost" "task_reconnect env net now t w = (t', w')"
  shows "task_ok sid t'"
proof -
  obtain out m nd w1 where r: "reconnect_round env net now (tk_manager t) (tk_node t) w = (out, m, nd, w1)"
    by (metis prod.collapse)
  note k = reconnect_round_ok [OF r]
  show ?thesis
    using assms k r up_connected [of sid now nd] up_disconnected [of sid now nd]
    by (cases out) (auto simp: task_reconnect_def task_ok_def task_connected_def task_end_def Let_def)
qed

lemma task_event_ok: "task_ok sid t \<Longrightarrow> tk_phase t = Running time \<Longrightarrow> task_ok sid (task_event env conf sids ips order net ev time t)"
proof -
  assume t: "task_ok sid t" "tk_phase t = Running time"
  obtain r effs nd where s: "loop_step env conf sids ips order (sm_server_id (tk_manager t)) net ev time (tk_node t) = (r, effs, nd)"
    by (metis prod.collapse)
  have "up nd = up (tk_node t)" using up_loop_step [of env conf sids ips order "sm_server_id (tk_manager t)" net ev time "tk_node t"]
    by (simp add: s)
  with t s show ?thesis by (cases r) (auto simp: task_event_def task_ok_def)
qed

lemma task_step_ok: "task_ok sid (fst s) \<Longrightarrow> task_ok sid (fst (task_step env conf sids ips order lenv net inp s))"
proof -
  assume ok: "task_ok sid (fst s)"
  obtain t w where s: "s = (t, w)" by (metis prod.collapse)
  show ?thesis
  proof (cases "tk_phase t")
    case Fresh
    then show ?thesis using ok up_connected
      by (cases inp) (auto simp: s task_step_def task_connected_def task_ok_def)
  next
    case (Running time)
    then show ?thesis using ok task_event_ok [of sid t time]
      by (cases inp) (simp_all add: s task_step_def)
  next
    case Lost
    then show ?thesis using ok task_reconnect_ok [of sid t lenv net _ w]
      by (cases inp) (auto simp: s task_step_def, metis prod.collapse)
  next
    case Finished
    then show ?thesis using ok by (cases inp) (simp_all add: s task_step_def)
  qed
qed


section \<open>Admission\<close>

text \<open>Client and server derive the same sign from the same password.\<close>

lemma key_sign_agrees: "client_key_sign sha p = key_sign sha hex_encode p"
  by (simp add: client_key_sign_def key_sign_def)

definition client_request :: "(bytes \<Rightarrow> bytes) \<Rightarrow> string \<Rightarrow> RegistrationMode \<Rightarrow> nat \<Rightarrow> Config \<Rightarrow> RegRequestMsg result" where
  "client_request sha ver mode i c =
     and_then (Config_to_connect_config sha i c) (\<lambda>r. Inr (reg_msg_request ver (word_of_nat i) mode r))"

text \<open>C6 A server admits the request that a checked configuration makes exactly when the network exists (and is
  allowed), its secret is well formed, the password has the sign of the secret, and code and device are not
  empty, which the client's own check lets pass.\<close>

theorem checked_request_admitted:
  assumes "Config_check c = Inr ()" "i < length (cf_server_addr c)" "length ver \<le> 32"
    "client_request sha ver mode i c = Inr r"
  shows "(\<exists>config. admit sha hex_encode r cs = Inr config) \<longleftrightarrow>
    cf_network_code c \<noteq> [] \<and> cf_device_id c \<noteq> [] \<and>
    (\<exists>n p. db_nets cs (cf_network_code c) = Some n \<and> validate_network_secret_value (cf_network_code c) (mn_secret n) = Inr () \<and>
       cf_password c = Some p \<and> client_key_sign sha p = client_key_sign sha (mn_secret n)) \<and>
    (cs_white_list cs = [] \<or> cf_network_code c \<in> set (cs_white_list cs))"
proof -
  have r: "rq_network_code r = cf_network_code c" "rq_device_id r = cf_device_id c" "rq_name r = cf_device_name c"
    "rq_version r = ver" "rq_key_sign r = Config_key_sign sha c"
    using assms(2,4) by (auto simp: client_request_def Config_to_connect_config_def reg_msg_request_def)
  have len: "length (cf_network_code c) \<le> 32" "length (cf_device_id c) \<le> 64" "length (cf_device_name c) \<le> 128"
    using assms(1) by (auto simp: Config_check_def CFG_MAX_NETWORK_CODE_LEN_def CFG_MAX_DEVICE_ID_LEN_def
        CFG_MAX_NAME_LEN_def split: if_splits)
  have rc: "reg_check r = Inr () \<longleftrightarrow> cf_network_code c \<noteq> [] \<and> cf_device_id c \<noteq> []"
    using len assms(3) by (auto simp: reg_check_def r MAX_NETWORK_CODE_LEN_def MAX_DEVICE_ID_LEN_def MAX_NAME_LEN_def
        MAX_VERSION_LEN_def)
  have vr: "validate_registration sha hex_encode r cs = Inr () \<longleftrightarrow>
      (\<exists>n p. db_nets cs (cf_network_code c) = Some n \<and> validate_network_secret_value (cf_network_code c) (mn_secret n) = Inr () \<and>
       cf_password c = Some p \<and> client_key_sign sha p = client_key_sign sha (mn_secret n))"
    by (auto simp: validate_registration_def r Config_key_sign_def key_sign_agrees split: option.splits if_splits)
  have "(\<exists>config. admit sha hex_encode r cs = Inr config) \<longleftrightarrow> reg_check r = Inr () \<and> validate_registration sha hex_encode r cs = Inr () \<and>
      (cs_white_list cs = [] \<or> cf_network_code c \<in> set (cs_white_list cs))"
    by (auto simp: admit_def network_config_def vr r split: if_splits)
  then show ?thesis by (auto simp: rc vr)
qed

text \<open>The other half of a split registration: a server that has the requested address in use grants another one to
  a device it does not know.\<close>

lemma taken_address_replaced:
  assumes "ns_inv st" "allocate_ip_and_get_entry now r rid sender st = Inr (st', ip', old, entry)"
    "rq_ip r = Some ip" "device_ip_map (lease_state st) ip = Some owner"
    "device_map (lease_state st) (rq_device_id r) = None"
  shows "ip' \<noteq> ip"
proof -
  have "find_available_ip (ns_net st) (ns_gateway st) (lease_state st) = Inr ip'"
    using assms(2-5) by (auto simp: allocate_ip_and_get_entry_def allocate_ip_def place_def check_requested_def Let_def
        split: if_splits)
  moreover have "net_proper (ns_net st)" using assms(1) by (simp add: ns_inv_def)
  ultimately show ?thesis using find_available_ip_Inr assms(4) by fastforce
qed

section \<open>Witnesses\<close>

lemma connection_well_typed_witness:
  "transport_ok (sm_transport (fst (snd (connect_and_reg script_env Normal (script_manager 0 ''a'') [[2]]))))"
  using connection_well_typed [of script_env Normal "script_manager 0 ''a''" "[[2]]"
      "fst (connect_and_reg script_env Normal (script_manager 0 ''a'') [[2]])"
      "fst (snd (connect_and_reg script_env Normal (script_manager 0 ''a'') [[2]]))"
      "snd (snd (connect_and_reg script_env Normal (script_manager 0 ''a'') [[2]]))"]
  by (simp add: script_manager_def ServerTurnManager_new_def transport_new_def)

lemma silent_server_detected_witness:
  "\<exists>e effs nd'. data_handle_loop demo_inbound_env demo_inbound_conf [] [] [] 0 (demo_addr 1) ([PingTick 5000] @ [PingTick 20001]) 0
     (demo_node 1) = (Inl e, effs, nd')"
  by (rule silent_server_detected) (simp_all add: arrives_def)


definition demo_client_config :: Config where
  "demo_client_config =
     \<lparr>cf_server_addr = [ProtocolAddress_default], cf_cert_mode = StandardCert, cf_network_code = ''default'',
      cf_device_id = ''a'', cf_device_name = ''host'', cf_tun_name = None, cf_ip = None,
      cf_password = Some ''Aa0!bcdefghijklmnopqrstuvwxyz012'', cf_no_punch = False, cf_use_channel = Auto,
      cf_compress = False, cf_rtx = False, cf_fec = False, cf_input = [], cf_output = [], cf_no_nat = False,
      cf_no_tun = False, cf_mtu = Some 1400, cf_port_mapping = [], cf_allow_port_mapping = False, cf_udp_stun = [],
      cf_tcp_stun = []\<rparr>"

lemma checked_request_admitted_witness:
  "\<exists>r config. client_request demo_sha ''2.0'' PreRegister 0 demo_client_config = Inr r \<and>
     admit demo_sha hex_encode r demo_service = Inr config"
proof -
  obtain r where r: "client_request demo_sha ''2.0'' PreRegister 0 demo_client_config = Inr r"
    by (auto simp: client_request_def Config_to_connect_config_def demo_client_config_def)
  have "Config_check demo_client_config = Inr ()"
    by (simp add: Config_check_def demo_client_config_def CFG_MAX_NETWORK_CODE_LEN_def CFG_MAX_DEVICE_ID_LEN_def
        CFG_MAX_NAME_LEN_def MAX_MTU_def)
  then have "(\<exists>config. admit demo_sha hex_encode r demo_service = Inr config)"
    using checked_request_admitted [of demo_client_config 0 "''2.0''" demo_sha PreRegister r demo_service] r
      demo_secret_good [of "''default''", simplified]
    by (simp add: demo_client_config_def demo_service_eq)
  then show ?thesis using r by blast
qed

end
