(* ===== verification/ClientRpc.thy ===== *)
theory ClientRpc
  imports ServerLink
begin

text \<open>
  Requests of a client to its servers, \<open>vnt/vnt-core/src/tunnel_core/server/rpc.rs\<close>: the table of pending
  requests (\<open>RpcNotifier\<close>), the waiters and \<open>client_list\<close>. A oneshot channel is a number; \<open>rn_value\<close> holds what
  was sent into it. A response is its \<open>id\<close> and the payload of the generated code. The state of a notifier is
  shared by its clones and changed under its locks, one operation at a time.
\<close>

section \<open>The notifier\<close>

record 'p RpcNotifier =
  rn_id :: u64
  rn_pending :: "u64 \<rightharpoonup> nat"
  rn_channels :: nat
  rn_value :: "nat \<rightharpoonup> u64 \<times> 'p"

definition RpcNotifier_new :: "'p RpcNotifier" where
  "RpcNotifier_new = \<lparr>rn_id = 0, rn_pending = Map.empty, rn_channels = 0, rn_value = Map.empty\<rparr>"

record RpcResponseWaiter =
  wt_id :: u64
  wt_rx :: nat

definition create_request_and_waiter :: "'p RpcNotifier \<Rightarrow> 'p RpcNotifier \<times> RpcResponseWaiter" where
  "create_request_and_waiter n =
     (let i = rn_id n + 1; ch = rn_channels n in
      (n\<lparr>rn_id := i, rn_pending := (rn_pending n)(i \<mapsto> ch), rn_channels := ch + 1\<rparr>, \<lparr>wt_id = i, wt_rx = ch\<rparr>))"

definition notify_response :: "u64 \<times> 'p \<Rightarrow> 'p RpcNotifier \<Rightarrow> 'p RpcNotifier" where
  "notify_response response n =
     (case rn_pending n (fst response) of
        None \<Rightarrow> n
      | Some ch \<Rightarrow> n\<lparr>rn_pending := (rn_pending n)(fst response := None), rn_value := (rn_value n)(ch \<mapsto> response)\<rparr>)"

text \<open>What \<open>wait_for_response\<close> gives when it ends; without a value the channel is still open (the time elapsed) or its
  sender is gone.\<close>

definition wait_for_response :: "'p RpcNotifier \<Rightarrow> RpcResponseWaiter \<Rightarrow> (u64 \<times> 'p) result" where
  "wait_for_response n w =
     (case rn_value n (wt_rx w) of
        Some response \<Rightarrow> Inr response
      | None \<Rightarrow>
          if wt_rx w \<in> ran (rn_pending n) then Inl (Bail ''timeout waiting for response'')
          else Inl (Bail ''closed connection''))"

definition waiter_drop :: "RpcResponseWaiter \<Rightarrow> 'p RpcNotifier \<Rightarrow> 'p RpcNotifier" where
  "waiter_drop w n = n\<lparr>rn_pending := (rn_pending n)(wt_id w := None)\<rparr>"

section \<open>Requests\<close>

text \<open>The request packet for a client list; \<open>enc\<close> is the generated encoder on the request's id.\<close>

definition client_list_packet :: "(nat \<Rightarrow> nat) \<Rightarrow> (u64 \<Rightarrow> bytes) \<Rightarrow> RpcResponseWaiter \<Rightarrow> TransmissionBytes result" where
  "client_list_packet al enc w =
     (let buf = enc (wt_id w) in
      and_then (packet_new (tb_zeroed al (HEAD_LENGTH + length buf))) (\<lambda>t.
      and_then (set_payload buf (set_ttl 1 (set_gateway_flag True (set_msg_type RpcReq (tb_view t))))) (\<lambda>v.
        Inr (tb_write v t))))"

text \<open>\<open>client_list_target\<close> up to the wait, and the reading of the response.\<close>

definition client_list_target :: "('key, 'k) client_env \<Rightarrow> 'key client_conf \<Rightarrow> (u64 \<Rightarrow> bytes) \<Rightarrow> u32
    \<Rightarrow> (u32 \<rightharpoonup> 'p RpcNotifier) \<Rightarrow> ServerInfoCollection
    \<Rightarrow> RpcResponseWaiter result \<times> 'k client_effect list \<times> (u32 \<rightharpoonup> 'p RpcNotifier)" where
  "client_list_target env conf enc sid ns c =
     (case ns sid of
        None \<Rightarrow> (Inl (Bail ''no RPC notifier''), [], ns)
      | Some n \<Rightarrow>
          (case create_request_and_waiter n of (n, w) \<Rightarrow>
             (let sent = (case client_list_packet (ce_al env) enc w of
                            Inl e \<Rightarrow> (Inl e, [])
                          | Inr t \<Rightarrow> send_to_gateway_expired env conf sid t c) in
              case sent of
                (Inl e, effs) \<Rightarrow> (Inl e, effs, ns(sid \<mapsto> waiter_drop w n))
              | (Inr _, effs) \<Rightarrow> (Inr w, effs, ns(sid \<mapsto> n)))))"

definition client_list_result :: "('p \<Rightarrow> 'l option) \<Rightarrow> (u64 \<times> 'p) result \<Rightarrow> 'l result" where
  "client_list_result get r =
     and_then r (\<lambda>response. case get (snd response) of
        Some l \<Rightarrow> Inr l | None \<Rightarrow> Inl (Bail ''unexpected response''))"

text \<open>The lists of all servers in their order: the first server that knows a client decides; servers that fail are
  logged.\<close>

fun add_clients :: "('c \<Rightarrow> string) \<Rightarrow> (string \<rightharpoonup> 'c) \<Rightarrow> 'c list \<Rightarrow> (string \<rightharpoonup> 'c)" where
  "add_clients cid m [] = m"
| "add_clients cid m (c # cs) = add_clients cid (case m (cid c) of Some _ \<Rightarrow> m | None \<Rightarrow> m(cid c \<mapsto> c)) cs"

fun client_list :: "('c \<Rightarrow> string) \<Rightarrow> (string \<rightharpoonup> 'c) \<Rightarrow> 'c list result list \<Rightarrow> (string \<rightharpoonup> 'c)" where
  "client_list cid m [] = m"
| "client_list cid m (Inr cs # rs) = client_list cid (add_clients cid m cs) rs"
| "client_list cid m (Inl e # rs) = client_list cid m rs"

section \<open>Every response reaches its waiter\<close>

text \<open>A notifier and the waiters that are alive.\<close>

inductive rpc_step :: "'p RpcNotifier \<times> RpcResponseWaiter set \<Rightarrow> 'p RpcNotifier \<times> RpcResponseWaiter set \<Rightarrow> bool" where
  rpc_create: "create_request_and_waiter n = (n', w) \<Longrightarrow> rpc_step (n, ws) (n', insert w ws)"
| rpc_notify: "rpc_step (n, ws) (notify_response r n, ws)"
| rpc_drop: "w \<in> ws \<Longrightarrow> rpc_step (n, ws) (waiter_drop w n, ws - {w})"

inductive_cases rpc_stepE: "rpc_step (n, ws) s'"

definition number :: "nat \<Rightarrow> u64" where "number ch = word_of_nat (ch + 1)"

definition rpc_inv :: "'p RpcNotifier \<times> RpcResponseWaiter set \<Rightarrow> bool" where
  "rpc_inv s \<longleftrightarrow> (case s of (n, ws) \<Rightarrow>
     rn_id n + 1 = number (rn_channels n) \<and>
     (\<forall>w \<in> ws. wt_rx w < rn_channels n \<and> wt_id w = number (wt_rx w)) \<and>
     (\<forall>i ch. rn_pending n i = Some ch \<longrightarrow> ch < rn_channels n \<and> i = number ch \<and> rn_value n ch = None) \<and>
     (\<forall>ch r. rn_value n ch = Some r \<longrightarrow> ch < rn_channels n \<and> fst r = number ch) \<and>
     (\<forall>w \<in> ws. rn_value n (wt_rx w) = None \<longrightarrow> rn_pending n (wt_id w) = Some (wt_rx w)))"

lemma number_inj: "a < 2 ^ 64 - 1 \<Longrightarrow> b < 2 ^ 64 - 1 \<Longrightarrow> number a = number b \<Longrightarrow> a = b"
proof -
  assume ab: "a < 2 ^ 64 - 1" "b < 2 ^ 64 - 1" and e: "number a = number b"
  have "unat (number c) = c + 1" if "c < 2 ^ 64 - 1" for c
    using that by (simp only: number_def unat_of_nat) simp
  then show "a = b" using ab e by (metis add_right_cancel)
qed

lemma number_Suc: "number (Suc ch) = number ch + 1"
  by (simp add: number_def)

lemma rpc_invD:
  assumes "rpc_inv (n, ws)"
  shows "rn_id n + 1 = number (rn_channels n)"
    "w \<in> ws \<Longrightarrow> wt_rx w < rn_channels n" "w \<in> ws \<Longrightarrow> wt_id w = number (wt_rx w)"
    "rn_pending n i = Some ch \<Longrightarrow> ch < rn_channels n" "rn_pending n i = Some ch \<Longrightarrow> i = number ch"
    "rn_pending n i = Some ch \<Longrightarrow> rn_value n ch = None"
    "rn_value n ch = Some r \<Longrightarrow> ch < rn_channels n" "rn_value n ch = Some r \<Longrightarrow> fst r = number ch"
    "w \<in> ws \<Longrightarrow> rn_value n (wt_rx w) = None \<Longrightarrow> rn_pending n (wt_id w) = Some (wt_rx w)"
  using assms unfolding rpc_inv_def by blast+

lemma rpc_invI:
  assumes "rn_id n + 1 = number (rn_channels n)"
    "\<And>w. w \<in> ws \<Longrightarrow> wt_rx w < rn_channels n \<and> wt_id w = number (wt_rx w)"
    "\<And>i ch. rn_pending n i = Some ch \<Longrightarrow> ch < rn_channels n \<and> i = number ch \<and> rn_value n ch = None"
    "\<And>ch r. rn_value n ch = Some r \<Longrightarrow> ch < rn_channels n \<and> fst r = number ch"
    "\<And>w. w \<in> ws \<Longrightarrow> rn_value n (wt_rx w) = None \<Longrightarrow> rn_pending n (wt_id w) = Some (wt_rx w)"
  shows "rpc_inv (n, ws)"
  using assms unfolding rpc_inv_def by blast

lemma rn_channels_mono: "rpc_step s s' \<Longrightarrow> rn_channels (fst s) \<le> rn_channels (fst s')"
  by (induction rule: rpc_step.induct)
    (auto simp: create_request_and_waiter_def Let_def notify_response_def waiter_drop_def split: option.splits)

lemma rpc_create_inv:
  assumes "rpc_inv (n, ws)" "create_request_and_waiter n = (n', w)" "rn_channels n' < 2 ^ 64 - 1"
  shows "rpc_inv (n', insert w ws)"
proof -
  note d = rpc_invD [OF assms(1)]
  let ?ch = "rn_channels n"
  have n': "n' = n\<lparr>rn_id := number ?ch, rn_pending := (rn_pending n)(number ?ch \<mapsto> ?ch), rn_channels := ?ch + 1\<rparr>"
    and w: "w = \<lparr>wt_id = number ?ch, wt_rx = ?ch\<rparr>"
    using assms(2) d(1) by (simp_all add: create_request_and_waiter_def Let_def)
  have fresh: "number ch \<noteq> number ?ch" if "ch < ?ch" for ch
    using number_inj [of ch ?ch] that assms(3) by (auto simp: n')
  have v: "rn_value n ?ch = None" using d(7) by (metis less_irrefl not_None_eq)
  show ?thesis
  proof (rule rpc_invI)
    show "rn_id n' + 1 = number (rn_channels n')" by (simp add: n' number_Suc)
    show "wt_rx x < rn_channels n' \<and> wt_id x = number (wt_rx x)" if "x \<in> insert w ws" for x
      using that d(2,3) [of x] by (auto simp: n' w)
    show "ch < rn_channels n' \<and> i = number ch \<and> rn_value n' ch = None" if "rn_pending n' i = Some ch" for i ch
      using that d(4-6) [of i ch] v by (auto simp: n' split: if_splits)
    show "ch < rn_channels n' \<and> fst r = number ch" if "rn_value n' ch = Some r" for ch r
      using that d(7,8) [of ch r] by (auto simp: n')
    show "rn_pending n' (wt_id x) = Some (wt_rx x)" if "x \<in> insert w ws" "rn_value n' (wt_rx x) = None" for x
      using that d(9) [of x] d(2,3) [of x] fresh [of "wt_rx x"] by (auto simp: n' w)
  qed
qed

lemma rpc_notify_inv:
  assumes "rpc_inv (n, ws)"
  shows "rpc_inv (notify_response r n, ws)"
proof (cases "rn_pending n (fst r)")
  case (Some ch)
  note d = rpc_invD [OF assms]
  have n': "notify_response r n = n\<lparr>rn_pending := (rn_pending n)(fst r := None), rn_value := (rn_value n)(ch \<mapsto> r)\<rparr>"
    by (simp add: notify_response_def Some)
  have other: "ch' \<noteq> ch" if "rn_pending n i = Some ch'" "i \<noteq> fst r" for i ch'
    using d(5) [OF that(1)] d(5) [OF Some] that(2) by auto
  show ?thesis unfolding n'
  proof (rule rpc_invI, goal_cases)
    case 1
    then show ?case using d(1) by simp
  next
    case (2 w)
    then show ?case using d(2,3) [of w] by simp
  next
    case (3 i ch')
    then show ?case using d(4-6) [of i ch'] other [of i ch'] by (auto split: if_splits)
  next
    case (4 ch' r')
    then show ?case using d(7,8) [of ch' r'] d(4,5) [OF Some] by (auto split: if_splits)
  next
    case (5 w)
    then show ?case using d(9) [of w] d(5) [OF Some] d(3) [of w] Some by (auto split: if_splits)
  qed
qed (use assms in \<open>simp add: notify_response_def\<close>)

lemma rpc_drop_inv:
  assumes "rpc_inv (n, ws)" "w \<in> ws" "rn_channels n < 2 ^ 64 - 1"
  shows "rpc_inv (waiter_drop w n, ws - {w})"
proof -
  note d = rpc_invD [OF assms(1)]
  have other: "wt_id w' \<noteq> wt_id w" if "w' \<in> ws" "w' \<noteq> w" for w'
  proof
    assume e: "wt_id w' = wt_id w"
    have "wt_rx w' = wt_rx w"
      by (rule number_inj) (use e d(2,3) [OF that(1)] d(2,3) [OF assms(2)] assms(3) in auto)
    with e that(2) show False by simp
  qed
  show ?thesis unfolding waiter_drop_def
  proof (rule rpc_invI, goal_cases)
    case 1
    then show ?case using d(1) by simp
  next
    case (2 x)
    then show ?case using d(2,3) [of x] by simp
  next
    case (3 i ch)
    then show ?case using d(4-6) [of i ch] by (auto split: if_splits)
  next
    case (4 ch r)
    then show ?case using d(7,8) [of ch r] by simp
  next
    case (5 x)
    then show ?case using d(9) [of x] other [of x] by simp
  qed
qed

lemma rpc_reachable_inv:
  "rpc_step\<^sup>*\<^sup>* s s' \<Longrightarrow> rpc_inv s \<Longrightarrow> rn_channels (fst s') < 2 ^ 64 - 1 \<Longrightarrow> rpc_inv s'"
proof (induction rule: rtranclp_induct)
  case (step s1 s2)
  then have c: "rn_channels (fst s1) < 2 ^ 64 - 1" using rn_channels_mono [OF step.hyps(2)] by simp
  then have "rpc_inv s1" using step by blast
  with step.hyps(2) step.prems(2) c show ?case
    by (cases rule: rpc_step.cases) (auto intro: rpc_create_inv rpc_notify_inv rpc_drop_inv)
qed

text \<open>C23 As long as fewer than \<open>2^64 - 1\<close> requests were made: what a live waiter holds carries its own request's id; a
  waiter without a response gets the one with its id, whenever that comes; and no other waiter sees it.\<close>

theorem response_reaches_its_waiter:
  assumes "rpc_step\<^sup>*\<^sup>* (RpcNotifier_new, {}) (n, ws)" "rn_channels n < 2 ^ 64 - 1" "w \<in> ws"
  shows "(\<forall>r. rn_value n (wt_rx w) = Some r \<longrightarrow> fst r = wt_id w) \<and>
    (\<forall>r. fst r = wt_id w \<and> rn_value n (wt_rx w) = None \<longrightarrow> wait_for_response (notify_response r n) w = Inr r) \<and>
    (\<forall>r. fst r \<noteq> wt_id w \<longrightarrow> wait_for_response (notify_response r n) w = wait_for_response n w)"
proof -
  have "rpc_inv (n, ws)"
    by (rule rpc_reachable_inv [OF assms(1)]) (use assms(2) in \<open>simp_all add: rpc_inv_def RpcNotifier_new_def number_def\<close>)
  note d = rpc_invD [OF this]
  have own: "fst r = wt_id w" if "rn_value n (wt_rx w) = Some r" for r
    using d(8) [OF that] d(3) [OF assms(3)] by simp
  have get: "wait_for_response (notify_response r n) w = Inr r"
    if "fst r = wt_id w" "rn_value n (wt_rx w) = None" for r
    using d(9) [OF assms(3) that(2)] that(1) by (simp add: notify_response_def wait_for_response_def)
  have same: "wait_for_response (notify_response r n) w = wait_for_response n w" if "fst r \<noteq> wt_id w" for r
  proof (cases "rn_pending n (fst r)")
    case (Some ch)
    have ne: "ch \<noteq> wt_rx w" using d(5) [OF Some] d(3) [OF assms(3)] that by auto
    have "wt_rx w \<in> ran ((rn_pending n)(fst r := None)) \<longleftrightarrow> wt_rx w \<in> ran (rn_pending n)"
      using ne Some unfolding ran_def by force
    then show ?thesis using Some ne by (simp add: notify_response_def wait_for_response_def)
  qed (simp add: notify_response_def)
  show ?thesis using own get same by blast
qed

lemma response_reaches_its_waiter_witness:
  "\<exists>n ws w. w \<in> ws \<and> wait_for_response (notify_response (1, ''list'') n) w = Inr (1, ''list'')"
proof -
  obtain n w where c: "create_request_and_waiter (RpcNotifier_new :: string RpcNotifier) = (n, w)"
    by (metis prod.collapse)
  have s: "rpc_step\<^sup>*\<^sup>* (RpcNotifier_new, {}) (n, {w})" using rpc_create [OF c, of "{}"] by blast
  have "rn_channels n = 1" "wt_id w = 1" "rn_value n (wt_rx w) = None"
    using c by (auto simp: create_request_and_waiter_def RpcNotifier_new_def Let_def)
  then have "wait_for_response (notify_response (1, ''list'') n) w = Inr (1, ''list'')"
    using response_reaches_its_waiter [OF s, of w] by simp
  then show ?thesis by blast
qed

lemma add_clients_keeps: "m k = Some c \<Longrightarrow> add_clients cid m cs k = Some c"
proof (induction cs arbitrary: m)
  case (Cons x cs)
  have "(case m (cid x) of Some _ \<Rightarrow> m | None \<Rightarrow> m(cid x \<mapsto> x)) k = Some c"
    using Cons.prems by (auto split: option.split)
  then show ?case using Cons.IH by simp
qed simp

lemma first_server_decides: "m k = Some c \<Longrightarrow> client_list cid m rs k = Some c"
  by (induction cid m rs rule: client_list.induct) (simp_all add: add_clients_keeps)

end
