(* ===== verification/TaskControl.thy ===== *)
theory TaskControl
  imports Prelude
begin

text \<open>
  The supervision of tasks, \<open>vnt/vnt-core/src/utils/task_control.rs\<close>: a group of tasks with its lock, its guards
  and its wake-up, and the manager that admits one group at a time. Every operation is atomic under the group's
  lock; what tokio does between them (a task runs to its end, an abort takes effect, a waiter is polled) are
  steps of their own, so that their interleavings are explicit.

  \<open>tasks\<close> are the registered handles; \<open>alive\<close> and \<open>aborted\<close> are the part of tokio: the tasks whose future still
  exists and those that were told to abort. A task's guard is dropped with its future.
\<close>

section \<open>A group\<close>

record TaskGroup =
  stopped :: bool
  tasks :: "nat set"
  alive :: "nat set"
  aborted :: "nat set"
  next_task :: nat

definition TaskGroup_new :: TaskGroup where
  "TaskGroup_new = \<lparr>stopped = False, tasks = {}, alive = {}, aborted = {}, next_task = 0\<rparr>"

text \<open>\<open>spawn\<close> gives the task, or nothing when the group is stopped (\<open>SubTask::empty\<close>).\<close>

definition tg_spawn :: "TaskGroup \<Rightarrow> TaskGroup \<times> nat option" where
  "tg_spawn g =
     (if stopped g then (g, None)
      else (g\<lparr>tasks := insert (next_task g) (tasks g), alive := insert (next_task g) (alive g),
              next_task := next_task g + 1\<rparr>, Some (next_task g)))"

definition tg_stop :: "TaskGroup \<Rightarrow> TaskGroup" where
  "tg_stop g = g\<lparr>stopped := True, aborted := aborted g \<union> tasks g, tasks := {}\<rparr>"

definition tg_is_stopped :: "TaskGroup \<Rightarrow> bool" where "tg_is_stopped g = stopped g"

text \<open>\<open>remove_task\<close> tells whether the waiters are notified.\<close>

definition tg_remove_task :: "nat \<Rightarrow> TaskGroup \<Rightarrow> TaskGroup \<times> bool" where
  "tg_remove_task i g =
     (let g = g\<lparr>tasks := tasks g - {i}\<rparr> in
      if tasks g = {} then (g\<lparr>stopped := True\<rparr>, True) else (g, False))"

definition tg_abort_task :: "nat \<Rightarrow> TaskGroup \<Rightarrow> TaskGroup" where
  "tg_abort_task i g = (if i \<in> tasks g then g\<lparr>tasks := tasks g - {i}, aborted := insert i (aborted g)\<rparr> else g)"

text \<open>\<open>join_all\<close> takes the handles before it awaits them.\<close>

definition tg_join_all :: "TaskGroup \<Rightarrow> TaskGroup" where
  "tg_join_all g = g\<lparr>tasks := {}\<rparr>"

definition tg_all_tasks_stopped :: "TaskGroup \<Rightarrow> bool" where
  "tg_all_tasks_stopped g \<longleftrightarrow> stopped g \<and> tasks g = {}"

text \<open>The end of a task's future: its guard is dropped.\<close>

definition tg_task_ends :: "nat \<Rightarrow> TaskGroup \<Rightarrow> TaskGroup \<times> bool" where
  "tg_task_ends i g = tg_remove_task i (g\<lparr>alive := alive g - {i}\<rparr>)"

text \<open>A handle on one task.\<close>

definition sub_stop :: "nat option \<Rightarrow> TaskGroup \<Rightarrow> TaskGroup" where
  "sub_stop s g = (case s of Some i \<Rightarrow> tg_abort_task i g | None \<Rightarrow> g)"

definition sub_is_running :: "nat option \<Rightarrow> TaskGroup \<Rightarrow> bool" where
  "sub_is_running s g = (case s of Some i \<Rightarrow> i \<in> tasks g | None \<Rightarrow> False)"

section \<open>Waiting for the end\<close>

text \<open>\<open>wait_all_stopped\<close> checks, then waits for a notification: between the two it holds no lock. \<open>notify_waiters\<close> wakes
  only those that are waiting.\<close>

datatype waiter = Checking | Leaving_check | Parked | Returned

inductive group_step :: "TaskGroup \<times> waiter \<Rightarrow> TaskGroup \<times> waiter \<Rightarrow> bool" where
  gs_spawn: "group_step (g, w) (fst (tg_spawn g), w)"
| gs_stop: "group_step (g, w) (tg_stop g, w)"
| gs_abort: "group_step (g, w) (sub_stop s g, w)"
| gs_join: "group_step (g, w) (tg_join_all g, w)"
| gs_end: "i \<in> alive g \<Longrightarrow> tg_task_ends i g = (g', notify) \<Longrightarrow>
    group_step (g, w) (g', if notify \<and> w = Parked then Checking else w)"
| gs_check: "group_step (g, Checking) (g, if tg_all_tasks_stopped g then Returned else Leaving_check)"
| gs_park: "group_step (g, Leaving_check) (g, Parked)"

inductive_cases group_stepE: "group_step (g, w) s'"

definition group_reach :: "TaskGroup \<times> waiter \<Rightarrow> bool" where
  "group_reach s \<longleftrightarrow> group_step\<^sup>*\<^sup>* (TaskGroup_new, Checking) s"

section \<open>One group at a time\<close>

text \<open>The manager's slot, the groups made so far and the guards that were handed out.\<close>

record TaskGroupManager =
  tm_slot :: "nat option"
  tm_groups :: "TaskGroup list"
  tm_guards :: nat

definition TaskGroupManager_new :: TaskGroupManager where
  "TaskGroupManager_new = \<lparr>tm_slot = None, tm_groups = [], tm_guards = 0\<rparr>"

definition tm_is_running :: "TaskGroupManager \<Rightarrow> bool" where "tm_is_running m \<longleftrightarrow> tm_slot m \<noteq> None"
definition tm_is_stopped :: "TaskGroupManager \<Rightarrow> bool" where "tm_is_stopped m \<longleftrightarrow> tm_slot m = None"

definition tm_create_task :: "TaskGroupManager \<Rightarrow> TaskGroupManager \<times> nat result" where
  "tm_create_task m =
     (case tm_slot m of
        Some _ \<Rightarrow> (m, Inl (Bail ''running''))
      | None \<Rightarrow> (m\<lparr>tm_slot := Some (length (tm_groups m)), tm_groups := tm_groups m @ [TaskGroup_new],
                   tm_guards := tm_guards m + 1\<rparr>, Inr (length (tm_groups m))))"

definition tm_at :: "(TaskGroup \<Rightarrow> TaskGroup) \<Rightarrow> nat \<Rightarrow> TaskGroupManager \<Rightarrow> TaskGroupManager" where
  "tm_at f i m = (if i < length (tm_groups m) then m\<lparr>tm_groups := (tm_groups m)[i := f (tm_groups m ! i)]\<rparr> else m)"

definition tm_stop :: "TaskGroupManager \<Rightarrow> TaskGroupManager" where
  "tm_stop m = (case tm_slot m of Some i \<Rightarrow> tm_at tg_stop i m | None \<Rightarrow> m)"

text \<open>\<open>TaskGroupGuard::drop\<close>.\<close>

definition tm_guard_drop :: "TaskGroupManager \<Rightarrow> TaskGroupManager" where
  "tm_guard_drop m =
     (case tm_slot m of
        Some i \<Rightarrow> (tm_at tg_stop i m)\<lparr>tm_slot := None, tm_guards := tm_guards m - 1\<rparr>
      | None \<Rightarrow> m\<lparr>tm_guards := tm_guards m - 1\<rparr>)"

inductive manager_step :: "TaskGroupManager \<Rightarrow> TaskGroupManager \<Rightarrow> bool" where
  ms_create: "manager_step m (fst (tm_create_task m))"
| ms_stop: "manager_step m (tm_stop m)"
| ms_drop: "0 < tm_guards m \<Longrightarrow> manager_step m (tm_guard_drop m)"
| ms_group: "i < length (tm_groups m) \<Longrightarrow> group_step (tm_groups m ! i, w) (g', w') \<Longrightarrow> manager_step m (tm_at (\<lambda>_. g') i m)"

section \<open>Invariants of a group\<close>

definition group_inv :: "TaskGroup \<Rightarrow> bool" where
  "group_inv g \<longleftrightarrow> tasks g \<subseteq> alive g \<and> (\<forall>i \<in> alive g. i < next_task g) \<and> (stopped g \<longrightarrow> tasks g = {})"

lemma group_step_inv: "group_step s s' \<Longrightarrow> group_inv (fst s) \<Longrightarrow> group_inv (fst s')"
  by (induction rule: group_step.induct)
    (auto simp: group_inv_def tg_spawn_def tg_stop_def sub_stop_def tg_abort_task_def tg_join_all_def tg_task_ends_def
      tg_remove_task_def Let_def split: if_splits option.splits)

lemma group_reach_inv: "group_reach s \<Longrightarrow> group_inv (fst s)"
  unfolding group_reach_def
proof (induction rule: rtranclp_induct)
  case base
  then show ?case by (simp add: group_inv_def TaskGroup_new_def)
next
  case (step s1 s2)
  then show ?case by (blast intro: group_step_inv)
qed

text \<open>A stopped group stays stopped and only loses tasks.\<close>

lemma stopped_step:
  "group_step s s' \<Longrightarrow> stopped (fst s) \<Longrightarrow> stopped (fst s') \<and> alive (fst s') \<subseteq> alive (fst s)"
  by (induction rule: group_step.induct)
    (auto simp: tg_spawn_def tg_stop_def sub_stop_def tg_abort_task_def tg_join_all_def tg_task_ends_def
      tg_remove_task_def Let_def split: if_splits option.splits)

text \<open>A stopped group never starts a task again, in any interleaving of what its owners and its tasks do.\<close>

theorem stopped_group_is_final:
  assumes "group_reach (g, w)" "stopped g" "group_step\<^sup>*\<^sup>* (g, w) (g', w')"
  shows "stopped g' \<and> tasks g' = {} \<and> alive g' \<subseteq> alive g \<and> snd (tg_spawn g') = None"
proof -
  have "stopped (fst s) \<and> alive (fst s) \<subseteq> alive g" if "group_step\<^sup>*\<^sup>* (g, w) s" for s
    using that
  proof (induction rule: rtranclp_induct)
    case (step s1 s2)
    then show ?case using stopped_step [OF step.hyps(2)] by blast
  qed (use assms(2) in simp)
  from this [OF assms(3)] have s: "stopped g'" "alive g' \<subseteq> alive g" by simp_all
  have "group_reach (g', w')" using assms(1,3) unfolding group_reach_def by (rule rtranclp_trans)
  then have "tasks g' = {}" using group_reach_inv s(1) by (fastforce simp: group_inv_def)
  with s show ?thesis by (simp add: tg_spawn_def)
qed

text \<open>The group that the witnesses use: one task was started, and perhaps the group stopped.\<close>

definition one_task :: TaskGroup where
  "one_task = \<lparr>stopped = False, tasks = {0}, alive = {0}, aborted = {}, next_task = 1\<rparr>"

lemma reach_step: "group_reach s \<Longrightarrow> group_step s s' \<Longrightarrow> group_reach s'"
  unfolding group_reach_def by (rule rtranclp.rtrancl_into_rtrancl)

lemma reach_one_task: "group_reach (one_task, Checking)"
proof -
  have "group_reach (TaskGroup_new, Checking)" by (simp add: group_reach_def)
  moreover have "one_task = fst (tg_spawn TaskGroup_new)" by (simp add: one_task_def tg_spawn_def TaskGroup_new_def)
  ultimately show ?thesis using reach_step gs_spawn by metis
qed

lemma stopped_group_is_final_witness:
  "stopped (tg_stop one_task) \<and> tasks (tg_stop one_task) = {} \<and> alive (tg_stop one_task) \<subseteq> alive (tg_stop one_task) \<and>
    snd (tg_spawn (tg_stop one_task)) = None"
  by (rule stopped_group_is_final [OF reach_step [OF reach_one_task gs_stop] _ rtranclp.rtrancl_refl])
    (simp add: tg_stop_def)

section \<open>What waiting means\<close>

text \<open>\<open>wait_all_stopped\<close> returns once the group is marked stopped and its table is empty, which \<open>stop\<close> achieves at
  once: the aborted tasks may still be there.\<close>

theorem wait_returns_before_tasks_end:
  "\<exists>g. group_reach (g, Returned) \<and> alive g \<noteq> {}"
proof -
  have s: "group_reach (tg_stop one_task, Checking)" by (rule reach_step [OF reach_one_task gs_stop])
  have "tg_all_tasks_stopped (tg_stop one_task)" by (simp add: tg_all_tasks_stopped_def tg_stop_def)
  then have "group_reach (tg_stop one_task, Returned)" using reach_step [OF s gs_check] by simp
  moreover have "alive (tg_stop one_task) \<noteq> {}" by (simp add: tg_stop_def one_task_def)
  ultimately show ?thesis by blast
qed

lemma last_task_wakes:
  assumes "group_reach (g, w)" "alive g = {i}"
  shows "\<exists>g'. tg_task_ends i g = (g', True) \<and> tg_all_tasks_stopped g'"
proof -
  have "tasks g \<subseteq> {i}" using group_reach_inv [OF assms(1)] assms(2) by (simp add: group_inv_def)
  then have "tasks g - {i} = {}" by blast
  then show ?thesis by (simp add: tg_task_ends_def tg_remove_task_def tg_all_tasks_stopped_def)
qed

lemma parked_forever:
  assumes "stopped g" "tasks g = {}" "alive g = {}" "group_step\<^sup>*\<^sup>* (g, Parked) s"
  shows "snd s = Parked \<and> stopped (fst s) \<and> tasks (fst s) = {} \<and> alive (fst s) = {}"
  using assms(4)
proof (induction rule: rtranclp_induct)
  case base
  then show ?case using assms(1-3) by simp
next
  case (step s1 s2)
  obtain g1 w1 where s1: "s1 = (g1, w1)" by (metis prod.collapse)
  with step show ?case
    by (auto elim!: group_stepE simp: tg_spawn_def tg_stop_def sub_stop_def tg_abort_task_def tg_join_all_def split: option.splits)
qed

text \<open>A wake-up can be lost: the last task ends between the check and the wait, and the waiter sleeps although the
  group is done, in every continuation.\<close>

theorem wakeup_can_be_lost:
  "\<exists>g. group_reach (g, Parked) \<and> tg_all_tasks_stopped g \<and> alive g = {} \<and>
    (\<nexists>g' w. group_step\<^sup>*\<^sup>* (g, Parked) (g', w) \<and> w \<noteq> Parked)"
proof -
  have "\<not> tg_all_tasks_stopped one_task" by (simp add: tg_all_tasks_stopped_def one_task_def)
  then have l: "group_reach (one_task, Leaving_check)" using reach_step [OF reach_one_task gs_check] by simp
  obtain g' where e: "tg_task_ends 0 one_task = (g', True)" and d: "tg_all_tasks_stopped g'"
    using last_task_wakes [OF l] by (auto simp: one_task_def)
  have "group_step (one_task, Leaving_check) (g', Leaving_check)"
    using gs_end [OF _ e, where w = Leaving_check] by (simp add: one_task_def)
  then have r: "group_reach (g', Parked)" using reach_step [OF reach_step [OF l] gs_park] by blast
  have a: "alive g' = {}" using e by (auto simp: tg_task_ends_def tg_remove_task_def one_task_def)
  have "w = Parked" if "group_step\<^sup>*\<^sup>* (g', Parked) (h, w)" for h w
    using parked_forever [OF _ _ a that] d by (simp add: tg_all_tasks_stopped_def)
  with r d a show ?thesis by blast
qed

section \<open>One network at a time\<close>

definition manager_inv :: "TaskGroupManager \<Rightarrow> bool" where
  "manager_inv m \<longleftrightarrow>
     (\<forall>i < length (tm_groups m). \<not> stopped (tm_groups m ! i) \<longrightarrow> tm_slot m = Some i) \<and>
     (\<forall>i. tm_slot m = Some i \<longrightarrow> i < length (tm_groups m)) \<and>
     tm_guards m = (if tm_slot m = None then 0 else 1)"

lemma manager_invD:
  assumes "manager_inv m"
  shows "i < length (tm_groups m) \<Longrightarrow> \<not> stopped (tm_groups m ! i) \<Longrightarrow> tm_slot m = Some i"
    "tm_slot m = Some i \<Longrightarrow> i < length (tm_groups m)" "tm_guards m = (if tm_slot m = None then 0 else 1)"
  using assms unfolding manager_inv_def by blast+

lemma manager_invI:
  assumes "\<And>i. i < length (tm_groups m) \<Longrightarrow> \<not> stopped (tm_groups m ! i) \<Longrightarrow> tm_slot m = Some i"
    "\<And>i. tm_slot m = Some i \<Longrightarrow> i < length (tm_groups m)" "tm_guards m = (if tm_slot m = None then 0 else 1)"
  shows "manager_inv m"
  using assms unfolding manager_inv_def by blast

lemma tm_at_simps [simp]:
  "tm_slot (tm_at f i m) = tm_slot m"
  "tm_guards (tm_at f i m) = tm_guards m"
  "length (tm_groups (tm_at f i m)) = length (tm_groups m)"
  by (simp_all add: tm_at_def)

lemma tm_at_group: "j < length (tm_groups m) \<Longrightarrow>
    tm_groups (tm_at f i m) ! j = (if i = j then f (tm_groups m ! j) else tm_groups m ! j)"
  by (simp add: tm_at_def)

lemma tm_at_stopped:
  assumes "manager_inv m" "\<And>g. g = tm_groups m ! i \<Longrightarrow> stopped g \<Longrightarrow> stopped (f g)"
  shows "manager_inv (tm_at f i m)"
proof (rule manager_invI)
  show "tm_slot (tm_at f i m) = Some j" if "j < length (tm_groups (tm_at f i m))" "\<not> stopped (tm_groups (tm_at f i m) ! j)" for j
  proof -
    have j: "j < length (tm_groups m)" using that(1) by simp
    have "\<not> stopped (tm_groups m ! j)"
    proof
      assume st: "stopped (tm_groups m ! j)"
      have "stopped (tm_groups (tm_at f i m) ! j)"
      proof (cases "i = j")
        case True
        then show ?thesis using assms(2) [OF refl] st by (simp add: tm_at_group [OF j])
      next
        case False
        then show ?thesis using st by (simp add: tm_at_group [OF j])
      qed
      with that(2) show False by contradiction
    qed
    then show ?thesis using manager_invD(1) [OF assms(1) j] by simp
  qed
next
  show "j < length (tm_groups (tm_at f i m))" if "tm_slot (tm_at f i m) = Some j" for j
    using that manager_invD(2) [OF assms(1), of j] by simp
  show "tm_guards (tm_at f i m) = (if tm_slot (tm_at f i m) = None then 0 else 1)"
    using manager_invD(3) [OF assms(1)] by simp
qed

lemma manager_step_inv: "manager_step m m' \<Longrightarrow> manager_inv m \<Longrightarrow> manager_inv m'"
proof (induction rule: manager_step.induct)
  case (ms_create m)
  note d = manager_invD [OF this]
  show ?case
  proof (cases "tm_slot m")
    case None
    have "stopped (tm_groups m ! i)" if "i < length (tm_groups m)" for i using d(1) [OF that] None by auto
    then show ?thesis
      using None d(3) by (intro manager_invI) (auto simp: tm_create_task_def nth_append TaskGroup_new_def split: if_splits)
  qed (use ms_create in \<open>simp add: tm_create_task_def\<close>)
next
  case (ms_stop m)
  then show ?case by (cases "tm_slot m") (simp_all add: tm_stop_def tm_at_stopped tg_stop_def)
next
  case (ms_drop m)
  note d = manager_invD [OF ms_drop(2)]
  show ?case
  proof (cases "tm_slot m")
    case (Some i)
    show ?thesis
    proof (rule manager_invI)
      show "tm_slot (tm_guard_drop m) = Some j"
        if j: "j < length (tm_groups (tm_guard_drop m))" "\<not> stopped (tm_groups (tm_guard_drop m) ! j)" for j
      proof -
        have "j < length (tm_groups m)" using j(1) by (simp add: tm_guard_drop_def Some)
        then have "\<not> stopped (tm_groups m ! j)" "i \<noteq> j"
          using j(2) by (auto simp: tm_guard_drop_def Some tm_at_group tg_stop_def split: if_splits)
        then show ?thesis using d(1) \<open>j < length (tm_groups m)\<close> Some by auto
      qed
    qed (use d(3) Some in \<open>simp_all add: tm_guard_drop_def\<close>)
  qed (use ms_drop d(3) in simp)
next
  case (ms_group i m w g' w')
  have "stopped (tm_groups m ! i) \<Longrightarrow> stopped g'" using stopped_step [OF ms_group(2)] by simp
  then show ?case using ms_group(3) by (intro tm_at_stopped) simp_all
qed

text \<open>C25 However networks are created, stopped and dropped and whatever their tasks do: at most one group is not
  stopped, it is the one in the manager's slot, and a second one is refused while it is there.\<close>

theorem one_network_at_a_time:
  assumes "manager_step\<^sup>*\<^sup>* TaskGroupManager_new m" "i < length (tm_groups m)" "\<not> stopped (tm_groups m ! i)"
  shows "tm_slot m = Some i \<and> (\<forall>j < length (tm_groups m). j \<noteq> i \<longrightarrow> stopped (tm_groups m ! j)) \<and>
    tm_create_task m = (m, Inl (Bail ''running''))"
proof -
  have "manager_inv m" using assms(1)
  proof (induction rule: rtranclp_induct)
    case base
    then show ?case by (simp add: manager_inv_def TaskGroupManager_new_def)
  next
    case (step m1 m2)
    then show ?case by (blast intro: manager_step_inv)
  qed
  note d = manager_invD [OF this]
  have slot: "tm_slot m = Some i" using d(1) assms(2,3) by blast
  moreover have "stopped (tm_groups m ! j)" if "j < length (tm_groups m)" "j \<noteq> i" for j
    using d(1) [OF that(1)] that(2) slot by fastforce
  ultimately show ?thesis by (simp add: tm_create_task_def)
qed

lemma one_network_at_a_time_witness:
  "tm_create_task (fst (tm_create_task TaskGroupManager_new)) =
    (fst (tm_create_task TaskGroupManager_new), Inl (Bail ''running''))"
proof -
  have "manager_step\<^sup>*\<^sup>* TaskGroupManager_new (fst (tm_create_task TaskGroupManager_new))"
    by (rule r_into_rtranclp) (rule ms_create)
  from one_network_at_a_time [OF this, of 0] show ?thesis
    by (simp add: tm_create_task_def TaskGroupManager_new_def TaskGroup_new_def)
qed

end
