(* ===== verification/NetworkManager.thy ===== *)
theory NetworkManager
  imports ServerLinkProps TaskControl
begin

text \<open>
  A client's network as one object, \<open>vnt/vnt-core/src/core/mod.rs\<close>: what \<open>create_network\<close> builds from a
  configuration, the registration, the virtual interface and the end; \<open>create_server_tunnel\<close> of
  \<open>tunnel_core/server/connection_manager.rs\<close> and \<open>DeviceIOManager\<close> of \<open>tun/general.rs\<close>; the read-only calls of
  \<open>api/mod.rs\<close>.

  Outcomes of the crates (sockets, TCP/IP stacks, the interface of the operating system) are parameters: they
  succeed or fail. \<open>servers\<close> enumerates the keys of the channel map. The tasks that other components start are in
  the group already; here only those of the servers and of the interface are counted.
\<close>

section \<open>Server tunnels\<close>

definition server_ids :: "Config \<Rightarrow> u32 list" where
  "server_ids c = map word_of_nat [0..<length (cf_server_addr c)]"

definition create_server_tunnel :: "(bytes \<Rightarrow> bytes) \<Rightarrow> Config \<Rightarrow> ('c ServerTurnManager list \<times> ServerInfoCollection) result" where
  "create_server_tunnel sha c =
     and_then (collect (\<lambda>i. and_then (Config_to_connect_config sha i c) (\<lambda>r. Inr (ServerTurnManager_new (word_of_nat i) r)))
                 [0..<length (cf_server_addr c)]) (\<lambda>managers.
       Inr (managers, update_server (zip (server_ids c) (map ProtocolAddress_to_string (cf_server_addr c)))))"

section \<open>The virtual interface\<close>

text \<open>The two tasks of the device and the address it was given.\<close>

record DeviceIOManager =
  di_device :: "(nat option \<times> nat option) option"
  di_address :: "(ipv4 \<times> u8) option"

definition DeviceIOManager_new :: DeviceIOManager where
  "DeviceIOManager_new = \<lparr>di_device = None, di_address = None\<rparr>"

definition device_stop_task :: "DeviceIOManager \<Rightarrow> TaskGroup \<Rightarrow> DeviceIOManager \<times> TaskGroup" where
  "device_stop_task d g =
     (case di_device d of
        None \<Rightarrow> (d, g)
      | Some (recv, send) \<Rightarrow> (d\<lparr>di_device := None\<rparr>, sub_stop send (sub_stop recv g)))"

definition device_create :: "unit result \<Rightarrow> TaskGroup \<Rightarrow> (nat option \<times> nat option) result \<times> TaskGroup" where
  "device_create tun g =
     (case tun of
        Inl e \<Rightarrow> (Inl e, g)
      | Inr _ \<Rightarrow> (case tg_spawn g of (g, recv) \<Rightarrow> case tg_spawn g of (g, send) \<Rightarrow> (Inr (recv, send), g)))"

definition device_start_task :: "unit result \<Rightarrow> DeviceIOManager \<Rightarrow> TaskGroup \<Rightarrow> unit result \<times> DeviceIOManager \<times> TaskGroup" where
  "device_start_task tun d g =
     (case device_stop_task d g of (d, g) \<Rightarrow>
      case device_create tun g of
        (Inl e, g) \<Rightarrow> (Inl e, d, g)
      | (Inr t, g) \<Rightarrow> (Inr (), d\<lparr>di_device := Some t\<rparr>, g))"

definition device_set_network :: "(ipv4 \<Rightarrow> u8 \<Rightarrow> unit result) \<Rightarrow> ipv4 \<Rightarrow> u8 \<Rightarrow> DeviceIOManager \<Rightarrow> unit result \<times> DeviceIOManager" where
  "device_set_network set_address ip len d =
     (if di_device d = None then (Inl (Bail ''tun not started''), d)
      else if di_address d = Some (ip, len) then (Inr (), d)
      else (case set_address ip len of
              Inl e \<Rightarrow> (Inl e, d)
            | Inr _ \<Rightarrow> (Inr (), d\<lparr>di_address := Some (ip, len)\<rparr>)))"

section \<open>The network\<close>

record ('c, 'k, 'key) NetworkManager =
  nm_config :: Config
  nm_node :: "'k Node"
  nm_conf :: "'key inbound_conf"
  nm_group :: TaskGroup
  nm_device :: DeviceIOManager
  nm_outbound :: bool
  nm_receiver :: bool
  nm_context :: "'c ServerTurnManager list option"
  nm_tasks :: "(nat \<times> 'c ServerTurnManager) list"

text \<open>\<open>bo_key\<close> is \<open>PacketCrypto::new_from_str\<close>.\<close>

record 'key boot =
  bo_key :: "string \<Rightarrow> 'key"
  bo_servers :: "u32 list \<Rightarrow> u32 list"
  bo_p2p :: "unit result"
  bo_nat :: "unit result"
  bo_tunnel :: "unit result"
  bo_now :: nat

definition uses_p2p :: "Config \<Rightarrow> bool" where
  "uses_p2p c \<longleftrightarrow> \<not> cf_no_punch c \<and> cf_use_channel c \<noteq> Relay"

definition uses_nat :: "Config \<Rightarrow> bool" where
  "uses_nat c \<longleftrightarrow> \<not> (cf_no_nat c \<and> \<not> cf_no_tun c)"

text \<open>The \<open>expect\<close> on the NAT of a client without an interface is the panic.\<close>

definition tun_inbound :: "Config \<Rightarrow> EnhancedTunInbound result" where
  "tun_inbound c =
     (let allowed = AllowSubnetExternalRoute_new (cf_output c) in
      if cf_no_tun c then (if uses_nat c then Inr (InNat allowed) else Inl Panic) else Inr (InTun allowed))"

definition network_conf :: "'key boot \<Rightarrow> Config \<Rightarrow> EnhancedTunInbound \<Rightarrow> 'key inbound_conf" where
  "network_conf bo c tun =
     \<lparr>cc_crypto = map_option (bo_key bo) (cf_password c), cc_compression = PacketCompression_new (cf_compress c),
      cc_use_channel = cf_use_channel c, cc_p2p = uses_p2p c, cc_servers = bo_servers bo (server_ids c),
      cc_open_quic = cf_rtx c, ci_tun = tun,
      ci_nat = (if uses_nat c then Some (AllowSubnetExternalRoute_new (cf_output c)) else None),
      ci_puncher = uses_p2p c\<rparr>"

definition network_node :: "'key boot \<Rightarrow> Config \<Rightarrow> ServerInfoCollection \<Rightarrow> 'k Node" where
  "network_node bo c info = AppState.extend
     (AppState_default\<lparr>as_server_info := info, as_subnets := set_route_table (cf_input c) []\<rparr>)
     \<lparr>nd_fec_encoder = (if cf_fec c then Some FecEncoder_new else None), nd_fec_decoder = FecDecoder_new (bo_now bo)\<rparr>"

definition create_network :: "(bytes \<Rightarrow> bytes) \<Rightarrow> 'key boot \<Rightarrow> Config \<Rightarrow> TaskGroup \<Rightarrow> ('c, 'k, 'key) NetworkManager result" where
  "create_network sha bo c g =
     and_then (Config_check c) (\<lambda>_.
     and_then (create_server_tunnel sha c) (\<lambda>(managers, info).
     and_then (if uses_p2p c then bo_p2p bo else Inr ()) (\<lambda>_.
     and_then (if uses_nat c then bo_nat bo else Inr ()) (\<lambda>_.
     and_then (tun_inbound c) (\<lambda>tun.
     and_then (bo_tunnel bo) (\<lambda>_.
       Inr \<lparr>nm_config = c, nm_node = network_node bo c info, nm_conf = network_conf bo c tun, nm_group = g,
            nm_device = DeviceIOManager_new, nm_outbound = (\<not> cf_no_tun c), nm_receiver = (\<not> cf_no_tun c),
            nm_context = Some managers, nm_tasks = []\<rparr>))))))"

section \<open>Registration\<close>

text \<open>One task per server; a group that is stopped starts none.\<close>

fun start_tasks :: "TaskGroup \<Rightarrow> 'c ServerTurnManager list \<Rightarrow> TaskGroup \<times> (nat \<times> 'c ServerTurnManager) list" where
  "start_tasks g [] = (g, [])"
| "start_tasks g (m # ms) =
     (case tg_spawn g of (g, r) \<Rightarrow>
      case start_tasks g ms of (g, l) \<Rightarrow> (g, (case r of Some i \<Rightarrow> (i, m) # l | None \<Rightarrow> l)))"

text \<open>The first server alone is asked when there is one.\<close>

definition register_servers :: "('w, 'c) link_env \<Rightarrow> 'c ServerTurnManager list \<Rightarrow> 'w
    \<Rightarrow> RegResponseMsg result \<times> 'c ServerTurnManager list \<times> 'w" where
  "register_servers env ms w =
     (if 1 < length ms then coordinated_registration env ms w
      else (case ms of
              [] \<Rightarrow> (Inl Panic, ms, w)
            | m # rest \<Rightarrow>
                (case connect_and_reg env Normal m w of
                   (Inl e, m, w) \<Rightarrow> (Inl e, m # rest, w)
                 | (Inr (ResReg reg), m, w) \<Rightarrow> (Inr reg, m # rest, w)
                 | (Inr (ResError _ message), m, w) \<Rightarrow> (Inl (Bail (''Registration failed: '' @ message)), m # rest, w)
                 | (Inr (ResConfirmReg _), m, w) \<Rightarrow> (Inl (Bail ''Unexpected ConfirmReg response''), m # rest, w))))"

definition network_addr :: "(ipv4 \<Rightarrow> u8 \<Rightarrow> Ipv4Net option) \<Rightarrow> RegResponseMsg \<Rightarrow> NetworkAddr result" where
  "network_addr net_new reg =
     and_then (ok_or (Bail ''prefix length'') (net_new (rs_ip reg) (rs_prefix_len reg))) (\<lambda>n.
       Inr \<lparr>na_gateway = rs_gateway reg, na_broadcast = net_broadcast n, na_ip = rs_ip reg,
            na_prefix_len = rs_prefix_len reg\<rparr>)"

definition save_versions :: "string \<Rightarrow> nat \<Rightarrow> ServerInfoCollection \<Rightarrow> ServerInfoCollection" where
  "save_versions v n c = (if v = [] then c else fold (\<lambda>i. set_server_version (word_of_nat i) v) [0..<n] c)"

text \<open>The context is taken first, so a registration that failed cannot be repeated.\<close>

definition register_network :: "(ipv4 \<Rightarrow> u8 \<Rightarrow> Ipv4Net option) \<Rightarrow> ('w, 'c) link_env \<Rightarrow> ('c, 'k, 'key) NetworkManager \<Rightarrow> 'w
    \<Rightarrow> NetworkAddr result \<times> ('c, 'k, 'key) NetworkManager \<times> 'w" where
  "register_network net_new env nm w =
     (case nm_context nm of
        None \<Rightarrow> (Inl (Bail ''register can only be called once''), nm, w)
      | Some ms \<Rightarrow>
          (let nm = nm\<lparr>nm_context := None\<rparr> in
           case register_servers env ms w of
             (Inl e, _, w) \<Rightarrow> (Inl e, nm, w)
           | (Inr reg, ms, w) \<Rightarrow>
               (case network_addr net_new reg of
                  Inl e \<Rightarrow> (Inl e, nm, w)
                | Inr net \<Rightarrow>
                    (case start_tasks (nm_group nm) ms of (g, started) \<Rightarrow>
                      (Inr net,
                       nm\<lparr>nm_node := (nm_node nm)\<lparr>as_network := Some net,
                            as_server_info := save_versions (rs_server_version reg) (length ms) (as_server_info (nm_node nm))\<rparr>,
                          nm_group := g, nm_tasks := started\<rparr>, w)))))"

section \<open>Interface and end\<close>

definition start_tun :: "unit result \<Rightarrow> ('c, 'k, 'key) NetworkManager \<Rightarrow> unit result \<times> ('c, 'k, 'key) NetworkManager" where
  "start_tun tun nm =
     (if \<not> nm_receiver nm then (Inl (Bail ''start_tun can only be called once''), nm)
      else
        (let nm = nm\<lparr>nm_receiver := False\<rparr> in
         if \<not> nm_outbound nm then (Inl (Bail ''start_tun can only be called once''), nm)
         else (case device_start_task tun (nm_device nm) (nm_group nm) of
                 (res, d, g) \<Rightarrow> (res, nm\<lparr>nm_outbound := False, nm_device := d, nm_group := g\<rparr>))))"

definition set_network_ip :: "(ipv4 \<Rightarrow> u8 \<Rightarrow> unit result) \<Rightarrow> ipv4 \<Rightarrow> u8 \<Rightarrow> ('c, 'k, 'key) NetworkManager
    \<Rightarrow> unit result \<times> ('c, 'k, 'key) NetworkManager" where
  "set_network_ip set_address ip len nm =
     (case device_set_network set_address ip len (nm_device nm) of (res, d) \<Rightarrow> (res, nm\<lparr>nm_device := d\<rparr>))"

definition network_stop :: "('c, 'k, 'key) NetworkManager \<Rightarrow> ('c, 'k, 'key) NetworkManager" where
  "network_stop nm = nm\<lparr>nm_group := tg_stop (nm_group nm),
     nm_node := AppState.extend (stop_network (AppState.truncate (nm_node nm)))
       \<lparr>nd_fec_encoder = nd_fec_encoder (nm_node nm), nd_fec_decoder = nd_fec_decoder (nm_node nm)\<rparr>\<rparr>"

section \<open>The calls of the front ends\<close>

definition api_is_direct :: "ipv4 \<Rightarrow> 'k AppState \<Rightarrow> bool" where
  "api_is_direct ip s \<longleftrightarrow> 0 < p2p_num (as_routes s) ip"

definition api_find_route :: "ipv4 \<Rightarrow> 'k AppState \<Rightarrow> 'k Route option" where
  "api_find_route ip s = get_by_id (as_routes s) ip"

text \<open>Without a route the way over the server is estimated: there and back to the server, twice. The product of
  \<open>u32\<close> wraps in a release build.\<close>

definition api_get_rtt :: "u32 list \<Rightarrow> ipv4 \<Rightarrow> 'k AppState \<Rightarrow> u32 option" where
  "api_get_rtt order ip s =
     (case api_find_route ip s of
        Some r \<Rightarrow> Some (rtt r)
      | None \<Rightarrow> map_option (\<lambda>v. v * 2) (get_server_rtt order ip (as_server_info s)))"


section \<open>Creating a network\<close>

lemma collect_Inr: "(\<And>x. x \<in> set xs \<Longrightarrow> \<exists>y. f x = Inr y) \<Longrightarrow> \<exists>ys. collect f xs = Inr ys"
proof (induction xs)
  case (Cons a xs)
  then obtain ys y where "collect f xs = Inr ys" "f a = Inr y" by fastforce
  then show ?case by simp
qed simp

lemma collect_map: "collect f xs = Inr ys \<Longrightarrow> list_all2 (\<lambda>x y. f x = Inr y) xs ys"
  by (induction xs arbitrary: ys) (auto split: sum.splits)

text \<open>The managers that a configuration gives: one per address, numbered in order, none connected.\<close>

lemma server_tunnel_managers:
  assumes "create_server_tunnel sha c = Inr (ms, info)"
  shows "map sm_server_id ms = server_ids c \<and> list_all (\<lambda>m. sm_transport m = TcPending) ms"
proof -
  have "list_all2 (\<lambda>i m. sm_server_id m = word_of_nat i \<and> sm_transport m = TcPending) [0..<length (cf_server_addr c)] ms"
    using assms by (auto simp: create_server_tunnel_def ServerTurnManager_new_def transport_new_def split: sum.splits
        dest!: collect_map elim!: list_all2_mono)
  then show ?thesis by (auto simp: list_all2_conv_all_nth list_all_length server_ids_def intro!: nth_equalityI)
qed

lemma server_tunnel_exists: "\<exists>ms. create_server_tunnel sha c =
    Inr (ms, update_server (zip (server_ids c) (map ProtocolAddress_to_string (cf_server_addr c))))"
proof -
  have "\<exists>ms. collect (\<lambda>i. and_then (Config_to_connect_config sha i c) (\<lambda>r. Inr (ServerTurnManager_new (word_of_nat i) r)))
      [0..<length (cf_server_addr c)] = Inr (ms :: 'a ServerTurnManager list)"
    by (rule collect_Inr) (simp add: Config_to_connect_config_def)
  then show ?thesis by (auto simp: create_server_tunnel_def)
qed

lemma create_network_iff:
  "(\<exists>nm :: ('c, 'k, 'key) NetworkManager. create_network sha bo c g = Inr nm) \<longleftrightarrow>
     Config_check c = Inr () \<and> (if uses_p2p c then bo_p2p bo else Inr ()) = Inr () \<and>
     (if uses_nat c then bo_nat bo else Inr ()) = Inr () \<and> bo_tunnel bo = Inr ()"
proof -
  obtain ms :: "'c ServerTurnManager list" and info where "create_server_tunnel sha c = Inr (ms, info)" using server_tunnel_exists by blast
  moreover have "\<exists>tun. tun_inbound c = Inr tun" by (simp add: tun_inbound_def uses_nat_def Let_def)
  ultimately show ?thesis by (auto simp: create_network_def split: sum.splits)
qed

text \<open>A network is created exactly when the configuration passes its check and the crates that it uses start; the
  client without an interface always has a NAT, so the \<open>expect\<close> holds.\<close>

theorem create_network_outcome:
  "(\<exists>nm :: ('c, 'k, 'key) NetworkManager. create_network sha bo c g = Inr nm) \<longleftrightarrow>
     Config_check c = Inr () \<and> (if uses_p2p c then bo_p2p bo else Inr ()) = Inr () \<and>
     (if uses_nat c then bo_nat bo else Inr ()) = Inr () \<and> bo_tunnel bo = Inr ()"
  by (rule create_network_iff)

section \<open>After the registration\<close>

definition linked_manager :: "'c ServerTurnManager \<Rightarrow> bool" where
  "linked_manager m \<longleftrightarrow> transport_ok (sm_transport m) \<and> sm_transport m \<noteq> TcPending"

lemma grant_links:
  assumes "connect_and_reg env mode m w = (Inr (ResReg reg), m', w')" "sm_transport m = TcPending"
  shows "linked_manager m' \<and> sm_server_id m' = sm_server_id m"
  using connection_typed [OF assms] connect_and_reg_server [OF assms(1)] by (auto simp: linked_manager_def)

lemma grants_link:
  "reg_all env mode ms w = (map (\<lambda>g. Inr (ResReg g)) regs, ms', w') \<Longrightarrow> list_all (\<lambda>m. sm_transport m = TcPending) ms \<Longrightarrow>
    list_all linked_manager ms' \<and> map sm_server_id ms' = map sm_server_id ms"
proof (induction ms arbitrary: w regs ms')
  case (Cons m ms)
  obtain r m1 w1 where c: "connect_and_reg env mode m w = (r, m1, w1)" by (metis prod.collapse)
  obtain rs ms1 w2 where a: "reg_all env mode ms w1 = (rs, ms1, w2)" by (metis prod.collapse)
  from Cons.prems(1) obtain reg regs' where r: "r = Inr (ResReg reg)" "rs = map (\<lambda>g. Inr (ResReg g)) regs'" "w2 = w'" "ms' = m1 # ms1"
    by (auto simp: c a)
  show ?case
    using Cons.IH [of w1 regs' ms1] grant_links [OF c [unfolded r(1)]] a Cons.prems(2) by (simp add: r)
qed simp

lemma registered_linked:
  assumes "register_servers env ms w = (Inr reg, ms', w')" "list_all (\<lambda>m. sm_transport m = TcPending) ms"
  shows "list_all linked_manager ms' \<and> map sm_server_id ms' = map sm_server_id ms"
proof (cases ms)
  case (Cons m0 others)
  show ?thesis
  proof (cases others)
    case Nil
    obtain r m1 w1 where c: "connect_and_reg env Normal m0 w = (r, m1, w1)" by (metis prod.collapse)
    with assms(1) Nil have "r = Inr (ResReg reg) \<and> ms' = [m1]"
      by (simp add: register_servers_def Cons split: sum.splits ResponseMessage.splits)
    then show ?thesis using grant_links [of env Normal m0 w] assms(2) c by (simp add: Cons Nil)
  next
    case more: (Cons a l)
    then have "coordinated_registration env (m0 # others) w = (Inr reg, ms', w')"
      using assms(1) by (simp add: register_servers_def Cons)
    then obtain m1 w1 regs others' w2 where
      c: "connect_and_reg env PreRegister m0 w = (Inr (ResReg reg), m1, w1)" and
      a: "reg_all env PreRegister (map (set_ip (rs_ip reg)) others) w1 = (map (\<lambda>g. Inr (ResReg g)) regs, others', w2)" and
      m: "ms' = m1 # others'"
      by (auto simp: coordinated_iff)
    have "list_all (\<lambda>m. sm_transport m = TcPending) (map (set_ip (rs_ip reg)) others)"
      using assms(2) by (auto simp: Cons set_ip_def list_all_iff)
    then show ?thesis
      using grants_link [OF a] grant_links [OF c] assms(2) by (simp add: m Cons set_ip_def)
  qed
qed (use assms in \<open>simp add: register_servers_def\<close>)

lemma start_tasks_stopped: "stopped g \<Longrightarrow> start_tasks g ms = (g, [])"
  by (induction ms) (simp_all add: tg_spawn_def)

lemma start_tasks_runs:
  "\<not> stopped g \<Longrightarrow> start_tasks g ms = (g', l) \<Longrightarrow>
    \<not> stopped g' \<and> map snd l = ms \<and> map fst l = [next_task g..<next_task g + length ms] \<and> tasks g' = tasks g \<union> fst ` set l"
proof (induction ms arbitrary: g g' l)
  case (Cons m ms)
  define g1 where "g1 = fst (tg_spawn g)"
  obtain g2 l2 where s: "start_tasks g1 ms = (g2, l2)" by (metis prod.collapse)
  have g1: "\<not> stopped g1" "next_task g1 = Suc (next_task g)" "tasks g1 = insert (next_task g) (tasks g)"
    "tg_spawn g = (g1, Some (next_task g))"
    using Cons.prems(1) by (simp_all add: g1_def tg_spawn_def)
  from Cons.prems(2) have r: "g' = g2" "l = (next_task g, m) # l2" by (simp_all add: g1(4) s)
  show ?case using Cons.IH [OF g1(1) s] by (auto simp: r g1 upt_conv_Cons simp del: upt_Suc)
qed simp

text \<open>C8 A network that was created and has registered: its address is set, the context is used up, and each configured
  server has one running task of the group, which starts on an established connection, unless the group was
  stopped in between, and then none has.\<close>

theorem register_starts_tasks:
  assumes "create_network sha bo c g = Inr nm" "register_network net_new env nm w = (Inr net, nm', w')"
  shows "as_network (nm_node nm') = Some net \<and>
    fst (register_network net_new env nm' w'') = Inl (Bail ''register can only be called once'') \<and>
    (if stopped g then nm_tasks nm' = []
     else map (\<lambda>t. sm_server_id (snd t)) (nm_tasks nm') = server_ids c \<and> distinct (map fst (nm_tasks nm')) \<and>
       fst ` set (nm_tasks nm') \<subseteq> tasks (nm_group nm') \<and>
       list_all (\<lambda>t. task_ok (sm_server_id (snd t)) \<lparr>tk_manager = snd t, tk_node = nm_node nm', tk_phase = Fresh,
         tk_group_stopped = False\<rparr>) (nm_tasks nm'))"
proof -
  obtain ms info where t: "create_server_tunnel sha c = Inr (ms, info)" "nm_context nm = Some ms" "nm_group nm = g"
    using assms(1) by (auto simp: create_network_def split: sum.splits)
  obtain r ms' w1 where s: "register_servers env ms w = (r, ms', w1)" by (metis prod.collapse)
  obtain g' l where l: "start_tasks g ms' = (g', l)" by (metis prod.collapse)
  obtain reg where r: "r = Inr reg"
    using assms(2) by (cases r) (auto simp: register_network_def t s Let_def)
  have n: "nm_context nm' = None" "as_network (nm_node nm') = Some net" "nm_group nm' = g'" "nm_tasks nm' = l"
    using assms(2) by (auto simp: register_network_def t s r l Let_def split: sum.splits)
  note m = server_tunnel_managers [OF t(1)]
  have k: "list_all linked_manager ms'" "map sm_server_id ms' = server_ids c"
    using registered_linked [OF s [unfolded r]] m by simp_all
  have again: "fst (register_network net_new env nm' w'') = Inl (Bail ''register can only be called once'')"
    by (simp add: register_network_def n)
  show ?thesis
  proof (cases "stopped g")
    case True
    then show ?thesis using l again by (simp add: n start_tasks_stopped)
  next
    case False
    note st = start_tasks_runs [OF False l]
    have "map (\<lambda>t. sm_server_id (snd t)) l = map sm_server_id (map snd l)" by simp
    moreover have "list_all (\<lambda>t. linked_manager (snd t)) l" using k(1) st by (metis list.pred_map comp_apply list.pred_cong)
    ultimately show ?thesis using False st k(2) again
      by (simp add: n task_ok_def linked_manager_def list_all_iff)
  qed
qed


section \<open>Witness\<close>

definition demo_boot :: "string boot" where
  "demo_boot = \<lparr>bo_key = (\<lambda>s. s), bo_servers = (\<lambda>l. l), bo_p2p = Inr (), bo_nat = Inr (), bo_tunnel = Inr (), bo_now = 0\<rparr>"

lemma register_starts_tasks_witness:
  "\<exists>(nm :: (unit, nat, string) NetworkManager) nm' w. create_network demo_sha demo_boot demo_client_config TaskGroup_new = Inr nm \<and>
     register_network demo_net_new script_env nm [[2]] =
       (Inr \<lparr>na_gateway = 1, na_broadcast = 255, na_ip = 2, na_prefix_len = 24\<rparr>, nm', w) \<and>
     map (\<lambda>t. sm_server_id (snd t)) (nm_tasks nm') = [0]"
proof -
  have ok: "Config_check demo_client_config = Inr ()"
    by (simp add: Config_check_def demo_client_config_def CFG_MAX_NETWORK_CODE_LEN_def CFG_MAX_DEVICE_ID_LEN_def
        CFG_MAX_NAME_LEN_def MAX_MTU_def)
  obtain nm :: "(unit, nat, string) NetworkManager" where
    nm: "create_network demo_sha demo_boot demo_client_config TaskGroup_new = Inr nm"
    using create_network_iff [of demo_sha demo_boot demo_client_config TaskGroup_new] ok by (auto simp: demo_boot_def)
  obtain ms :: "unit ServerTurnManager list" where ms: "ms = [ServerTurnManager_new 0
      \<lparr>cr_server_addr = ProtocolAddress_default, cr_cert_mode = StandardCert, cr_network_code = ''default'',
       cr_device_id = ''a'', cr_device_name = ''host'', cr_ip = None,
       cr_key_sign = Config_key_sign demo_sha demo_client_config, cr_ip_variable = True\<rparr>]" by blast
  have "\<exists>info. create_server_tunnel demo_sha demo_client_config = Inr (ms, info)"
    by (simp add: ms create_server_tunnel_def Config_to_connect_config_def) (simp add: demo_client_config_def)
  then have ctx: "nm_context nm = Some ms" "nm_group nm = TaskGroup_new"
    using nm by (auto simp: create_network_def split: sum.splits)
  have "\<exists>m w. register_servers script_env ms [[2]] =
      (Inr \<lparr>rs_ip = 2, rs_prefix_len = 24, rs_gateway = 1, rs_server_version = []\<rparr>, [m], w)"
    by (simp add: register_servers_def ms ProtocolAddress_default_def connect_and_reg_def to_connect_config_def
        resolve_target_def script_env_def ServerTurnManager_new_def transport_new_def stream_connect_def opened_stream_def
        exchange_def transport_send_def transport_next_timeout_def ResponseMessage_from_slice_def RegResponseMsg_from_def)
  then obtain m w where reg: "register_servers script_env ms [[2]] =
      (Inr \<lparr>rs_ip = 2, rs_prefix_len = 24, rs_gateway = 1, rs_server_version = []\<rparr>, [m], w)" by blast
  have "(2 :: ipv4) OR mask 8 = 255" by (simp add: mask_eq_exp_minus_1)
  then have "\<exists>nm'. register_network demo_net_new script_env nm [[2]] =
      (Inr \<lparr>na_gateway = 1, na_broadcast = 255, na_ip = 2, na_prefix_len = 24\<rparr>, nm', w)"
    by (simp add: register_network_def ctx reg network_addr_def demo_net_new_def Let_def split: prod.split)
  then obtain nm' where r: "register_network demo_net_new script_env nm [[2]] =
      (Inr \<lparr>na_gateway = 1, na_broadcast = 255, na_ip = 2, na_prefix_len = 24\<rparr>, nm', w)" by blast
  have "map (\<lambda>t. sm_server_id (snd t)) (nm_tasks nm') = server_ids demo_client_config"
    using register_starts_tasks [OF nm r] by (simp add: TaskGroup_new_def)
  with nm r show ?thesis by (auto simp: server_ids_def demo_client_config_def)
qed

end
