(* ===== verification/PeerTasks.thy ===== *)
theory PeerTasks
  imports ClientSafety
begin

text \<open>
  The periodic tasks of the peer-to-peer tunnel, \<open>vnt/vnt-core/src/tunnel_core/p2p/transport/task.rs\<close> and
  \<open>punch.rs\<close>: pings over the known routes, probes over a relay, the lease of routes, the start of hole punching
  and the dispatch of what arrives on a tunnel. One definition is one round of a task's loop; the sleeps between
  rounds are the caller's. Hash maps are enumerated by \<open>order\<close>, random choices are arguments, \<open>clock i\<close> is the
  wall clock at the \<open>i\<close>-th send of a round, \<open>inst\<close> is \<open>Instant::now()\<close> in milliseconds.

  The lemmas follow the ping dialogue from one client to the other and back: a direct peer is measured, a probe
  over a relay is never answered.
\<close>

section \<open>Pings\<close>

text \<open>A ping with room for the tag. The \<open>unwrap\<close> of \<open>set_payload\<close> is the panic.\<close>

definition ping_packet :: "('key, 'k) client_env \<Rightarrow> 'key client_conf \<Rightarrow> u8 \<Rightarrow> ipv4 \<Rightarrow> ipv4 \<Rightarrow> i64
    \<Rightarrow> TransmissionBytes result" where
  "ping_packet env conf hops src dest now =
     and_then (packet_new (tb_zeroed_size (ce_al env) (HEAD_LENGTH + 8) (encrypt_reserve (cc_crypto conf)))) (\<lambda>b.
       (case set_payload (be_enc 8 (unat now))
               (set_dest_id dest (set_src_id src (set_ttl hops (set_msg_type Ping (tb_view b))))) of
          Inl e \<Rightarrow> Inl Panic
        | Inr v \<Rightarrow> Inr (tb_write v b)))"

definition send_ping :: "('key, 'k) client_env \<Rightarrow> 'key client_conf \<Rightarrow> u8 \<Rightarrow> ipv4 \<Rightarrow> ipv4 \<Rightarrow> i64 \<Rightarrow> 'k
    \<Rightarrow> unit result \<times> 'k client_effect list" where
  "send_ping env conf hops src dest now k =
     (case ping_packet env conf hops src dest now of Inl e \<Rightarrow> (Inl e, []) | Inr t \<Rightarrow> p2p_send_to env conf k t)"

text \<open>The first three routes of a peer; a ping that was sent is counted.\<close>

fun ping_row :: "('key, 'k) client_env \<Rightarrow> 'key client_conf \<Rightarrow> ipv4 \<Rightarrow> (nat \<Rightarrow> i64) \<Rightarrow> ipv4 \<Rightarrow> nat \<Rightarrow> 'k Route list
    \<Rightarrow> (ipv4 \<rightharpoonup> PingStats) \<Rightarrow> 'k client_effect list \<times> (ipv4 \<rightharpoonup> PingStats)" where
  "ping_row env conf src clock i index [] loss = ([], loss)"
| "ping_row env conf src clock i index (r # rs) loss =
     (if 2 < index then ([], loss)
      else (case send_ping env conf 1 src i (clock index) (route_key r) of
              (res, effs) \<Rightarrow>
                (case ping_row env conf src clock i (index + 1) rs (if res = Inr () then record_sent i loss else loss) of
                   (effs', loss) \<Rightarrow> (effs @ effs', loss))))"

fun ping_rows :: "('key, 'k) client_env \<Rightarrow> 'key client_conf \<Rightarrow> ipv4 \<Rightarrow> (ipv4 \<Rightarrow> nat \<Rightarrow> i64) \<Rightarrow> (ipv4 \<rightharpoonup> 'k Route list)
    \<Rightarrow> ipv4 list \<Rightarrow> (ipv4 \<rightharpoonup> PingStats) \<Rightarrow> 'k client_effect list \<times> (ipv4 \<rightharpoonup> PingStats)" where
  "ping_rows env conf src clock tab [] loss = ([], loss)"
| "ping_rows env conf src clock tab (i # is) loss =
     (case ping_row env conf src (clock i) i 0 (case tab i of Some l \<Rightarrow> l | None \<Rightarrow> []) loss of
        (effs, loss) \<Rightarrow>
          (case ping_rows env conf src clock tab is loss of (effs', loss) \<Rightarrow> (effs @ effs', loss)))"

definition ping_all :: "('key, 'k) client_env \<Rightarrow> 'key client_conf \<Rightarrow> ipv4 list \<Rightarrow> (ipv4 \<Rightarrow> nat \<Rightarrow> i64) \<Rightarrow> 'k Node
    \<Rightarrow> 'k client_effect list \<times> 'k Node" where
  "ping_all env conf order clock nd =
     (case as_network nd of
        None \<Rightarrow> ([], nd)
      | Some net \<Rightarrow>
          (case ping_rows env conf (na_ip net) clock (route_table (as_routes nd)) order (as_loss nd) of
             (effs, loss) \<Rightarrow> (effs, nd\<lparr>as_loss := loss\<rparr>)))"

definition route_timeout_task :: "(ipv4 \<times> 'k) list \<Rightarrow> nat \<Rightarrow> 'k Node \<Rightarrow> 'k Node" where
  "route_timeout_task order inst nd = nd\<lparr>as_routes := remove_oldest_route order (inst - 10000) (as_routes nd)\<rparr>"

section \<open>Probes over a relay\<close>

text \<open>Clients without a direct route, twenty at most; \<open>n\<close> is the number found so far.\<close>

fun non_direct :: "'k RouteTable \<Rightarrow> ipv4 \<Rightarrow> nat \<Rightarrow> ipv4 list \<Rightarrow> ipv4 list" where
  "non_direct t src n [] = []"
| "non_direct t src n (ip # ips) =
     (if ip = src then non_direct t src n ips
      else if (case get_by_id t ip of Some r \<Rightarrow> is_direct r | None \<Rightarrow> False) then non_direct t src n ips
      else ip # (if 20 \<le> n + 1 then [] else non_direct t src (n + 1) ips))"

definition direct_peers :: "ipv4 list \<Rightarrow> 'k RouteTable \<Rightarrow> (ipv4 \<times> 'k) list" where
  "direct_peers order t =
     List.map_filter (\<lambda>ip. case route_table t ip of
       Some (r # _) \<Rightarrow> if is_direct r then Some (ip, route_key r) else None
     | _ \<Rightarrow> None) order"

text \<open>\<open>pick_targets\<close> and \<open>pick_peers\<close> are \<open>choose_multiple\<close>.\<close>

definition probe_target :: "('key, 'k) client_env \<Rightarrow> 'key client_conf \<Rightarrow> ipv4 \<Rightarrow> i64
    \<Rightarrow> (nat \<Rightarrow> (ipv4 \<times> 'k) list \<Rightarrow> (ipv4 \<times> 'k) list) \<Rightarrow> (ipv4 \<times> 'k) list \<Rightarrow> ipv4 \<Rightarrow> 'k client_effect list" where
  "probe_target env conf src now pick_peers peers target =
     concat (map (\<lambda>(relay, k). snd (send_ping env conf 2 src target now k))
       (pick_peers (min 3 (length peers)) (filter (\<lambda>(ip, _). ip \<noteq> target) peers)))"

definition relay_probe_task :: "('key, 'k) client_env \<Rightarrow> 'key client_conf \<Rightarrow> ipv4 list \<Rightarrow> (ipv4 \<Rightarrow> i64)
    \<Rightarrow> (nat \<Rightarrow> ipv4 list \<Rightarrow> ipv4 list) \<Rightarrow> (ipv4 \<Rightarrow> nat \<Rightarrow> (ipv4 \<times> 'k) list \<Rightarrow> (ipv4 \<times> 'k) list) \<Rightarrow> 'k Node
    \<Rightarrow> 'k client_effect list" where
  "relay_probe_task env conf order clock pick_targets pick_peers nd =
     (case as_network nd of
        None \<Rightarrow> []
      | Some net \<Rightarrow>
          (let online = client_online_ips (as_server_info nd);
               found = non_direct (as_routes nd) (na_ip net) 0 online;
               targets = (if length found \<le> 10 then found else pick_targets 10 found);
               peers = direct_peers order (as_routes nd)
           in if online = [] \<or> found = [] \<or> peers = [] then []
              else concat (map (\<lambda>t. probe_target env conf (na_ip net) (clock t) (pick_peers t) peers t) targets)))"

section \<open>Hole punching\<close>

text \<open>\<open>enc\<close> encodes the message of \<open>PunchInfo\<close>. An error of \<open>?\<close> ends the task; a failed send is logged.\<close>

definition punch_start_packet :: "('key, 'k) client_env \<Rightarrow> 'key client_conf \<Rightarrow> ipv4 \<Rightarrow> ipv4 \<Rightarrow> bytes
    \<Rightarrow> TransmissionBytes result" where
  "punch_start_packet env conf src dest data =
     and_then (packet_new (tb_zeroed_size (ce_al env) (HEAD_LENGTH + length data) (encrypt_reserve (cc_crypto conf)))) (\<lambda>b.
     and_then (set_payload data (set_dest_id dest (set_src_id src (set_ttl 2 (set_msg_type PunchStart1 (tb_view b)))))) (\<lambda>v.
       Inr (tb_write v b)))"

fun punch_starts :: "('key, 'k) client_env \<Rightarrow> 'key client_conf \<Rightarrow> u32 list \<Rightarrow> i64 \<Rightarrow> ipv4 \<Rightarrow> bytes \<Rightarrow> 'k Node \<Rightarrow> ipv4 list
    \<Rightarrow> unit result \<times> 'k client_effect list" where
  "punch_starts env conf sids now src data nd [] = (Inr (), [])"
| "punch_starts env conf sids now src data nd (dest # ips) =
     (if dest \<le> src \<or> \<not> (is_any_server_connected sids None (as_server_info nd) \<and> need_punch (as_routes nd) dest)
         \<or> \<not> should_punch now dest (as_backoff nd)
      then punch_starts env conf sids now src data nd ips
      else (case punch_start_packet env conf src dest data of
              Inl e \<Rightarrow> (Inl e, [])
            | Inr t \<Rightarrow>
                (case punch_starts env conf sids now src data nd ips of
                   (res, effs) \<Rightarrow> (res, snd (server_send env conf dest t (as_server_info nd)) @ effs))))"

definition punch_task :: "('key, 'k) client_env \<Rightarrow> 'key client_conf \<Rightarrow> (ProtoNatInfo option \<Rightarrow> bytes) \<Rightarrow> u32 list
    \<Rightarrow> (ipv4 list \<Rightarrow> ipv4 list) \<Rightarrow> i64 \<Rightarrow> 'k Node \<Rightarrow> unit result \<times> 'k client_effect list" where
  "punch_task env conf enc sids shuffle now nd =
     (case as_network nd of
        None \<Rightarrow> (Inr (), [])
      | Some net \<Rightarrow>
          (case app_get_nat_info (ce_net_new env) (AppState.truncate nd) of
             Inl e \<Rightarrow> (Inl e, [])
           | Inr None \<Rightarrow> (Inr (), [])
           | Inr (Some info) \<Rightarrow>
               punch_starts env conf sids now (na_ip net) (PunchInfo_encode enc info) nd
                 (take 5 (shuffle (client_online_ips (as_server_info nd))))))"

text \<open>The datagram of \<open>punch_now\<close>, which the crate's puncher sends to the addresses of the peer.\<close>

definition punch_now :: "('key, 'k) inbound_env \<Rightarrow> 'key inbound_conf \<Rightarrow> ipv4 \<Rightarrow> ipv4 \<Rightarrow> i64 \<Rightarrow> bytes result" where
  "punch_now env conf src dest now = sealed_packet env conf PunchReq 1 src dest 8 (be_enc 8 (unat now))"

section \<open>What arrives on a tunnel\<close>

text \<open>One round of a tunnel's loop; the flag tells whether it goes on. \<open>stun\<close> reads the answer of a STUN server,
  \<open>index\<close> the socket of a route key.\<close>

definition received_buffer :: "('key, 'k) inbound_env \<Rightarrow> bytes \<Rightarrow> TransmissionBytes" where
  "received_buffer env data = tb_write data (tb_zeroed (ce_al env) (length data))"

definition tunnel_round :: "('key, 'k) inbound_env \<Rightarrow> 'key inbound_conf \<Rightarrow> bool \<Rightarrow> (bytes \<Rightarrow> SocketAddr option)
    \<Rightarrow> ('k \<Rightarrow> Index) \<Rightarrow> (ipv4 \<Rightarrow> bool) \<Rightarrow> group_key list \<Rightarrow> nat \<Rightarrow> i64 \<Rightarrow> (bytes \<times> 'k) result \<Rightarrow> 'k Node
    \<Rightarrow> bool \<times> 'k client_effect list \<times> 'k Node" where
  "tunnel_round env conf udp stun index is_global order inst now rs nd =
     (case rs of
        Inl e \<Rightarrow> (udp, [], nd)
      | Inr (data, k) \<Rightarrow>
          (case (if udp then stun data else None) of
             Some addr \<Rightarrow> (True, [], nd\<lparr>as_nat_info := update_public_addr is_global (index k) addr (as_nat_info nd)\<rparr>)
           | None \<Rightarrow>
               (case peer_handle env conf order inst now k (received_buffer env data) nd of
                  (_, effs, nd) \<Rightarrow> (True, effs, nd))))"

definition tunnel_drop :: "bool \<Rightarrow> 'k \<Rightarrow> 'k Node \<Rightarrow> 'k Node" where
  "tunnel_drop tcp k nd = (if tcp then tcp_disconnect k nd else nd)"

section \<open>Sealed control packets\<close>

text \<open>A packet without compression or FEC, as its maker fills it in.\<close>

definition control_packet :: "MsgType \<Rightarrow> u8 \<Rightarrow> ipv4 \<Rightarrow> ipv4 \<Rightarrow> bytes \<Rightarrow> bytes \<Rightarrow> bool" where
  "control_packet t hops src dest pl w \<longleftrightarrow>
     16 \<le> length w \<and> msg_type w = Inr t \<and> src_id w = src \<and> dest_id w = dest \<and> ttl w = hops \<and> max_ttl w = hops \<and>
     \<not> is_fec w \<and> \<not> is_compressed w \<and> payload w = pl"


lemma header_upd: "set_payload pl p = Inr w \<Longrightarrow> header w = header p"
  by (rule set_payload_Inr(2))

lemma fill_control:
  assumes "hops < 16"
  shows "\<exists>w. set_payload pl (set_dest_id dest (set_src_id src (set_ttl hops (set_msg_type t (replicate (16 + length pl) 0))))) = Inr w \<and>
    length w = 16 + length pl \<and> control_packet t hops src dest pl w"
proof -
  define p where "p = set_dest_id dest (set_src_id src (set_ttl hops (set_msg_type t (replicate (16 + length pl) 0))))"
  have l: "length p = 16 + length pl" by (simp add: p_def)
  obtain w where w: "set_payload pl p = Inr w" using l by (simp add: set_payload_def)
  note s = set_payload_Inr [OF w]
  have h: "hops AND 0x0F = hops" using assms by (simp add: and_0F_take_bit low_nibble_self word_less_nat_alt)
  have z: "header (replicate 16 0 @ pl') = \<lparr>type_byte = 0, ttl_byte = 0, flags_byte = 0, reserved = 0, h_seq = 0, h_src_id = 0, h_dest_id = 0\<rparr>" for pl'
    by (rule header_upd_0_2(1))
  have f: "\<not> is_fec (replicate (16 + length pl) 0)" "\<not> is_compressed (replicate (16 + length pl) 0)"
    by (simp_all add: replicate_add is_fec_def is_compressed_def z)
  have "msg_type w = msg_type p" "src_id w = src_id p" "dest_id w = dest_id p" "ttl w = ttl p" "max_ttl w = max_ttl p"
    "is_fec w = is_fec p" "is_compressed w = is_compressed p"
    by (simp_all add: accessor_defs s(2))
  then have "control_packet t hops src dest pl w"
    using s l h f set_payload_exact [OF l w] by (simp add: control_packet_def p_def)
  then show ?thesis using w s(1) l by (simp add: p_def)
qed

lemma fresh_control:
  assumes "hops < 16" "n = length pl"
  shows "\<exists>w. packet_new (tb_zeroed_size al (HEAD_LENGTH + n) r) = Inr (tb_zeroed_size al (HEAD_LENGTH + n) r) \<and>
    set_payload pl (set_dest_id dest (set_src_id src (set_ttl hops (set_msg_type t (tb_view (tb_zeroed_size al (HEAD_LENGTH + n) r)))))) = Inr w \<and>
    control_packet t hops src dest pl w \<and> tb_ok (tb_write w (tb_zeroed_size al (HEAD_LENGTH + n) r)) \<and>
    tb_view (tb_write w (tb_zeroed_size al (HEAD_LENGTH + n) r)) = w"
  using fill_control [OF assms(1), of pl dest src t] by (auto simp: transmission_simps assms(2))

text \<open>So the panic of \<open>ping_packet\<close> never happens.\<close>

lemma ping_packet_fills:
  assumes "hops < 16"
  shows "\<exists>p. ping_packet env conf hops src dest now = Inr p \<and> tb_ok p \<and>
    control_packet Ping hops src dest (be_enc 8 (unat now)) (tb_view p)"
proof -
  let ?b = "tb_zeroed_size (ce_al env) (HEAD_LENGTH + 8) (encrypt_reserve (cc_crypto conf))"
  obtain w where w: "packet_new ?b = Inr ?b"
    "set_payload (be_enc 8 (unat now)) (set_dest_id dest (set_src_id src (set_ttl hops (set_msg_type Ping (tb_view ?b))))) = Inr w"
    "control_packet Ping hops src dest (be_enc 8 (unat now)) w" "tb_ok (tb_write w ?b)" "tb_view (tb_write w ?b) = w"
    using fresh_control [OF assms, of 8 "be_enc 8 (unat now)" "ce_al env" "encrypt_reserve (cc_crypto conf)" dest src Ping]
    by auto
  then have "ping_packet env conf hops src dest now = Inr (tb_write w ?b)" by (simp only: ping_packet_def and_then_def sum.case)
  with w(3-5) show ?thesis by (intro exI [of _ "tb_write w ?b"]) simp
qed

lemma control_length: "control_packet t hops src dest pl w \<Longrightarrow> 16 \<le> length w"
  by (simp add: control_packet_def)

text \<open>A sealed control packet after \<open>n\<close> relays reaches the code for its type with its payload.\<close>

lemma control_frame_handled:
  assumes "aead_ok seal (ce_unseal env)" "control_packet t hops src (na_ip net) pl w" "sealed seal (cc_crypto conf) q w"
    and "tb_ok r" "tb_view r = (decr_ttl ^^ n) q" "n < unat hops" "src \<noteq> na_ip net" "as_network nd = Some net" "t \<noteq> Quic"
  shows "\<exists>p. tb_ok p \<and> payload (tb_view p) = pl \<and>
    peer_handle env conf order inst now k r nd = peer_process env conf inst now net k t src (na_ip net) (word_of_nat (Suc n)) p nd"
proof -
  note c = assms(2) [unfolded control_packet_def]
  have q: "header q = header w" "16 \<le> length q" using sealed_fields assms(3) c by blast+
  obtain b0 where b0: "(decr_ttl ^^ n) q = with_ttl b0 q" using hops_with_ttl [OF q(2)] by blast
  have l: "16 \<le> length (tb_view r)" using q(2) b0 assms(5) by simp
  let ?r = "tb_map decr_ttl r"
  have r: "tb_ok ?r" "tb_view ?r = (decr_ttl ^^ Suc n) q" using tb_map_ok [OF assms(4), of decr_ttl] l assms(5) by simp_all
  obtain b where b: "tb_view ?r = with_ttl b q" using hops_with_ttl [OF q(2), of "Suc n"] r(2) by auto
  obtain p where p: "decrypt_in_place (ce_unseal env) (cc_crypto conf) ?r = Inr p" "tb_ok p" "tb_view p = with_ttl b w"
    using decrypt_opens [OF assms(1) _ assms(3) r(1) b] c by blast
  have f: "msg_type (tb_view r) = Inr t" "src_id (tb_view r) = src" "dest_id (tb_view r) = na_ip net"
    using c q(1) by (simp_all add: assms(5) b0) (simp_all add: accessor_defs)
  note h = hop_count [of "Suc n" q]
  have m: "max_ttl (tb_view ?r) = hops" "unat (ttl (tb_view ?r)) = unat hops - Suc n"
    using h c q(1) r(2) by (simp_all add: max_ttl_def ttl_def)
  have lt: "\<not> max_ttl (tb_view ?r) \<le> ttl (tb_view ?r)" using m assms(6) by (simp add: word_le_nat_alt)
  have d: "max_ttl (tb_view ?r) - ttl (tb_view ?r) = word_of_nat (Suc n)"
  proof -
    have le: "ttl (tb_view ?r) \<le> max_ttl (tb_view ?r)" using lt by simp
    have "unat (max_ttl (tb_view ?r) - ttl (tb_view ?r)) = Suc n"
      using unat_sub [OF le] m(2) arg_cong [OF m(1), of unat] assms(6) by linarith
    then show ?thesis by (metis of_nat_unat ucast_id)
  qed
  have "pc_decompress (ce_al env) (ce_lz_d env) (cc_compression conf) p = Inr p"
    using c p(3) by (simp add: pc_decompress_def lz4_decompress_plain split: option.split)
  then have a: "after_fec env order inst (after_decompress env conf g) p nd = g p nd" for g
    using c p(3) by (simp add: after_fec_def after_decompress_def)
  have "peer_handle env conf order inst now k r nd =
      peer_process env conf inst now net k t src (na_ip net) (max_ttl (tb_view ?r) - ttl (tb_view ?r)) p nd"
    using assms(4,7-9) l f lt by (simp add: peer_handle_def Let_def p(1) a)
  then have "peer_handle env conf order inst now k r nd = peer_process env conf inst now net k t src (na_ip net) (word_of_nat (Suc n)) p nd"
    unfolding d .
  then show ?thesis using p c by (intro exI [of _ p]) simp
qed


section \<open>The ping dialogue\<close>

lemma received_buffer_ok [simp]: "tb_ok (received_buffer env data)" "tb_view (received_buffer env data) = data"
  by (simp_all add: received_buffer_def transmission_simps)

lemma sealed_packet_sends:
  assumes "aead_ok (ce_seal env) unseal" "seal_total (ce_seal env)" "hops < 16" "n = length pl"
  shows "\<exists>w q. sealed_packet env conf t hops src dest n pl = Inr q \<and> control_packet t hops src dest pl w \<and>
    sealed (ce_seal env) (cc_crypto conf) q w"
proof -
  let ?b = "tb_zeroed_size (ce_al env) (HEAD_LENGTH + n) (encrypt_reserve (cc_crypto conf))"
  obtain w where w: "packet_new ?b = Inr ?b"
    "set_payload pl (set_dest_id dest (set_src_id src (set_ttl hops (set_msg_type t (tb_view ?b))))) = Inr w"
    "control_packet t hops src dest pl w" "tb_ok (tb_write w ?b)" "tb_view (tb_write w ?b) = w"
    using fresh_control [OF assms(3,4)] by blast
  obtain q where q: "encrypt_in_place (ce_al env) (ce_seal env) (cc_crypto conf) (tb_write w ?b) = Inr q"
    using encrypt_total [OF assms(2) w(4)] w(5) control_length [OF w(3)] by auto
  have s: "tb_ok q" "sealed (ce_seal env) (cc_crypto conf) (tb_view q) w"
    using encrypt_sealed [OF assms(1) w(4) _ q] w(5) control_length [OF w(3)] by auto
  have "sealed_packet env conf t hops src dest n pl = Inr (tb_view q)"
    using w(1,2) q s(1) by (simp only: sealed_packet_def Let_def and_then_def sum.case tb_into_bytes_view)
  with w(3) s(2) show ?thesis by blast
qed

lemma send_ping_sends:
  assumes "aead_ok (ce_seal env) unseal" "seal_total (ce_seal env)" "hops < 16" "\<And>f. ce_peer_takes env k f"
  shows "\<exists>w q. send_ping env conf hops src dest now k = (Inr (), [ToPeer k q]) \<and>
    control_packet Ping hops src dest (be_enc 8 (unat now)) w \<and> sealed (ce_seal env) (cc_crypto conf) q w"
proof -
  obtain p where p: "ping_packet env conf hops src dest now = Inr p" "tb_ok p"
    "control_packet Ping hops src dest (be_enc 8 (unat now)) (tb_view p)"
    using ping_packet_fills [OF assms(3)] by blast
  obtain q where q: "encrypt_in_place (ce_al env) (ce_seal env) (cc_crypto conf) p = Inr q"
    using encrypt_total [OF assms(2) p(2) control_length [OF p(3)]] by blast
  have s: "tb_ok q" "sealed (ce_seal env) (cc_crypto conf) (tb_view q) (tb_view p)"
    using encrypt_sealed [OF assms(1) p(2) control_length [OF p(3)] q] by blast+
  have "send_ping env conf hops src dest now k = (Inr (), [ToPeer k (tb_view q)])"
    using p(1) q s(1) assms(4) by (simp add: send_ping_def p2p_send_to_def p2p_send_raw_to_def send_or_def tb_into_bytes_view)
  with p(3) s(2) show ?thesis by blast
qed

lemma pong_reads_time: "take 8 (be_enc 8 (unat (now :: i64))) = be_enc 8 (unat now)"
  "word_of_nat (be_dec (be_enc 8 (unat (now :: i64)))) = now"
  using unsigned_less [of now, where 'a = nat] by (simp_all add: be_dec_enc)

text \<open>What the peer does with a ping that came over \<open>n\<close> relays: it answers over the tunnel the ping came by.\<close>

lemma ping_answered:
  assumes "aead_ok seal (ce_unseal env)" "aead_ok (ce_seal env) unseal" "seal_total (ce_seal env)" "\<And>f. ie_answer_takes env f"
    and "control_packet Ping hops src (na_ip net) (be_enc 8 (unat now0)) w" "sealed seal (cc_crypto conf) q w"
    and "n < unat hops" "src \<noteq> na_ip net" "as_network nd = Some net"
  shows "\<exists>v reply. peer_handle env conf order inst now k (received_buffer env ((decr_ttl ^^ n) q)) nd =
      (Inr (), [Answer reply], nd\<lparr>as_routes :=
        add_route_if_absent inst src (Route_from_default_rt (ie_default_rtt env) k (word_of_nat (Suc n))) (as_routes nd)\<rparr>) \<and>
    control_packet Pong 1 (na_ip net) src (be_enc 8 (unat now0)) v \<and> sealed (ce_seal env) (cc_crypto conf) reply v"
proof -
  obtain p where p: "payload (tb_view p) = be_enc 8 (unat now0)"
    "peer_handle env conf order inst now k (received_buffer env ((decr_ttl ^^ n) q)) nd =
      peer_process env conf inst now net k Ping src (na_ip net) (word_of_nat (Suc n)) p nd"
    using control_frame_handled [OF assms(1,5,6) received_buffer_ok assms(7,8,9)] by blast
  obtain v reply where s: "sealed_packet env conf Pong 1 (na_ip net) src 8 (be_enc 8 (unat now0)) = Inr reply"
    "control_packet Pong 1 (na_ip net) src (be_enc 8 (unat now0)) v" "sealed (ce_seal env) (cc_crypto conf) reply v"
    using sealed_packet_sends [OF assms(2,3), of 1 8 "be_enc 8 (unat now0)" conf Pong "na_ip net" src] by auto
  have "answer_sealed env conf Pong 1 (na_ip net) src 8 (be_enc 8 (unat now0)) = (Inr (), [Answer reply])"
    using s(1) assms(4) by (simp add: answer_sealed_def answer_def send_or_def)
  then have "peer_process env conf inst now net k Ping src (na_ip net) (word_of_nat (Suc n)) p nd =
      (Inr (), [Answer reply], nd\<lparr>as_routes :=
        add_route_if_absent inst src (Route_from_default_rt (ie_default_rtt env) k (word_of_nat (Suc n))) (as_routes nd)\<rparr>)"
    by (simp add: peer_process_def peer_ping_def p(1) Let_def)
  with p(2) s(2,3) show ?thesis by (metis (no_types, lifting))
qed


text \<open>A frame for somebody else that has no hop left ends there.\<close>

lemma last_hop_dropped:
  assumes "tb_ok r" "16 \<le> length (tb_view r)" "msg_type (tb_view r) = Inr t" "unat (ttl (tb_view r)) \<le> 1"
    and "as_network nd = Some net" "dest_id (tb_view r) \<notin> {na_ip net, na_broadcast net, BROADCAST, UNSPECIFIED}"
  shows "peer_handle env conf order inst now k r nd = (Inr (), [], nd)"
proof -
  have v: "tb_view (tb_map decr_ttl r) = decr_ttl (tb_view r)" using tb_map_ok [OF assms(1), of decr_ttl] assms(2) by simp
  have "unat (ttl (decr_ttl (tb_view r))) = 0" using hop_count [of 1 "tb_view r"] assms(4) by simp
  then have "ttl (decr_ttl (tb_view r)) = 0" by (simp add: unat_eq_0)
  moreover have "na_ip net \<noteq> dest_id (tb_view r)" using assms(6) by auto
  ultimately show ?thesis
    using assms(1-3,5,6) by (simp add: peer_handle_def Let_def relay_def v)
qed


text \<open>C33 A probe over a relay changes nothing anywhere: the relay passes it on, the target keeps its routes (a route
  over a relay is only added to a peer that has one already, and a ping never replaces one) and answers with a
  single hop, and the relay drops the answer.\<close>

theorem relay_probe_never_answered:
  assumes "aead_ok (ce_seal env) (ce_unseal env_t)" "aead_ok (ce_seal env_t) unseal"
    and "seal_total (ce_seal env)" "seal_total (ce_seal env_t)" "cc_crypto conf_t = cc_crypto conf"
    and "\<And>f. ce_peer_takes env k f" "\<And>f. ie_answer_takes env_t f" "\<And>f. ce_peer_takes env_r (route_key route) f"
    and "as_network r = Some net_r" "as_network t = Some net_t" "src \<noteq> na_ip net_t"
    and "{src, na_ip net_t} \<inter> {na_ip net_r, na_broadcast net_r, BROADCAST, UNSPECIFIED} = {}"
    and "get_by_id (as_routes r) (na_ip net_t) = Some route"
  shows "\<exists>frame reply.
    send_ping env conf 2 src (na_ip net_t) sent k = (Inr (), [ToPeer k frame]) \<and>
    peer_handle env_r conf_r order_r inst_r now_r k_r (received_buffer env_r frame) r =
      (Inr (), [ToPeer (route_key route) (decr_ttl frame)], r) \<and>
    peer_handle env_t conf_t order_t inst_t now_t k_t (received_buffer env_t (decr_ttl frame)) t = (Inr (), [Answer reply], t) \<and>
    peer_handle env_r conf_r order_r inst_r now_r (route_key route) (received_buffer env_r reply) r = (Inr (), [], r)"
proof -
  obtain w q where s: "send_ping env conf 2 src (na_ip net_t) sent k = (Inr (), [ToPeer k q])"
    "control_packet Ping 2 src (na_ip net_t) (be_enc 8 (unat sent)) w" "sealed (ce_seal env) (cc_crypto conf_t) q w"
    using send_ping_sends [OF assms(1,3) _ assms(6), of 2] assms(5) by fastforce
  have q: "16 \<le> length q" "msg_type q = Inr Ping" "src_id q = src" "dest_id q = na_ip net_t" "ttl q = 2" "max_ttl q = 2"
    using sealed_fields [OF _ s(3)] s(2) unfolding control_packet_def by (simp_all add: accessor_defs)
  have relayed: "peer_handle env_r conf_r order_r inst_r now_r k_r (received_buffer env_r q) r =
      (Inr (), [ToPeer (route_key route) (decr_ttl q)], r)"
    by (rule peer_handle_passes_on) (use assms(8,9,11-13) q in auto)
  obtain v reply where a: "peer_handle env_t conf_t order_t inst_t now_t k_t (received_buffer env_t (decr_ttl q)) t = (Inr (), [Answer reply],
      t\<lparr>as_routes := add_route_if_absent inst_t src (Route_from_default_rt (ie_default_rtt env_t) k_t 2) (as_routes t)\<rparr>)"
    "control_packet Pong 1 (na_ip net_t) src (be_enc 8 (unat sent)) v" "sealed (ce_seal env_t) (cc_crypto conf_t) reply v"
    using ping_answered [OF assms(1,2,4,7) s(2,3), where n = 1] assms(10,11) by fastforce
  have "add_route_if_absent inst_t src (Route_from_default_rt (ie_default_rtt env_t) k_t 2) (as_routes t) = as_routes t"
    by (simp add: add_route_if_absent_def add_route_def Route_from_default_rt_def is_direct_def)
  then have t: "t\<lparr>as_routes := add_route_if_absent inst_t src (Route_from_default_rt (ie_default_rtt env_t) k_t 2) (as_routes t)\<rparr> = t"
    by simp
  have v: "16 \<le> length reply" "msg_type reply = Inr Pong" "dest_id reply = src" "ttl reply = 1"
    using sealed_fields [OF _ a(3)] a(2) unfolding control_packet_def by (simp_all add: accessor_defs)
  have "peer_handle env_r conf_r order_r inst_r now_r (route_key route) (received_buffer env_r reply) r = (Inr (), [], r)"
    by (rule last_hop_dropped [OF received_buffer_ok(1) _ _ _ assms(9)]) (use assms(12) v in auto)
  with s(1) relayed a(1) t show ?thesis by metis
qed


section \<open>The punch dialogue\<close>


section \<open>How much a round sends\<close>

lemma send_ping_length: "length (snd (send_ping env conf hops src dest now k)) \<le> 1"
  by (auto simp: send_ping_def p2p_send_to_def p2p_send_raw_to_def send_or_def split: sum.split)

lemma ping_row_length: "length (fst (ping_row env conf src clock i index rs loss)) \<le> 3 - index"
proof (induction rs arbitrary: index loss)
  case (Cons r rs)
  obtain res effs where s: "send_ping env conf 1 src i (clock index) (route_key r) = (res, effs)" by (metis prod.collapse)
  let ?loss = "if res = Inr () then record_sent i loss else loss"
  obtain effs' loss' where r: "ping_row env conf src clock i (index + 1) rs ?loss = (effs', loss')" by (metis prod.collapse)
  have "length effs \<le> 1" using send_ping_length [of env conf 1 src i "clock index" "route_key r"] s by simp
  moreover have "length effs' \<le> 3 - (index + 1)" using Cons.IH [of "index + 1" ?loss] r by simp
  ultimately have "length effs + length effs' \<le> 3 - index" if "\<not> 2 < index" using that by linarith
  with s r show ?case by simp
qed simp

lemma ping_rows_length: "length (fst (ping_rows env conf src clock tab is loss)) \<le> 3 * length is"
proof (induction "is" arbitrary: loss)
  case (Cons i "is")
  obtain effs loss1 where r: "ping_row env conf src (clock i) i 0 (case tab i of Some l \<Rightarrow> l | None \<Rightarrow> []) loss = (effs, loss1)"
    by (metis prod.collapse)
  obtain effs' loss2 where rs: "ping_rows env conf src clock tab is loss1 = (effs', loss2)" by (metis prod.collapse)
  have "length effs \<le> 3" using ping_row_length [of env conf src "clock i" i 0 _ loss] r by (metis fst_conv minus_nat.diff_0)
  moreover have "length effs' \<le> 3 * length is" using Cons.IH [of loss1] rs by simp
  ultimately show ?case using r rs by simp
qed simp

lemma non_direct_length: "n < 20 \<Longrightarrow> length (non_direct t src n ips) + n \<le> 20"
proof (induction ips arbitrary: n)
  case (Cons ip ips)
  show ?case using Cons.IH [of n] Cons.IH [of "n + 1"] Cons.prems by (cases "20 \<le> n + 1") (auto split: option.split)
qed simp

lemma concat_length: "(\<And>x. x \<in> set xs \<Longrightarrow> length (f x) \<le> b) \<Longrightarrow> length (concat (map f xs)) \<le> b * length xs"
  by (induction xs) (auto, fastforce)

lemma probe_target_length:
  assumes "\<And>n l. length (pick n l) \<le> n"
  shows "length (probe_target env conf src now pick peers target) \<le> 3"
proof -
  let ?l = "pick (min 3 (length peers)) (filter (\<lambda>(ip, _). ip \<noteq> target) peers)"
  have "length (probe_target env conf src now pick peers target) \<le> 1 * length ?l"
    unfolding probe_target_def by (rule concat_length) (simp only: split_beta send_ping_length)
  also have "\<dots> \<le> 3" using assms [of "min 3 (length peers)"] by simp
  finally show ?thesis .
qed

text \<open>C35 The periodic traffic is bounded: a round of pings sends at most three packets per known peer, a round of probes
  at most thirty, whatever the size of the network.\<close>

theorem periodic_traffic_bounded:
  assumes "\<And>n l. length (pick_targets n l) \<le> n" "\<And>t n l. length (pick_peers t n l) \<le> n"
  shows "length (fst (ping_all env conf order clock nd)) \<le> 3 * length order \<and>
    length (relay_probe_task env conf order clock' pick_targets pick_peers nd) \<le> 30"
proof
  show "length (fst (ping_all env conf order clock nd)) \<le> 3 * length order"
    using ping_rows_length [of env conf _ clock "route_table (as_routes nd)" order "as_loss nd"]
    by (simp add: ping_all_def split_beta split: option.split)
next
  show "length (relay_probe_task env conf order clock' pick_targets pick_peers nd) \<le> 30"
  proof (cases "as_network nd")
    case (Some net)
    let ?found = "non_direct (as_routes nd) (na_ip net) 0 (client_online_ips (as_server_info nd))"
    let ?targets = "if length ?found \<le> 10 then ?found else pick_targets 10 ?found"
    let ?f = "\<lambda>t. probe_target env conf (na_ip net) (clock' t) (pick_peers t) (direct_peers order (as_routes nd)) t"
    have "length (concat (map ?f ?targets)) \<le> 3 * length ?targets"
      by (rule concat_length) (rule probe_target_length, rule assms(2))
    moreover have "length ?targets \<le> 10" using assms(1) [of 10] by simp
    ultimately have "length (concat (map ?f ?targets)) \<le> 30" by linarith
    then show ?thesis by (simp only: relay_probe_task_def Some option.case Let_def list.size split: if_split) simp
  qed (simp add: relay_probe_task_def)
qed

section \<open>Witnesses\<close>

lemma demo_peers:
  "aead_ok (ce_seal demo_client_env) (ce_unseal demo_inbound_env)" "aead_ok (ce_seal demo_inbound_env) (ce_unseal demo_inbound_env)"
  "seal_total (ce_seal demo_client_env)" "seal_total (ce_seal demo_inbound_env)"
  "cc_crypto demo_inbound_conf = cc_crypto demo_client_conf" "ce_peer_takes demo_client_env k f"
  "ie_answer_takes demo_inbound_env f" "ce_peer_takes demo_inbound_env k f" "as_network (demo_node ip) = Some (demo_addr ip)"
  "na_ip (demo_addr ip) = ip"
  using demo_env_ok(2) demo_takes(1) demo_conf(1)
  by (simp_all add: demo_client_env_def demo_inbound_env_def client_env.defs demo_node_def AppState.defs demo_addr_def)


lemma relay_probe_never_answered_witness:
  "\<exists>frame reply.
    send_ping demo_client_env demo_client_conf 2 7 8 100 2 = (Inr (), [ToPeer 2 frame]) \<and>
    peer_handle demo_inbound_env demo_inbound_conf [] 0 0 4 (received_buffer demo_inbound_env frame) demo_relay_node =
      (Inr (), [ToPeer 3 (decr_ttl frame)], demo_relay_node) \<and>
    peer_handle demo_inbound_env demo_inbound_conf [] 0 0 4 (received_buffer demo_inbound_env (decr_ttl frame)) (demo_node 8) =
      (Inr (), [Answer reply], demo_node 8) \<and>
    peer_handle demo_inbound_env demo_inbound_conf [] 0 0 3 (received_buffer demo_inbound_env reply) demo_relay_node =
      (Inr (), [], demo_relay_node)"
proof -
  let ?route = "\<lparr>route_key = 3 :: nat, metric = 1, rtt = 5\<rparr>"
  have "get_by_id (add_route 0 8 ?route RouteTable_new) 8 = Some ?route" by code_simp
  then have n: "as_network demo_relay_node = Some (demo_addr 9)" "get_by_id (as_routes demo_relay_node) 8 = Some ?route"
    by (simp_all add: demo_relay_node_def demo_node_def AppState.defs)
  have "{7, na_ip (demo_addr 8)} \<inter> {na_ip (demo_addr 9), na_broadcast (demo_addr 9), BROADCAST, UNSPECIFIED} = {}"
    by (simp add: demo_addr_def)
  from relay_probe_never_answered [OF demo_peers(1,2,3,4,5,6,7,8) n(1) demo_peers(9) _ this, of ?route 100 2 demo_inbound_conf
      "[]" 0 0 4 "[]" 0 0 4] n(2)
  show ?thesis by (simp add: demo_peers(10))
qed

lemma periodic_traffic_bounded_witness:
  "length (relay_probe_task demo_client_env demo_client_conf [8] (\<lambda>_. 0) take (\<lambda>_. take) demo_relay_node) \<le> 30"
  by (rule conjunct2) (rule periodic_traffic_bounded [where clock = "\<lambda>_ _. 0"], simp_all)


end
