(* ===== verification/QuicProxy.thy ===== *)
theory QuicProxy
  imports ClientConfigProps PeerTasks
begin

text \<open>
  Streams and datagrams that cross the network over QUIC: the client side of \<open>vnt/vnt-core/src/enhanced_tunnel/quic_over\<close>
  (which connection a stream is opened on, what is said at its start), the server side (where a stream that
  arrives is connected to), the user-space NAT's choice of a target in \<open>nat/internal_nat/mod.rs\<close> and
  \<open>tcp_nat.rs\<close>, and the two ends of a port mapping in \<open>port_mapping/\<close>.

  A stream is the bytes written on it; what copies bytes afterwards is tokio. The crates quinn and tcp_ip are
  the world of \<open>quic_env\<close>; protobuf is the pair \<open>enc\<close>, \<open>dec\<close>.
\<close>

section \<open>Handshakes\<close>

datatype Handshake =
    TcpProxy u32 u32 u32 u32
  | IpProxy u32 u32 u32
  | TcpPortMapping string u32 string u32
  | UdpPortMapping string u32 string u32

text \<open>\<open>QuicProxyHandshake\<close> is a \<open>oneof\<close>: the field may be absent. The length is cut to 16 bits.\<close>

definition send_handshake :: "(Handshake option \<Rightarrow> bytes) \<Rightarrow> Handshake option \<Rightarrow> bytes" where
  "send_handshake enc h = be_enc 2 (unat (word_of_nat (length (enc h)) :: u16)) @ enc h"

text \<open>A stream that ends early is an I/O error.\<close>

definition recv_handshake :: "(bytes \<Rightarrow> Handshake option option) \<Rightarrow> bytes \<Rightarrow> (Handshake option \<times> bytes) result" where
  "recv_handshake dec s =
     (let n = be_dec (take 2 s) in
      if length s < 2 \<or> length s < 2 + n then Inl IoOther
      else (case dec (take n (drop 2 s)) of
              None \<Rightarrow> Inl (Bail ''failed to decode Protobuf message'')
            | Some h \<Rightarrow> Inr (h, drop (2 + n) s)))"

section \<open>The choice of a target\<close>

datatype target = Addr ipv4 u16 | Name string

record InternalNatInbound =
  in_no_tun :: bool
  in_allow :: AllowSubnetExternalRoute

record PortMappingManager =
  pmm_no_tun :: bool
  pmm_allow :: bool

definition internal_network_contains :: "(ipv4 \<Rightarrow> u8 \<Rightarrow> Ipv4Net option) \<Rightarrow> NetworkAddr option \<Rightarrow> ipv4 \<Rightarrow> bool result" where
  "internal_network_contains net_new network ip =
     (case network of
        None \<Rightarrow> Inr False
      | Some a \<Rightarrow> and_then (na_network net_new a) (\<lambda>n. Inr (net_contains n ip)))"

definition allow_nat :: "(ipv4 \<Rightarrow> u8 \<Rightarrow> Ipv4Net option) \<Rightarrow> NetworkAddr option \<Rightarrow> InternalNatInbound \<Rightarrow> ipv4 \<Rightarrow> bool result" where
  "allow_nat net_new network self dst =
     (if allow (in_allow self) dst then Inr True else internal_network_contains net_new network dst)"

definition use_nat :: "(ipv4 \<Rightarrow> u8 \<Rightarrow> Ipv4Net option) \<Rightarrow> NetworkAddr option \<Rightarrow> InternalNatInbound \<Rightarrow> ipv4 \<Rightarrow> bool result" where
  "use_nat net_new network self dst =
     (if in_no_tun self then allow_nat net_new network self dst
      else and_then (internal_network_contains net_new network dst) (\<lambda>b.
        Inr (\<not> b \<and> allow (in_allow self) dst)))"

text \<open>\<open>None\<close>: the stream is closed without an error. Without an interface the client's own address means its host and
  other addresses of the network are not reached this way.\<close>

definition own_or_outside :: "(ipv4 \<Rightarrow> u8 \<Rightarrow> Ipv4Net option) \<Rightarrow> NetworkAddr option \<Rightarrow> target \<Rightarrow> ipv4 \<Rightarrow> u16 \<Rightarrow> target option result" where
  "own_or_outside net_new network outside dst port =
     and_then (ok_or (Bail ''no network'') network) (\<lambda>net.
       if dst = na_ip net then Inr (Some (Addr LOCALHOST port))
       else and_then (na_network net_new net) (\<lambda>n. Inr (if net_contains n dst then None else Some outside)))"

definition nat_tcp_target :: "(ipv4 \<Rightarrow> u8 \<Rightarrow> Ipv4Net option) \<Rightarrow> NetworkAddr option \<Rightarrow> InternalNatInbound \<Rightarrow> ipv4 \<Rightarrow> u16
    \<Rightarrow> target option result" where
  "nat_tcp_target net_new network self dst port =
     (if in_no_tun self then own_or_outside net_new network (Addr dst port) dst port else Inr (Some (Addr dst port)))"

text \<open>\<open>tcp_mapping\<close> and \<open>udp_mapping\<close> choose alike.\<close>

definition mapping_target :: "(ipv4 \<Rightarrow> u8 \<Rightarrow> Ipv4Net option) \<Rightarrow> NetworkAddr option \<Rightarrow> PortMappingManager \<Rightarrow> string \<Rightarrow> u16
    \<Rightarrow> target option result" where
  "mapping_target net_new network self dest port =
     (let name = Name (dest @ '':'' @ show_nat (unat port)) in
      if \<not> pmm_allow self then Inr None
      else case (if pmm_no_tun self then parse_ipv4 dest else None) of
             Some ip \<Rightarrow> own_or_outside net_new network name ip port
           | None \<Rightarrow> Inr (Some name))"

text \<open>The listener of the user-space stack: what is accepted for an address is connected to it.\<close>

definition listen_target :: "NetworkAddr option \<Rightarrow> bool \<Rightarrow> SocketAddr \<Rightarrow> SocketAddr option result" where
  "listen_target network no_tun local =
     (if \<not> no_tun then Inr (Some local)
      else (case local of
              V6 _ _ \<Rightarrow> Inr None
            | V4 ip port \<Rightarrow> and_then (ok_or (Bail ''not ip'') (map_option na_ip network)) (\<lambda>own.
                Inr (Some (if ip = own then V4 LOCALHOST port else local)))))"


section \<open>Streams that arrive\<close>

text \<open>What a client does with a stream it accepted. The rest of the stream goes to where it was connected.\<close>

datatype proxy_action =
    Closed
  | DialTcp target
  | DialUdp target
  | StackConnect "ipv4 \<times> u16" "ipv4 \<times> u16"
  | NatPayload u8 ipv4 ipv4
  | IpPayload u8 ipv4 ipv4

definition dial :: "(target \<Rightarrow> proxy_action) \<Rightarrow> target option \<Rightarrow> proxy_action" where
  "dial how t = (case t of None \<Rightarrow> Closed | Some t \<Rightarrow> how t)"

definition accept_tcp :: "(ipv4 \<Rightarrow> u8 \<Rightarrow> Ipv4Net option) \<Rightarrow> NetworkAddr option \<Rightarrow> bool \<Rightarrow> InternalNatInbound option
    \<Rightarrow> ipv4 \<times> u16 \<Rightarrow> ipv4 \<times> u16 \<Rightarrow> proxy_action result" where
  "accept_tcp net_new network ip_stack nat_manager src dst =
     (if src = dst then Inl (Bail ''tcp handshake failed'')
      else
        (let stack = (if ip_stack then StackConnect src dst else Closed) in
         case nat_manager of
           None \<Rightarrow> Inr stack
         | Some n \<Rightarrow> and_then (use_nat net_new network n (fst dst)) (\<lambda>u.
             if u then and_then (nat_tcp_target net_new network n (fst dst) (snd dst)) (\<lambda>t. Inr (dial DialTcp t))
             else if in_no_tun n then Inr Closed else Inr stack)))"

definition quic_stream_bi_handle :: "(ipv4 \<Rightarrow> u8 \<Rightarrow> Ipv4Net option) \<Rightarrow> (bytes \<Rightarrow> Handshake option option) \<Rightarrow> NetworkAddr option
    \<Rightarrow> bool \<Rightarrow> InternalNatInbound option \<Rightarrow> PortMappingManager \<Rightarrow> bytes \<Rightarrow> (proxy_action \<times> bytes) result" where
  "quic_stream_bi_handle net_new dec network ip_stack nat_manager mappings s =
     and_then (recv_handshake dec s) (\<lambda>(h, rest).
     and_then
       (case h of
          None \<Rightarrow> Inr Closed
        | Some (TcpProxy src_ip src_port dst_ip dst_port) \<Rightarrow>
            accept_tcp net_new network ip_stack nat_manager (src_ip, ucast src_port) (dst_ip, ucast dst_port)
        | Some (IpProxy _ _ _) \<Rightarrow> Inr Closed
        | Some (TcpPortMapping _ _ host port) \<Rightarrow>
            and_then (mapping_target net_new network mappings host (ucast port)) (\<lambda>t. Inr (dial DialTcp t))
        | Some (UdpPortMapping _ _ host port) \<Rightarrow>
            and_then (mapping_target net_new network mappings host (ucast port)) (\<lambda>t. Inr (dial DialUdp t)))
       (\<lambda>a. Inr (a, rest)))"

text \<open>Streams in one direction carry the packets of other IP protocols.\<close>

definition quic_stream_uni_handle :: "(ipv4 \<Rightarrow> u8 \<Rightarrow> Ipv4Net option) \<Rightarrow> (bytes \<Rightarrow> Handshake option option) \<Rightarrow> NetworkAddr option
    \<Rightarrow> bool \<Rightarrow> InternalNatInbound option \<Rightarrow> bytes \<Rightarrow> (proxy_action \<times> bytes) result" where
  "quic_stream_uni_handle net_new dec network ip_socket nat_manager s =
     and_then (recv_handshake dec s) (\<lambda>(h, rest).
     and_then
       (case h of
          Some (IpProxy proto src dst) \<Rightarrow>
            (let socket = (if ip_socket then IpPayload (ucast proto) src dst else Closed) in
             case nat_manager of
               None \<Rightarrow> Inr socket
             | Some n \<Rightarrow> and_then (use_nat net_new network n dst) (\<lambda>u.
                 if u then Inr (NatPayload (ucast proto) src dst)
                 else if in_no_tun n then Inr Closed else Inr socket))
        | _ \<Rightarrow> Inr Closed)
       (\<lambda>a. Inr (a, rest)))"

section \<open>Streams that leave\<close>

text \<open>The endpoint and its connections. \<open>qe_open\<close> opens a stream on a connection.\<close>

record ('w, 'c) quic_env =
  qe_connect :: "ipv4 \<Rightarrow> 'w \<Rightarrow> 'c result \<times> 'w"
  qe_open :: "'c \<Rightarrow> 'w \<Rightarrow> unit result \<times> 'w"

text \<open>The peer that leads to an address.\<close>

definition quic_dest :: "(ipv4 \<Rightarrow> u8 \<Rightarrow> Ipv4Net option) \<Rightarrow> NetworkAddr option \<Rightarrow> SubnetExternalRoute \<Rightarrow> ipv4 \<Rightarrow> ipv4 result" where
  "quic_dest net_new network subnets dest =
     and_then (ok_or (Bail ''no network found'') network) (\<lambda>net.
     and_then (na_network net_new net) (\<lambda>n.
       if net_contains n dest then Inr dest
       else ok_or (Bail ''invalid route found'') (subnet_route subnets dest)))"

text \<open>One call; between its critical sections the map may be changed by others. A cell of the map is empty until it
  is first connected; the cell stays when connecting fails and is taken away when the connection is dead. \<open>n\<close>
  attempts are left.\<close>

fun quic_attempt :: "('w, 'c) quic_env \<Rightarrow> ipv4 \<Rightarrow> nat \<Rightarrow> (ipv4 \<rightharpoonup> 'c option) \<Rightarrow> 'w \<Rightarrow> 'c result \<times> (ipv4 \<rightharpoonup> 'c option) \<times> 'w" where
  "quic_attempt env dest n m w =
     (let m = (if m dest = None then m(dest \<mapsto> None) else m) in
      case (case m dest of Some (Some c) \<Rightarrow> (Inr c, w) | _ \<Rightarrow> qe_connect env dest w) of
        (Inl e, w) \<Rightarrow> (Inl e, m, w)
      | (Inr c, w) \<Rightarrow>
          (case qe_open env c w of
             (Inr _, w) \<Rightarrow> (Inr c, m(dest \<mapsto> Some c), w)
           | (Inl e, w) \<Rightarrow>
               (case n of
                  Suc (Suc k) \<Rightarrow> quic_attempt env dest (Suc k) (m(dest := None)) w
                | _ \<Rightarrow> (Inl e, m(dest := None), w))))"

declare quic_attempt.simps [simp del]

text \<open>\<open>open_bi\<close> and \<open>open_uni\<close> differ in the kind of the stream.\<close>

definition open_stream :: "(ipv4 \<Rightarrow> u8 \<Rightarrow> Ipv4Net option) \<Rightarrow> ('w, 'c) quic_env \<Rightarrow> NetworkAddr option \<Rightarrow> SubnetExternalRoute
    \<Rightarrow> ipv4 \<Rightarrow> (ipv4 \<rightharpoonup> 'c option) \<Rightarrow> 'w \<Rightarrow> 'c result \<times> (ipv4 \<rightharpoonup> 'c option) \<times> 'w" where
  "open_stream net_new env network subnets dest m w =
     (case quic_dest net_new network subnets dest of
        Inl e \<Rightarrow> (Inl e, m, w)
      | Inr d \<Rightarrow> quic_attempt env d 2 m w)"

text \<open>What is written on a stream that a connection of the user-space stack, a listener of a port mapping or the
  packets of one flow are given. For the stack the roles are reversed: it played the destination.\<close>

definition tcp_stream_bytes :: "(Handshake option \<Rightarrow> bytes) \<Rightarrow> SocketAddr \<Rightarrow> SocketAddr \<Rightarrow> bytes \<Rightarrow> (ipv4 \<times> bytes) result" where
  "tcp_stream_bytes enc local peer data =
     (case local of
        V6 _ _ \<Rightarrow> Inl (Bail ''invalid IP address'')
      | V4 dst dst_port \<Rightarrow>
          (case peer of
             V6 _ _ \<Rightarrow> Inl (Bail ''invalid IP address'')
           | V4 src src_port \<Rightarrow>
               Inr (dst, send_handshake enc (Some (TcpProxy src (ucast src_port) dst (ucast dst_port))) @ data)))"

definition tcp_stream_handle :: "(ipv4 \<Rightarrow> u8 \<Rightarrow> Ipv4Net option) \<Rightarrow> (Handshake option \<Rightarrow> bytes) \<Rightarrow> ('w, 'c) quic_env
    \<Rightarrow> NetworkAddr option \<Rightarrow> SubnetExternalRoute \<Rightarrow> SocketAddr \<Rightarrow> SocketAddr \<Rightarrow> bytes \<Rightarrow> (ipv4 \<rightharpoonup> 'c option) \<Rightarrow> 'w
    \<Rightarrow> ('c \<times> bytes) result \<times> (ipv4 \<rightharpoonup> 'c option) \<times> 'w" where
  "tcp_stream_handle net_new enc env network subnets local peer data m w =
     (case tcp_stream_bytes enc local peer data of
        Inl e \<Rightarrow> (Inl e, m, w)
      | Inr (dst, s) \<Rightarrow>
          (case open_stream net_new env network subnets dst m w of
             (r, m, w) \<Rightarrow> (and_then r (\<lambda>c. Inr (c, s)), m, w)))"

text \<open>\<open>addr_text\<close> is the text of the source's address, which the other side does not read.\<close>

fun addr_port :: "SocketAddr \<Rightarrow> u16" where
  "addr_port (V4 _ p) = p"
| "addr_port (V6 _ p) = p"

definition tcp_mapping_stream :: "(ipv4 \<Rightarrow> u8 \<Rightarrow> Ipv4Net option) \<Rightarrow> (Handshake option \<Rightarrow> bytes) \<Rightarrow> ('w, 'c) quic_env
    \<Rightarrow> (SocketAddr \<Rightarrow> string) \<Rightarrow> NetworkAddr option \<Rightarrow> SubnetExternalRoute \<Rightarrow> PortMapping \<Rightarrow> SocketAddr \<Rightarrow> bytes
    \<Rightarrow> (ipv4 \<rightharpoonup> 'c option) \<Rightarrow> 'w \<Rightarrow> ('c \<times> bytes) result \<times> (ipv4 \<rightharpoonup> 'c option) \<times> 'w" where
  "tcp_mapping_stream net_new enc env addr_text network subnets x src data m w =
     (case open_stream net_new env network subnets (pm_virtual_target_ip x) m w of
        (r, m, w) \<Rightarrow>
          (and_then r (\<lambda>c. Inr (c, send_handshake enc (Some (TcpPortMapping (addr_text src) (ucast (addr_port src))
             (pm_dst_host x) (ucast (pm_dst_port x)))) @ data)), m, w))"

definition udp_mapping_stream :: "(ipv4 \<Rightarrow> u8 \<Rightarrow> Ipv4Net option) \<Rightarrow> (Handshake option \<Rightarrow> bytes) \<Rightarrow> ('w, 'c) quic_env
    \<Rightarrow> (SocketAddr \<Rightarrow> string) \<Rightarrow> NetworkAddr option \<Rightarrow> SubnetExternalRoute \<Rightarrow> PortMapping \<Rightarrow> SocketAddr \<Rightarrow> bytes
    \<Rightarrow> (ipv4 \<rightharpoonup> 'c option) \<Rightarrow> 'w \<Rightarrow> ('c \<times> bytes) result \<times> (ipv4 \<rightharpoonup> 'c option) \<times> 'w" where
  "udp_mapping_stream net_new enc env addr_text network subnets x src data m w =
     (case open_stream net_new env network subnets (pm_virtual_target_ip x) m w of
        (r, m, w) \<Rightarrow>
          (and_then r (\<lambda>c. Inr (c, send_handshake enc (Some (UdpPortMapping (addr_text src) (ucast (addr_port src))
             (pm_dst_host x) (ucast (pm_dst_port x)))) @ data)), m, w))"

definition ip_flow_stream :: "(ipv4 \<Rightarrow> u8 \<Rightarrow> Ipv4Net option) \<Rightarrow> (Handshake option \<Rightarrow> bytes) \<Rightarrow> ('w, 'c) quic_env
    \<Rightarrow> NetworkAddr option \<Rightarrow> SubnetExternalRoute \<Rightarrow> u8 \<Rightarrow> ipv4 \<Rightarrow> ipv4 \<Rightarrow> bytes
    \<Rightarrow> (ipv4 \<rightharpoonup> 'c option) \<Rightarrow> 'w \<Rightarrow> ('c \<times> bytes) result \<times> (ipv4 \<rightharpoonup> 'c option) \<times> 'w" where
  "ip_flow_stream net_new enc env network subnets protocol src dest frames m w =
     (case open_stream net_new env network subnets dest m w of
        (r, m, w) \<Rightarrow> (and_then r (\<lambda>c. Inr (c, send_handshake enc (Some (IpProxy (ucast protocol) src dest)) @ frames)), m, w))"


section \<open>Datagrams\<close>

text \<open>A datagram of quinn becomes a packet in a queue of the given free slots; \<open>None\<close> means closed. The source is
  filled in by \<open>outbound_raw\<close>.\<close>

definition quic_try_outbound :: "(nat \<Rightarrow> nat) \<Rightarrow> nat option \<Rightarrow> bytes \<Rightarrow> ipv4 \<Rightarrow> (ipv4 \<times> TransmissionBytes) result" where
  "quic_try_outbound al slots buf dest =
     (case slots of
        None \<Rightarrow> Inl (Bail ''outbound channel closed'')
      | Some n \<Rightarrow>
          if n = 0 then Inl (Bail ''outbound channel full'')
          else and_then (packet_new (tb_zeroed al (HEAD_LENGTH + length buf))) (\<lambda>t.
               and_then (set_payload buf (set_dest_id dest (set_msg_type Quic (set_ttl 5 (tb_view t))))) (\<lambda>v.
                 Inr (dest, tb_write v t))))"

text \<open>\<open>None\<close> is a closed channel. The result is what the first of the buffers holds, its use and the sender; a
  datagram that does not fit is lost with an error.\<close>

definition quic_poll_recv :: "(bytes \<times> ipv4) option \<Rightarrow> bytes list \<Rightarrow> nat \<Rightarrow> (bytes list \<times> nat \<times> SocketAddr) result" where
  "quic_poll_recv msg bufs metas =
     (case msg of
        None \<Rightarrow> Inl (Bail ''inbound channel closed'')
      | Some (buf, ip) \<Rightarrow>
          (case bufs of
             [] \<Rightarrow> Inl (Bail ''no buffer available'')
           | b # bs \<Rightarrow>
               if metas = 0 then Inl (Bail ''no buffer available'')
               else if length b < length buf then Inl (Bail ''buffer too small'')
               else Inr ((buf @ drop (length buf) b) # bs, length buf, V4 ip 10000)))"

text \<open>Only IPv4 destinations are sent to.\<close>

definition quic_try_send :: "(nat \<Rightarrow> nat) \<Rightarrow> nat option \<Rightarrow> bytes \<Rightarrow> SocketAddr \<Rightarrow> (ipv4 \<times> TransmissionBytes) option result" where
  "quic_try_send al slots buf dest =
     (case dest of
        V6 _ _ \<Rightarrow> Inr None
      | V4 ip _ \<Rightarrow> and_then (quic_try_outbound al slots buf ip) (\<lambda>p. Inr (Some p)))"

section \<open>Handshakes read back\<close>

text \<open>A message with its length in front of a stream.\<close>

locale framed =
  fixes fits :: "'a \<Rightarrow> bool"
    and put :: "'a \<Rightarrow> bytes"
    and get :: "bytes \<Rightarrow> ('a \<times> bytes) result"
  assumes get_put: "fits x \<Longrightarrow> get (put x @ rest) = Inr (x, rest)"
begin

lemma prefix_free: "fits x \<Longrightarrow> fits y \<Longrightarrow> put x @ r = put y @ s \<Longrightarrow> x = y \<and> r = s"
  using get_put by (metis Inr_inject prod.inject)

lemma put_inj: "fits x \<Longrightarrow> fits y \<Longrightarrow> put x = put y \<Longrightarrow> x = y"
  using prefix_free [of x y "[]" "[]"] by simp

end

definition handshake_fits :: "(Handshake option \<Rightarrow> bytes) \<Rightarrow> (bytes \<Rightarrow> Handshake option option) \<Rightarrow> Handshake option \<Rightarrow> bool" where
  "handshake_fits enc dec h \<longleftrightarrow> dec (enc h) = Some h \<and> length (enc h) < 65536"

interpretation handshake: framed "handshake_fits enc dec" "send_handshake enc" "recv_handshake dec"
  for enc dec
proof
  fix h rest
  assume "handshake_fits enc dec h"
  then have h: "dec (enc h) = Some h" "length (enc h) < 65536" by (simp_all add: handshake_fits_def)
  then have "unat (word_of_nat (length (enc h)) :: u16) = length (enc h)" by (simp add: unat_of_nat take_bit_nat_eq_self)
  moreover have "be_dec (be_enc 2 (length (enc h))) = length (enc h)" using h(2) by (simp add: be_dec_enc)
  ultimately show "recv_handshake dec (send_handshake enc h @ rest) = Inr (h, rest)"
    using h by (simp add: recv_handshake_def send_handshake_def Let_def)
qed

lemma ports_survive [simp]: "ucast (ucast (p :: u16) :: u32) = p"
  by (simp add: ucast_up_ucast_id is_up)

text \<open>\<open>Ip\<close> flows keep their protocol.\<close>

lemma protocol_survives [simp]: "ucast (ucast (p :: u8) :: u32) = p"
  by (simp add: ucast_up_ucast_id is_up)

section \<open>From a program on one host to a program behind the other\<close>

lemma stream_carries:
  assumes "fst (tcp_stream_handle net_a enc env network_a subnets (V4 dst dst_port) (V4 src src_port) data m w) = Inr (c, s)"
  shows "s = send_handshake enc (Some (TcpProxy src (ucast src_port) dst (ucast dst_port))) @ data"
  using assms by (auto simp: tcp_stream_handle_def tcp_stream_bytes_def split: prod.splits)

lemma accepted_as_sent:
  assumes "handshake_fits enc dec (Some (TcpProxy src (ucast (src_port :: u16)) dst (ucast (dst_port :: u16))))"
  shows "quic_stream_bi_handle net_b dec network ip_stack nat_manager maps
      (send_handshake enc (Some (TcpProxy src (ucast src_port) dst (ucast dst_port))) @ data) =
    and_then (accept_tcp net_b network ip_stack nat_manager (src, src_port) (dst, dst_port)) (\<lambda>a. Inr (a, data))"
  by (simp add: quic_stream_bi_handle_def handshake.get_put [OF assms])


lemma mapping_carries:
  "fst (tcp_mapping_stream net_a enc env txt network_a subnets x src data m w) = Inr (c, s) \<Longrightarrow>
    s = send_handshake enc (Some (TcpPortMapping (txt src) (ucast (addr_port src)) (pm_dst_host x) (ucast (pm_dst_port x)))) @ data"
  "fst (udp_mapping_stream net_a enc env txt network_a subnets x src data m w) = Inr (c, s) \<Longrightarrow>
    s = send_handshake enc (Some (UdpPortMapping (txt src) (ucast (addr_port src)) (pm_dst_host x) (ucast (pm_dst_port x)))) @ data"
  by (auto simp: tcp_mapping_stream_def udp_mapping_stream_def split: prod.splits)

text \<open>The two ends of a port mapping: what a listener accepts is connected to the host and port of the mapping, by the
  protocol of the listener, at a client that has an interface and allows it; a client that does not closes the
  stream.\<close>

theorem mapped_port_reaches_target:
  assumes "fst (tcp_mapping_stream net_a enc env txt network_a subnets x src data m w) = Inr (c, s)"
    and "fst (udp_mapping_stream net_a enc env txt network_a subnets x src data m w) = Inr (c', s')"
    and "handshake_fits enc dec (Some (TcpPortMapping (txt src) (ucast (addr_port src)) (pm_dst_host x) (ucast (pm_dst_port x))))"
    and "handshake_fits enc dec (Some (UdpPortMapping (txt src) (ucast (addr_port src)) (pm_dst_host x) (ucast (pm_dst_port x))))"
    and "\<not> pmm_no_tun maps"
  shows "let reached = Name (pm_dst_host x @ '':'' @ show_nat (unat (pm_dst_port x))) in
    quic_stream_bi_handle net_b dec network stack nat_manager maps s =
      Inr (if pmm_allow maps then DialTcp reached else Closed, data) \<and>
    quic_stream_bi_handle net_b dec network stack nat_manager maps s' =
      Inr (if pmm_allow maps then DialUdp reached else Closed, data)"
  using assms(5)
  by (simp add: mapping_carries(1) [OF assms(1)] mapping_carries(2) [OF assms(2)] quic_stream_bi_handle_def
      handshake.get_put [OF assms(3)] handshake.get_put [OF assms(4)] mapping_target_def dial_def Let_def)

section \<open>What a stream can reach\<close>

lemma own_or_outside_Some:
  "own_or_outside net_new network outside dst port = Inr (Some t) \<Longrightarrow> t = Addr LOCALHOST port \<or>
    (t = outside \<and> (\<exists>net n. network = Some net \<and> na_network net_new net = Inr n \<and> \<not> net_contains n dst))"
  by (auto simp: own_or_outside_def ok_or_def split: if_splits option.splits)

lemma dial_iff: "dial how t = a \<longleftrightarrow> (case t of None \<Rightarrow> a = Closed | Some t \<Rightarrow> a = how t)"
  by (auto simp: dial_def split: option.split)

lemma nat_grants:
  assumes "use_nat net_new network n dst = Inr True" "nat_tcp_target net_new network n dst port = Inr (Some t)"
  shows "(t = Addr LOCALHOST port \<and> in_no_tun n) \<or> (t = Addr dst port \<and> allow (in_allow n) dst)"
  using assms
  by (auto simp: use_nat_def allow_nat_def internal_network_contains_def nat_tcp_target_def split: if_splits option.splits
      dest!: own_or_outside_Some)

lemma mapping_grants:
  assumes "mapping_target net_new network maps host port = Inr (Some t)"
  shows "pmm_allow maps \<and> (t = Name (host @ '':'' @ show_nat (unat port)) \<or> t = Addr LOCALHOST port \<and> pmm_no_tun maps)"
  using assms by (auto simp: mapping_target_def Let_def split: if_splits option.splits dest!: own_or_outside_Some)



section \<open>Connections\<close>

lemma attempt_last:
  "quic_attempt env d (Suc 0) m w = (r, m', w') \<Longrightarrow> (\<forall>x. x \<noteq> d \<longrightarrow> m' x = m x) \<and>
    (case r of Inr c \<Rightarrow> m' d = Some (Some c) | Inl e \<Rightarrow> m' d = None \<or> m' d = Some None)"
  by (subst (asm) quic_attempt.simps) (auto simp: Let_def split: if_splits prod.splits sum.splits option.splits)

lemma attempt_two:
  "quic_attempt env d (Suc (Suc 0)) m w = (r, m', w') \<Longrightarrow> (\<forall>x. x \<noteq> d \<longrightarrow> m' x = m x) \<and>
    (case r of Inr c \<Rightarrow> m' d = Some (Some c) | Inl e \<Rightarrow> m' d = None \<or> m' d = Some None)"
  by (subst (asm) quic_attempt.simps)
    (auto simp: Let_def split: if_splits prod.splits sum.splits option.splits dest!: attempt_last)

text \<open>Opening a stream touches the entry of one peer only; the connection that a stream was opened on is kept and no
  other one is. A stored connection that has died is replaced within the call.\<close>

theorem stream_replaces_dead_connection:
  assumes "quic_dest net_new network subnets dest = Inr d"
  shows "(\<forall>r m' w'. open_stream net_new env network subnets dest m w = (r, m', w') \<longrightarrow>
      (\<forall>x. x \<noteq> d \<longrightarrow> m' x = m x) \<and>
      (case r of Inr c \<Rightarrow> m' d = Some (Some c) | Inl e \<Rightarrow> m' d = None \<or> m' d = Some None)) \<and>
    (\<forall>c e w1 c' w2 w3. m d = Some (Some c) \<and> qe_open env c w = (Inl e, w1) \<and> qe_connect env d w1 = (Inr c', w2) \<and>
      qe_open env c' w2 = (Inr (), w3) \<longrightarrow>
      open_stream net_new env network subnets dest m w = (Inr c', m(d \<mapsto> Some c'), w3))"
proof (intro conjI allI impI)
  fix r m' w'
  assume "open_stream net_new env network subnets dest m w = (r, m', w')"
  then have q: "quic_attempt env d (Suc (Suc 0)) m w = (r, m', w')" by (simp add: open_stream_def assms numeral_2_eq_2)
  fix x assume "x \<noteq> d"
  then show "m' x = m x" using attempt_two [OF q] by blast
next
  fix r m' w'
  assume "open_stream net_new env network subnets dest m w = (r, m', w')"
  then have q: "quic_attempt env d (Suc (Suc 0)) m w = (r, m', w')" by (simp add: open_stream_def assms numeral_2_eq_2)
  show "case r of Inr c \<Rightarrow> m' d = Some (Some c) | Inl e \<Rightarrow> m' d = None \<or> m' d = Some None"
    using attempt_two [OF q] by blast
next
  fix c e w1 c' w2 w3
  assume a: "m d = Some (Some c) \<and> qe_open env c w = (Inl e, w1) \<and> qe_connect env d w1 = (Inr c', w2) \<and>
      qe_open env c' w2 = (Inr (), w3)"
  have "quic_attempt env d (Suc 0) (m(d := None)) w1 = (Inr c', m(d \<mapsto> Some c'), w3)"
    using a by (subst quic_attempt.simps) (simp add: Let_def)
  then have "quic_attempt env d (Suc (Suc 0)) m w = (Inr c', m(d \<mapsto> Some c'), w3)"
    using a by (subst quic_attempt.simps) (simp add: Let_def)
  then show "open_stream net_new env network subnets dest m w = (Inr c', m(d \<mapsto> Some c'), w3)"
    by (simp add: open_stream_def assms numeral_2_eq_2)
qed

section \<open>Datagrams and the key\<close>

lemma advance_head_view:
  assumes "tb_ok t" "16 \<le> length (tb_view t)"
  shows "\<exists>t'. tb_advance_head HEAD_LENGTH t = Inr t' \<and> tb_view t' = payload (tb_view t)"
proof -
  obtain t' where t': "tb_advance_head 16 t = Inr t'"
    using assms by (cases "tb_advance_head 16 t") (auto simp: tb_advance_head_def)
  then show ?thesis using tb_advance_view(2) [OF assms(1) t'] by (simp add: payload_def)
qed

lemma quic_frame_key:
  assumes "tb_ok r" "16 \<le> length (tb_view r)" "msg_type (tb_view r) = Inr Quic" "as_network nd = Some net"
    and "dest_id (tb_view r) = na_ip net" "src_id (tb_view r) \<noteq> na_ip net" "\<not> is_fec (tb_view r)"
    and "ttl (tb_view r) \<noteq> 0" "ttl (tb_view r) \<le> max_ttl (tb_view r)" "\<And>f. ie_quic_takes env f"
  shows "\<exists>nd'. peer_handle env conf order inst now k r nd = (Inr (), [ToQuic (src_id (tb_view r)) (payload (tb_view r))], nd')"
proof -
  let ?q = "tb_map decr_ttl r"
  have v: "tb_ok ?q" "tb_view ?q = decr_ttl (tb_view r)" using tb_map_ok [OF assms(1), of decr_ttl] assms(2) by simp_all
  obtain t' where t': "tb_advance_head HEAD_LENGTH ?q = Inr t'" "tb_view t' = payload (tb_view r)"
    using advance_head_view [OF v(1)] v(2) assms(2) by auto
  have ttl: "ttl (decr_ttl (tb_view r)) = ttl (tb_view r) - 1" "max_ttl (decr_ttl (tb_view r)) = max_ttl (tb_view r)"
    using assms(8) by (simp_all add: ttl_def max_ttl_def decr_ttl_def hdr_decr_ttl_parts)
  have "unat (ttl (tb_view r) - 1) < unat (ttl (tb_view r))" 
    using assms(8) unat_gt_0 [of "ttl (tb_view r)"] by (simp add: unat_minus_one)
  then have h: "\<not> max_ttl (tb_view ?q) \<le> ttl (tb_view ?q)"
    using assms(9) ttl by (simp add: v word_le_nat_alt)
  have n: "packet_new r = Inr r" using assms(1,2) by (simp add: packet_new_def)
  have e: "\<exists>nd'. after_fec env order inst (enhanced_inbound env conf net Quic (src_id (tb_view r))) ?q nd =
      (Inr (), [ToQuic (src_id (tb_view r)) (payload (tb_view r))], nd')"
    using assms(7,10) t' by (simp add: after_fec_def v(2) enhanced_inbound_def Let_def deliver_def send_or_def)
  show ?thesis
    using e h assms(3-6) n by (simp add: peer_handle_def Let_def)
qed

text \<open>C34 A frame of type \<open>Quic\<close> for a client reaches its QUIC endpoint from anyone who can send to it, whatever the key: the
  payload is neither sealed nor opened, unlike that of every other type.\<close>

theorem quic_frame_needs_no_key:
  assumes "tb_ok r" "16 \<le> length (tb_view r)" "msg_type (tb_view r) = Inr Quic" "as_network nd = Some net"
    and "dest_id (tb_view r) = na_ip net" "src_id (tb_view r) \<noteq> na_ip net" "\<not> is_fec (tb_view r)"
    and "ttl (tb_view r) \<noteq> 0" "ttl (tb_view r) \<le> max_ttl (tb_view r)" "\<And>f. ie_quic_takes env f"
  shows "\<exists>nd'. peer_handle env conf order inst now k r nd = (Inr (), [ToQuic (src_id (tb_view r)) (payload (tb_view r))], nd')"
  by (rule quic_frame_key [OF assms])

section \<open>A datagram from endpoint to endpoint\<close>

lemma quic_packet_fills:
  "\<exists>t. quic_try_outbound al (Some (Suc n)) buf dest = Inr (dest, t) \<and> tb_ok t \<and> control_packet Quic 5 0 dest buf (tb_view t)"
proof -
  define z where "z = replicate (16 + length buf) (0 :: u8)"
  define p where "p = set_dest_id dest (set_msg_type Quic (set_ttl 5 z))"
  have l: "length p = 16 + length buf" by (simp add: p_def z_def)
  obtain w where w: "set_payload buf p = Inr w" using l by (simp add: set_payload_def)
  note s = set_payload_Inr [OF w]
  have h: "(5 :: u8) AND 0x0F = 5" by simp
  have z: "header z = \<lparr>type_byte = 0, ttl_byte = 0, flags_byte = 0, reserved = 0, h_seq = 0, h_src_id = 0, h_dest_id = 0\<rparr>"
    using header_upd_0_2(1) by (simp add: z_def replicate_add)
  have f: "\<not> is_fec z" "\<not> is_compressed z" "src_id z = 0" by (simp_all add: is_fec_def is_compressed_def src_id_def z)
  have "msg_type w = msg_type p" "src_id w = src_id p" "dest_id w = dest_id p" "ttl w = ttl p" "max_ttl w = max_ttl p"
    "is_fec w = is_fec p" "is_compressed w = is_compressed p"
    by (simp_all add: accessor_defs s(2))
  then have c: "control_packet Quic 5 0 dest buf w"
    using s l h f set_payload_exact [OF l w] by (simp add: control_packet_def p_def)
  let ?b = "tb_zeroed al (HEAD_LENGTH + length buf)"
  have b: "packet_new ?b = Inr ?b" "tb_view ?b = z" "tb_ok (tb_write w ?b)" "tb_view (tb_write w ?b) = w"
    using s(1) l by (auto simp: transmission_simps z_def)
  have "quic_try_outbound al (Some (Suc n)) buf dest = Inr (dest, tb_write w ?b)"
    using w b(1,2) unfolding p_def by (simp only: quic_try_outbound_def option.case nat.simps if_False and_then_def sum.case)
  then show ?thesis using b c by (intro exI [of _ "tb_write w ?b"]) simp
qed

text \<open>A datagram of one client's QUIC endpoint that is sent to a peer comes out of the other's as it went in, with the
  sender's address, whatever keys the two have.\<close>

theorem quic_datagram_crosses:
  assumes "quic_try_outbound al (Some (Suc slots)) buf (na_ip net_b) = Inr (d, t)"
    and "outbound_raw env conf now d t a = (Inr (), effs, a')" "ToPeer k frame \<in> set effs" "nd_fec_encoder a = None"
    and "as_network a = Some net_a" "as_network b = Some net_b" "na_ip net_a \<noteq> na_ip net_b" "\<And>f. ie_quic_takes env_b f"
  shows "d = na_ip net_b \<and>
    (\<exists>b'. peer_handle env_b conf_b order inst now_b k_b (received_buffer env_b frame) b = (Inr (), [ToQuic (na_ip net_a) buf], b'))"
proof -
  have t: "d = na_ip net_b" "tb_ok t" "control_packet Quic 5 0 (na_ip net_b) buf (tb_view t)"
    using assms(1) quic_packet_fills [of al slots buf "na_ip net_b"] by auto
  let ?t = "tb_map (set_src_id (na_ip net_a)) t"
  have l: "16 \<le> length (tb_view t)" using t(3) control_length by blast
  have v: "tb_ok ?t" "tb_view ?t = set_src_id (na_ip net_a) (tb_view t)"
    using tb_map_ok [OF t(2), of "set_src_id (na_ip net_a)"] l by simp_all
  have "src_id (tb_view t) = 0" using t(3) by (simp add: control_packet_def)
  then have o: "outbound_raw env conf now d t a = (case basic_send_raw env conf d ?t a of
      (Inl e, effs) \<Rightarrow> (Inl e, effs, a)
    | (Inr _, effs) \<Rightarrow> (Inr (), effs, a\<lparr>as_traffic := record_tx d (word_of_nat (length (tb_view ?t))) (as_traffic a)\<rparr>))"
    using assms(4,5) by (simp add: outbound_raw_def fec_wrap_def Let_def)
  obtain res effs' where b: "basic_send_raw env conf d ?t a = (res, effs')" by (metis prod.collapse)
  have "effs' = effs" using assms(2) by (cases res) (simp_all add: o b)
  then have "frame = tb_view ?t"
    using b assms(3) tb_into_bytes_view [OF v(1)]
    by (auto simp: basic_send_raw_def p2p_send_raw_to_def server_send_raw_def send_channel_def send_or_def
        split: option.splits if_splits)
  then have f: "frame = set_src_id (na_ip net_a) (tb_view t)" using v by simp
  let ?r = "received_buffer env_b frame"
  have r: "tb_ok ?r" "tb_view ?r = frame" by simp_all
  have "16 \<le> length frame" "msg_type frame = Inr Quic" "dest_id frame = na_ip net_b" "src_id frame = na_ip net_a"
    "\<not> is_fec frame" "ttl frame = 5" "max_ttl frame = 5" "payload frame = buf"
    using t(3) l by (simp_all add: f control_packet_def)
  then show ?thesis
    using quic_frame_key [where r = ?r and env = env_b and net = net_b and nd = b and conf = conf_b and order = order
        and inst = inst and now = now_b and k = k_b] r assms(6-8) t(1) by simp
qed


section \<open>Witnesses\<close>

definition demo_quic :: "(unit, unit) quic_env" where
  "demo_quic = \<lparr>qe_connect = (\<lambda>_ w. (Inr (), w)), qe_open = (\<lambda>_ w. (Inr (), w))\<rparr>"

lemma demo_dest: "quic_dest (\<lambda>_ _. Some demo_lan) (Some (demo_addr 0x0A1A0007)) [] 0x0A1A0008 = Inr 0x0A1A0008"
  by (simp add: quic_dest_def ok_or_def na_network_def demo_lan_def)

lemma demo_open: "fst (open_stream (\<lambda>_ _. Some demo_lan) demo_quic (Some (demo_addr 0x0A1A0007)) [] 0x0A1A0008 Map.empty ()) = Inr ()"
  unfolding open_stream_def demo_dest sum.case by (subst quic_attempt.simps) (simp add: demo_quic_def Let_def)

lemma demo_length: "be_enc 2 (Suc 0) = [0, 1]"
  by (simp add: numeral_2_eq_2)



lemma stream_replaces_dead_connection_witness:
  "fst (open_stream (\<lambda>_ _. Some demo_lan)
     \<lparr>qe_connect = (\<lambda>_ w. (Inr (1::nat), w)), qe_open = (\<lambda>c w. (if c = 0 then Inl IoOther else Inr (), w))\<rparr>
     (Some (demo_addr 0x0A1A0007)) [] 0x0A1A0008 [0x0A1A0008 \<mapsto> Some 0] ()) = Inr 1"
proof -
  from stream_replaces_dead_connection [OF demo_dest, where m = "[0x0A1A0008 \<mapsto> Some (0::nat)]" and w = "()" and
      env = "\<lparr>qe_connect = (\<lambda>_ w. (Inr (1::nat), w)), qe_open = (\<lambda>c w. (if c = 0 then Inl IoOther else Inr (), w))\<rparr>"]
  show ?thesis by simp
qed


definition demo_mapping :: PortMapping where
  "demo_mapping = \<lparr>pm_protocol = 6, pm_src_addr = V4 LOCALHOST 8080, pm_virtual_target_ip = 0x0A1A0008, pm_dst_host = ''h'', pm_dst_port = 80\<rparr>"

lemma mapped_port_reaches_target_witness:
  "\<exists>h. quic_stream_bi_handle (\<lambda>_ _. Some demo_lan) (\<lambda>b. Some (if b = [7] then Some (TcpPortMapping [] 5000 ''h'' 80) else Some (UdpPortMapping [] 5000 ''h'' 80)))
     None True None \<lparr>pmm_no_tun = False, pmm_allow = True\<rparr> [0, 1, 7] = Inr (DialTcp (Name h), [])"
proof -
  let ?enc = "\<lambda>h. case h of Some (TcpPortMapping _ _ _ _) \<Rightarrow> [7] | _ \<Rightarrow> [8 :: u8]"
  let ?dec = "\<lambda>b. Some (if b = [7 :: u8] then Some (TcpPortMapping [] 5000 ''h'' 80) else Some (UdpPortMapping [] 5000 ''h'' 80))"
  obtain r where o: "open_stream (\<lambda>_ _. Some demo_lan) demo_quic (Some (demo_addr 0x0A1A0007)) [] 0x0A1A0008 Map.empty () = (Inr (), r)"
    using demo_open by (metis prod.collapse)
  have a: "fst (tcp_mapping_stream (\<lambda>_ _. Some demo_lan) ?enc demo_quic (\<lambda>_. []) (Some (demo_addr 0x0A1A0007)) [] demo_mapping
      (V4 LOCALHOST 5000) [] Map.empty ()) = Inr ((), [0, 1, 7])"
    and b: "fst (udp_mapping_stream (\<lambda>_ _. Some demo_lan) ?enc demo_quic (\<lambda>_. []) (Some (demo_addr 0x0A1A0007)) [] demo_mapping
      (V4 LOCALHOST 5000) [] Map.empty ()) = Inr ((), [0, 1, 8])"
    by (simp_all add: tcp_mapping_stream_def udp_mapping_stream_def demo_mapping_def o send_handshake_def demo_length split: prod.splits)
  from mapped_port_reaches_target [OF a b, where dec = ?dec and maps = "\<lparr>pmm_no_tun = False, pmm_allow = True\<rparr>"
      and net_b = "\<lambda>_ _. Some demo_lan" and network = None and stack = True and nat_manager = None]
  show ?thesis by (auto simp: handshake_fits_def demo_mapping_def Let_def)
qed

definition demo_quic_frame :: bytes where
  "demo_quic_frame = set_src_id 7 (set_dest_id 8 (set_msg_type Quic (set_ttl 5 (replicate 20 0))))"

lemma quic_frame_needs_no_key_witness:
  "\<exists>nd'. peer_handle demo_inbound_env (demo_inbound_conf\<lparr>cc_crypto := Some 3\<rparr>) [] 0 0 3
     (received_buffer demo_inbound_env demo_quic_frame) (demo_node 8) = (Inr (), [ToQuic 7 [0, 0, 0, 0]], nd')"
proof -
  have z: "header (replicate 20 0) = \<lparr>type_byte = 0, ttl_byte = 0, flags_byte = 0, reserved = 0, h_seq = 0, h_src_id = 0, h_dest_id = 0\<rparr>"
    using header_upd_0_2(1) [of "replicate 4 0"] by (simp add: replicate_add [of 16 4, simplified])
  have "\<not> is_fec demo_quic_frame" by (simp add: demo_quic_frame_def) (simp add: is_fec_def z)
  moreover have "16 \<le> length demo_quic_frame" "msg_type demo_quic_frame = Inr Quic" "dest_id demo_quic_frame = 8"
    "src_id demo_quic_frame = 7" "ttl demo_quic_frame = 5" "max_ttl demo_quic_frame = 5"
    by (simp_all add: demo_quic_frame_def)
  moreover have "payload demo_quic_frame = [0, 0, 0, 0]" by (simp add: demo_quic_frame_def) (simp add: payload_def numeral_eq_Suc)
  ultimately show ?thesis
    using quic_frame_needs_no_key [of "received_buffer demo_inbound_env demo_quic_frame" "demo_node 8" "demo_addr 8" demo_inbound_env
        "demo_inbound_conf\<lparr>cc_crypto := Some 3\<rparr>" "[]" 0 0 3] demo_peers(9,10)
    by (simp add: demo_addr_def demo_inbound_env_def)
qed

end
