(* ===== verification/UserNat.thy ===== *)
theory UserNat
  imports ClientState IpPacket
begin

text \<open>
  The flows of the user-space NAT and of the proxies: the UDP table of \<open>vnt/vnt-core/src/nat/internal_nat/udp_nat.rs\<close>
  with its sockets, tasks and clean-up, the echo table of \<open>icmp_nat.rs\<close>, and the map from flows to sender tasks
  that \<open>enhanced_tunnel/quic_over/quic_client.rs\<close> and \<open>port_mapping/udp_port_mapping.rs\<close> keep alike.

  Sockets and tasks are numbered in the order in which they are made. Times are milliseconds. A call under the
  table's lock is one step, so the runs of \<open>nat_step\<close> are the interleavings of the loop, the tasks and the
  clean-up.
\<close>

section \<open>UDP\<close>

text \<open>The key of the table: source and destination.\<close>

datatype flow = Flow SocketAddr SocketAddr

record NatEntry =
  ne_socket :: nat
  ne_last_active :: nat

text \<open>\<open>un_tasks\<close> are the tasks that carry replies of a socket back to the flow; each owns its socket.\<close>

record UdpNat =
  un_table :: "flow \<rightharpoonup> NatEntry"
  un_tasks :: "(flow \<times> nat) set"
  un_sockets :: nat

definition NAT_IDLE_TIMEOUT :: nat where "NAT_IDLE_TIMEOUT = 300000"

definition UdpNat_new :: UdpNat where
  "UdpNat_new = \<lparr>un_table = Map.empty, un_tasks = {}, un_sockets = 0\<rparr>"

definition udp_spawn_inbound :: "flow \<Rightarrow> nat \<Rightarrow> UdpNat \<Rightarrow> UdpNat" where
  "udp_spawn_inbound key s n = n\<lparr>un_tasks := insert (key, s) (un_tasks n)\<rparr>"

text \<open>The socket that the packet is sent on, or \<open>None\<close> when a new one could not be bound and connected.\<close>

definition udp_handle_outbound :: "bool \<Rightarrow> flow \<Rightarrow> nat \<Rightarrow> UdpNat \<Rightarrow> nat option \<times> UdpNat" where
  "udp_handle_outbound opens key now n =
     (case un_table n key of
        Some e \<Rightarrow> (Some (ne_socket e), n\<lparr>un_table := (un_table n)(key \<mapsto> e\<lparr>ne_last_active := now\<rparr>)\<rparr>)
      | None \<Rightarrow>
          if \<not> opens then (None, n)
          else
            (let s = un_sockets n;
                 n = n\<lparr>un_table := (un_table n)(key \<mapsto> \<lparr>ne_socket = s, ne_last_active = now\<rparr>), un_sockets := s + 1\<rparr>
             in (Some s, udp_spawn_inbound key s n)))"

text \<open>A task has written a reply of its socket back.\<close>

definition udp_inbound :: "flow \<Rightarrow> nat \<Rightarrow> UdpNat \<Rightarrow> UdpNat" where
  "udp_inbound key now n =
     (case un_table n key of
        None \<Rightarrow> n
      | Some e \<Rightarrow> n\<lparr>un_table := (un_table n)(key \<mapsto> e\<lparr>ne_last_active := now\<rparr>)\<rparr>)"

text \<open>A task ends: its socket is dropped with it and the flow's entry is removed.\<close>

definition udp_inbound_end :: "flow \<Rightarrow> nat \<Rightarrow> UdpNat \<Rightarrow> UdpNat" where
  "udp_inbound_end key s n = n\<lparr>un_table := (un_table n)(key := None), un_tasks := un_tasks n - {(key, s)}\<rparr>"

definition udp_gc :: "nat \<Rightarrow> UdpNat \<Rightarrow> UdpNat" where
  "udp_gc now n = n\<lparr>un_table := (\<lambda>key. case un_table n key of
     Some e \<Rightarrow> if now - ne_last_active e < NAT_IDLE_TIMEOUT then Some e else None | None \<Rightarrow> None)\<rparr>"

inductive nat_step :: "UdpNat \<Rightarrow> UdpNat \<Rightarrow> bool" where
  ns_outbound: "nat_step n (snd (udp_handle_outbound opens key now n))"
| ns_inbound: "(key, s) \<in> un_tasks n \<Longrightarrow> nat_step n (udp_inbound key now n)"
| ns_end: "(key, s) \<in> un_tasks n \<Longrightarrow> nat_step n (udp_inbound_end key s n)"
| ns_gc: "nat_step n (udp_gc now n)"

definition nat_reach :: "UdpNat \<Rightarrow> bool" where
  "nat_reach n \<longleftrightarrow> nat_step\<^sup>*\<^sup>* UdpNat_new n"

lemma nat_reach_step: "nat_reach n \<Longrightarrow> nat_step n n' \<Longrightarrow> nat_reach n'"
  unfolding nat_reach_def by (rule rtranclp.rtrancl_into_rtrancl)

lemmas udp_defs = udp_handle_outbound_def udp_spawn_inbound_def udp_inbound_def udp_inbound_end_def udp_gc_def

section \<open>Replies find their flow\<close>

definition nat_inv :: "UdpNat \<Rightarrow> bool" where
  "nat_inv n \<longleftrightarrow>
     (\<forall>key e. un_table n key = Some e \<longrightarrow> (key, ne_socket e) \<in> un_tasks n) \<and>
     (\<forall>key s. (key, s) \<in> un_tasks n \<longrightarrow> s < un_sockets n) \<and>
     (\<forall>key key' s. (key, s) \<in> un_tasks n \<and> (key', s) \<in> un_tasks n \<longrightarrow> key = key')"

lemma nat_step_inv: "nat_step n n' \<Longrightarrow> nat_inv n \<Longrightarrow> nat_inv n'"
proof (induction rule: nat_step.induct)
  case (ns_outbound n opens key now)
  then show ?case
    by (auto simp: nat_inv_def udp_handle_outbound_def udp_spawn_inbound_def Let_def less_Suc_eq split: option.splits) blast+
next
  case (ns_inbound key s n now)
  then show ?case by (auto simp: nat_inv_def udp_inbound_def split: option.splits)
next
  case (ns_end key s n)
  then show ?case by (auto simp: nat_inv_def udp_inbound_end_def split: if_splits) blast+
next
  case (ns_gc n now)
  then show ?case by (auto simp: nat_inv_def udp_gc_def split: option.splits if_splits)
qed

lemma nat_reach_inv: "nat_reach n \<Longrightarrow> nat_inv n"
  unfolding nat_reach_def
proof (induction rule: rtranclp_induct)
  case base
  then show ?case by (simp add: nat_inv_def UdpNat_new_def)
qed (blast intro: nat_step_inv)



section \<open>Tables that forget what is idle\<close>

text \<open>The laws of a table whose entries carry the time of their last use: using a key keeps its value, and cleaning up
  removes exactly what was not used for \<open>limit\<close>.\<close>

datatype 'k activity = Touch 'k nat | Collect nat

fun run_activity :: "('k \<Rightarrow> nat \<Rightarrow> 's \<Rightarrow> 's) \<Rightarrow> (nat \<Rightarrow> 's \<Rightarrow> 's) \<Rightarrow> 'k activity list \<Rightarrow> 's \<Rightarrow> 's" where
  "run_activity touch gc [] s = s"
| "run_activity touch gc (Touch k now # es) s = run_activity touch gc es (touch k now s)"
| "run_activity touch gc (Collect now # es) s = run_activity touch gc es (gc now s)"

text \<open>At every clean-up the last use of \<open>k\<close>, at first at \<open>t\<close>, is less than \<open>limit\<close> ago.\<close>

fun busy :: "nat \<Rightarrow> 'k \<Rightarrow> nat \<Rightarrow> 'k activity list \<Rightarrow> bool" where
  "busy limit k t [] = True"
| "busy limit k t (Touch k' now # es) = busy limit k (if k' = k then now else t) es"
| "busy limit k t (Collect now # es) = (now - t < limit \<and> busy limit k t es)"

locale idle_table =
  fixes look :: "'s \<Rightarrow> 'k \<Rightarrow> ('v \<times> nat) option"
    and touch :: "'k \<Rightarrow> nat \<Rightarrow> 's \<Rightarrow> 's"
    and gc :: "nat \<Rightarrow> 's \<Rightarrow> 's"
    and limit :: nat
  assumes touch_same: "look s k = Some (v, t) \<Longrightarrow> look (touch k now s) k = Some (v, now)"
    and touch_other: "k' \<noteq> k \<Longrightarrow> look (touch k now s) k' = look s k'"
    and gc_look: "look (gc now s) k =
      (case look s k of Some (v, t) \<Rightarrow> if now - t < limit then Some (v, t) else None | None \<Rightarrow> None)"
begin

lemma busy_kept: "look s k = Some (v, t) \<Longrightarrow> busy limit k t es \<Longrightarrow> \<exists>t'. look (run_activity touch gc es s) k = Some (v, t')"
proof (induction es arbitrary: s t)
  case (Cons e es)
  show ?case
  proof (cases e)
    case (Touch k' now)
    then have "look (touch k' now s) k = Some (v, if k' = k then now else t)"
      using Cons.prems(1) touch_same touch_other by auto
    then show ?thesis using Cons.IH Cons.prems(2) by (simp add: Touch)
  next
    case (Collect now)
    then have "look (gc now s) k = Some (v, t)" using Cons.prems by (simp add: gc_look)
    then show ?thesis using Cons.IH Cons.prems(2) by (simp add: Collect)
  qed
qed simp

lemma idle_forgotten: "look s k = Some (v, t) \<Longrightarrow> limit \<le> now - t \<Longrightarrow> look (gc now s) k = None"
  by (simp add: gc_look)

end

interpretation udp: idle_table "\<lambda>(n :: UdpNat) key. map_option (\<lambda>e. (ne_socket e, ne_last_active e)) (un_table n key)"
  "\<lambda>key now n. snd (udp_handle_outbound True key now n)" udp_gc NAT_IDLE_TIMEOUT
proof
  fix n :: UdpNat and key v t now
  assume "map_option (\<lambda>e. (ne_socket e, ne_last_active e)) (un_table n key) = Some (v, t)"
  then show "map_option (\<lambda>e. (ne_socket e, ne_last_active e)) (un_table (snd (udp_handle_outbound True key now n)) key) = Some (v, now)"
    by (auto simp: udp_handle_outbound_def)
next
  fix n :: UdpNat and key key' :: flow and now
  assume "key' \<noteq> key"
  then show "map_option (\<lambda>e. (ne_socket e, ne_last_active e)) (un_table (snd (udp_handle_outbound True key now n)) key') =
      map_option (\<lambda>e. (ne_socket e, ne_last_active e)) (un_table n key')"
    by (auto simp: udp_handle_outbound_def udp_spawn_inbound_def Let_def split: option.split)
next
  fix n :: UdpNat and key now
  show "map_option (\<lambda>e. (ne_socket e, ne_last_active e)) (un_table (udp_gc now n) key) =
      (case map_option (\<lambda>e. (ne_socket e, ne_last_active e)) (un_table n key) of
         Some (v, t) \<Rightarrow> if now - t < NAT_IDLE_TIMEOUT then Some (v, t) else None | None \<Rightarrow> None)"
    by (auto simp: udp_gc_def split: option.split)
qed

text \<open>A flow that is used at least every five minutes leaves on the same socket, and so from the same port of the host,
  whatever other flows and clean-ups do, as long as its task runs.\<close>

theorem active_flow_keeps_socket:
  assumes "un_table n key = Some e" "busy NAT_IDLE_TIMEOUT key (ne_last_active e) es"
  shows "fst (udp_handle_outbound opens key now
    (run_activity (\<lambda>key now n. snd (udp_handle_outbound True key now n)) udp_gc es n)) = Some (ne_socket e)"
proof -
  have "map_option (\<lambda>e. (ne_socket e, ne_last_active e)) (un_table n key) = Some (ne_socket e, ne_last_active e)"
    using assms(1) by simp
  from udp.busy_kept [OF this assms(2)] show ?thesis by (auto simp: udp_handle_outbound_def)
qed

section \<open>Expired flows\<close>

lemma expired_flow:
  assumes "nat_reach n" "un_table n = Map.empty"
  shows "\<exists>n'. nat_reach n' \<and> un_table n' = Map.empty \<and> un_tasks n' = insert (key, un_sockets n) (un_tasks n) \<and>
    un_sockets n' = Suc (un_sockets n)"
proof -
  let ?n = "snd (udp_handle_outbound True key 0 n)"
  have "nat_reach (udp_gc NAT_IDLE_TIMEOUT ?n)" using assms(1) by (blast intro: nat_reach_step nat_step.intros)
  moreover have "un_table (udp_gc NAT_IDLE_TIMEOUT ?n) = Map.empty"
    by (auto simp: udp_defs assms(2) Let_def fun_eq_iff)
  ultimately show ?thesis by (intro exI [of _ "udp_gc NAT_IDLE_TIMEOUT ?n"]) (simp add: udp_defs assms(2) Let_def)
qed

text \<open>C28 The clean-up takes the entry away and not the task, which keeps its socket open until a receive fails: there is
  no bound on the sockets of flows that have expired.\<close>

theorem expired_flows_keep_sockets:
  "\<exists>n. nat_reach n \<and> un_table n = Map.empty \<and> card (snd ` un_tasks n) = k"
proof -
  have "\<exists>n. nat_reach n \<and> un_table n = Map.empty \<and> un_sockets n = k \<and> snd ` un_tasks n = {..<k}"
  proof (induction k)
    case 0
    have "nat_reach UdpNat_new" by (simp add: nat_reach_def)
    then show ?case by (intro exI [of _ UdpNat_new]) (simp add: UdpNat_new_def)
  next
    case (Suc k)
    then obtain n where n: "nat_reach n" "un_table n = Map.empty" "un_sockets n = k" "snd ` un_tasks n = {..<k}" by blast
    from expired_flow [OF n(1,2)] show ?case by (metis n(3,4) image_insert lessThan_Suc snd_conv)
  qed
  then show ?thesis by (metis card_lessThan)
qed

text \<open>The end of such a task removes the entry of its flow even if that has a newer socket by then: the next packet
  of a live flow leaves from yet another port.\<close>

theorem stale_task_forgets_live_flow:
  "\<exists>n s s'. nat_reach n \<and> (key, s) \<in> un_tasks n \<and> un_table n key = Some \<lparr>ne_socket = s', ne_last_active = now\<rparr> \<and> s \<noteq> s' \<and>
     (\<exists>s''. fst (udp_handle_outbound True key now (udp_inbound_end key s n)) = Some s'' \<and> s'' \<noteq> s')"
proof -
  have "nat_reach UdpNat_new" by (simp add: nat_reach_def)
  then obtain n1 where n1: "nat_reach n1" "un_table n1 = Map.empty" "un_tasks n1 = {(key, 0)}" "un_sockets n1 = 1"
    using expired_flow [of UdpNat_new key] by (auto simp: UdpNat_new_def)
  let ?n = "snd (udp_handle_outbound True key now n1)"
  have "nat_reach ?n" using n1(1) by (blast intro: nat_reach_step nat_step.intros)
  moreover have "(key, 0) \<in> un_tasks ?n" "un_table ?n key = Some \<lparr>ne_socket = 1, ne_last_active = now\<rparr>"
    "fst (udp_handle_outbound True key now (udp_inbound_end key 0 ?n)) = Some 2"
    by (simp_all add: udp_defs n1 Let_def)
  ultimately show ?thesis by (intro exI [of _ ?n] exI [of _ "0 :: nat"] exI [of _ "1 :: nat"]) auto
qed

section \<open>Echo requests\<close>

type_synonym echo_map = "ipv4 \<times> u16 \<times> u16 \<rightharpoonup> ipv4"

text \<open>Identifier and sequence number of an echo request (8) or reply (0). \<open>icmp_payload\<close> is what follows the checksum.\<close>

definition echo_ident :: "pnet \<Rightarrow> (bytes \<Rightarrow> bytes) \<Rightarrow> bytes \<Rightarrow> (u16 \<times> u16) option" where
  "echo_ident pn icmp_payload buf =
     (if \<not> icmp_new pn buf then None
      else if icmp_type pn buf \<noteq> 0 \<and> icmp_type pn buf \<noteq> 8 then None
      else (let p = icmp_payload buf in
            if length p < 4 then None
            else Some (word_of_nat (be_dec (take 2 p)), word_of_nat (be_dec (take 2 (drop 2 p))))))"

text \<open>A message from the stack: where it is sent on the host, or \<open>None\<close> if it is ignored. Addresses are \<open>None\<close> when they
  are not IPv4.\<close>

definition inner_icmp_socket_recv :: "pnet \<Rightarrow> (bytes \<Rightarrow> bytes) \<Rightarrow> bytes \<Rightarrow> ipv4 option \<Rightarrow> ipv4 option \<Rightarrow> bool
    \<Rightarrow> NetworkAddr option \<Rightarrow> echo_map \<Rightarrow> ipv4 option result \<times> echo_map" where
  "inner_icmp_socket_recv pn icmp_payload buf src dst no_tun network m =
     (case (src, dst) of
        (Some src, Some dst) \<Rightarrow>
          (case echo_ident pn icmp_payload buf of
             None \<Rightarrow> (Inr None, m)
           | Some (i, q) \<Rightarrow>
               (case (if no_tun
                      then and_then (ok_or (Bail ''not ip'') (map_option na_ip network)) (\<lambda>own.
                             Inr (if dst = own then LOCALHOST else dst))
                      else Inr dst) of
                  Inl e \<Rightarrow> (Inl e, m)
                | Inr dst \<Rightarrow> (Inr (Some dst), m((dst, i, q) \<mapsto> src))))
      | _ \<Rightarrow> (Inr None, m))"

text \<open>A packet from the host: the message, its source and the client that it goes to.\<close>

definition tokio_icmp_socket_recv :: "pnet \<Rightarrow> (bytes \<Rightarrow> bytes) \<Rightarrow> bytes \<Rightarrow> echo_map \<Rightarrow> bool \<Rightarrow> NetworkAddr option
    \<Rightarrow> (bytes \<times> ipv4 \<times> ipv4) option result" where
  "tokio_icmp_socket_recv pn icmp_payload buf m no_tun network =
     (if \<not> ipv4_new pn buf then Inr None
      else
        (let icmp = ipv4_payload pn buf; src = ip_source pn buf in
         case echo_ident pn icmp_payload icmp of
           None \<Rightarrow> Inr None
         | Some (i, q) \<Rightarrow>
             (case m (src, i, q) of
                None \<Rightarrow> Inr None
              | Some dst \<Rightarrow>
                  and_then (if no_tun \<and> src = LOCALHOST then ok_or (Bail ''not ip'') (map_option na_ip network) else Inr src)
                    (\<lambda>src. Inr (Some (icmp, src, dst))))))"


text \<open>A ping through the NAT: the reply of the address that was pinged goes to the client that pinged, with the same
  message, and bears the address that this client knows, also when the client behind the NAT pings the client
  itself, which has no interface. \<open>m'\<close> is the table after other pings that did not take the same key.\<close>

theorem echo_reply_returns:
  assumes "inner_icmp_socket_recv pn pl request (Some src) (Some dst) no_tun network m = (Inr (Some d), m1)"
    and "m' (d, i, q) = m1 (d, i, q)" "echo_ident pn pl request = Some (i, q)"
    and "ipv4_new pn reply" "ip_source pn reply = d" "echo_ident pn pl (ipv4_payload pn reply) = Some (i, q)"
    and "dst \<noteq> LOCALHOST"
  shows "tokio_icmp_socket_recv pn pl reply m' no_tun network = Inr (Some (ipv4_payload pn reply, dst, src))"
proof -
  have m: "m' (d, i, q) = Some src"
    using assms(1-3) by (auto simp: inner_icmp_socket_recv_def split: if_splits sum.splits)
  show ?thesis
  proof (cases "no_tun")
    case True
    then obtain net where net: "network = Some net" "d = (if dst = na_ip net then LOCALHOST else dst)"
      using assms(1,3) by (auto simp: inner_icmp_socket_recv_def ok_or_def split: if_splits option.splits)
    then show ?thesis using assms(4-7) m True by (auto simp: tokio_icmp_socket_recv_def ok_or_def Let_def)
  next
    case False
    then have "d = dst" using assms(1,3) by (auto simp: inner_icmp_socket_recv_def)
    then show ?thesis using assms(4-6) m False by (simp add: tokio_icmp_socket_recv_def Let_def)
  qed
qed

section \<open>Flows with a sender task\<close>

text \<open>Packets of one flow go through a queue to the flow's task. A queue that is \<open>None\<close> belonged to a task that has
  ended.\<close>

record ('k, 'p) flow_senders =
  fs_map :: "'k \<rightharpoonup> nat"
  fs_queues :: "nat \<rightharpoonup> 'p list"
  fs_started :: "(nat \<times> 'k) list"

definition flow_senders_new :: "('k, 'p) flow_senders" where
  "flow_senders_new = \<lparr>fs_map = Map.empty, fs_queues = Map.empty, fs_started = []\<rparr>"

definition spawn_dest_sender :: "'k \<Rightarrow> ('k, 'p) flow_senders \<Rightarrow> nat \<times> ('k, 'p) flow_senders" where
  "spawn_dest_sender k s =
     (let i = length (fs_started s) in
      (i, s\<lparr>fs_map := (fs_map s)(k \<mapsto> i), fs_queues := (fs_queues s)(i \<mapsto> []), fs_started := fs_started s @ [(i, k)]\<rparr>))"

definition flow_send :: "'k \<Rightarrow> 'p \<Rightarrow> ('k, 'p) flow_senders \<Rightarrow> ('k, 'p) flow_senders" where
  "flow_send k p s =
     (case (case fs_map s k of Some i \<Rightarrow> (i, s) | None \<Rightarrow> spawn_dest_sender k s) of
        (i, s) \<Rightarrow>
          (case fs_queues s i of
             None \<Rightarrow> s\<lparr>fs_map := (fs_map s)(k := None)\<rparr>
           | Some q \<Rightarrow> if length q < 128 then s\<lparr>fs_queues := (fs_queues s)(i \<mapsto> q @ [p])\<rparr> else s))"

definition flow_task_receives :: "nat \<Rightarrow> ('k, 'p) flow_senders \<Rightarrow> 'p option \<times> ('k, 'p) flow_senders" where
  "flow_task_receives i s =
     (case fs_queues s i of
        Some (p # q) \<Rightarrow> (Some p, s\<lparr>fs_queues := (fs_queues s)(i \<mapsto> q)\<rparr>)
      | _ \<Rightarrow> (None, s))"

definition flow_task_ends :: "nat \<Rightarrow> ('k, 'p) flow_senders \<Rightarrow> ('k, 'p) flow_senders" where
  "flow_task_ends i s = s\<lparr>fs_queues := (fs_queues s)(i := None)\<rparr>"

inductive flow_step :: "('k, 'p) flow_senders \<Rightarrow> ('k, 'p) flow_senders \<Rightarrow> bool" where
  fs_send: "flow_step s (flow_send k p s)"
| fs_receive: "flow_step s (snd (flow_task_receives i s))"
| fs_end: "flow_step s (flow_task_ends i s)"

lemmas flow_defs = flow_send_def spawn_dest_sender_def flow_task_receives_def flow_task_ends_def

definition flow_inv :: "('k, 'p) flow_senders \<Rightarrow> bool" where
  "flow_inv s \<longleftrightarrow>
     (\<forall>k i. fs_map s k = Some i \<longrightarrow> i < length (fs_started s) \<and> fs_started s ! i = (i, k)) \<and>
     (\<forall>i q. fs_queues s i = Some q \<longrightarrow> i < length (fs_started s) \<and> length q \<le> 128)"

lemma flow_step_inv: "flow_step s s' \<Longrightarrow> flow_inv s \<Longrightarrow> flow_inv s'"
proof (induction rule: flow_step.induct)
  case (fs_send s k p)
  show ?case
  proof (cases "fs_map s k")
    case None
    have n: "flow_send k p s = s\<lparr>fs_map := (fs_map s)(k \<mapsto> length (fs_started s)),
        fs_queues := (fs_queues s)(length (fs_started s) \<mapsto> [p]), fs_started := fs_started s @ [(length (fs_started s), k)]\<rparr>"
      by (simp add: flow_defs None Let_def)
    show ?thesis using fs_send by (fastforce simp: n flow_inv_def nth_append)
  next
    case (Some i)
    then show ?thesis using fs_send by (fastforce simp: flow_defs flow_inv_def split: option.splits)
  qed
next
  case (fs_receive s i)
  then show ?case by (fastforce simp: flow_defs flow_inv_def split: option.splits list.splits)
next
  case (fs_end s i)
  then show ?case by (auto simp: flow_defs flow_inv_def split: if_splits)
qed

text \<open>In every run a flow's packets are queued for a task that was started for this flow, and no queue outgrows its
  channel. After the end of a flow's task one packet is lost, and the next one starts another task.\<close>

theorem flow_restarts_after_one_loss:
  assumes "flow_step\<^sup>*\<^sup>* flow_senders_new s"
  shows "(\<forall>k i. fs_map s k = Some i \<longrightarrow> fs_started s ! i = (i, k)) \<and> (\<forall>i q. fs_queues s i = Some q \<longrightarrow> length q \<le> 128) \<and>
    (\<forall>k i. fs_map s k = Some i \<and> fs_queues s i = None \<longrightarrow>
       (\<exists>j. fs_map (flow_send k p2 (flow_send k p1 s)) k = Some j \<and> fs_queues (flow_send k p2 (flow_send k p1 s)) j = Some [p2] \<and>
          fs_started (flow_send k p2 (flow_send k p1 s)) = fs_started s @ [(j, k)]))"
proof -
  have "flow_inv s"
    using assms
  proof (induction rule: rtranclp_induct)
    case base
    then show ?case by (simp add: flow_inv_def flow_senders_new_def)
  qed (blast intro: flow_step_inv)
  then show ?thesis by (auto simp: flow_inv_def flow_defs Let_def)
qed

section \<open>Witnesses\<close>

definition demo_flow :: flow where "demo_flow = Flow (V4 7 5000) (V4 LOCALHOST 53)"


lemma active_flow_keeps_socket_witness:
  "fst (udp_handle_outbound True demo_flow 500000
    (run_activity (\<lambda>key now n. snd (udp_handle_outbound True key now n)) udp_gc [Touch demo_flow 200000, Collect 400000]
      (snd (udp_handle_outbound True demo_flow 0 UdpNat_new)))) = Some 0"
  by (rule active_flow_keeps_socket [of "snd (udp_handle_outbound True demo_flow 0 UdpNat_new)" demo_flow
        "\<lparr>ne_socket = 0, ne_last_active = 0\<rparr>", simplified NatEntry.simps])
    (simp_all add: udp_defs UdpNat_new_def Let_def NAT_IDLE_TIMEOUT_def)

end
