(* ===== verification/Spec2Isabelle.thy ===== *)
theory Spec2Isabelle
  imports RouteTable Codec FecDelivery RegistryRaces ClientSync ServiceStorage EndToEnd ClientSafety
    ServerLinkProps ClientRpc TaskControl NetworkManager PeerTasks QuicProxy UserNat
begin

text \<open>
  A verification development of vnt, a virtual network: clients (\<open>vnt/\<close>) join a network through one or
  several servers (\<open>vnts/\<close>), are given an address by each, and exchange encrypted IP packets, directly between
  two clients, over a third client, or through a server; servers can be peers of each other and forward for
  each other's clients. Every theory opens with a text of its own; this one says how they fit together.

  \<^bold>\<open>Foundations.\<close> \<open>Prelude\<close>: words, the result type \<open>error + 'a\<close> with \<open>and_then\<close> for the operator \<open>?\<close>, where
  \<open>Panic\<close> is a Rust panic and \<open>Bail\<close> an error value, big-endian bytes, slices, association lists. \<open>Ipv4Text\<close>
  and \<open>RustText\<close>: the functions of Rust's \<open>str\<close> that the program uses, on strings as UTF-8 bytes. \<open>IpPacket\<close>:
  the fields of IPv4, ICMP and TCP headers that are read through the crate \<open>pnet_packet\<close>.

  \<^bold>\<open>The packet.\<close> \<open>NetPacket\<close> is \<open>protocol/ip_packet_protocol.rs\<close> (the 16-byte header and its accessors),
  \<open>Transmission\<close> the growable window \<open>TransmissionBytes\<close> on which a packet is filled in place. \<open>Codec\<close> has
  compression and sealing, \<open>Fec\<close> the encoder and decoder for lost packets, \<open>FecDelivery\<close> what the two do
  together over a lossy channel.

  \<^bold>\<open>The client.\<close>
  \<^item> Shared state: \<open>SubnetRoute\<close> (\<open>nat/mod.rs\<close>), \<open>ServerInfo\<close> (\<open>context/mod.rs\<close>), \<open>ClientState\<close>
    (\<open>context/nat.rs\<close>, \<open>AppState\<close>), \<open>RouteTable\<close> (\<open>tunnel_core/p2p/route_table.rs\<close>), \<open>ClientMessage\<close>
    (\<open>protocol/client_message.rs\<close>, \<open>protocol/control_message.rs\<close>).
  \<^item> Data path: \<open>ClientOutbound\<close> from the virtual interface to a socket (\<open>enhanced_tunnel/outbound.rs\<close>,
    \<open>tunnel_core/outbound.rs\<close>, \<open>p2p/outbound.rs\<close>, \<open>server/outbound.rs\<close>), \<open>ClientInbound\<close> the way back
    (\<open>p2p/inbound.rs\<close>, \<open>server/inbound.rs\<close>, \<open>enhanced_tunnel/inbound.rs\<close>, \<open>tun/\<close>), \<open>Tunnel\<close> both ends together,
    \<open>ClientSafety\<close> what is let through.
  \<^item> Life: \<open>ClientConfig\<close> and \<open>ClientConfigProps\<close> (configuration, its texts, the three builders, TLS modes),
    \<open>ServerLink\<close> and \<open>ServerLinkProps\<close> (transports, registration with one or several servers, the task of a
    connection), \<open>ClientRpc\<close> (requests and their waiters), \<open>PeerTasks\<close> (pings, probes, punching),
    \<open>TaskControl\<close> (groups of tasks), \<open>NetworkManager\<close> (\<open>core/mod.rs\<close>: a network from its creation to its end).

  \<^bold>\<open>The server.\<close>
  \<^item> \<open>ServerConfig\<close> and \<open>ControlMessage\<close>: what is accepted as configuration and as a request.
  \<^item> \<open>NetworkState\<close>, \<open>Registry\<close>, \<open>RegistryProps\<close>, \<open>RegistryRaces\<close>: the address registry of one network
    (\<open>network_state_provider.rs\<close>), its invariant, grants, sessions, expiry, and two interleavings of its
    critical sections that break what each section keeps.
  \<^item> \<open>Database\<close> (\<open>db.rs\<close>), \<open>ControlService\<close> (\<open>service.rs\<close>), \<open>ServiceProps\<close>, \<open>ServiceSafety\<close>, \<open>ServiceStorage\<close>:
    the networks of a server in memory and in the database, under every interleaving of registrations, session
    ends, clean-up, administration and the saves that run in the background.
  \<^item> \<open>ServerHandler\<close> (\<open>handler.rs\<close>), \<open>HandlerProps\<close>, \<open>ServerRun\<close>: one connection, and the server with all of them.
  \<^item> \<open>PeerServer\<close> (\<open>peer_server.rs\<close>), \<open>PeerProps\<close>: routes to the clients of other servers.

  \<^bold>\<open>Client and server together.\<close> \<open>ClientSync\<close>: the feed of client status. \<open>EndToEnd\<close>: an IP packet from one
  virtual interface to the other.

  \<^bold>\<open>State and steps.\<close> A Rust struct is a record with the field names of the source and a short prefix where two
  records would share one; an operation under a lock is a function of the state, a method that can fail returns a
  sum, and sends are a list of effects beside the new state. Hash maps are functions to \<open>option\<close>; where the code
  iterates over one, the order is an argument (\<open>order\<close>, \<open>bo_servers\<close>). Clocks and random choices are arguments.
  Concurrency is explicit: \<open>service_step\<close>, \<open>server_step\<close>, \<open>group_step\<close>, \<open>manager_step\<close> and \<open>rpc_step\<close> are
  inductive relations whose steps are the critical sections, so a property of every reachable state is one of every
  interleaving of them. \<open>server_task\<close> is the state machine of one connection of a client (fresh, running, lost,
  finished) driven by its inputs.

  \<^bold>\<open>Parameters and what is assumed of them.\<close> Code outside the repository is an argument of the definitions that call
  it. \<open>lz_ok\<close>: LZ4 decompresses what it compressed. \<open>aead_ok\<close>: an opened box holds what was sealed with the same key
  and nonce, with a tag of 16 bytes; \<open>seal_total\<close>: sealing does not fail. Nothing is assumed about forgeries; the
  statements about opened frames say what was opened. \<open>codec_ok\<close>: protobuf decodes what it encoded. \<open>rs_ok\<close>:
  Reed-Solomon rebuilds equal shards when enough are there. \<open>ipnet_ok\<close>: the arithmetic of network and broadcast
  addresses. \<open>link_env\<close> is the outside of a connection: DNS, opening a stream, sending, the next frame, each a
  function of a world that it changes. \<open>boot\<close> has the outcomes of the crates that a network starts. Hash functions
  (\<open>sha\<close>) are unconstrained. Each hypothesis is discharged for concrete functions in a witness.

  \<^bold>\<open>What the lemmas show.\<close>
  \<^item> Addresses: in every run a device has at most one address and an address one device; a live session keeps its
    address whatever others do; sessions of different networks do not touch; who is admitted; what a restart finds.
  \<^item> Packets: an IP packet arrives unchanged at the client that holds its address, and only there; it leaves the
    client sealed; unopened frames change nothing on the host; relaying ends; a batch with losses is rebuilt exactly
    when enough shards are there and nothing is delivered twice.
  \<^item> Routes: the route table implements leases, the peers' tables point to connected servers, the best route is the
    fastest one, subnet routes are longest-prefix; a ping measures, a punch opens a route both ways.
  \<^item> Life of a client: the transport agrees with the address, registration with several servers is all or nothing, a
    silent server is noticed, a response reaches the request it answers, one network at a time, and a registered
    network has one running task per server.
  \<^item> Faults: theorems that exhibit what the code gets wrong, among them nonces that repeat, a ping of the gateway
    that panics, registrations that split, probes that are never answered and a wake-up that is lost.

  \<^bold>\<open>Bounds.\<close> All recursion is structural or has a measure, so no fuel occurs. Loops that wait for ever in the source
  (the data loop, the periodic tasks, the accept loop) are modelled by one round and a fold or a relation over rounds.
  Constants are the source's: batches of at most 10 packets, TTL at most 15, three pings per peer. Lengths are \<open>nat\<close>;
  counters keep their width, and where a statement needs one not to wrap it says so (fewer than \<open>2 ^ 50\<close> punches,
  fewer than \<open>2 ^ 64 - 1\<close> requests).

  \<^bold>\<open>Not modelled.\<close> The command line, the web pages and the inter-process interface of client and server
  (\<open>vnt/src/main_*.rs\<close>, \<open>vnt-ipc\<close>, \<open>vnt-web\<close>, \<open>vnts/src/http\<close>, \<open>main.rs\<close>): argument parsing by \<open>clap\<close>, JSON and HTTP
  around the operations above. Sockets, QUIC, TLS handshakes and WebSockets (crates; of the verifiers only the decision
  is ours), STUN and the punching itself (the crate \<open>rust_p2p_core\<close>), the user-space TCP/IP stack (the crate \<open>tcp_ip\<close>),
  the DNS message format, certificate generation, the operating system's interface and its routing table, generated
  protobuf code, SQLite's engine, log set-up. Formatting of tables for the front ends has no effect on the network.
\<close>

end
